(* ===== verification/Caw_Prelude.thy ===== *)
theory Caw_Prelude
  imports Main "HOL-Library.Word" "HOL-Library.Multiset" "HOL-Library.Sublist"
begin

text \<open>
  Shared vocabulary of the development: the names of the machine types the Go code uses, the
  idioms of its loops (keep the best element seen so far, stable sorting by a \<open>less\<close> callback,
  first-occurrence de-duplication, table lookup by value), and the lemmas about them that the
  component theories use.

  Go strings are byte sequences, so a Go \<open>string\<close> is a HOL \<^typ>\<open>string\<close> (a list of 8-bit
  characters); a Go \<open>[]byte\<close> is a \<^typ>\<open>8 word list\<close>.
\<close>

section \<open>Machine types and collections of rules\<close>

type_synonym byte = "8 word"
type_synonym bytes = "8 word list"
type_synonym uint16 = "16 word"
type_synonym uint32 = "32 word"
type_synonym uint64 = "64 word"

named_theorems table_simps \<open>the constant tables of the code, for evaluation\<close>
named_theorems verdict_simps \<open>unfolding of the policy verdict functions\<close>
named_theorems step_simps \<open>unfolding of the handlers of the state machines\<close>

section \<open>Keeping the best element seen so far\<close>

text \<open>
  The loop \<open>best := xs[0]; for x in xs[1:] { if key(x) > key(best) { best = x } }\<close>, which
  resolution folding, connection-rule selection and the statement verdict all use.
\<close>

definition keep_best :: "('a \<Rightarrow> 'k::linorder) \<Rightarrow> 'a \<Rightarrow> 'a list \<Rightarrow> 'a" where
  "keep_best key b xs = foldl (\<lambda>b x. if key x > key b then x else b) b xs"

lemma keep_best_Nil [simp]: "keep_best key b [] = b"
  by (simp add: keep_best_def)

lemma keep_best_Cons [simp]:
  "keep_best key b (x # xs) = keep_best key (if key x > key b then x else b) xs"
  by (simp add: keep_best_def)

lemma keep_best_mem: "keep_best key b xs \<in> set (b # xs)"
proof (induction xs arbitrary: b)
  case (Cons x xs)
  from Cons.IH [of "if key x > key b then x else b"] show ?case
    by (auto split: if_splits)
qed simp

lemma keep_best_ge: "x \<in> set (b # xs) \<Longrightarrow> key x \<le> key (keep_best key b xs)"
proof (induction xs arbitrary: b x)
  case Nil
  then show ?case by simp
next
  case (Cons y ys)
  define c where "c = (if key y > key b then y else b)"
  have step: "keep_best key b (y # ys) = keep_best key c ys"
    by (simp add: c_def)
  have "key b \<le> key c" "key y \<le> key c"
    by (auto simp: c_def)
  moreover have "key c \<le> key (keep_best key c ys)"
    using Cons.IH [of c c] by simp
  ultimately have "key b \<le> key (keep_best key c ys)" "key y \<le> key (keep_best key c ys)"
    by (meson order_trans)+
  moreover have "key x \<le> key (keep_best key c ys)" if "x \<in> set ys"
    using Cons.IH [of x c] that by simp
  ultimately show ?case
    using Cons.prems unfolding step by auto
qed

lemma keep_best_key: "key (keep_best key b xs) = Max (key ` set (b # xs))"
proof (rule Max_eqI [symmetric])
  show "finite (key ` set (b # xs))" by simp
  show "key (keep_best key b xs) \<in> key ` set (b # xs)"
    using keep_best_mem by (rule imageI)
  show "k \<le> key (keep_best key b xs)" if "k \<in> key ` set (b # xs)" for k
    using that keep_best_ge [of _ b xs key] by (metis imageE)
qed

text \<open>Ties are broken towards the front: nothing before the chosen element has its key.\<close>

lemma keep_best_first:
  "\<exists>ys zs. b # xs = ys @ keep_best key b xs # zs \<and> (\<forall>y \<in> set ys. key y < key (keep_best key b xs))"
proof (induction xs rule: rev_induct)
  case Nil
  then show ?case by (intro exI [of _ "[]"]) simp
next
  case (snoc x xs)
  let ?r = "keep_best key b xs"
  have app: "keep_best key b (xs @ [x]) = (if key x > key ?r then x else ?r)"
    by (simp add: keep_best_def)
  show ?case
  proof (cases "key x > key ?r")
    case True
    have "\<forall>y \<in> set (b # xs). key y < key x"
      using True keep_best_ge [of _ b xs key] by (meson order_le_less_trans)
    then show ?thesis
      using True by (intro exI [of _ "b # xs"] exI [of _ "[]"]) (simp add: app)
  next
    case False
    from snoc obtain ys zs where "b # xs = ys @ ?r # zs" "\<forall>y \<in> set ys. key y < key ?r"
      by blast
    with False show ?thesis
      by (intro exI [of _ ys] exI [of _ "zs @ [x]"]) (simp add: app)
  qed
qed

section \<open>Stable sorting by a less callback\<close>

text \<open>
  \<open>sort.SliceStable(xs, less)\<close>: the standard library promises a permutation of the input, in an
  order \<open>less\<close> does not contradict, with equal elements in their original order. Insertion sort
  keeps that promise; \<open>sort_stable_unique\<close> shows that the promise determines the result, so the
  choice of algorithm is immaterial.
\<close>

fun insert_stable :: "('a \<Rightarrow> 'a \<Rightarrow> bool) \<Rightarrow> 'a \<Rightarrow> 'a list \<Rightarrow> 'a list" where
  "insert_stable lt x [] = [x]"
| "insert_stable lt x (y # ys) = (if lt y x then y # insert_stable lt x ys else x # y # ys)"

definition sort_stable :: "('a \<Rightarrow> 'a \<Rightarrow> bool) \<Rightarrow> 'a list \<Rightarrow> 'a list" where
  "sort_stable lt xs = foldr (insert_stable lt) xs []"

lemma insert_stable_insort:
  assumes "\<And>a b. lt a b \<longleftrightarrow> key a < (key b :: 'k::linorder)"
  shows "insert_stable lt x ys = insort_key key x ys"
  by (induction ys) (auto simp: assms not_less)

lemma sort_stable_sort_key:
  assumes "\<And>a b. lt a b \<longleftrightarrow> key a < (key b :: 'k::linorder)"
  shows "sort_stable lt xs = sort_key key xs"
proof -
  have "insert_stable lt = insort_key key"
    by (intro ext insert_stable_insort assms)
  then show ?thesis by (simp add: sort_stable_def sort_key_def)
qed

lemma sort_stable_unique:
  assumes lt: "\<And>a b. lt a b \<longleftrightarrow> key a < (key b :: 'k::linorder)"
    and perm: "mset ys = mset xs"
    and ordered: "sorted_wrt (\<lambda>a b. \<not> lt b a) ys"
    and stable: "\<And>k. filter (\<lambda>x. key x = k) ys = filter (\<lambda>x. key x = k) xs"
  shows "ys = sort_stable lt xs"
proof -
  have "sorted (map key ys)"
    using ordered by (simp add: sorted_map lt not_less)
  moreover have "filter (\<lambda>x. key k = key x) ys = filter (\<lambda>x. key k = key x) xs" for k
    using stable [of "key k"] by (simp add: eq_commute)
  ultimately have "sort_key key xs = ys"
    using perm by (intro properties_for_sort_key) auto
  then show ?thesis
    by (simp add: sort_stable_sort_key [OF lt])
qed

section \<open>First occurrences and table lookup\<close>

text \<open>
  \<open>for x in xs { if !seen[key(x)] { seen[key(x)] = true; out = append(out, x) } }\<close>
\<close>

fun dedup_by :: "('a \<Rightarrow> 'k) \<Rightarrow> 'k list \<Rightarrow> 'a list \<Rightarrow> 'a list" where
  "dedup_by key seen [] = []"
| "dedup_by key seen (x # xs) =
     (if key x \<in> set seen then dedup_by key seen xs else x # dedup_by key (key x # seen) xs)"

lemma set_dedup_by: "set (dedup_by key seen xs) \<subseteq> set xs"
proof (induction xs arbitrary: seen)
  case (Cons x xs)
  from Cons.IH [of seen] Cons.IH [of "key x # seen"] show ?case by auto
qed simp

lemma keys_dedup_by: "key ` set (dedup_by key seen xs) = key ` set xs - set seen"
  by (induction xs arbitrary: seen) auto

lemma distinct_dedup_by: "distinct (map key (dedup_by key seen xs))"
proof (induction xs arbitrary: seen)
  case (Cons x xs)
  have "key x \<notin> key ` set (dedup_by key (key x # seen) xs)"
    by (simp add: keys_dedup_by)
  with Cons.IH [of seen] Cons.IH [of "key x # seen"] show ?case by simp
qed simp

lemma dedup_by_Nil_iff [simp]: "dedup_by key [] xs = [] \<longleftrightarrow> xs = []"
  by (cases xs) auto

lemma dedup_by_snoc:
  "dedup_by key seen (xs @ [x]) =
     dedup_by key seen xs @ (if key x \<in> key ` set xs \<union> set seen then [] else [x])"
  by (induction xs arbitrary: seen) auto

lemma hd_dedup_by: "xs \<noteq> [] \<Longrightarrow> hd (dedup_by key [] xs) = hd xs"
  by (cases xs) auto

text \<open>
  \<open>for k, v := range table { if v == x { return k, true } }; return 0, false\<close>. The tables are
  Go maps or arrays; the association list fixes one iteration order, and where the values are
  distinct the result does not depend on it.
\<close>

definition find_key :: "('k \<times> 'v) list \<Rightarrow> 'v \<Rightarrow> 'k option" where
  "find_key table x = map_option fst (List.find (\<lambda>(k, v). v = x) table)"

lemma find_key_Some: "find_key table x = Some k \<Longrightarrow> (k, x) \<in> set table"
  unfolding find_key_def find_Some_iff by (fastforce simp: find_Some_iff in_set_conv_nth)

lemma find_key_None_iff: "find_key table x = None \<longleftrightarrow> x \<notin> snd ` set table"
  by (force simp: find_key_def find_None_iff)

lemma find_key_distinct:
  assumes "distinct (map snd table)" and "(k, x) \<in> set table"
  shows "find_key table x = Some k"
proof -
  from assms(2) have "find_key table x \<noteq> None"
    by (metis find_key_None_iff image_eqI snd_conv)
  then obtain k' where k': "find_key table x = Some k'" by blast
  then have "(k', x) \<in> set table" by (rule find_key_Some)
  with assms have "k' = k"
    by (metis distinct_map inj_onD snd_conv fst_conv)
  with k' show ?thesis by simp
qed

lemma find_key_order_irrelevant:
  assumes "distinct (map snd table)" and "mset table' = mset table"
  shows "find_key table' x = find_key table x"
proof -
  have d: "distinct (map snd table')"
    using assms by (metis mset_map mset_eq_imp_distinct_iff)
  have s: "set table' = set table"
    using assms(2) by (rule mset_eq_setD)
  show ?thesis
  proof (cases "find_key table x")
    case None
    then have "find_key table' x = None"
      unfolding find_key_None_iff s .
    with None show ?thesis by simp
  next
    case (Some k)
    then have "(k, x) \<in> set table'" by (simp add: find_key_Some s)
    then show ?thesis using d Some by (simp add: find_key_distinct)
  qed
qed

section \<open>Lists and options\<close>

lemma find_Some_split:
  assumes "List.find P xs = Some x"
  shows "\<exists>ys zs. xs = ys @ x # zs \<and> P x \<and> (\<forall>y \<in> set ys. \<not> P y)"
  using assms
proof (induction xs)
  case Nil
  then show ?case by simp
next
  case (Cons a xs)
  show ?case
  proof (cases "P a")
    case True
    with Cons.prems show ?thesis by (intro exI [of _ "[]"] exI [of _ xs]) simp
  next
    case False
    with Cons obtain ys zs where "xs = ys @ x # zs" "P x" "\<forall>y \<in> set ys. \<not> P y"
      by auto
    with False show ?thesis by (intro exI [of _ "a # ys"] exI [of _ zs]) simp
  qed
qed

lemma find_Some_mem: "List.find P xs = Some x \<Longrightarrow> x \<in> set xs \<and> P x"
  using find_Some_split [of P xs x] by auto

lemma find_None_all: "List.find P xs = None \<longleftrightarrow> (\<forall>x \<in> set xs. \<not> P x)"
  by (auto simp: find_None_iff)

lemma find_snoc: "List.find P (xs @ [x]) = (case List.find P xs of Some y \<Rightarrow> Some y | None \<Rightarrow> if P x then Some x else None)"
  by (induction xs) auto

lemma find_cong_set: "(\<And>x. x \<in> set xs \<Longrightarrow> P x = Q x) \<Longrightarrow> List.find P xs = List.find Q xs"
  by (induction xs) auto

lemma find_upt_None: "List.find P [0..<n] = None \<longleftrightarrow> (\<forall>i < n. \<not> P i)"
  by (simp add: find_None_iff)

lemma find_upt_Some: "List.find P [0..<n] = Some i \<Longrightarrow> i < n \<and> P i \<and> (\<forall>j < i. \<not> P j)"
  by (auto simp: find_Some_iff)

lemma find_filter: "List.find P xs = (case filter P xs of [] \<Rightarrow> None | x # _ \<Rightarrow> Some x)"
  by (induction xs) auto

section \<open>Results with early return\<close>

text \<open>
  A Go function returning \<open>(T, error)\<close> gives a value of \<open>'e + 'a\<close>: \<^const>\<open>Inl\<close> the error,
  \<^const>\<open>Inr\<close> the result. \<open>bind_result\<close> is \<open>if err != nil { return err }\<close>, \<open>map_result\<close> the loop
  that converts every element and returns at the first error.
\<close>

definition bind_result :: "'e + 'a \<Rightarrow> ('a \<Rightarrow> 'e + 'b) \<Rightarrow> 'e + 'b" where
  "bind_result r f = (case r of Inl e \<Rightarrow> Inl e | Inr a \<Rightarrow> f a)"

lemma bind_result_simps [simp]:
  "bind_result (Inl e) f = Inl e" "bind_result (Inr a) f = f a"
  by (simp_all add: bind_result_def)

lemma bind_result_Inr_iff: "bind_result r f = Inr b \<longleftrightarrow> (\<exists>a. r = Inr a \<and> f a = Inr b)"
  by (cases r) simp_all

lemma bind_result_Inl_iff:
  "bind_result r f = Inl e \<longleftrightarrow> r = Inl e \<or> (\<exists>a. r = Inr a \<and> f a = Inl e)"
  by (cases r) simp_all

definition guard_result :: "bool \<Rightarrow> 'e \<Rightarrow> 'e + unit" where
  "guard_result ok e = (if ok then Inr () else Inl e)"

lemma guard_result_simps [simp]:
  "guard_result ok e = Inr u \<longleftrightarrow> ok" "guard_result ok e = Inl e' \<longleftrightarrow> \<not> ok \<and> e' = e"
  by (auto simp: guard_result_def)

fun map_result :: "('a \<Rightarrow> 'e + 'b) \<Rightarrow> 'a list \<Rightarrow> 'e + 'b list" where
  "map_result f [] = Inr []"
| "map_result f (x # xs) =
     bind_result (f x) (\<lambda>y. bind_result (map_result f xs) (\<lambda>ys. Inr (y # ys)))"

lemma map_result_Inr_iff: "map_result f xs = Inr ys \<longleftrightarrow> list_all2 (\<lambda>x y. f x = Inr y) xs ys"
  by (induction xs arbitrary: ys) (auto simp: bind_result_Inr_iff list_all2_Cons1)

lemma map_result_Inl: "map_result f xs = Inl e \<Longrightarrow> \<exists>x \<in> set xs. f x = Inl e"
  by (induction xs) (auto simp: bind_result_Inl_iff)

end
