(* ===== verification/Db_Effects.thy ===== *)
theory Db_Effects
  imports Caw_Prelude "HOL-Library.Product_Lexorder"
begin

text \<open>
  The effect taxonomy of \<open>internal/db/effects\<close>: risk tiers, operation groups, subtypes, object
  references, resolution tags, aliases, effects and classified statements.

  A Go enumeration over \<open>uint8\<close> (\<open>Group\<close>, \<open>Subtype\<close>, \<open>RiskTier\<close>, \<open>Resolution\<close>) is a
  one-constructor datatype around an \<^typ>\<open>8 word\<close>, with an abbreviation for every constant, so
  the theorems also speak of the values no constant names. \<open>ObjectKind\<close> is only compared and
  looked up in a table; it is a datatype with the source's constants and the zero value.
\<close>

section \<open>Risk tiers (\<open>risk_tier.go\<close>)\<close>

datatype riskTier = RiskTier (tier_num: "8 word")

abbreviation Safe :: riskTier where "Safe \<equiv> RiskTier 0"
abbreviation Low :: riskTier where "Low \<equiv> RiskTier 1"
abbreviation Medium :: riskTier where "Medium \<equiv> RiskTier 2"
abbreviation High :: riskTier where "High \<equiv> RiskTier 3"
abbreviation Critical :: riskTier where "Critical \<equiv> RiskTier 4"

definition riskTierNames :: "string list" where [table_simps]:
  "riskTierNames = [''safe'', ''low'', ''medium'', ''high'', ''critical'']"

definition RiskTier_String :: "riskTier \<Rightarrow> string" where
  "RiskTier_String t = (if unat (tier_num t) \<ge> length riskTierNames then ''unknown''
                        else riskTierNames ! unat (tier_num t))"

definition RiskTier_Compare :: "riskTier \<Rightarrow> riskTier \<Rightarrow> int" where
  "RiskTier_Compare t other = uint (tier_num t) - uint (tier_num other)"

instantiation riskTier :: linorder
begin

definition less_eq_riskTier :: "riskTier \<Rightarrow> riskTier \<Rightarrow> bool" where
  "less_eq_riskTier a b \<longleftrightarrow> tier_num a \<le> tier_num b"

definition less_riskTier :: "riskTier \<Rightarrow> riskTier \<Rightarrow> bool" where
  "less_riskTier a b \<longleftrightarrow> tier_num a < tier_num b"

instance
  by standard (auto simp: less_eq_riskTier_def less_riskTier_def intro: riskTier.expand)

end

section \<open>Operation groups (\<open>group.go\<close>)\<close>

datatype group = Group (group_num: "8 word")

abbreviation GroupRead :: group where "GroupRead \<equiv> Group 1"
abbreviation GroupWrite :: group where "GroupWrite \<equiv> Group 2"
abbreviation GroupModify :: group where "GroupModify \<equiv> Group 3"
abbreviation GroupDelete :: group where "GroupDelete \<equiv> Group 4"
abbreviation GroupBulkLoad :: group where "GroupBulkLoad \<equiv> Group 5"
abbreviation GroupBulkExport :: group where "GroupBulkExport \<equiv> Group 6"
abbreviation GroupSchemaCreate :: group where "GroupSchemaCreate \<equiv> Group 7"
abbreviation GroupSchemaAlter :: group where "GroupSchemaAlter \<equiv> Group 8"
abbreviation GroupSchemaDestroy :: group where "GroupSchemaDestroy \<equiv> Group 9"
abbreviation GroupPrivilege :: group where "GroupPrivilege \<equiv> Group 10"
abbreviation GroupTransaction :: group where "GroupTransaction \<equiv> Group 11"
abbreviation GroupSession :: group where "GroupSession \<equiv> Group 12"
abbreviation GroupMaintenance :: group where "GroupMaintenance \<equiv> Group 13"
abbreviation GroupLock :: group where "GroupLock \<equiv> Group 14"
abbreviation GroupNotify :: group where "GroupNotify \<equiv> Group 15"
abbreviation GroupProcedural :: group where "GroupProcedural \<equiv> Group 16"
abbreviation GroupUnsafeIO :: group where "GroupUnsafeIO \<equiv> Group 17"
abbreviation GroupUnknown :: group where "GroupUnknown \<equiv> Group 18"

record groupInfo =
  gi_name :: string
  gi_tier :: riskTier

definition groupTable :: "(group \<times> groupInfo) list" where [table_simps]:
  "groupTable = [
     (GroupRead, \<lparr>gi_name = ''read'', gi_tier = Low\<rparr>),
     (GroupWrite, \<lparr>gi_name = ''write'', gi_tier = Medium\<rparr>),
     (GroupModify, \<lparr>gi_name = ''modify'', gi_tier = Medium\<rparr>),
     (GroupDelete, \<lparr>gi_name = ''delete'', gi_tier = High\<rparr>),
     (GroupBulkLoad, \<lparr>gi_name = ''bulk_load'', gi_tier = High\<rparr>),
     (GroupBulkExport, \<lparr>gi_name = ''bulk_export'', gi_tier = Critical\<rparr>),
     (GroupSchemaCreate, \<lparr>gi_name = ''schema_create'', gi_tier = High\<rparr>),
     (GroupSchemaAlter, \<lparr>gi_name = ''schema_alter'', gi_tier = High\<rparr>),
     (GroupSchemaDestroy, \<lparr>gi_name = ''schema_destroy'', gi_tier = Critical\<rparr>),
     (GroupPrivilege, \<lparr>gi_name = ''privilege'', gi_tier = Critical\<rparr>),
     (GroupTransaction, \<lparr>gi_name = ''transaction'', gi_tier = Low\<rparr>),
     (GroupSession, \<lparr>gi_name = ''session'', gi_tier = Low\<rparr>),
     (GroupMaintenance, \<lparr>gi_name = ''maintenance'', gi_tier = Medium\<rparr>),
     (GroupLock, \<lparr>gi_name = ''lock'', gi_tier = Medium\<rparr>),
     (GroupNotify, \<lparr>gi_name = ''notify'', gi_tier = Low\<rparr>),
     (GroupProcedural, \<lparr>gi_name = ''procedural'', gi_tier = High\<rparr>),
     (GroupUnsafeIO, \<lparr>gi_name = ''unsafe_io'', gi_tier = Critical\<rparr>),
     (GroupUnknown, \<lparr>gi_name = ''unknown'', gi_tier = Critical\<rparr>)]"

definition Group_String :: "group \<Rightarrow> string" where
  "Group_String g = (case map_of groupTable g of Some info \<Rightarrow> gi_name info | None \<Rightarrow> ''unknown'')"

definition Group_RiskTier :: "group \<Rightarrow> riskTier" where
  "Group_RiskTier g = (case map_of groupTable g of Some info \<Rightarrow> gi_tier info | None \<Rightarrow> Critical)"

definition Group_ID :: "group \<Rightarrow> 8 word" where
  "Group_ID g = group_num g"

definition ParseGroup :: "string \<Rightarrow> group option" where
  "ParseGroup name = find_key (map (\<lambda>(g, info). (g, gi_name info)) groupTable) name"

section \<open>Subtypes (\<open>subtype.go\<close>)\<close>

datatype subtype = Subtype (subtype_num: "8 word")

abbreviation SubtypeNone :: subtype where "SubtypeNone \<equiv> Subtype 0"
abbreviation SubtypeSet :: subtype where "SubtypeSet \<equiv> Subtype 1"
abbreviation SubtypeSetSearchPath :: subtype where "SubtypeSetSearchPath \<equiv> Subtype 2"
abbreviation SubtypeSetRole :: subtype where "SubtypeSetRole \<equiv> Subtype 3"
abbreviation SubtypeSetSessionAuthorization :: subtype where "SubtypeSetSessionAuthorization \<equiv> Subtype 4"
abbreviation SubtypeSetLocal :: subtype where "SubtypeSetLocal \<equiv> Subtype 5"
abbreviation SubtypeReset :: subtype where "SubtypeReset \<equiv> Subtype 6"
abbreviation SubtypeResetAll :: subtype where "SubtypeResetAll \<equiv> Subtype 7"
abbreviation SubtypeDiscard :: subtype where "SubtypeDiscard \<equiv> Subtype 8"
abbreviation SubtypeDiscardAll :: subtype where "SubtypeDiscardAll \<equiv> Subtype 9"
abbreviation SubtypeDiscardTemp :: subtype where "SubtypeDiscardTemp \<equiv> Subtype 10"
abbreviation SubtypeDiscardPlans :: subtype where "SubtypeDiscardPlans \<equiv> Subtype 11"
abbreviation SubtypeDiscardSequences :: subtype where "SubtypeDiscardSequences \<equiv> Subtype 12"
abbreviation SubtypeCancelRequest :: subtype where "SubtypeCancelRequest \<equiv> Subtype 13"
abbreviation SubtypeCreateTable :: subtype where "SubtypeCreateTable \<equiv> Subtype 14"
abbreviation SubtypeCreateIndex :: subtype where "SubtypeCreateIndex \<equiv> Subtype 15"
abbreviation SubtypeCreateView :: subtype where "SubtypeCreateView \<equiv> Subtype 16"
abbreviation SubtypeCreateSchema :: subtype where "SubtypeCreateSchema \<equiv> Subtype 17"
abbreviation SubtypeCreateFunction :: subtype where "SubtypeCreateFunction \<equiv> Subtype 18"
abbreviation SubtypeCreateMaterializedView :: subtype where "SubtypeCreateMaterializedView \<equiv> Subtype 19"
abbreviation SubtypeCreateExtension :: subtype where "SubtypeCreateExtension \<equiv> Subtype 20"
abbreviation SubtypeCreateDatabase :: subtype where "SubtypeCreateDatabase \<equiv> Subtype 21"
abbreviation SubtypeCreatePublication :: subtype where "SubtypeCreatePublication \<equiv> Subtype 22"
abbreviation SubtypeAlterPublication :: subtype where "SubtypeAlterPublication \<equiv> Subtype 23"
abbreviation SubtypeDropTable :: subtype where "SubtypeDropTable \<equiv> Subtype 24"
abbreviation SubtypeDropDatabase :: subtype where "SubtypeDropDatabase \<equiv> Subtype 25"
abbreviation SubtypeDropSchema :: subtype where "SubtypeDropSchema \<equiv> Subtype 26"
abbreviation SubtypeDropIndex :: subtype where "SubtypeDropIndex \<equiv> Subtype 27"
abbreviation SubtypeDropView :: subtype where "SubtypeDropView \<equiv> Subtype 28"
abbreviation SubtypeDropFunction :: subtype where "SubtypeDropFunction \<equiv> Subtype 29"
abbreviation SubtypeDropPublication :: subtype where "SubtypeDropPublication \<equiv> Subtype 30"
abbreviation SubtypeTruncate :: subtype where "SubtypeTruncate \<equiv> Subtype 31"
abbreviation SubtypeGrant :: subtype where "SubtypeGrant \<equiv> Subtype 32"
abbreviation SubtypeRevoke :: subtype where "SubtypeRevoke \<equiv> Subtype 33"
abbreviation SubtypeAlterRole :: subtype where "SubtypeAlterRole \<equiv> Subtype 34"
abbreviation SubtypeCreateRole :: subtype where "SubtypeCreateRole \<equiv> Subtype 35"
abbreviation SubtypeDropRole :: subtype where "SubtypeDropRole \<equiv> Subtype 36"
abbreviation SubtypeAlterSystem :: subtype where "SubtypeAlterSystem \<equiv> Subtype 37"
abbreviation SubtypeSecurityLabel :: subtype where "SubtypeSecurityLabel \<equiv> Subtype 38"
abbreviation SubtypeCopyFromStdin :: subtype where "SubtypeCopyFromStdin \<equiv> Subtype 39"
abbreviation SubtypeCopyFromS3 :: subtype where "SubtypeCopyFromS3 \<equiv> Subtype 40"
abbreviation SubtypeCopyToStdout :: subtype where "SubtypeCopyToStdout \<equiv> Subtype 41"
abbreviation SubtypeUnloadToS3 :: subtype where "SubtypeUnloadToS3 \<equiv> Subtype 42"
abbreviation SubtypeFunctionCallProtocol :: subtype where "SubtypeFunctionCallProtocol \<equiv> Subtype 43"
abbreviation SubtypeEscalatedFunctionCall :: subtype where "SubtypeEscalatedFunctionCall \<equiv> Subtype 44"
abbreviation SubtypeCall :: subtype where "SubtypeCall \<equiv> Subtype 45"
abbreviation SubtypeDo :: subtype where "SubtypeDo \<equiv> Subtype 46"
abbreviation SubtypeAnonymousBlock :: subtype where "SubtypeAnonymousBlock \<equiv> Subtype 47"
abbreviation SubtypeDoOrAnon :: subtype where "SubtypeDoOrAnon \<equiv> Subtype 48"
abbreviation SubtypeCreateSubscription :: subtype where "SubtypeCreateSubscription \<equiv> Subtype 49"
abbreviation SubtypeAlterSubscription :: subtype where "SubtypeAlterSubscription \<equiv> Subtype 50"
abbreviation SubtypeDropSubscription :: subtype where "SubtypeDropSubscription \<equiv> Subtype 51"
abbreviation SubtypeCreateServer :: subtype where "SubtypeCreateServer \<equiv> Subtype 52"
abbreviation SubtypeAlterServer :: subtype where "SubtypeAlterServer \<equiv> Subtype 53"
abbreviation SubtypeDropServer :: subtype where "SubtypeDropServer \<equiv> Subtype 54"
abbreviation SubtypeCreateUserMapping :: subtype where "SubtypeCreateUserMapping \<equiv> Subtype 55"
abbreviation SubtypeAlterUserMapping :: subtype where "SubtypeAlterUserMapping \<equiv> Subtype 56"
abbreviation SubtypeDropUserMapping :: subtype where "SubtypeDropUserMapping \<equiv> Subtype 57"
abbreviation SubtypeCreateTablespace :: subtype where "SubtypeCreateTablespace \<equiv> Subtype 58"
abbreviation SubtypeAlterTablespace :: subtype where "SubtypeAlterTablespace \<equiv> Subtype 59"
abbreviation SubtypeDropTablespace :: subtype where "SubtypeDropTablespace \<equiv> Subtype 60"
abbreviation SubtypeCopyToPath :: subtype where "SubtypeCopyToPath \<equiv> Subtype 61"
abbreviation SubtypeCopyFromPath :: subtype where "SubtypeCopyFromPath \<equiv> Subtype 62"
abbreviation SubtypeCopyToProgram :: subtype where "SubtypeCopyToProgram \<equiv> Subtype 63"
abbreviation SubtypeCopyFromProgram :: subtype where "SubtypeCopyFromProgram \<equiv> Subtype 64"
abbreviation SubtypeLargeObjectIO :: subtype where "SubtypeLargeObjectIO \<equiv> Subtype 65"
abbreviation SubtypeServerFileRead :: subtype where "SubtypeServerFileRead \<equiv> Subtype 66"
abbreviation SubtypeDblinkCall :: subtype where "SubtypeDblinkCall \<equiv> Subtype 67"
abbreviation SubtypeFdwAccess :: subtype where "SubtypeFdwAccess \<equiv> Subtype 68"

record subtypeInfo =
  si_name :: string
  si_parent :: group

definition subtypeTable :: "(subtype \<times> subtypeInfo) list" where [table_simps]:
  "subtypeTable = [
     (SubtypeNone, \<lparr>si_name = '''', si_parent = Group 0\<rparr>),
     (SubtypeSet, \<lparr>si_name = ''set'', si_parent = GroupSession\<rparr>),
     (SubtypeSetSearchPath, \<lparr>si_name = ''set_search_path'', si_parent = GroupSession\<rparr>),
     (SubtypeSetRole, \<lparr>si_name = ''set_role'', si_parent = GroupSession\<rparr>),
     (SubtypeSetSessionAuthorization, \<lparr>si_name = ''set_session_authorization'', si_parent = GroupSession\<rparr>),
     (SubtypeSetLocal, \<lparr>si_name = ''set_local'', si_parent = GroupSession\<rparr>),
     (SubtypeReset, \<lparr>si_name = ''reset'', si_parent = GroupSession\<rparr>),
     (SubtypeResetAll, \<lparr>si_name = ''reset_all'', si_parent = GroupSession\<rparr>),
     (SubtypeDiscard, \<lparr>si_name = ''discard'', si_parent = GroupSession\<rparr>),
     (SubtypeDiscardAll, \<lparr>si_name = ''discard_all'', si_parent = GroupSession\<rparr>),
     (SubtypeDiscardTemp, \<lparr>si_name = ''discard_temp'', si_parent = GroupSession\<rparr>),
     (SubtypeDiscardPlans, \<lparr>si_name = ''discard_plans'', si_parent = GroupSession\<rparr>),
     (SubtypeDiscardSequences, \<lparr>si_name = ''discard_sequences'', si_parent = GroupSession\<rparr>),
     (SubtypeCancelRequest, \<lparr>si_name = ''cancel_request'', si_parent = GroupSession\<rparr>),
     (SubtypeCreateTable, \<lparr>si_name = ''create_table'', si_parent = GroupSchemaCreate\<rparr>),
     (SubtypeCreateIndex, \<lparr>si_name = ''create_index'', si_parent = GroupSchemaCreate\<rparr>),
     (SubtypeCreateView, \<lparr>si_name = ''create_view'', si_parent = GroupSchemaCreate\<rparr>),
     (SubtypeCreateSchema, \<lparr>si_name = ''create_schema'', si_parent = GroupSchemaCreate\<rparr>),
     (SubtypeCreateFunction, \<lparr>si_name = ''create_function'', si_parent = GroupSchemaCreate\<rparr>),
     (SubtypeCreateMaterializedView, \<lparr>si_name = ''create_materialized_view'', si_parent = GroupSchemaCreate\<rparr>),
     (SubtypeCreateExtension, \<lparr>si_name = ''create_extension'', si_parent = GroupSchemaCreate\<rparr>),
     (SubtypeCreateDatabase, \<lparr>si_name = ''create_database'', si_parent = GroupSchemaCreate\<rparr>),
     (SubtypeCreatePublication, \<lparr>si_name = ''create_publication'', si_parent = GroupSchemaCreate\<rparr>),
     (SubtypeAlterPublication, \<lparr>si_name = ''alter_publication'', si_parent = GroupSchemaAlter\<rparr>),
     (SubtypeDropTable, \<lparr>si_name = ''drop_table'', si_parent = GroupSchemaDestroy\<rparr>),
     (SubtypeDropDatabase, \<lparr>si_name = ''drop_database'', si_parent = GroupSchemaDestroy\<rparr>),
     (SubtypeDropSchema, \<lparr>si_name = ''drop_schema'', si_parent = GroupSchemaDestroy\<rparr>),
     (SubtypeDropIndex, \<lparr>si_name = ''drop_index'', si_parent = GroupSchemaDestroy\<rparr>),
     (SubtypeDropView, \<lparr>si_name = ''drop_view'', si_parent = GroupSchemaDestroy\<rparr>),
     (SubtypeDropFunction, \<lparr>si_name = ''drop_function'', si_parent = GroupSchemaDestroy\<rparr>),
     (SubtypeDropPublication, \<lparr>si_name = ''drop_publication'', si_parent = GroupSchemaDestroy\<rparr>),
     (SubtypeTruncate, \<lparr>si_name = ''truncate'', si_parent = GroupSchemaDestroy\<rparr>),
     (SubtypeGrant, \<lparr>si_name = ''grant'', si_parent = GroupPrivilege\<rparr>),
     (SubtypeRevoke, \<lparr>si_name = ''revoke'', si_parent = GroupPrivilege\<rparr>),
     (SubtypeAlterRole, \<lparr>si_name = ''alter_role'', si_parent = GroupPrivilege\<rparr>),
     (SubtypeCreateRole, \<lparr>si_name = ''create_role'', si_parent = GroupPrivilege\<rparr>),
     (SubtypeDropRole, \<lparr>si_name = ''drop_role'', si_parent = GroupPrivilege\<rparr>),
     (SubtypeAlterSystem, \<lparr>si_name = ''alter_system'', si_parent = GroupPrivilege\<rparr>),
     (SubtypeSecurityLabel, \<lparr>si_name = ''security_label'', si_parent = GroupPrivilege\<rparr>),
     (SubtypeCopyFromStdin, \<lparr>si_name = ''copy_from_stdin'', si_parent = GroupBulkLoad\<rparr>),
     (SubtypeCopyFromS3, \<lparr>si_name = ''copy_from_s3'', si_parent = GroupBulkLoad\<rparr>),
     (SubtypeCopyToStdout, \<lparr>si_name = ''copy_to_stdout'', si_parent = GroupBulkExport\<rparr>),
     (SubtypeUnloadToS3, \<lparr>si_name = ''unload_to_s3'', si_parent = GroupBulkExport\<rparr>),
     (SubtypeFunctionCallProtocol, \<lparr>si_name = ''function_call_protocol'', si_parent = GroupProcedural\<rparr>),
     (SubtypeEscalatedFunctionCall, \<lparr>si_name = ''escalated_function_call'', si_parent = GroupProcedural\<rparr>),
     (SubtypeCall, \<lparr>si_name = ''call'', si_parent = GroupProcedural\<rparr>),
     (SubtypeDo, \<lparr>si_name = ''do'', si_parent = GroupProcedural\<rparr>),
     (SubtypeAnonymousBlock, \<lparr>si_name = ''anonymous_block'', si_parent = GroupProcedural\<rparr>),
     (SubtypeDoOrAnon, \<lparr>si_name = ''do_or_anon'', si_parent = GroupProcedural\<rparr>),
     (SubtypeCreateSubscription, \<lparr>si_name = ''create_subscription'', si_parent = GroupUnsafeIO\<rparr>),
     (SubtypeAlterSubscription, \<lparr>si_name = ''alter_subscription'', si_parent = GroupUnsafeIO\<rparr>),
     (SubtypeDropSubscription, \<lparr>si_name = ''drop_subscription'', si_parent = GroupUnsafeIO\<rparr>),
     (SubtypeCreateServer, \<lparr>si_name = ''create_server'', si_parent = GroupUnsafeIO\<rparr>),
     (SubtypeAlterServer, \<lparr>si_name = ''alter_server'', si_parent = GroupUnsafeIO\<rparr>),
     (SubtypeDropServer, \<lparr>si_name = ''drop_server'', si_parent = GroupUnsafeIO\<rparr>),
     (SubtypeCreateUserMapping, \<lparr>si_name = ''create_user_mapping'', si_parent = GroupUnsafeIO\<rparr>),
     (SubtypeAlterUserMapping, \<lparr>si_name = ''alter_user_mapping'', si_parent = GroupUnsafeIO\<rparr>),
     (SubtypeDropUserMapping, \<lparr>si_name = ''drop_user_mapping'', si_parent = GroupUnsafeIO\<rparr>),
     (SubtypeCreateTablespace, \<lparr>si_name = ''create_tablespace'', si_parent = GroupUnsafeIO\<rparr>),
     (SubtypeAlterTablespace, \<lparr>si_name = ''alter_tablespace'', si_parent = GroupUnsafeIO\<rparr>),
     (SubtypeDropTablespace, \<lparr>si_name = ''drop_tablespace'', si_parent = GroupUnsafeIO\<rparr>),
     (SubtypeCopyToPath, \<lparr>si_name = ''copy_to_path'', si_parent = GroupUnsafeIO\<rparr>),
     (SubtypeCopyFromPath, \<lparr>si_name = ''copy_from_path'', si_parent = GroupUnsafeIO\<rparr>),
     (SubtypeCopyToProgram, \<lparr>si_name = ''copy_to_program'', si_parent = GroupUnsafeIO\<rparr>),
     (SubtypeCopyFromProgram, \<lparr>si_name = ''copy_from_program'', si_parent = GroupUnsafeIO\<rparr>),
     (SubtypeLargeObjectIO, \<lparr>si_name = ''large_object_io'', si_parent = GroupUnsafeIO\<rparr>),
     (SubtypeServerFileRead, \<lparr>si_name = ''server_file_read'', si_parent = GroupUnsafeIO\<rparr>),
     (SubtypeDblinkCall, \<lparr>si_name = ''dblink_call'', si_parent = GroupUnsafeIO\<rparr>),
     (SubtypeFdwAccess, \<lparr>si_name = ''fdw_access'', si_parent = GroupUnsafeIO\<rparr>)]"

definition Subtype_String :: "subtype \<Rightarrow> string" where
  "Subtype_String s = (case map_of subtypeTable s of Some info \<Rightarrow> si_name info | None \<Rightarrow> [])"

definition Subtype_Group :: "subtype \<Rightarrow> group" where
  "Subtype_Group s = (case map_of subtypeTable s of Some info \<Rightarrow> si_parent info | None \<Rightarrow> Group 0)"

definition ParseSubtype :: "string \<Rightarrow> subtype option" where
  "ParseSubtype name =
     (if name = [] then None
      else find_key (map (\<lambda>(s, info). (s, si_name info)) subtypeTable) name)"

section \<open>Object references (\<open>object.go\<close>, \<open>resolved_object.go\<close>)\<close>

datatype objectKind = ObjectKindZero
  | ObjectTable | ObjectView | ObjectFunction | ObjectSchema | ObjectIndex | ObjectSequence | ObjectExternalEndpoint | ObjectFilesystemPath
  | ObjectProgram | ObjectSubscription | ObjectPublication | ObjectServer | ObjectUserMapping | ObjectTablespace | ObjectGUC | ObjectRole

definition objectKindNames :: "(objectKind \<times> string) list" where [table_simps]:
  "objectKindNames = [
     (ObjectTable, ''table''),
     (ObjectView, ''view''),
     (ObjectFunction, ''function''),
     (ObjectSchema, ''schema''),
     (ObjectIndex, ''index''),
     (ObjectSequence, ''sequence''),
     (ObjectExternalEndpoint, ''external_endpoint''),
     (ObjectFilesystemPath, ''filesystem_path''),
     (ObjectProgram, ''program''),
     (ObjectSubscription, ''subscription''),
     (ObjectPublication, ''publication''),
     (ObjectServer, ''server''),
     (ObjectUserMapping, ''user_mapping''),
     (ObjectTablespace, ''tablespace''),
     (ObjectGUC, ''guc''),
     (ObjectRole, ''role'')]"

definition ObjectKind_String :: "objectKind \<Rightarrow> string" where
  "ObjectKind_String k = (case map_of objectKindNames k of Some name \<Rightarrow> name | None \<Rightarrow> [])"

record objectRef =
  or_Kind :: objectKind
  or_Schema :: string
  or_Name :: string
  or_Host :: string
  or_Port :: int
  or_Path :: string
  or_Argv0 :: string

text \<open>
  \<open>objectRefJSON\<close> is the struct handed to and filled by \<open>encoding/json\<close>; an omitted field reads
  back as its zero value, so the byte-level encoding is transparent and the model stops at the
  struct.
\<close>

record objectRefJSON =
  oj_Kind :: string
  oj_Schema :: string
  oj_Name :: string
  oj_Host :: string
  oj_Port :: int
  oj_Path :: string
  oj_Argv0 :: string

definition ObjectRef_MarshalJSON :: "objectRef \<Rightarrow> objectRefJSON" where
  "ObjectRef_MarshalJSON r =
     (let out = \<lparr>oj_Kind = ObjectKind_String (or_Kind r), oj_Schema = [], oj_Name = [],
                 oj_Host = [], oj_Port = 0, oj_Path = [], oj_Argv0 = []\<rparr>
      in if or_Kind r \<in> {ObjectTable, ObjectView, ObjectFunction, ObjectIndex, ObjectSequence}
         then out\<lparr>oj_Schema := or_Schema r, oj_Name := or_Name r\<rparr>
         else if or_Kind r = ObjectExternalEndpoint
         then out\<lparr>oj_Host := or_Host r, oj_Port := or_Port r\<rparr>
         else if or_Kind r = ObjectFilesystemPath then out\<lparr>oj_Path := or_Path r\<rparr>
         else if or_Kind r = ObjectProgram then out\<lparr>oj_Argv0 := or_Argv0 r\<rparr>
         else out\<lparr>oj_Name := or_Name r\<rparr>)"

text \<open>\<open>UnmarshalJSON\<close> updates its receiver: a kind name it does not know leaves the kind as it was.\<close>

definition ObjectRef_UnmarshalJSON :: "objectRef \<Rightarrow> objectRefJSON \<Rightarrow> objectRef" where
  "ObjectRef_UnmarshalJSON r raw =
     \<lparr>or_Kind = (case find_key objectKindNames (oj_Kind raw) of Some k \<Rightarrow> k | None \<Rightarrow> or_Kind r),
      or_Schema = oj_Schema raw, or_Name = oj_Name raw, or_Host = oj_Host raw,
      or_Port = oj_Port raw, or_Path = oj_Path raw, or_Argv0 = oj_Argv0 raw\<rparr>"

record resolvedObjectRef =
  ro_Source :: string
  ro_Kind :: string
  ro_OID :: uint32
  ro_Schema :: string
  ro_Name :: string
  ro_RelationKind :: string
  ro_FunctionIdentityArgs :: string
  ro_FunctionVolatility :: string
  ro_UnresolvedReason :: string

abbreviation ResolvedObjectSourceCatalog :: string where
  "ResolvedObjectSourceCatalog \<equiv> ''catalog''"
abbreviation ResolvedObjectRelation :: string where "ResolvedObjectRelation \<equiv> ''relation''"
abbreviation ResolvedObjectFunction :: string where "ResolvedObjectFunction \<equiv> ''function''"

definition CanonicalName :: "resolvedObjectRef \<Rightarrow> string" where
  "CanonicalName r = (if ro_Schema r = [] then ro_Name r else ro_Schema r @ ''.'' @ ro_Name r)"

section \<open>Resolution tags (\<open>resolution.go\<close>)\<close>

datatype resolution = Resolution (res_num: "8 word")

abbreviation ResolutionQualified :: resolution where "ResolutionQualified \<equiv> Resolution 0"
abbreviation ResolutionUnqualified :: resolution where "ResolutionUnqualified \<equiv> Resolution 1"
abbreviation ResolutionAmbiguousAfterSearchPath :: resolution where "ResolutionAmbiguousAfterSearchPath \<equiv> Resolution 2"
abbreviation ResolutionMaybeTempShadowed :: resolution where "ResolutionMaybeTempShadowed \<equiv> Resolution 3"
abbreviation ResolutionUnresolved :: resolution where "ResolutionUnresolved \<equiv> Resolution 4"
abbreviation ResolutionCatalogResolved :: resolution where "ResolutionCatalogResolved \<equiv> Resolution 5"
abbreviation ResolutionCatalogUnresolved :: resolution where "ResolutionCatalogUnresolved \<equiv> Resolution 6"
abbreviation ResolutionCatalogUnavailable :: resolution where "ResolutionCatalogUnavailable \<equiv> Resolution 7"

definition resolutionNames :: "string list" where [table_simps]:
  "resolutionNames = [
     ''qualified_syntactic'',
     ''unqualified_syntactic'',
     ''ambiguous_after_search_path'',
     ''maybe_temp_shadowed'',
     ''unresolved'',
     ''catalog_resolved'',
     ''catalog_unresolved'',
     ''catalog_unavailable'']"

definition resolutionConfidenceRank :: "(resolution \<times> int) list" where [table_simps]:
  "resolutionConfidenceRank = [
     (ResolutionCatalogResolved, 0), (ResolutionQualified, 1), (ResolutionUnqualified, 2),
     (ResolutionAmbiguousAfterSearchPath, 3), (ResolutionMaybeTempShadowed, 4),
     (ResolutionUnresolved, 5), (ResolutionCatalogUnresolved, 6),
     (ResolutionCatalogUnavailable, 7)]"

definition Resolution_String :: "resolution \<Rightarrow> string" where
  "Resolution_String r = (if unat (res_num r) \<ge> length resolutionNames then []
                          else resolutionNames ! unat (res_num r))"

text \<open>The lookup of a key the table has: \<open>resolutionConfidenceRank[ResolutionCatalogUnavailable]\<close>.\<close>

definition resolutionRank :: "resolution \<Rightarrow> int" where
  "resolutionRank r =
     (case map_of resolutionConfidenceRank r of
        None \<Rightarrow> (case map_of resolutionConfidenceRank ResolutionCatalogUnavailable of
                   Some k \<Rightarrow> k | None \<Rightarrow> 0)
      | Some rank \<Rightarrow> rank)"

definition Resolution_Fold :: "resolution list \<Rightarrow> resolution" where
  "Resolution_Fold rs =
     (case rs of [] \<Rightarrow> ResolutionQualified | r # rest \<Rightarrow> keep_best resolutionRank r rest)"

definition ParseResolution :: "string \<Rightarrow> resolution option" where
  "ParseResolution name =
     map_option (\<lambda>i. Resolution (of_nat i))
       (List.find (\<lambda>i. resolutionNames ! i = name) [0..<length resolutionNames])"

section \<open>Aliases (\<open>alias.go\<close>)\<close>

definition aliasTable :: "(string \<times> group list) list" where [table_simps]:
  "aliasTable = [
     (''READ'', [GroupRead]),
     (''INSERT'', [GroupWrite]),
     (''UPDATE'', [GroupModify]),
     (''DELETE'', [GroupDelete]),
     (''REMOVE'', [GroupDelete]),
     (''CREATE'', [GroupSchemaCreate]),
     (''DROP'', [GroupSchemaDestroy]),
     (''ALTER'', [GroupSchemaAlter]),
     (''TRUNCATE'', [GroupSchemaDestroy]),
     (''EXPORT'', [GroupBulkExport, GroupUnsafeIO]),
     (''LOAD'', [GroupBulkLoad]),
     (''MUTATE'', [GroupWrite, GroupModify, GroupDelete]),
     (''SCHEMA'', [GroupSchemaCreate, GroupSchemaAlter, GroupSchemaDestroy]),
     (''MAINTENANCE'', [GroupMaintenance]),
     (''LOCK_TABLES'', [GroupLock]),
     (''LISTEN_NOTIFY'', [GroupNotify]),
     (''DANGEROUS'', [GroupSchemaDestroy, GroupPrivilege, GroupUnsafeIO, GroupProcedural,
                      GroupBulkExport, GroupLock])]"

definition ExpandAlias :: "string \<Rightarrow> group list option" where
  "ExpandAlias token =
     (if token = ''*'' then Some (filter (\<lambda>g. g \<noteq> GroupUnknown) (map fst groupTable))
      else case map_of aliasTable token of
        Some groups \<Rightarrow> Some groups
      | None \<Rightarrow> (case ParseGroup token of Some g \<Rightarrow> Some [g] | None \<Rightarrow> None))"

section \<open>Effects and classified statements (\<open>effect.go\<close>, \<open>statement.go\<close>)\<close>

record effect =
  ef_Group :: group
  ef_Subtype :: subtype
  ef_Objects :: "objectRef list"
  ef_ResolvedObjects :: "resolvedObjectRef list"
  ef_Resolution :: resolution
  ef_HasWhere :: bool
  ef_FunctionOID :: "32 word option"

definition canonicalGroupRank :: "(group \<times> int) list" where [table_simps]:
  "canonicalGroupRank = [
     (GroupUnknown, 0), (GroupUnsafeIO, 1), (GroupSchemaDestroy, 2), (GroupBulkExport, 3),
     (GroupPrivilege, 4),
     (GroupDelete, 0), (GroupSchemaCreate, 1), (GroupSchemaAlter, 2), (GroupBulkLoad, 3),
     (GroupProcedural, 4),
     (GroupModify, 0), (GroupWrite, 1), (GroupMaintenance, 2), (GroupLock, 3),
     (GroupRead, 0), (GroupTransaction, 1), (GroupSession, 2), (GroupNotify, 3)]"

text \<open>Reading a missing key of a Go map gives the zero value.\<close>

definition groupRank :: "group \<Rightarrow> int" where
  "groupRank g = (case map_of canonicalGroupRank g of Some k \<Rightarrow> k | None \<Rightarrow> 0)"

definition Order_less :: "effect \<Rightarrow> effect \<Rightarrow> bool" where
  "Order_less a b =
     (let ti = Group_RiskTier (ef_Group a); tj = Group_RiskTier (ef_Group b)
      in if ti \<noteq> tj then ti > tj else groupRank (ef_Group a) < groupRank (ef_Group b))"

definition Order :: "effect list \<Rightarrow> effect list" where
  "Order effects = sort_stable Order_less effects"

datatype parserBackend = ParserBackendUnknown | ParserBackendLibPgQuery | ParserBackendPureGo

fun ParserBackend_String :: "parserBackend \<Rightarrow> string" where
  "ParserBackend_String ParserBackendLibPgQuery = ''libpg_query''"
| "ParserBackend_String ParserBackendPureGo = ''pure_go''"
| "ParserBackend_String ParserBackendUnknown = []"

datatype bulkOpKind = BulkOpNone | BulkOpIn | BulkOpOut

fun BulkOpKind_String :: "bulkOpKind \<Rightarrow> string" where
  "BulkOpKind_String BulkOpIn = ''copy_in''"
| "BulkOpKind_String BulkOpOut = ''copy_out''"
| "BulkOpKind_String BulkOpNone = []"

abbreviation dquote :: string where "dquote \<equiv> [CHR 0x22]"

definition BulkOpKind_MarshalJSON :: "bulkOpKind \<Rightarrow> string" where
  "BulkOpKind_MarshalJSON b = dquote @ BulkOpKind_String b @ dquote"

definition BulkOpKind_UnmarshalJSON :: "string \<Rightarrow> string + bulkOpKind" where
  "BulkOpKind_UnmarshalJSON bs =
     (if bs = dquote @ dquote \<or> bs = ''null'' then Inr BulkOpNone
      else if bs = dquote @ ''copy_in'' @ dquote then Inr BulkOpIn
      else if bs = dquote @ ''copy_out'' @ dquote then Inr BulkOpOut
      else Inl (''unknown bulk_op '' @ bs))"

record classifiedStatement =
  cs_Effects :: "effect list"
  cs_RawVerb :: string
  cs_ParserBackend :: parserBackend
  cs_Error :: string
  cs_SourceStart :: int
  cs_SourceEnd :: int
  cs_PreparedName :: string
  cs_BulkOp :: bulkOpKind

definition Primary :: "classifiedStatement \<Rightarrow> effect option" where
  "Primary s = (case cs_Effects s of [] \<Rightarrow> None | e # _ \<Rightarrow> Some e)"

definition FoldResolution :: "classifiedStatement \<Rightarrow> resolution" where
  "FoldResolution s = Resolution_Fold (map ef_Resolution (cs_Effects s))"

section \<open>Names and tables\<close>

abbreviation declaredGroups :: "group set" where "declaredGroups \<equiv> fst ` set groupTable"

lemma groupTable_distinct: "distinct (map fst groupTable)"
  by code_simp

lemma groupNames_distinct: "distinct (map (\<lambda>(g, info). gi_name info) groupTable)"
  by code_simp

lemma subtypeTable_distinct: "distinct (map fst subtypeTable)"
  by code_simp

lemma subtypeNames_distinct: "distinct (map (\<lambda>(s, info). si_name info) subtypeTable)"
  by code_simp

lemma objectKindNames_distinct:
  "distinct (map fst objectKindNames)" "distinct (map snd objectKindNames)"
  by code_simp+

text \<open>
  A table with distinct keys and distinct names is parsed back exactly: this carries the three
  parsers.
\<close>

lemma find_key_name_iff:
  assumes "distinct (map fst table)" and "distinct (map (\<lambda>(k, v). name v) table)"
  shows "find_key (map (\<lambda>(k, v). (k, name v)) table) x = Some k \<longleftrightarrow>
           (\<exists>v. map_of table k = Some v \<and> name v = x)"
proof
  assume "find_key (map (\<lambda>(k, v). (k, name v)) table) x = Some k"
  then have "(k, x) \<in> set (map (\<lambda>(k, v). (k, name v)) table)" by (rule find_key_Some)
  then obtain v where "(k, v) \<in> set table" "name v = x" by auto
  with assms(1) show "\<exists>v. map_of table k = Some v \<and> name v = x" by auto
next
  assume "\<exists>v. map_of table k = Some v \<and> name v = x"
  then obtain v where "(k, v) \<in> set table" "name v = x" by (auto dest: map_of_SomeD)
  then have "(k, x) \<in> set (map (\<lambda>(k, v). (k, name v)) table)" by force
  moreover have "distinct (map snd (map (\<lambda>(k, v). (k, name v)) table))"
    using assms(2) by (simp add: comp_def case_prod_unfold)
  ultimately show "find_key (map (\<lambda>(k, v). (k, name v)) table) x = Some k"
    by (simp add: find_key_distinct)
qed

lemma ParseGroup_iff:
  "ParseGroup name = Some g \<longleftrightarrow> g \<in> declaredGroups \<and> Group_String g = name"
proof -
  have "ParseGroup name = Some g \<longleftrightarrow> (\<exists>v. map_of groupTable g = Some v \<and> gi_name v = name)"
    unfolding ParseGroup_def by (rule find_key_name_iff [OF groupTable_distinct groupNames_distinct])
  then show ?thesis
    by (cases "map_of groupTable g")
      (simp_all add: Group_String_def map_of_eq_None_iff, metis map_of_SomeD fst_conv image_eqI)
qed

lemma SubtypeNone_name:
  "(s, info) \<in> set subtypeTable \<Longrightarrow> si_name info = [] \<longleftrightarrow> s = SubtypeNone"
  by (auto simp: subtypeTable_def)

lemma ParseSubtype_iff:
  "ParseSubtype name = Some s \<longleftrightarrow>
     s \<in> fst ` set subtypeTable \<and> s \<noteq> SubtypeNone \<and> Subtype_String s = name"
proof (cases "map_of subtypeTable s")
  case None
  moreover from None have "s \<notin> fst ` set subtypeTable"
    by (simp add: map_of_eq_None_iff)
  ultimately show ?thesis
    by (simp add: ParseSubtype_def
        find_key_name_iff [OF subtypeTable_distinct subtypeNames_distinct])
next
  case (Some v)
  then have v: "(s, v) \<in> set subtypeTable" by (rule map_of_SomeD)
  then have "s \<in> fst ` set subtypeTable" by (rule rev_image_eqI) simp
  then show ?thesis
    using Some SubtypeNone_name [OF v]
    by (auto simp: ParseSubtype_def Subtype_String_def
        find_key_name_iff [OF subtypeTable_distinct subtypeNames_distinct])
qed

lemma ParseResolution_names:
  "map ParseResolution resolutionNames = map (\<lambda>i. Some (Resolution (of_nat i))) [0..<8]"
  by code_simp

lemma resolutionNames_length [simp]: "length resolutionNames = 8"
  by (simp add: resolutionNames_def)

lemma ParseResolution_nth: "i < 8 \<Longrightarrow> ParseResolution (resolutionNames ! i) = Some (Resolution (of_nat i))"
  using arg_cong [OF ParseResolution_names, of "\<lambda>xs. xs ! i"] by simp

lemma ParseResolution_iff:
  "ParseResolution name = Some r \<longleftrightarrow>
     unat (res_num r) < length resolutionNames \<and> Resolution_String r = name"
proof
  assume "ParseResolution name = Some r"
  then obtain i where "i \<in> set [0..<8]" "resolutionNames ! i = name" "r = Resolution (of_nat i)"
    by (auto simp: ParseResolution_def dest: find_Some_mem)
  then show "unat (res_num r) < length resolutionNames \<and> Resolution_String r = name"
    by (simp add: Resolution_String_def unat_of_nat)
next
  assume r: "unat (res_num r) < length resolutionNames \<and> Resolution_String r = name"
  then have "resolutionNames ! unat (res_num r) = name"
    by (auto simp: Resolution_String_def)
  with r ParseResolution_nth [of "unat (res_num r)"] show "ParseResolution name = Some r"
    by simp
qed

section \<open>Aliases\<close>

lemma aliasTable_no_unknown: "\<forall>(tok, gs) \<in> set aliasTable. GroupUnknown \<notin> set gs"
  by (simp add: aliasTable_def)

lemma aliasTable_declared: "\<forall>(tok, gs) \<in> set aliasTable. gs \<noteq> [] \<and> set gs \<subseteq> declaredGroups"
  by (simp add: aliasTable_def groupTable_def)

lemma ExpandAlias_cases:
  assumes "ExpandAlias token = Some gs"
  obtains (wildcard) "token = ''*''" "gs = filter (\<lambda>g. g \<noteq> GroupUnknown) (map fst groupTable)"
  | (table) "(token, gs) \<in> set aliasTable"
  | (name) g where "gs = [g]" "ParseGroup token = Some g"
  using assms by (auto simp: ExpandAlias_def dest: map_of_SomeD split: if_splits option.splits)

lemma Group_String_unknown: "Group_String GroupUnknown = ''unknown''"
  by code_simp

lemma ExpandAlias_unknown: "ExpandAlias ''unknown'' = Some [GroupUnknown]"
  by code_simp

lemma ExpandAlias_declared: "ExpandAlias token = Some gs \<Longrightarrow> gs \<noteq> [] \<and> set gs \<subseteq> declaredGroups"
  by (erule ExpandAlias_cases)
    (use aliasTable_declared in \<open>auto simp: ParseGroup_iff groupTable_def\<close>)

lemma ExpandAlias_reaches_unknown:
  assumes "ExpandAlias token = Some gs" and "GroupUnknown \<in> set gs"
  shows "token = ''unknown''"
  using assms(1)
proof (cases rule: ExpandAlias_cases)
  case wildcard
  with assms(2) show ?thesis by simp
next
  case table
  with aliasTable_no_unknown assms(2) show ?thesis by fastforce
next
  case (name g)
  with assms(2) show ?thesis
    by (auto simp: ParseGroup_iff Group_String_unknown)
qed

section \<open>Canonical order\<close>

definition order_key :: "effect \<Rightarrow> int \<times> int" where
  "order_key e = (- uint (tier_num (Group_RiskTier (ef_Group e))), groupRank (ef_Group e))"

lemma Order_less_key: "Order_less a b \<longleftrightarrow> order_key a < order_key b"
proof -
  have "t = t' \<longleftrightarrow> uint (tier_num t) = uint (tier_num t')" for t t'
    by (cases t; cases t') (simp add: word_uint_eq_iff)
  then show ?thesis
    by (simp add: Order_less_def order_key_def Let_def less_riskTier_def word_less_def less_prod_def')
qed

lemma unknown_sorts_first:
  "list_all (\<lambda>g. (- uint (tier_num (Group_RiskTier g)), groupRank g) \<le> (- 4, 0) \<longrightarrow> g = GroupUnknown)
     (map fst groupTable)"
  by code_simp

lemma order_key_unknown: "ef_Group e = GroupUnknown \<Longrightarrow> order_key e = (- 4, 0)"
  unfolding order_key_def by simp code_simp

lemma Order_sort_key: "Order es = sort_key order_key es"
  unfolding Order_def by (rule sort_stable_sort_key) (rule Order_less_key)

lemma Order_same_key: "\<not> Order_less x e \<and> \<not> Order_less e x \<longleftrightarrow> order_key x = order_key e"
  by (auto simp: Order_less_key)

lemma set_Order [simp]: "set (Order es) = set es"
  by (simp add: Order_sort_key)

lemma Order_nonempty: "e \<in> set es \<Longrightarrow> Order es \<noteq> []"
  by (metis empty_iff empty_set set_Order)

lemma Order_hd_least:
  assumes "e \<in> set es"
  shows "order_key (hd (Order es)) \<le> order_key e"
proof -
  from assms obtain x xs where x: "Order es = x # xs"
    using Order_nonempty by (meson neq_Nil_conv)
  have "sorted (map order_key (Order es))"
    by (simp add: Order_sort_key)
  moreover have "e \<in> set (x # xs)"
    using assms set_Order [of es] x by simp
  ultimately show ?thesis by (auto simp: x)
qed

section \<open>JSON forms\<close>

lemma ObjectKind_name_back: "k \<noteq> ObjectKindZero \<Longrightarrow> find_key objectKindNames (ObjectKind_String k) = Some k"
  by (cases k) (simp_all add: find_key_def objectKindNames_def ObjectKind_String_def)

lemma BulkOpKind_roundtrip [simp]: "BulkOpKind_UnmarshalJSON (BulkOpKind_MarshalJSON b) = Inr b"
  by (cases b) (simp_all add: BulkOpKind_UnmarshalJSON_def BulkOpKind_MarshalJSON_def)

lemma UnmarshalJSON_kind:
  "or_Kind r \<noteq> ObjectKindZero \<Longrightarrow>
     or_Kind (ObjectRef_UnmarshalJSON r0 (ObjectRef_MarshalJSON r)) = or_Kind r"
  by (simp add: ObjectRef_UnmarshalJSON_def ObjectRef_MarshalJSON_def Let_def ObjectKind_name_back)

section \<open>Properties of the taxonomy\<close>

text \<open>The names of groups, subtypes and resolution tags parse back exactly: each parser returns a
  value iff that value is declared and its name is the input, so parsing and printing are inverse
  on the declared values and every other string is rejected (the empty string included).\<close>

theorem parse_string_roundtrip:
  "(ParseGroup name = Some g \<longleftrightarrow> g \<in> fst ` set groupTable \<and> Group_String g = name) \<and>
   (ParseSubtype name = Some s \<longleftrightarrow>
      s \<in> fst ` set subtypeTable \<and> s \<noteq> SubtypeNone \<and> Subtype_String s = name) \<and>
   (ParseResolution name = Some r \<longleftrightarrow>
      unat (res_num r) < length resolutionNames \<and> Resolution_String r = name)"
  by (intro conjI ParseGroup_iff ParseSubtype_iff ParseResolution_iff)

text \<open>Only the literal token \<open>unknown\<close> expands to a list with the group of unclassifiable
  statements: neither the wildcard nor any alias reaches it, so a policy covers such statements
  only by naming them.\<close>

theorem alias_reaches_unknown_only_by_name:
  "(\<exists>gs. ExpandAlias token = Some gs \<and> GroupUnknown \<in> set gs) \<longleftrightarrow> token = ''unknown''"
  by (rule iffI; (elim exE conjE)?) (rule ExpandAlias_reaches_unknown, assumption+, simp add: ExpandAlias_unknown)


text \<open>After ordering, the primary effect is the most severe one: its tier is the highest of
  the statement, and a statement with an unclassifiable effect among declared ones has it first.\<close>

theorem Order_primary_most_severe:
  assumes "e \<in> set es"
  shows "Group_RiskTier (ef_Group e) \<le> Group_RiskTier (ef_Group (hd (Order es))) \<and>
         (ef_Group e = GroupUnknown \<and> ef_Group ` set es \<subseteq> fst ` set groupTable \<longrightarrow>
            ef_Group (hd (Order es)) = GroupUnknown)"
proof (intro conjI impI)
  let ?h = "hd (Order es)"
  have le: "order_key ?h \<le> order_key e"
    using assms by (rule Order_hd_least)
  then show "Group_RiskTier (ef_Group e) \<le> Group_RiskTier (ef_Group ?h)"
    by (auto simp: order_key_def less_eq_riskTier_def word_le_def)
  assume unknown: "ef_Group e = GroupUnknown \<and> ef_Group ` set es \<subseteq> fst ` set groupTable"
  have "Order es \<noteq> []"
    using assms by (rule Order_nonempty)
  then have "?h \<in> set es"
    by (metis hd_in_set set_Order)
  with unknown have "ef_Group ?h \<in> fst ` set groupTable" by blast
  moreover have "order_key ?h \<le> (-4, 0)"
    using le unknown by (simp add: order_key_unknown)
  ultimately show "ef_Group ?h = GroupUnknown"
    using unknown_sorts_first unfolding list_all_iff order_key_def set_map by blast
qed

definition plain_effect :: "group \<Rightarrow> effect" where
  "plain_effect g = \<lparr>ef_Group = g, ef_Subtype = SubtypeNone, ef_Objects = [], ef_ResolvedObjects = [],
     ef_Resolution = ResolutionQualified, ef_HasWhere = False, ef_FunctionOID = None\<rparr>"

theorem Order_primary_most_severe_witness:
  "ef_Group (hd (Order [plain_effect GroupRead, plain_effect GroupPrivilege, plain_effect GroupUnknown]))
     = GroupUnknown"
proof -
  let ?es = "[plain_effect GroupRead, plain_effect GroupPrivilege, plain_effect GroupUnknown]"
  have "plain_effect GroupUnknown \<in> set ?es" by simp
  moreover have "ef_Group (plain_effect GroupUnknown) = GroupUnknown" by (simp add: plain_effect_def)
  moreover have "ef_Group ` set ?es \<subseteq> fst ` set groupTable"
    by (simp add: plain_effect_def groupTable_def)
  ultimately show ?thesis
    using Order_primary_most_severe by blast
qed

text \<open>Folding resolution tags keeps the least-confident one: the result is a member of the
  list whose rank is the maximum.\<close>

theorem Fold_worst:
  "rs \<noteq> [] \<Longrightarrow> Resolution_Fold rs \<in> set rs \<and> (\<forall>r \<in> set rs. resolutionRank r \<le> resolutionRank (Resolution_Fold rs))"
  using keep_best_mem [of resolutionRank "hd rs" "tl rs"]
  by (cases rs) (simp_all add: Resolution_Fold_def keep_best_ge)

theorem Fold_worst_witness:
  "Resolution_Fold [ResolutionQualified, ResolutionCatalogUnavailable, ResolutionCatalogResolved]
     = ResolutionCatalogUnavailable"
proof -
  let ?rs = "[ResolutionQualified, ResolutionCatalogUnavailable, ResolutionCatalogResolved]"
  have "Resolution_Fold ?rs \<in> set ?rs"
    "resolutionRank ResolutionCatalogUnavailable \<le> resolutionRank (Resolution_Fold ?rs)"
    using Fold_worst [of ?rs] by auto
  moreover have "\<not> resolutionRank ResolutionCatalogUnavailable \<le> resolutionRank ResolutionQualified"
    "\<not> resolutionRank ResolutionCatalogUnavailable \<le> resolutionRank ResolutionCatalogResolved"
    by code_simp+
  ultimately show ?thesis by auto
qed

text \<open>An object reference of a known kind survives its JSON form: decoding what was encoded, into
  any receiver, gives back the kind and every field that belongs to the kind, and a reference
  that carries only such fields comes back unchanged.\<close>

theorem ObjectRef_json_roundtrip:
  assumes "or_Kind r \<noteq> ObjectKindZero"
  shows "ObjectRef_MarshalJSON (ObjectRef_UnmarshalJSON r0 (ObjectRef_MarshalJSON r)) =
           ObjectRef_MarshalJSON r \<and>
         or_Kind (ObjectRef_UnmarshalJSON r0 (ObjectRef_MarshalJSON r)) = or_Kind r"
  using UnmarshalJSON_kind [OF assms, of r0] assms
  by (simp add: ObjectRef_MarshalJSON_def ObjectRef_UnmarshalJSON_def Let_def ObjectKind_name_back)

theorem ObjectRef_json_roundtrip_witness:
  "let r = \<lparr>or_Kind = ObjectTable, or_Schema = ''public'', or_Name = ''users'', or_Host = [],
            or_Port = 0, or_Path = [], or_Argv0 = []\<rparr>;
       r0 = r\<lparr>or_Kind := ObjectKindZero, or_Name := ''stale''\<rparr>
   in ObjectRef_UnmarshalJSON r0 (ObjectRef_MarshalJSON r) = r \<and>
      or_Kind (ObjectRef_UnmarshalJSON r0 (ObjectRef_MarshalJSON r)) = ObjectTable"
  using ObjectRef_json_roundtrip [of "\<lparr>or_Kind = ObjectTable, or_Schema = ''public'',
    or_Name = ''users'', or_Host = [], or_Port = 0, or_Path = [], or_Argv0 = []\<rparr>"
    "\<lparr>or_Kind = ObjectKindZero, or_Schema = ''public'', or_Name = ''stale'', or_Host = [],
      or_Port = 0, or_Path = [], or_Argv0 = []\<rparr>"]
  by (simp add: Let_def ObjectRef_UnmarshalJSON_def ObjectRef_MarshalJSON_def
      ObjectKind_String_def objectKindNames_def find_key_def)

end
