(* ===== verification/Db_Policy.thy ===== *)
theory Db_Policy
  imports Db_Effects
begin

text \<open>
  The data of the database policy and its compiler: \<open>internal/db/policy/types.go\<close>,
  \<open>redaction.go\<close>, \<open>compile.go\<close> and \<open>internal/db/service/flag.go\<close>.

  Two libraries the compiler calls are parameters, gathered in the record \<open>policyLib\<close> that every
  definition using them takes as its first argument: \<open>github.com/gobwas/glob\<close> (whether a pattern
  compiles, whether a compiled pattern matches) and the template engine that renders rule messages.
  A compiled glob is represented by its pattern. \<open>time.Duration\<close> is an integer number of
  nanoseconds.
\<close>

section \<open>Verbs and kinds (\<open>types.go\<close>)\<close>

datatype decisionVerb = VerbAllow | VerbAudit | VerbRedirect | VerbApprove | VerbDeny

fun DecisionVerb_String :: "decisionVerb \<Rightarrow> string" where
  "DecisionVerb_String VerbAllow = ''allow''"
| "DecisionVerb_String VerbAudit = ''audit''"
| "DecisionVerb_String VerbRedirect = ''redirect''"
| "DecisionVerb_String VerbApprove = ''approve''"
| "DecisionVerb_String VerbDeny = ''deny''"

fun verb_num :: "decisionVerb \<Rightarrow> nat" where
  "verb_num VerbAllow = 0"
| "verb_num VerbAudit = 1"
| "verb_num VerbRedirect = 2"
| "verb_num VerbApprove = 3"
| "verb_num VerbDeny = 4"

lemma verb_num_inj: "verb_num a = verb_num b \<Longrightarrow> a = b"
  by (cases a; cases b) simp_all

instantiation decisionVerb :: linorder
begin

definition less_eq_decisionVerb :: "decisionVerb \<Rightarrow> decisionVerb \<Rightarrow> bool" where
  "less_eq_decisionVerb a b \<longleftrightarrow> verb_num a \<le> verb_num b"

definition less_decisionVerb :: "decisionVerb \<Rightarrow> decisionVerb \<Rightarrow> bool" where
  "less_decisionVerb a b \<longleftrightarrow> verb_num a < verb_num b"

instance
  by standard (auto simp: less_eq_decisionVerb_def less_decisionVerb_def intro: verb_num_inj)

end

datatype ruleKind = RuleKindStatement | RuleKindConnection | RuleKindCancel

fun RuleKind_String :: "ruleKind \<Rightarrow> string" where
  "RuleKind_String RuleKindStatement = ''statement''"
| "RuleKind_String RuleKindConnection = ''connection''"
| "RuleKind_String RuleKindCancel = ''cancel''"

datatype connectionMatchKind = MatchConnect | MatchCancel | MatchReplication

section \<open>The on-disk policy (\<open>types.go\<close>)\<close>

type_synonym serviceID = string
type_synonym duration = int

abbreviation second :: duration where "second \<equiv> 1000000000"

record redirectAction =
  ra_Relation :: string

record redirectDecision =
  rd_SourceRelation :: string
  rd_TargetRelation :: string

record dbService =
  svc_Name :: string
  svc_Family :: string
  svc_Dialect :: string
  svc_Upstream :: string
  svc_TLSMode :: string
  svc_AllowFunctionCallProtocol :: bool
  svc_AllowGSSEncryption :: bool
  svc_TrustedNetwork :: bool

record statementRule =
  sr_Name :: string
  sr_DBService :: string
  sr_DBFamily :: string
  sr_DBDialect :: string
  sr_Schemas :: "string list"
  sr_Objects :: "string list"
  sr_Relations :: "string list"
  sr_Functions :: "string list"
  sr_Operations :: "string list"
  sr_Subtypes :: "string list"
  sr_MatchObjectResolution :: string
  sr_RequireWhere :: bool
  sr_Decision :: string
  sr_Message :: string
  sr_Timeout :: duration
  sr_Redirect :: "redirectAction option"
  sr_AcknowledgeAuditOnDangerous :: bool
  sr_DenyModeInTx :: string

record connectionRule =
  cr_Name :: string
  cr_DBService :: string
  cr_MatchKind :: string
  cr_DBUser :: "string list"
  cr_Database :: string
  cr_ApplicationName :: string
  cr_ClientIdentity :: string
  cr_Decision :: string
  cr_Message :: string
  cr_Timeout :: duration

record connectionInfo =
  ci_Service :: serviceID
  ci_MatchKind :: connectionMatchKind
  ci_DBUser :: string
  ci_Database :: string
  ci_ApplicationName :: string
  ci_ClientIdentity :: string

section \<open>Decisions (\<open>types.go\<close>)\<close>

text \<open>
  \<open>Reason\<close> is text; the one reason the code builds with quoting verbs,
  \<open>no rule covers %q in %q effect\<close>, is kept as a constructor with the two quoted strings.
\<close>

datatype reason = ReasonText string | ReasonNoRuleCovers string string

record approvalRequest =
  ap_Timeout :: duration
  ap_ContributingApproveRules :: "string list"

record decision =
  dec_Verb :: decisionVerb
  dec_RuleKind :: ruleKind
  dec_RuleName :: string
  dec_MatchingEffectIndex :: int
  dec_MatchingEffectGroup :: group
  dec_Reason :: reason
  dec_ContributingAuditRules :: "string list"
  dec_Approval :: "approvalRequest option"
  dec_Redirect :: "redirectDecision option"

section \<open>Redaction (\<open>redaction.go\<close>) and the unavoidability flag (\<open>service/flag.go\<close>)\<close>

datatype redactionTier = RedactionTier (redaction_num: "8 word")

abbreviation RedactNone :: redactionTier where "RedactNone \<equiv> RedactionTier 0"
abbreviation RedactParametersRedacted :: redactionTier where
  "RedactParametersRedacted \<equiv> RedactionTier 1"
abbreviation RedactFull :: redactionTier where "RedactFull \<equiv> RedactionTier 2"

definition redactionTierNames :: "string list" where [table_simps]:
  "redactionTierNames = [''none'', ''parameters_redacted'', ''full'']"

definition RedactionTier_String :: "redactionTier \<Rightarrow> string" where
  "RedactionTier_String r = (if unat (redaction_num r) \<ge> length redactionTierNames then []
                             else redactionTierNames ! unat (redaction_num r))"

definition ParseRedactionTier :: "string \<Rightarrow> redactionTier option" where
  "ParseRedactionTier s =
     map_option (\<lambda>i. RedactionTier (of_nat i))
       (List.find (\<lambda>i. redactionTierNames ! i = s) [0..<length redactionTierNames])"

record redactionConfig =
  rc_LogStatements :: redactionTier
  rc_ApprovalStatementPreview :: redactionTier
  rc_ApprovalStatementChars :: int
  rc_EscalateUnknownFunctions :: bool
  rc_SafeFunctionAllowlist :: "string list"

datatype unavoidability = UnavoidabilityOff | UnavoidabilityObserve | UnavoidabilityEnforce

fun Unavoidability_String :: "unavoidability \<Rightarrow> string" where
  "Unavoidability_String UnavoidabilityOff = ''off''"
| "Unavoidability_String UnavoidabilityObserve = ''observe''"
| "Unavoidability_String UnavoidabilityEnforce = ''enforce''"

definition ParseUnavoidability :: "string \<Rightarrow> unavoidability option" where
  "ParseUnavoidability s =
     (if s = ''off'' then Some UnavoidabilityOff
      else if s = ''observe'' then Some UnavoidabilityObserve
      else if s = ''enforce'' then Some UnavoidabilityEnforce
      else None)"

section \<open>Compiled rules (\<open>compile.go\<close>)\<close>

record messageContext =
  mc_Operation :: string
  mc_Subtype :: string
  mc_Schema :: string
  mc_Object :: string
  mc_Verb :: string
  mc_StatementPreview :: string

record policyLib =
  glob_compile :: "string \<Rightarrow> string + unit"
  glob_match :: "string \<Rightarrow> string \<Rightarrow> bool"
  template_parse :: "string \<Rightarrow> string + unit"
  template_execute :: "string \<Rightarrow> messageContext \<Rightarrow> string + string"

datatype resolutionMatcher = resAny | resEq resolution

fun resolutionMatcher_matches :: "resolutionMatcher \<Rightarrow> resolution \<Rightarrow> bool" where
  "resolutionMatcher_matches resAny r = True"
| "resolutionMatcher_matches (resEq r') r = (r' = r)"

record serviceFilter =
  sf_service :: serviceID
  sf_family :: string
  sf_dialect :: string

definition serviceFilter_matches :: "serviceFilter \<Rightarrow> serviceID \<Rightarrow> dbService option \<Rightarrow> bool" where
  "serviceFilter_matches f sid svc =
     (if sf_service f \<noteq> [] \<and> sf_service f \<noteq> sid then False
      else if sf_family f \<noteq> [] \<and> (case svc of None \<Rightarrow> True | Some s \<Rightarrow> svc_Family s \<noteq> sf_family f)
      then False
      else if sf_dialect f \<noteq> [] \<and> (case svc of None \<Rightarrow> True | Some s \<Rightarrow> svc_Dialect s \<noteq> sf_dialect f)
      then False
      else True)"

record compiledStatementRule =
  c_src :: statementRule
  c_verb :: decisionVerb
  c_groups :: "group set"
  c_subtypes :: "subtype set"
  c_requireWhere :: bool
  c_resolution :: resolutionMatcher
  c_schemas :: "string list"
  c_objects :: "string list"
  c_relations :: "string list"
  c_functions :: "string list"
  c_timeout :: duration
  c_msgTemplate :: "string option"
  c_redirect :: "redirectDecision option"
  c_serviceFilter :: serviceFilter

record compiledConnectionRule =
  cc_src :: connectionRule
  cc_verb :: decisionVerb
  cc_matchKind :: connectionMatchKind
  cc_dbUsers :: "string set"
  cc_database :: string
  cc_applicationName :: "string option"
  cc_clientIdentity :: "string option"
  cc_timeout :: duration
  cc_msgTemplate :: "string option"
  cc_serviceFilter :: serviceFilter

record ruleSet =
  rs_services :: "(serviceID \<times> dbService) list"
  rs_statement :: "compiledStatementRule list"
  rs_connection :: "compiledConnectionRule list"
  rs_redaction :: redactionConfig
  rs_unavoidability :: unavoidability

end
