(* ===== verification/Go_Strings.thy ===== *)
theory Go_Strings
  imports Caw_Prelude
begin

text \<open>
  The string functions of the Go standard library that the modelled code calls, on UTF-8 byte
  sequences: \<open>strings.TrimSpace\<close>, \<open>strings.Split\<close> on a one-byte separator,
  \<open>strings.EqualFold\<close> against an ASCII literal, \<open>strings.ToLower\<close>, prefixes, suffixes and
  searches for single bytes.
\<close>

section \<open>White space\<close>

text \<open>
  \<open>strings.TrimSpace(s) == ""\<close>: every rune of \<open>s\<close> is white space. \<open>unicode.IsSpace\<close> holds of the
  six ASCII characters and of U+0085, U+00A0, U+1680, U+2000 to U+200A, U+2028, U+2029, U+202F,
  U+205F and U+3000, whose UTF-8 encodings have two or three bytes.
\<close>

definition space3 :: "char \<Rightarrow> char \<Rightarrow> char \<Rightarrow> bool" where
  "space3 a b c =
     (let x = (of_char a :: nat, of_char b :: nat, of_char c :: nat)
      in x = (0xE1, 0x9A, 0x80) \<or>
         (fst x = 0xE2 \<and> fst (snd x) = 0x80 \<and>
            (0x80 \<le> snd (snd x) \<and> snd (snd x) \<le> 0x8A \<or> snd (snd x) \<in> {0xA8, 0xA9, 0xAF})) \<or>
         x = (0xE2, 0x81, 0x9F) \<or> x = (0xE3, 0x80, 0x80))"

definition space2 :: "char \<Rightarrow> char \<Rightarrow> bool" where
  "space2 a b = ((of_char a :: nat) = 0xC2 \<and> (of_char b :: nat) \<in> {0x85, 0xA0})"

definition space1 :: "char \<Rightarrow> bool" where
  "space1 a = ((of_char a :: nat) \<in> {0x09, 0x0A, 0x0B, 0x0C, 0x0D, 0x20})"

fun isBlank :: "string \<Rightarrow> bool" where
  "isBlank [] = True"
| "isBlank [a] = space1 a"
| "isBlank [a, b] = (if space1 a then isBlank [b] else space2 a b)"
| "isBlank (a # b # c # s) =
     (if space1 a then isBlank (b # c # s)
      else if space2 a b then isBlank (c # s)
      else space3 a b c \<and> isBlank s)"

section \<open>Splitting\<close>

fun split_on :: "char \<Rightarrow> string \<Rightarrow> string list" where
  "split_on sep [] = [[]]"
| "split_on sep (c # s) =
     (if c = sep then [] # split_on sep s
      else case split_on sep s of [] \<Rightarrow> [[c]] | p # ps \<Rightarrow> (c # p) # ps)"

lemma split_on_not_Nil [simp]: "split_on sep s \<noteq> []"
  by (induction s) (auto split: list.splits)

lemma split_on_no_sep: "p \<in> set (split_on sep s) \<Longrightarrow> sep \<notin> set p"
proof (induction s arbitrary: p)
  case (Cons c s)
  then show ?case
    by (cases "split_on sep s") (auto split: if_splits)
qed simp

fun join_with :: "char \<Rightarrow> string list \<Rightarrow> string" where
  "join_with sep [] = []"
| "join_with sep [p] = p"
| "join_with sep (p # q # ps) = p @ sep # join_with sep (q # ps)"

lemma join_split: "join_with sep (split_on sep s) = s"
proof (induction s)
  case (Cons c s)
  obtain p ps where s: "split_on sep s = p # ps"
    by (meson split_on_not_Nil neq_Nil_conv)
  then show ?case
    using Cons by (cases ps) auto
qed simp

lemma split_on_pair: "split_on sep s = [a, b] \<Longrightarrow> s = a @ sep # b"
  using join_split [of sep s] by simp

section \<open>Case folding\<close>

text \<open>
  \<open>strings.EqualFold(s, lit)\<close> for a lower-case ASCII literal without the letter k: simple folding
  identifies the ASCII cases and additionally U+017F (bytes C5 BF) with the letter s.
\<close>

definition lower_ascii :: "char \<Rightarrow> char" where
  "lower_ascii c = (let n = (of_char c :: nat) in if 65 \<le> n \<and> n \<le> 90 then char_of (n + 32) else c)"

fun fold_s :: "string \<Rightarrow> string" where
  "fold_s (a # b # s) =
     (if (of_char a :: nat) = 0xC5 \<and> (of_char b :: nat) = 0xBF then CHR ''s'' # fold_s s
      else lower_ascii a # fold_s (b # s))"
| "fold_s [a] = [lower_ascii a]"
| "fold_s [] = []"

definition equalFold_lit :: "string \<Rightarrow> string \<Rightarrow> bool" where
  "equalFold_lit s lit = (fold_s s = lit)"

section \<open>Trimming\<close>

text \<open>
  \<open>strings.TrimSpace\<close>: runes are decoded from the front, then from the back. A backward decode
  stops at the first byte that can start a rune, so a white-space rune is recognised at the end
  exactly when its encoding is a suffix.
\<close>

fun trim_left :: "string \<Rightarrow> string" where
  "trim_left [] = []"
| "trim_left [a] = (if space1 a then [] else [a])"
| "trim_left [a, b] =
     (if space1 a then trim_left [b] else if space2 a b then [] else [a, b])"
| "trim_left (a # b # c # s) =
     (if space1 a then trim_left (b # c # s)
      else if space2 a b then trim_left (c # s)
      else if space3 a b c then trim_left s
      else a # b # c # s)"

fun trim_right_rev :: "string \<Rightarrow> string" where
  "trim_right_rev [] = []"
| "trim_right_rev [a] = (if space1 a then [] else [a])"
| "trim_right_rev [b, a] =
     (if space1 b then trim_right_rev [a] else if space2 a b then [] else [b, a])"
| "trim_right_rev (c # b # a # s) =
     (if space1 c then trim_right_rev (b # a # s)
      else if space2 b c then trim_right_rev (a # s)
      else if space3 a b c then trim_right_rev s
      else c # b # a # s)"

definition TrimSpace :: "string \<Rightarrow> string" where
  "TrimSpace s = rev (trim_right_rev (rev (trim_left s)))"

lemma trim_left_suffix: "\<exists>p. s = p @ trim_left s"
proof (induction s rule: trim_left.induct)
  case (4 a b c s)
  then show ?case
    by (auto split: if_splits) (metis append_Cons append_Nil)+
qed auto

lemma isBlank_trim_left: "isBlank s \<longleftrightarrow> trim_left s = []"
  by (induction s rule: trim_left.induct) auto

section \<open>Prefixes, suffixes and lower case\<close>

definition HasPrefix :: "string \<Rightarrow> string \<Rightarrow> bool" where
  "HasPrefix s p = (take (length p) s = p)"

definition HasSuffix :: "string \<Rightarrow> string \<Rightarrow> bool" where
  "HasSuffix s p = (length p \<le> length s \<and> drop (length s - length p) s = p)"

definition TrimSuffix :: "string \<Rightarrow> string \<Rightarrow> string" where
  "TrimSuffix s p = (if HasSuffix s p then take (length s - length p) s else s)"

definition TrimPrefix :: "string \<Rightarrow> string \<Rightarrow> string" where
  "TrimPrefix s p = (if HasPrefix s p then drop (length p) s else s)"

lemma HasPrefix_append [simp]: "HasPrefix (p @ s) p"
  by (simp add: HasPrefix_def)

lemma HasPrefix_iff: "HasPrefix s p \<longleftrightarrow> (\<exists>t. s = p @ t)"
  by (auto simp: HasPrefix_def) (metis append_take_drop_id)

lemma TrimSuffix_append [simp]: "TrimSuffix (s @ p) p = s"
  by (simp add: TrimSuffix_def HasSuffix_def)

text \<open>
  \<open>strings.ToLower\<close> on ASCII. Bytes of other runes are left as they are: the names the policy
  code folds (command base names, domains, variable names) are ASCII.
\<close>

definition ToLower :: "string \<Rightarrow> string" where
  "ToLower s = map lower_ascii s"

text \<open>The part of \<open>s\<close> after the last byte satisfying \<open>P\<close>: \<open>s[strings.LastIndexAny(s, ...)+1:]\<close>.\<close>

definition after_last :: "(char \<Rightarrow> bool) \<Rightarrow> string \<Rightarrow> string" where
  "after_last P s = rev (takeWhile (\<lambda>c. \<not> P c) (rev s))"

lemma after_last_none: "\<forall>c \<in> set s. \<not> P c \<Longrightarrow> after_last P s = s"
  by (simp add: after_last_def takeWhile_eq_all_conv [THEN iffD2])

end
