(* ===== verification/Db_Compile.thy ===== *)
theory Db_Compile
  imports Db_Policy Go_Strings
begin

text \<open>
  The rule compiler and the matchers of compiled rules (\<open>internal/db/policy/compile.go\<close>), and the
  accessors of a rule set (\<open>types.go\<close>).
\<close>

section \<open>Compilation\<close>

datatype compileError =
    UnhandledDecision string string
  | IncompleteRedirect string
  | UnknownOperation string string
  | UnknownSubtype string string
  | UnknownResolution string string
  | UnhandledMatchKind string string
  | GlobCompile string string string string
  | MessageTemplateParse string string

abbreviation defaultApproveTimeout :: duration where "defaultApproveTimeout \<equiv> 60 * second"

definition parse_verb :: "string \<Rightarrow> decisionVerb option" where
  "parse_verb s =
     (if s = ''allow'' then Some VerbAllow
      else if s = ''deny'' then Some VerbDeny
      else if s = ''approve'' then Some VerbApprove
      else if s = ''audit'' then Some VerbAudit
      else if s = ''redirect'' then Some VerbRedirect
      else None)"

definition ok_or :: "'a option \<Rightarrow> 'e \<Rightarrow> 'e + 'a" where
  "ok_or x e = (case x of None \<Rightarrow> Inl e | Some a \<Rightarrow> Inr a)"

text \<open>\<open>for _, pat := range pats { g, err := glob.Compile(pat) ... append }\<close>, for the named field.\<close>

definition compile_globs ::
  "policyLib \<Rightarrow> string \<Rightarrow> string \<Rightarrow> string list \<Rightarrow> compileError + string list" where
  "compile_globs L name field pats =
     map_result (\<lambda>pat. case glob_compile L pat of
                         Inl err \<Rightarrow> Inl (GlobCompile name field pat err)
                       | Inr _ \<Rightarrow> Inr pat) pats"

definition compile_message :: "policyLib \<Rightarrow> string \<Rightarrow> string \<Rightarrow> compileError + string option" where
  "compile_message L name msg =
     (if \<not> isBlank msg
      then (case template_parse L msg of
              Inl err \<Rightarrow> Inl (MessageTemplateParse name err)
            | Inr _ \<Rightarrow> Inr (Some msg))
      else Inr None)"

definition compile_redirect :: "statementRule \<Rightarrow> decisionVerb \<Rightarrow> compileError + redirectDecision option" where
  "compile_redirect r verb =
     (if verb = VerbRedirect
      then (case (sr_Relations r, sr_Redirect r) of
              ([rel], Some act) \<Rightarrow>
                if ra_Relation act = [] then Inl (IncompleteRedirect (sr_Name r))
                else Inr (Some \<lparr>rd_SourceRelation = rel, rd_TargetRelation = ra_Relation act\<rparr>)
            | _ \<Rightarrow> Inl (IncompleteRedirect (sr_Name r)))
      else Inr None)"

definition compile_resolution :: "statementRule \<Rightarrow> compileError + resolutionMatcher" where
  "compile_resolution r =
     (if sr_MatchObjectResolution r = [] \<or> sr_MatchObjectResolution r = ''*'' then Inr resAny
      else case ParseResolution (sr_MatchObjectResolution r) of
        None \<Rightarrow> Inl (UnknownResolution (sr_Name r) (sr_MatchObjectResolution r))
      | Some res \<Rightarrow> Inr (resEq res))"

definition compile_timeout :: "string \<Rightarrow> duration \<Rightarrow> duration" where
  "compile_timeout dec timeout =
     (if dec = ''approve'' \<and> timeout = 0 then defaultApproveTimeout else timeout)"

definition compileStatementRule :: "policyLib \<Rightarrow> statementRule \<Rightarrow> compileError + compiledStatementRule" where
  "compileStatementRule L r =
     bind_result (ok_or (parse_verb (sr_Decision r)) (UnhandledDecision (sr_Name r) (sr_Decision r)))
      (\<lambda>verb. bind_result (compile_redirect r verb)
      (\<lambda>redirect. bind_result
         (map_result (\<lambda>op. ok_or (ExpandAlias op) (UnknownOperation (sr_Name r) op)) (sr_Operations r))
      (\<lambda>gss. bind_result
         (map_result (\<lambda>st. ok_or (ParseSubtype st) (UnknownSubtype (sr_Name r) st)) (sr_Subtypes r))
      (\<lambda>sts. bind_result (compile_resolution r)
      (\<lambda>res. bind_result (compile_globs L (sr_Name r) ''schemas'' (sr_Schemas r))
      (\<lambda>schemas. bind_result (compile_globs L (sr_Name r) ''objects'' (sr_Objects r))
      (\<lambda>objects. bind_result (compile_globs L (sr_Name r) ''relations'' (sr_Relations r))
      (\<lambda>relations. bind_result (compile_globs L (sr_Name r) ''functions'' (sr_Functions r))
      (\<lambda>functions. bind_result (compile_message L (sr_Name r) (sr_Message r))
      (\<lambda>msg. Inr
        \<lparr>c_src = r,
         c_verb = verb,
         c_groups = set (concat gss),
         c_subtypes = set sts,
         c_requireWhere = sr_RequireWhere r,
         c_resolution = res,
         c_schemas = schemas,
         c_objects = objects,
         c_relations = relations,
         c_functions = functions,
         c_timeout = compile_timeout (sr_Decision r) (sr_Timeout r),
         c_msgTemplate = msg,
         c_redirect = redirect,
         c_serviceFilter = \<lparr>sf_service = sr_DBService r, sf_family = sr_DBFamily r,
                            sf_dialect = sr_DBDialect r\<rparr>\<rparr>))))))))))"

definition parse_conn_verb :: "string \<Rightarrow> decisionVerb option" where
  "parse_conn_verb s =
     (if s = ''allow'' then Some VerbAllow
      else if s = ''deny'' then Some VerbDeny
      else if s = ''approve'' then Some VerbApprove
      else if s = ''audit'' then Some VerbAudit
      else None)"

definition parse_match_kind :: "string \<Rightarrow> connectionMatchKind option" where
  "parse_match_kind s =
     (if s = [] \<or> s = ''connect'' then Some MatchConnect
      else if s = ''cancel'' then Some MatchCancel
      else if s = ''replication'' then Some MatchReplication
      else None)"

definition compile_glob_opt ::
  "policyLib \<Rightarrow> string \<Rightarrow> string \<Rightarrow> string \<Rightarrow> compileError + string option" where
  "compile_glob_opt L name field pat =
     (if pat \<noteq> []
      then (case glob_compile L pat of
              Inl err \<Rightarrow> Inl (GlobCompile name field pat err)
            | Inr _ \<Rightarrow> Inr (Some pat))
      else Inr None)"

definition compileConnectionRule ::
  "policyLib \<Rightarrow> connectionRule \<Rightarrow> compileError + compiledConnectionRule" where
  "compileConnectionRule L r =
     bind_result (ok_or (parse_conn_verb (cr_Decision r)) (UnhandledDecision (cr_Name r) (cr_Decision r)))
      (\<lambda>verb. bind_result
         (ok_or (parse_match_kind (cr_MatchKind r)) (UnhandledMatchKind (cr_Name r) (cr_MatchKind r)))
      (\<lambda>mk. bind_result (compile_glob_opt L (cr_Name r) ''application_name'' (cr_ApplicationName r))
      (\<lambda>app. bind_result (compile_glob_opt L (cr_Name r) ''client_identity'' (cr_ClientIdentity r))
      (\<lambda>ident. bind_result (compile_message L (cr_Name r) (cr_Message r))
      (\<lambda>msg. Inr
        \<lparr>cc_src = r,
         cc_verb = verb,
         cc_matchKind = mk,
         cc_dbUsers = set (cr_DBUser r),
         cc_database = cr_Database r,
         cc_applicationName = app,
         cc_clientIdentity = ident,
         cc_timeout = compile_timeout (cr_Decision r) (cr_Timeout r),
         cc_msgTemplate = msg,
         cc_serviceFilter = \<lparr>sf_service = cr_DBService r, sf_family = [], sf_dialect = []\<rparr>\<rparr>)))))"

section \<open>Matchers\<close>

definition hasObjectSelectors :: "compiledStatementRule \<Rightarrow> bool" where
  "hasObjectSelectors c =
     (length (c_objects c) > 0 \<or> length (c_relations c) > 0 \<or> length (c_functions c) > 0)"

definition coversAllObjects :: "compiledStatementRule \<Rightarrow> bool" where
  "coversAllObjects c = (\<not> hasObjectSelectors c)"

definition matchesResolution :: "compiledStatementRule \<Rightarrow> resolution \<Rightarrow> bool" where
  "matchesResolution c r = resolutionMatcher_matches (c_resolution c) r"

definition objectMatchField :: "objectRef \<Rightarrow> string" where
  "objectMatchField obj =
     (if or_Kind obj = ObjectExternalEndpoint then or_Host obj
      else if or_Kind obj = ObjectFilesystemPath then or_Path obj
      else if or_Kind obj = ObjectProgram then or_Argv0 obj
      else or_Name obj)"

definition objectMatches :: "policyLib \<Rightarrow> compiledStatementRule \<Rightarrow> objectRef \<Rightarrow> bool" where
  "objectMatches L c obj =
     (if coversAllObjects c then True
      else list_ex (\<lambda>g. glob_match L g (objectMatchField obj)) (c_objects c))"

text \<open>The pair \<open>(resolved, hasResolved)\<close> is one option.\<close>

definition schemaMatchesObjectSlot ::
  "policyLib \<Rightarrow> compiledStatementRule \<Rightarrow> objectRef \<Rightarrow> resolvedObjectRef option \<Rightarrow> bool" where
  "schemaMatchesObjectSlot L c obj resolved =
     (if c_schemas c = [] then True
      else list_ex
        (\<lambda>g. (or_Schema obj \<noteq> [] \<and> glob_match L g (or_Schema obj)) \<or>
             (case resolved of None \<Rightarrow> False
              | Some r \<Rightarrow> ro_Schema r \<noteq> [] \<and> glob_match L g (ro_Schema r)))
        (c_schemas c))"

definition schemaMatchesResolvedObject ::
  "policyLib \<Rightarrow> compiledStatementRule \<Rightarrow> resolvedObjectRef \<Rightarrow> bool" where
  "schemaMatchesResolvedObject L c resolved =
     (if c_schemas c = [] then True
      else if ro_Schema resolved = [] then False
      else list_ex (\<lambda>g. glob_match L g (ro_Schema resolved)) (c_schemas c))"

definition relationMatches :: "policyLib \<Rightarrow> compiledStatementRule \<Rightarrow> resolvedObjectRef \<Rightarrow> bool" where
  "relationMatches L c r =
     (if c_relations c = [] then False
      else if ro_Source r \<noteq> ResolvedObjectSourceCatalog \<or> ro_Kind r \<noteq> ResolvedObjectRelation \<or>
              ro_UnresolvedReason r \<noteq> [] then False
      else list_ex (\<lambda>g. glob_match L g (CanonicalName r)) (c_relations c))"

definition resolvedFunctionIdentity :: "resolvedObjectRef \<Rightarrow> string" where
  "resolvedFunctionIdentity r = CanonicalName r @ ''('' @ ro_FunctionIdentityArgs r @ '')''"

definition functionMatches :: "policyLib \<Rightarrow> compiledStatementRule \<Rightarrow> resolvedObjectRef \<Rightarrow> bool" where
  "functionMatches L c r =
     (if c_functions c = [] then False
      else if ro_Source r \<noteq> ResolvedObjectSourceCatalog \<or> ro_Kind r \<noteq> ResolvedObjectFunction \<or>
              ro_UnresolvedReason r \<noteq> [] then False
      else list_ex (\<lambda>g. glob_match L g (resolvedFunctionIdentity r)) (c_functions c))"

text \<open>A failing template is rendered as \<open><message render error: ...>\<close> around the error text.\<close>

definition render_template :: "policyLib \<Rightarrow> string option \<Rightarrow> string \<Rightarrow> messageContext \<Rightarrow> string" where
  "render_template L tmpl raw ctx =
     (case tmpl of
        None \<Rightarrow> raw
      | Some t \<Rightarrow> (case template_execute L t ctx of
                     Inl err \<Rightarrow> ''<message render error: '' @ err @ ''>''
                   | Inr s \<Rightarrow> s))"

definition renderMessage :: "policyLib \<Rightarrow> compiledStatementRule \<Rightarrow> messageContext \<Rightarrow> string" where
  "renderMessage L c ctx = render_template L (c_msgTemplate c) (sr_Message (c_src c)) ctx"

definition conn_renderMessage :: "policyLib \<Rightarrow> compiledConnectionRule \<Rightarrow> messageContext \<Rightarrow> string" where
  "conn_renderMessage L c ctx = render_template L (cc_msgTemplate c) (cr_Message (cc_src c)) ctx"

section \<open>Accessors of a rule set (\<open>types.go\<close>)\<close>

text \<open>A nil \<open>*RuleSet\<close> is \<^const>\<open>None\<close>; a missing service reads as a nil \<open>*DBService\<close>.\<close>

definition statementRulesFor :: "ruleSet \<Rightarrow> serviceID \<Rightarrow> compiledStatementRule list" where
  "statementRulesFor rs svc =
     filter (\<lambda>r. serviceFilter_matches (c_serviceFilter r) svc (map_of (rs_services rs) svc))
       (rs_statement rs)"

definition RuleSet_Redaction :: "ruleSet option \<Rightarrow> redactionConfig" where
  "RuleSet_Redaction rs =
     (case rs of
        None \<Rightarrow> \<lparr>rc_LogStatements = RedactNone, rc_ApprovalStatementPreview = RedactNone,
                 rc_ApprovalStatementChars = 0, rc_EscalateUnknownFunctions = False,
                 rc_SafeFunctionAllowlist = []\<rparr>
      | Some r \<Rightarrow> rs_redaction r)"

definition RuleSet_Service :: "ruleSet option \<Rightarrow> serviceID \<Rightarrow> dbService option" where
  "RuleSet_Service rs sid = (case rs of None \<Rightarrow> None | Some r \<Rightarrow> map_of (rs_services r) sid)"

definition AllServices :: "ruleSet option \<Rightarrow> dbService list" where
  "AllServices rs = (case rs of None \<Rightarrow> [] | Some r \<Rightarrow> map snd (rs_services r))"

definition AllStatementRules :: "ruleSet option \<Rightarrow> statementRule list" where
  "AllStatementRules rs = (case rs of None \<Rightarrow> [] | Some r \<Rightarrow> map c_src (rs_statement r))"

definition UsesCanonicalSelectors :: "ruleSet option \<Rightarrow> serviceID \<Rightarrow> bool" where
  "UsesCanonicalSelectors rs svc =
     (case rs of None \<Rightarrow> False
      | Some r \<Rightarrow> list_ex (\<lambda>c. length (c_relations c) > 0 \<or> length (c_functions c) > 0)
                   (statementRulesFor r svc))"

definition RuleSet_Unavoidability :: "ruleSet option \<Rightarrow> unavoidability" where
  "RuleSet_Unavoidability rs = (case rs of None \<Rightarrow> UnavoidabilityOff | Some r \<Rightarrow> rs_unavoidability r)"

section \<open>What compilation guarantees\<close>

lemma ok_or_simps [simp]:
  "ok_or x e = Inr a \<longleftrightarrow> x = Some a" "ok_or x e = Inl e' \<longleftrightarrow> x = None \<and> e' = e"
  by (auto simp: ok_or_def split: option.splits)

lemma compile_globs_Inr: "compile_globs L name field pats = Inr gs \<Longrightarrow> gs = pats"
  unfolding compile_globs_def
  by (induction pats arbitrary: gs) (auto simp: bind_result_Inr_iff split: sum.splits)

lemma list_all2_Some: "list_all2 (\<lambda>x y. f x = Some y) xs ys \<longleftrightarrow> map f xs = map Some ys"
  by (auto simp: list_all2_conv_all_nth list_eq_iff_nth_eq)

text \<open>The compiled form, field by field, of a rule that compiles.\<close>

lemma compileStatementRule_Inr:
  assumes "compileStatementRule L r = Inr c"
  shows "c_src c = r"
    and "parse_verb (sr_Decision r) = Some (c_verb c)"
    and "\<exists>gss. map ExpandAlias (sr_Operations r) = map Some gss \<and> c_groups c = set (concat gss)"
    and "\<exists>sts. map ParseSubtype (sr_Subtypes r) = map Some sts \<and> c_subtypes c = set sts"
    and "compile_redirect r (c_verb c) = Inr (c_redirect c)"
    and "compile_resolution r = Inr (c_resolution c)"
    and "c_schemas c = sr_Schemas r" "c_objects c = sr_Objects r"
    and "c_relations c = sr_Relations r" "c_functions c = sr_Functions r"
    and "c_requireWhere c = sr_RequireWhere r"
    and "c_timeout c = compile_timeout (sr_Decision r) (sr_Timeout r)"
    and "c_serviceFilter c = \<lparr>sf_service = sr_DBService r, sf_family = sr_DBFamily r,
                              sf_dialect = sr_DBDialect r\<rparr>"
  using assms
  by (auto simp: compileStatementRule_def bind_result_Inr_iff map_result_Inr_iff list_all2_Some
      dest!: compile_globs_Inr)

lemma compiled_redirect:
  assumes "compileStatementRule L r = Inr c"
  shows "c_verb c = VerbRedirect \<longleftrightarrow> c_redirect c \<noteq> None"
  using compileStatementRule_Inr(5) [OF assms]
  by (auto simp: compile_redirect_def split: if_splits list.splits option.splits dest: sym)

lemma compileConnectionRule_verb:
  "compileConnectionRule L r = Inr c \<Longrightarrow> cc_verb c \<noteq> VerbRedirect"
  by (auto simp: compileConnectionRule_def bind_result_Inr_iff parse_conn_verb_def split: if_splits)

lemma compiled_unknown_group:
  assumes "compileStatementRule L r = Inr c" and "GroupUnknown \<in> c_groups c"
  shows "''unknown'' \<in> set (sr_Operations r)"
proof -
  from compileStatementRule_Inr(3) [OF assms(1)] assms(2) obtain gss gs where
    gss: "map ExpandAlias (sr_Operations r) = map Some gss" "gs \<in> set gss" "GroupUnknown \<in> set gs"
    by auto
  then have "Some gs \<in> ExpandAlias ` set (sr_Operations r)"
    by (metis image_eqI image_set)
  then obtain op where "op \<in> set (sr_Operations r)" "ExpandAlias op = Some gs" by auto
  with gss(3) show ?thesis using ExpandAlias_reaches_unknown by blast
qed

end
