(* ===== verification/Db_Evaluate.thy ===== *)
theory Db_Evaluate
  imports Db_Compile
begin

text \<open>
  The statement and connection evaluators: \<open>internal/db/policy/evaluate.go\<close> and
  \<open>evaluate_conn.go\<close>. Definitions in the order of the source; the declarative verdict and the
  refinement theorem follow in \<open>Db_Verdict\<close>.

  Slot indices range over the objects of an effect and are natural numbers. A Go pointer to a
  compiled rule is the rule itself, a nil pointer \<^const>\<open>None\<close>. The coverage map, keyed by slot, is
  the list of its values in slot order. The set \<open>covered\<close> of rule pointers is represented by rule
  values: two rules with equal values match the same objects, so membership agrees.
\<close>

section \<open>Internal verdicts\<close>

datatype internalVerb = verbAllow | verbAudit | verbRedirect | verbApprove | verbImplicitDeny | verbDeny

fun internal_num :: "internalVerb \<Rightarrow> nat" where
  "internal_num verbAllow = 0"
| "internal_num verbAudit = 1"
| "internal_num verbRedirect = 2"
| "internal_num verbApprove = 3"
| "internal_num verbImplicitDeny = 4"
| "internal_num verbDeny = 5"

lemma internal_num_inj: "internal_num a = internal_num b \<Longrightarrow> a = b"
  by (cases a; cases b) simp_all

instantiation internalVerb :: linorder
begin

definition less_eq_internalVerb :: "internalVerb \<Rightarrow> internalVerb \<Rightarrow> bool" where
  "less_eq_internalVerb a b \<longleftrightarrow> internal_num a \<le> internal_num b"

definition less_internalVerb :: "internalVerb \<Rightarrow> internalVerb \<Rightarrow> bool" where
  "less_internalVerb a b \<longleftrightarrow> internal_num a < internal_num b"

instance
  by standard (auto simp: less_eq_internalVerb_def less_internalVerb_def intro: internal_num_inj)

end

definition compareInternalVerb :: "internalVerb \<Rightarrow> internalVerb \<Rightarrow> int" where
  "compareInternalVerb a b = (if a > b then 1 else if a < b then -1 else 0)"

record effectDecision =
  ed_verb :: internalVerb
  ed_rule :: "compiledStatementRule option"
  ed_contributingApprove :: "compiledStatementRule list"
  ed_contributingAudit :: "compiledStatementRule list"
  ed_uncoveredObject :: objectRef
  ed_denyMatchingObject :: objectRef

abbreviation zeroObject :: objectRef where
  "zeroObject \<equiv> \<lparr>or_Kind = ObjectKindZero, or_Schema = [], or_Name = [], or_Host = [],
                  or_Port = 0, or_Path = [], or_Argv0 = []\<rparr>"

definition simpleDecision :: "internalVerb \<Rightarrow> compiledStatementRule option \<Rightarrow> effectDecision" where
  "simpleDecision v r =
     \<lparr>ed_verb = v, ed_rule = r, ed_contributingApprove = [], ed_contributingAudit = [],
      ed_uncoveredObject = zeroObject, ed_denyMatchingObject = zeroObject\<rparr>"

section \<open>Slots and resolved objects\<close>

definition isRelationObjectKind :: "objectKind \<Rightarrow> bool" where
  "isRelationObjectKind kind = (kind \<in> {ObjectTable, ObjectView, ObjectSequence})"

definition resolvedObjectCompatibleWithSlot :: "objectRef \<Rightarrow> resolvedObjectRef \<Rightarrow> bool" where
  "resolvedObjectCompatibleWithSlot obj resolved =
     (if or_Name obj = [] \<or> ro_Name resolved = [] \<or> or_Name obj \<noteq> ro_Name resolved then False
      else if or_Schema obj \<noteq> [] \<and> or_Schema obj \<noteq> ro_Schema resolved then False
      else if ro_Kind resolved = ResolvedObjectRelation then isRelationObjectKind (or_Kind obj)
      else if ro_Kind resolved = ResolvedObjectFunction then or_Kind obj = ObjectFunction
      else False)"

text \<open>
  The two ordinal loops count the earlier slots of the same family, the two lookups walk to the
  entry with that ordinal among the resolved objects of the family.
\<close>

fun ordinal_loop :: "(objectRef \<Rightarrow> bool) \<Rightarrow> objectRef list \<Rightarrow> nat \<Rightarrow> nat \<Rightarrow> int \<Rightarrow> int" where
  "ordinal_loop P [] i idx ordinal = -1"
| "ordinal_loop P (obj # objs) i idx ordinal =
     (if i > idx then -1
      else if \<not> P obj then ordinal_loop P objs (i + 1) idx ordinal
      else if i = idx then ordinal
      else ordinal_loop P objs (i + 1) idx (ordinal + 1))"

definition relationObjectSlotOrdinal :: "objectRef list \<Rightarrow> nat \<Rightarrow> int" where
  "relationObjectSlotOrdinal objects idx =
     ordinal_loop (\<lambda>obj. isRelationObjectKind (or_Kind obj)) objects 0 idx 0"

definition functionObjectSlotOrdinal :: "objectRef list \<Rightarrow> nat \<Rightarrow> int" where
  "functionObjectSlotOrdinal objects idx =
     ordinal_loop (\<lambda>obj. or_Kind obj = ObjectFunction) objects 0 idx 0"

fun lookup_loop :: "(resolvedObjectRef \<Rightarrow> bool) \<Rightarrow> int \<Rightarrow> int \<Rightarrow> resolvedObjectRef list \<Rightarrow> resolvedObjectRef option" where
  "lookup_loop P ordinal seen [] = None"
| "lookup_loop P ordinal seen (r # rs) =
     (if \<not> P r then lookup_loop P ordinal seen rs
      else if seen = ordinal then Some r
      else lookup_loop P ordinal (seen + 1) rs)"

definition resolvedRelationObjectAtOrdinal :: "resolvedObjectRef list \<Rightarrow> int \<Rightarrow> resolvedObjectRef option" where
  "resolvedRelationObjectAtOrdinal rs ordinal =
     (if ordinal < 0 then None else lookup_loop (\<lambda>r. ro_Kind r = ResolvedObjectRelation) ordinal 0 rs)"

definition resolvedFunctionObjectAtOrdinal :: "resolvedObjectRef list \<Rightarrow> int \<Rightarrow> resolvedObjectRef option" where
  "resolvedFunctionObjectAtOrdinal rs ordinal =
     (if ordinal < 0 then None else lookup_loop (\<lambda>r. ro_Kind r = ResolvedObjectFunction) ordinal 0 rs)"

definition resolvedObjectForSlot :: "effect \<Rightarrow> nat \<Rightarrow> resolvedObjectRef option" where
  "resolvedObjectForSlot e idx =
     (if idx \<ge> length (ef_Objects e) then None
      else let obj = ef_Objects e ! idx in
        if isRelationObjectKind (or_Kind obj)
        then (case resolvedRelationObjectAtOrdinal (ef_ResolvedObjects e)
                     (relationObjectSlotOrdinal (ef_Objects e) idx) of
                None \<Rightarrow> None
              | Some resolved \<Rightarrow>
                  if \<not> resolvedObjectCompatibleWithSlot obj resolved then None else Some resolved)
        else if or_Kind obj = ObjectFunction
        then (case resolvedFunctionObjectAtOrdinal (ef_ResolvedObjects e)
                     (functionObjectSlotOrdinal (ef_Objects e) idx) of
                None \<Rightarrow> None
              | Some resolved \<Rightarrow>
                  if \<not> resolvedObjectCompatibleWithSlot obj resolved then None else Some resolved)
        else List.find (resolvedObjectCompatibleWithSlot obj) (ef_ResolvedObjects e))"

text \<open>The second component is the name of the selector family that matched.\<close>

definition ruleMatchesObjectSlot ::
  "policyLib \<Rightarrow> compiledStatementRule \<Rightarrow> effect \<Rightarrow> nat \<Rightarrow> bool \<times> string" where
  "ruleMatchesObjectSlot L r e idx =
     (if idx \<ge> length (ef_Objects e) then (False, [])
      else let obj = ef_Objects e ! idx; resolved = resolvedObjectForSlot e idx in
        if \<not> schemaMatchesObjectSlot L r obj resolved then (False, [])
        else if \<not> hasObjectSelectors r then (True, ''all'')
        else if length (c_objects r) > 0 \<and> objectMatches L r obj then (True, ''objects'')
        else if (case resolved of None \<Rightarrow> False | Some ro \<Rightarrow> relationMatches L r ro)
        then (True, ''relations'')
        else if (case resolved of None \<Rightarrow> False | Some ro \<Rightarrow> functionMatches L r ro)
        then (True, ''functions'')
        else (False, []))"

definition ruleMatchesEffectMeta :: "compiledStatementRule \<Rightarrow> effect \<Rightarrow> bool" where
  "ruleMatchesEffectMeta r e =
     (if ef_Group e \<notin> c_groups r then False
      else if c_requireWhere r \<and> \<not> ef_HasWhere e then False
      else if c_subtypes r \<noteq> {} \<and> ef_Subtype e \<notin> c_subtypes r then False
      else matchesResolution r (ef_Resolution e))"

section \<open>Folding the covering rules\<close>

text \<open>
  The accumulator of \<open>foldCoverageRules\<close>: \<open>best\<close>, \<open>redirectRule\<close>, \<open>approveRules\<close> with
  \<open>approveSeen\<close>, \<open>auditRules\<close> with \<open>auditSeen\<close>.
\<close>

record coverageAcc =
  acc_best :: internalVerb
  acc_redirect :: "compiledStatementRule option"
  acc_approve :: "compiledStatementRule list"
  acc_approveSeen :: "string set"
  acc_audit :: "compiledStatementRule list"
  acc_auditSeen :: "string set"

definition coverage_step :: "coverageAcc \<Rightarrow> compiledStatementRule \<Rightarrow> coverageAcc" where
  "coverage_step a r =
     (case c_verb r of
        VerbRedirect \<Rightarrow>
          a\<lparr>acc_best := (if verbRedirect > acc_best a then verbRedirect else acc_best a),
            acc_redirect := (case acc_redirect a of None \<Rightarrow> Some r | Some q \<Rightarrow> Some q)\<rparr>
      | VerbApprove \<Rightarrow>
          (let a' = a\<lparr>acc_best := (if verbApprove > acc_best a then verbApprove else acc_best a)\<rparr>
           in if sr_Name (c_src r) \<in> acc_approveSeen a' then a'
              else a'\<lparr>acc_approveSeen := insert (sr_Name (c_src r)) (acc_approveSeen a'),
                      acc_approve := acc_approve a' @ [r]\<rparr>)
      | VerbAudit \<Rightarrow>
          (let a' = a\<lparr>acc_best := (if verbAudit > acc_best a then verbAudit else acc_best a)\<rparr>
           in if sr_Name (c_src r) \<in> acc_auditSeen a' then a'
              else a'\<lparr>acc_auditSeen := insert (sr_Name (c_src r)) (acc_auditSeen a'),
                      acc_audit := acc_audit a' @ [r]\<rparr>)
      | _ \<Rightarrow> a)"

definition foldCoverageRules :: "compiledStatementRule list \<Rightarrow> effectDecision" where
  "foldCoverageRules coverage =
     (let a = foldl coverage_step
                \<lparr>acc_best = verbAllow, acc_redirect = None, acc_approve = [], acc_approveSeen = {},
                 acc_audit = [], acc_auditSeen = {}\<rparr> coverage;
          primary = (case acc_best a of
                       verbApprove \<Rightarrow> Some (acc_approve a ! 0)
                     | verbRedirect \<Rightarrow> acc_redirect a
                     | verbAudit \<Rightarrow> Some (acc_audit a ! 0)
                     | _ \<Rightarrow> Some (coverage ! 0))
      in \<lparr>ed_verb = acc_best a, ed_rule = primary, ed_contributingApprove = acc_approve a,
          ed_contributingAudit = acc_audit a, ed_uncoveredObject = zeroObject,
          ed_denyMatchingObject = zeroObject\<rparr>)"

definition coverageRulesInPolicyOrder ::
  "compiledStatementRule list \<Rightarrow> compiledStatementRule list list \<Rightarrow> compiledStatementRule list" where
  "coverageRulesInPolicyOrder applicable coverage =
     filter (\<lambda>r. r \<in> set (concat coverage)) applicable"

definition redirectSourceCount :: "compiledStatementRule list list \<Rightarrow> nat" where
  "redirectSourceCount coverage =
     card (set (concat (map (\<lambda>r. if c_verb r = VerbRedirect
                                  then (case c_redirect r of
                                          None \<Rightarrow> [] | Some rd \<Rightarrow> [rd_SourceRelation rd])
                                  else []) (concat coverage))))"

definition foldObjectCoverageRules ::
  "compiledStatementRule list \<Rightarrow> compiledStatementRule list list \<Rightarrow> effectDecision" where
  "foldObjectCoverageRules applicable coverage =
     (let d = foldCoverageRules (coverageRulesInPolicyOrder applicable coverage)
      in if ed_verb d \<noteq> verbRedirect then d
         else if redirectSourceCount coverage \<noteq> 1 then simpleDecision verbImplicitDeny None
         else d)"

section \<open>Evaluating one effect\<close>

definition isObjectlessGroup :: "group \<Rightarrow> bool" where
  "isObjectlessGroup g = (g \<in> {GroupTransaction, GroupSession, GroupNotify})"

definition isObjectlessEffect :: "effect \<Rightarrow> bool" where
  "isObjectlessEffect e =
     (if isObjectlessGroup (ef_Group e) then True
      else ef_Subtype e = SubtypeFunctionCallProtocol \<and> length (ef_ResolvedObjects e) = 0)"

definition isResolvedOnlyFunctionEffect :: "effect \<Rightarrow> bool" where
  "isResolvedOnlyFunctionEffect e =
     (if length (ef_Objects e) \<noteq> 0 \<or> ef_Group e \<noteq> GroupProcedural then False
      else list_ex (\<lambda>r. ro_Kind r = ResolvedObjectFunction) (ef_ResolvedObjects e))"

definition resolvedOnlyFunctionRuleMatches ::
  "policyLib \<Rightarrow> compiledStatementRule \<Rightarrow> resolvedObjectRef \<Rightarrow> bool" where
  "resolvedOnlyFunctionRuleMatches L r resolved =
     (ro_Kind resolved = ResolvedObjectFunction \<and> schemaMatchesResolvedObject L r resolved)"

text \<open>The inner loop over the resolved objects, shared by the deny and the coverage pass.\<close>

definition matches_some_resolved :: "policyLib \<Rightarrow> compiledStatementRule \<Rightarrow> effect \<Rightarrow> bool" where
  "matches_some_resolved L r e =
     list_ex (\<lambda>ro. resolvedOnlyFunctionRuleMatches L r ro \<and>
                   (\<not> hasObjectSelectors r \<or> functionMatches L r ro)) (ef_ResolvedObjects e)"

definition evaluateEffectResolvedOnly ::
  "policyLib \<Rightarrow> effect \<Rightarrow> compiledStatementRule list \<Rightarrow> effectDecision" where
  "evaluateEffectResolvedOnly L e applicable =
     (case List.find (\<lambda>r. \<not> (c_verb r \<noteq> VerbDeny \<or> \<not> ruleMatchesEffectMeta r e) \<and>
                          matches_some_resolved L r e) applicable of
        Some r \<Rightarrow> simpleDecision verbDeny (Some r)
      | None \<Rightarrow>
          (let coverage = filter (\<lambda>r. \<not> (c_verb r = VerbDeny \<or> \<not> ruleMatchesEffectMeta r e) \<and>
                                      matches_some_resolved L r e) applicable
           in if coverage = [] then simpleDecision verbImplicitDeny None
              else foldCoverageRules coverage))"

definition evaluateEffectObjectless :: "effect \<Rightarrow> compiledStatementRule list \<Rightarrow> effectDecision" where
  "evaluateEffectObjectless e applicable =
     (case List.find (\<lambda>r. c_verb r = VerbDeny \<and> ruleMatchesEffectMeta r e \<and> coversAllObjects r)
             applicable of
        Some r \<Rightarrow> simpleDecision verbDeny (Some r)
      | None \<Rightarrow>
          (let coverage = filter (\<lambda>r. c_verb r \<noteq> VerbDeny \<and> ruleMatchesEffectMeta r e \<and>
                                      coversAllObjects r) applicable
           in if coverage = [] then simpleDecision verbImplicitDeny None
              else foldCoverageRules coverage))"

text \<open>Pass 1: the first deny rule that matches some slot, with the first such slot.\<close>

fun deny_pass :: "policyLib \<Rightarrow> effect \<Rightarrow> compiledStatementRule list \<Rightarrow> (compiledStatementRule \<times> nat) option" where
  "deny_pass L e [] = None"
| "deny_pass L e (r # rs) =
     (if c_verb r \<noteq> VerbDeny then deny_pass L e rs
      else if \<not> ruleMatchesEffectMeta r e then deny_pass L e rs
      else case List.find (\<lambda>i. fst (ruleMatchesObjectSlot L r e i)) [0..<length (ef_Objects e)] of
             Some i \<Rightarrow> Some (r, i)
           | None \<Rightarrow> deny_pass L e rs)"

text \<open>Pass 2: the non-deny rules that cover each slot, in policy order.\<close>

definition coverage_pass ::
  "policyLib \<Rightarrow> effect \<Rightarrow> compiledStatementRule list \<Rightarrow> compiledStatementRule list list" where
  "coverage_pass L e applicable =
     map (\<lambda>i. filter (\<lambda>r. c_verb r \<noteq> VerbDeny \<and> ruleMatchesEffectMeta r e \<and>
                          fst (ruleMatchesObjectSlot L r e i)) applicable)
       [0..<length (ef_Objects e)]"

definition evaluateEffect :: "policyLib \<Rightarrow> effect \<Rightarrow> compiledStatementRule list \<Rightarrow> effectDecision" where
  "evaluateEffect L e applicable =
     (if length (ef_Objects e) = 0
      then if isResolvedOnlyFunctionEffect e then evaluateEffectResolvedOnly L e applicable
           else if isObjectlessEffect e then evaluateEffectObjectless e applicable
           else simpleDecision verbImplicitDeny None
      else case deny_pass L e applicable of
        Some (r, i) \<Rightarrow> (simpleDecision verbDeny (Some r))\<lparr>ed_denyMatchingObject := ef_Objects e ! i\<rparr>
      | None \<Rightarrow>
          (let coverage = coverage_pass L e applicable
           in case List.find (\<lambda>i. length (coverage ! i) = 0) [0..<length (ef_Objects e)] of
                Some i \<Rightarrow>
                  (simpleDecision verbImplicitDeny None)\<lparr>ed_uncoveredObject := ef_Objects e ! i\<rparr>
              | None \<Rightarrow> foldObjectCoverageRules applicable coverage))"

section \<open>Evaluating a statement\<close>

definition messageContextFor :: "effect \<Rightarrow> classifiedStatement \<Rightarrow> messageContext" where
  "messageContextFor e stmt =
     \<lparr>mc_Operation = Group_String (ef_Group e),
      mc_Subtype = (if ef_Subtype e \<noteq> SubtypeNone then Subtype_String (ef_Subtype e) else []),
      mc_Schema = (case ef_Objects e of [] \<Rightarrow> [] | obj # _ \<Rightarrow> or_Schema obj),
      mc_Object = (case ef_Objects e of [] \<Rightarrow> [] | obj # _ \<Rightarrow> objectMatchField obj),
      mc_Verb = cs_RawVerb stmt,
      mc_StatementPreview = []\<rparr>"

definition implicitDeny :: "classifiedStatement \<Rightarrow> nat \<Rightarrow> reason \<Rightarrow> decision" where
  "implicitDeny stmt idx why =
     \<lparr>dec_Verb = VerbDeny, dec_RuleKind = RuleKindStatement, dec_RuleName = [],
      dec_MatchingEffectIndex = int idx,
      dec_MatchingEffectGroup =
        (if idx < length (cs_Effects stmt) then ef_Group (cs_Effects stmt ! idx) else Group 0),
      dec_Reason = why, dec_ContributingAuditRules = [], dec_Approval = None, dec_Redirect = None\<rparr>"

text \<open>The fields every non-implicit verdict sets from its effect and its primary rule.\<close>

definition ruleDecision ::
  "policyLib \<Rightarrow> decisionVerb \<Rightarrow> compiledStatementRule \<Rightarrow> nat \<Rightarrow> effect \<Rightarrow> classifiedStatement \<Rightarrow> decision" where
  "ruleDecision L verb r idx e stmt =
     \<lparr>dec_Verb = verb, dec_RuleKind = RuleKindStatement, dec_RuleName = sr_Name (c_src r),
      dec_MatchingEffectIndex = int idx, dec_MatchingEffectGroup = ef_Group e,
      dec_Reason = ReasonText (renderMessage L r (messageContextFor e stmt)),
      dec_ContributingAuditRules = [], dec_Approval = None, dec_Redirect = None\<rparr>"

definition shortestTimeout :: "compiledStatementRule list \<Rightarrow> duration" where
  "shortestTimeout rs =
     foldl (\<lambda>t r. if c_timeout r < t then c_timeout r else t) (c_timeout (rs ! 0)) rs"

definition bestEffectIndex :: "effectDecision list \<Rightarrow> nat" where
  "bestEffectIndex perEffect =
     foldl (\<lambda>best i. if compareInternalVerb (ed_verb (perEffect ! i)) (ed_verb (perEffect ! best)) > 0
                     then i else best) 0 [1..<length perEffect]"

definition foldEffects :: "policyLib \<Rightarrow> classifiedStatement \<Rightarrow> effectDecision list \<Rightarrow> decision" where
  "foldEffects L stmt perEffect =
     (let idx = bestEffectIndex perEffect; d = perEffect ! idx; e = cs_Effects stmt ! idx;
          rule = the (ed_rule d)
      in case ed_verb d of
           verbAllow \<Rightarrow> ruleDecision L VerbAllow rule idx e stmt
         | verbAudit \<Rightarrow> ruleDecision L VerbAudit rule idx e stmt
         | verbRedirect \<Rightarrow> (ruleDecision L VerbRedirect rule idx e stmt)\<lparr>dec_Redirect := c_redirect rule\<rparr>
         | verbApprove \<Rightarrow>
             (ruleDecision L VerbApprove rule idx e stmt)
               \<lparr>dec_ContributingAuditRules := map (\<lambda>r. sr_Name (c_src r)) (ed_contributingAudit d),
                dec_Approval := Some \<lparr>ap_Timeout = shortestTimeout (ed_contributingApprove d),
                  ap_ContributingApproveRules = map (\<lambda>r. sr_Name (c_src r)) (ed_contributingApprove d)\<rparr>\<rparr>
         | verbImplicitDeny \<Rightarrow>
             implicitDeny stmt idx
               (ReasonNoRuleCovers (objectMatchField (ed_uncoveredObject d)) (Group_String (ef_Group e)))
         | verbDeny \<Rightarrow> ruleDecision L VerbDeny rule idx e stmt)"

definition Evaluate :: "policyLib \<Rightarrow> classifiedStatement \<Rightarrow> ruleSet option \<Rightarrow> serviceID \<Rightarrow> decision" where
  "Evaluate L stmt rs svc =
     (case rs of
        None \<Rightarrow> implicitDeny stmt 0 (ReasonText ''policy not loaded'')
      | Some rs \<Rightarrow>
          (let applicable = statementRulesFor rs svc
           in if length (cs_Effects stmt) = 0
              then implicitDeny stmt 0 (ReasonText ''no effects on statement'')
              else foldEffects L stmt (map (\<lambda>e. evaluateEffect L e applicable) (cs_Effects stmt))))"

section \<open>Evaluating a connection (\<open>evaluate_conn.go\<close>)\<close>

definition connRuleMatchesInfo :: "policyLib \<Rightarrow> compiledConnectionRule \<Rightarrow> connectionInfo \<Rightarrow> bool" where
  "connRuleMatchesInfo L r info =
     (if cc_dbUsers r \<noteq> {} \<and> ci_DBUser info \<notin> cc_dbUsers r then False
      else if cc_database r \<noteq> [] \<and> cc_database r \<noteq> ci_Database info then False
      else if (case cc_applicationName r of None \<Rightarrow> False
               | Some g \<Rightarrow> \<not> glob_match L g (ci_ApplicationName info)) then False
      else if (case cc_clientIdentity r of None \<Rightarrow> False
               | Some g \<Rightarrow> \<not> glob_match L g (ci_ClientIdentity info)) then False
      else True)"

fun connectionRuleKindFor :: "connectionMatchKind \<Rightarrow> ruleKind" where
  "connectionRuleKindFor MatchCancel = RuleKindCancel"
| "connectionRuleKindFor _ = RuleKindConnection"

fun connKindString :: "connectionMatchKind \<Rightarrow> string" where
  "connKindString MatchConnect = ''connect''"
| "connKindString MatchCancel = ''cancel''"
| "connKindString MatchReplication = ''replication''"

fun connVerbRank :: "decisionVerb \<Rightarrow> int" where
  "connVerbRank VerbAllow = 0"
| "connVerbRank VerbAudit = 1"
| "connVerbRank VerbApprove = 2"
| "connVerbRank VerbDeny = 3"
| "connVerbRank VerbRedirect = -1"

definition compareConnVerb :: "decisionVerb \<Rightarrow> decisionVerb \<Rightarrow> int" where
  "compareConnVerb a b = connVerbRank a - connVerbRank b"

definition connDeny :: "connectionInfo \<Rightarrow> string \<Rightarrow> decision" where
  "connDeny info why =
     \<lparr>dec_Verb = VerbDeny, dec_RuleKind = connectionRuleKindFor (ci_MatchKind info),
      dec_RuleName = [], dec_MatchingEffectIndex = -1, dec_MatchingEffectGroup = GroupUnknown,
      dec_Reason = ReasonText why, dec_ContributingAuditRules = [], dec_Approval = None,
      dec_Redirect = None\<rparr>"

definition matchedConnRules :: "policyLib \<Rightarrow> connectionInfo \<Rightarrow> ruleSet \<Rightarrow> compiledConnectionRule list" where
  "matchedConnRules L info rs =
     filter (\<lambda>r. cc_matchKind r = ci_MatchKind info \<and>
                 \<not> (sf_service (cc_serviceFilter r) \<noteq> [] \<and>
                    sf_service (cc_serviceFilter r) \<noteq> ci_Service info) \<and>
                 connRuleMatchesInfo L r info) (rs_connection rs)"

definition EvaluateConnection :: "policyLib \<Rightarrow> connectionInfo \<Rightarrow> ruleSet option \<Rightarrow> decision" where
  "EvaluateConnection L info rs =
     (case rs of
        None \<Rightarrow> connDeny info ''policy not loaded''
      | Some rs \<Rightarrow>
          (case matchedConnRules L info rs of
             [] \<Rightarrow> connDeny info ''no connection rule matched''
           | r # rest \<Rightarrow>
               (let best = foldl (\<lambda>b x. if compareConnVerb (cc_verb x) (cc_verb b) > 0 then x else b) r rest
                in \<lparr>dec_Verb = cc_verb best, dec_RuleKind = connectionRuleKindFor (ci_MatchKind info),
                    dec_RuleName = cr_Name (cc_src best), dec_MatchingEffectIndex = -1,
                    dec_MatchingEffectGroup = GroupUnknown,
                    dec_Reason = ReasonText (conn_renderMessage L best
                      \<lparr>mc_Operation = connKindString (ci_MatchKind info), mc_Subtype = [],
                       mc_Schema = [], mc_Object = [], mc_Verb = [], mc_StatementPreview = []\<rparr>),
                    dec_ContributingAuditRules = [],
                    dec_Approval = (if cc_verb best = VerbApprove
                                    then Some \<lparr>ap_Timeout = cc_timeout best,
                                               ap_ContributingApproveRules = [cr_Name (cc_src best)]\<rparr>
                                    else None),
                    dec_Redirect = None\<rparr>)))"

end
