(* ===== verification/Db_Verdict.thy ===== *)
theory Db_Verdict
  imports Db_Evaluate
begin

text \<open>
  What the statement evaluator promises, stated without its passes, slots and accumulators, and
  the proof that \<open>evaluate.go\<close> delivers it. A rule \<^emph>\<open>touches\<close> an effect when its metadata and its
  selectors match somewhere in it; an effect is \<^emph>\<open>fully covered\<close> when every object has a non-deny
  rule of its own; the verdict of an effect is deny if a deny rule touches it, implicit deny if it
  is not fully covered, and otherwise the most restrictive verb of the rules that touch it.
\<close>

section \<open>The declarative verdict\<close>

fun toInternal :: "decisionVerb \<Rightarrow> internalVerb" where
  "toInternal VerbAllow = verbAllow"
| "toInternal VerbAudit = verbAudit"
| "toInternal VerbRedirect = verbRedirect"
| "toInternal VerbApprove = verbApprove"
| "toInternal VerbDeny = verbDeny"

fun toPublic :: "internalVerb \<Rightarrow> decisionVerb" where
  "toPublic verbAllow = VerbAllow"
| "toPublic verbAudit = VerbAudit"
| "toPublic verbRedirect = VerbRedirect"
| "toPublic verbApprove = VerbApprove"
| "toPublic verbImplicitDeny = VerbDeny"
| "toPublic verbDeny = VerbDeny"

definition touches :: "policyLib \<Rightarrow> effect \<Rightarrow> compiledStatementRule \<Rightarrow> bool" where
  "touches L e r \<longleftrightarrow>
     ruleMatchesEffectMeta r e \<and>
     (if ef_Objects e \<noteq> [] then \<exists>i < length (ef_Objects e). fst (ruleMatchesObjectSlot L r e i)
      else if isResolvedOnlyFunctionEffect e then matches_some_resolved L r e
      else isObjectlessEffect e \<and> \<not> hasObjectSelectors r)"

definition covers_slot :: "policyLib \<Rightarrow> effect \<Rightarrow> nat \<Rightarrow> compiledStatementRule \<Rightarrow> bool" where
  "covers_slot L e i r \<longleftrightarrow>
     c_verb r \<noteq> VerbDeny \<and> ruleMatchesEffectMeta r e \<and> fst (ruleMatchesObjectSlot L r e i)"

definition denied :: "policyLib \<Rightarrow> effect \<Rightarrow> compiledStatementRule list \<Rightarrow> bool" where
  "denied L e rules \<longleftrightarrow> (\<exists>r \<in> set rules. c_verb r = VerbDeny \<and> touches L e r)"

definition covering :: "policyLib \<Rightarrow> effect \<Rightarrow> compiledStatementRule list \<Rightarrow> compiledStatementRule list" where
  "covering L e rules = filter (\<lambda>r. c_verb r \<noteq> VerbDeny \<and> touches L e r) rules"

definition fully_covered :: "policyLib \<Rightarrow> effect \<Rightarrow> compiledStatementRule list \<Rightarrow> bool" where
  "fully_covered L e rules \<longleftrightarrow>
     (if ef_Objects e \<noteq> [] then \<forall>i < length (ef_Objects e). \<exists>r \<in> set rules. covers_slot L e i r
      else covering L e rules \<noteq> [])"

definition redirect_source :: "compiledStatementRule \<Rightarrow> string set" where
  "redirect_source r =
     (if c_verb r = VerbRedirect
      then (case c_redirect r of None \<Rightarrow> {} | Some rd \<Rightarrow> {rd_SourceRelation rd}) else {})"

definition redirect_sources :: "policyLib \<Rightarrow> effect \<Rightarrow> compiledStatementRule list \<Rightarrow> string set" where
  "redirect_sources L e rules =
     (\<Union>r \<in> set (covering L e rules). redirect_source r)"

definition effect_verdict :: "policyLib \<Rightarrow> effect \<Rightarrow> compiledStatementRule list \<Rightarrow> internalVerb" where
  "effect_verdict L e rules =
     (if denied L e rules then verbDeny
      else if \<not> fully_covered L e rules then verbImplicitDeny
      else let v = Max (toInternal ` c_verb ` set (covering L e rules))
           in if v = verbRedirect \<and> ef_Objects e \<noteq> [] \<and> card (redirect_sources L e rules) \<noteq> 1
              then verbImplicitDeny else v)"

definition statement_verdict ::
  "policyLib \<Rightarrow> classifiedStatement \<Rightarrow> compiledStatementRule list \<Rightarrow> decisionVerb" where
  "statement_verdict L stmt rules =
     (if cs_Effects stmt = [] then VerbDeny
      else toPublic (Max ((\<lambda>e. effect_verdict L e rules) ` set (cs_Effects stmt))))"

section \<open>Folding covering rules\<close>

lemmas internalVerb_order = less_eq_internalVerb_def less_internalVerb_def

lemma verbAllow_least [simp]: "verbAllow \<le> v"
  by (cases v) (simp_all add: internalVerb_order)

lemma max_verbAllow [simp]: "max v verbAllow = v" "max verbAllow v = v"
  by (simp_all add: max_def antisym)

lemma toPublic_toInternal [simp]: "toPublic (toInternal v) = v"
  by (cases v) simp_all

lemma toInternal_eq_iff [simp]: "toInternal a = toInternal b \<longleftrightarrow> a = b"
  by (cases a; cases b) simp_all

lemma toInternal_mono: "toInternal a \<le> toInternal b \<longleftrightarrow> a \<le> b"
  by (cases a; cases b) (simp_all add: internalVerb_order less_eq_decisionVerb_def)

lemma toPublic_mono: "a \<le> b \<Longrightarrow> toPublic a \<le> toPublic b"
  by (cases a; cases b) (simp_all add: internalVerb_order less_eq_decisionVerb_def)

abbreviation ruleName :: "compiledStatementRule \<Rightarrow> string" where
  "ruleName r \<equiv> sr_Name (c_src r)"

abbreviation acc0 :: coverageAcc where
  "acc0 \<equiv> \<lparr>acc_best = verbAllow, acc_redirect = None, acc_approve = [], acc_approveSeen = {},
           acc_audit = [], acc_auditSeen = {}\<rparr>"

definition best_verb :: "compiledStatementRule list \<Rightarrow> internalVerb" where
  "best_verb rs = foldl (\<lambda>b r. max b (toInternal (c_verb r))) verbAllow rs"

lemma best_verb_snoc [simp]: "best_verb (rs @ [r]) = max (best_verb rs) (toInternal (c_verb r))"
  by (simp add: best_verb_def)

lemma best_verb_Nil [simp]: "best_verb [] = verbAllow"
  by (simp add: best_verb_def)

lemma best_verb_ge: "r \<in> set rs \<Longrightarrow> toInternal (c_verb r) \<le> best_verb rs"
  by (induction rs rule: rev_induct) (auto simp: le_max_iff_disj)

lemma best_verb_in: "rs \<noteq> [] \<Longrightarrow> \<exists>r \<in> set rs. toInternal (c_verb r) = best_verb rs"
proof (induction rs rule: rev_induct)
  case (snoc r rs)
  show ?case
  proof (cases "rs = []")
    case True
    then show ?thesis using best_verb_snoc [of "[]" r] by simp
  next
    case False
    with snoc show ?thesis by (auto simp: max_def)
  qed
qed simp

lemma best_verb_Max: "rs \<noteq> [] \<Longrightarrow> best_verb rs = Max (toInternal ` c_verb ` set rs)"
  using best_verb_in [of rs] best_verb_ge [of _ rs]
  by (intro Max_eqI [symmetric]) (auto simp: image_iff intro: sym)

lemma coverage_fold:
  assumes "\<forall>r \<in> set rs. c_verb r \<noteq> VerbDeny"
  shows "foldl coverage_step acc0 rs =
    \<lparr>acc_best = best_verb rs,
     acc_redirect = List.find (\<lambda>r. c_verb r = VerbRedirect) rs,
     acc_approve = dedup_by ruleName [] (filter (\<lambda>r. c_verb r = VerbApprove) rs),
     acc_approveSeen = ruleName ` {r \<in> set rs. c_verb r = VerbApprove},
     acc_audit = dedup_by ruleName [] (filter (\<lambda>r. c_verb r = VerbAudit) rs),
     acc_auditSeen = ruleName ` {r \<in> set rs. c_verb r = VerbAudit}\<rparr>"
  using assms
proof (induction rs rule: rev_induct)
  case (snoc r rs)
  then have IH: "foldl coverage_step acc0 rs =
    \<lparr>acc_best = best_verb rs,
     acc_redirect = List.find (\<lambda>r. c_verb r = VerbRedirect) rs,
     acc_approve = dedup_by ruleName [] (filter (\<lambda>r. c_verb r = VerbApprove) rs),
     acc_approveSeen = ruleName ` {r \<in> set rs. c_verb r = VerbApprove},
     acc_audit = dedup_by ruleName [] (filter (\<lambda>r. c_verb r = VerbAudit) rs),
     acc_auditSeen = ruleName ` {r \<in> set rs. c_verb r = VerbAudit}\<rparr>"
    by simp
  have eq: "{q. (q = r \<or> q \<in> set rs) \<and> c_verb q = v} =
      (if c_verb r = v then insert r {q \<in> set rs. c_verb q = v} else {q \<in> set rs. c_verb q = v})" for v
    by auto
  have mx: "(if a < b then b else a) = max a b" for a b :: internalVerb
    by (auto simp: max_def)
  have find_eq: "(case x of None \<Rightarrow> Some r | Some q \<Rightarrow> Some q) =
      (case x of None \<Rightarrow> if c_verb r = VerbRedirect then Some r else None | Some q \<Rightarrow> Some q)"
    if "c_verb r = VerbRedirect" for x :: "compiledStatementRule option"
    using that by simp
  from snoc.prems have "c_verb r \<noteq> VerbDeny" by simp
  then show ?case
    unfolding foldl_append foldl_Cons foldl_Nil IH
    by (cases "c_verb r")
      (simp_all add: coverage_step_def Let_def mx eq find_eq dedup_by_snoc find_snoc insert_absorb
        split: option.split)
qed simp

text \<open>
  The fold in closed form: the most restrictive verb, the first rule in policy order that has it,
  and the approve and audit rules with the first rule of each name.
\<close>

lemma best_verb_not_Deny:
  assumes "\<forall>r \<in> set rs. c_verb r \<noteq> VerbDeny"
  shows "best_verb rs \<in> {verbAllow, verbAudit, verbRedirect, verbApprove}"
proof (cases "rs = []")
  case False
  then obtain r where "r \<in> set rs" "best_verb rs = toInternal (c_verb r)"
    using best_verb_in by metis
  with assms show ?thesis by (cases "c_verb r") auto
qed simp

lemma hd_filter_find: "filter P xs \<noteq> [] \<Longrightarrow> List.find P xs = Some (hd (filter P xs))"
  by (induction xs) auto

lemma foldCoverageRules_closed:
  assumes ne: "rs \<noteq> []" and nd: "\<forall>r \<in> set rs. c_verb r \<noteq> VerbDeny"
  shows "foldCoverageRules rs =
    \<lparr>ed_verb = best_verb rs,
     ed_rule = List.find (\<lambda>r. toInternal (c_verb r) = best_verb rs) rs,
     ed_contributingApprove = dedup_by ruleName [] (filter (\<lambda>r. c_verb r = VerbApprove) rs),
     ed_contributingAudit = dedup_by ruleName [] (filter (\<lambda>r. c_verb r = VerbAudit) rs),
     ed_uncoveredObject = zeroObject, ed_denyMatchingObject = zeroObject\<rparr>"
proof -
  have sub: "(toInternal v = verbApprove) = (v = VerbApprove)"
    "(toInternal v = verbAudit) = (v = VerbAudit)"
    "(toInternal v = verbRedirect) = (v = VerbRedirect)"
    "(toInternal v = verbAllow) = (v = VerbAllow)" for v
    by (cases v; simp)+
  have first: "Some (dedup_by ruleName [] (filter P rs) ! 0) = List.find P rs"
    if "\<exists>r \<in> set rs. P r" for P
  proof -
    have ne': "filter P rs \<noteq> []"
      using that by (simp add: filter_empty_conv)
    then show ?thesis
      using hd_dedup_by [OF ne', of ruleName]
      by (simp add: hd_filter_find hd_conv_nth)
  qed
  from best_verb_in [OF ne] obtain r where r: "r \<in> set rs" "toInternal (c_verb r) = best_verb rs"
    by blast
  have allow: "Some (rs ! 0) = List.find (\<lambda>r. c_verb r = VerbAllow) rs" if "best_verb rs = verbAllow"
  proof -
    have "toInternal (c_verb q) \<le> verbAllow" if "q \<in> set rs" for q
      using best_verb_ge [OF that] \<open>best_verb rs = verbAllow\<close> by simp
    then have "\<forall>q \<in> set rs. c_verb q = VerbAllow"
      by (metis antisym sub(4) verbAllow_least)
    with ne show ?thesis by (cases rs) auto
  qed
  consider "best_verb rs = verbAllow" | "best_verb rs = verbAudit"
    | "best_verb rs = verbRedirect" | "best_verb rs = verbApprove"
    using best_verb_not_Deny [OF nd] by auto
  then show ?thesis
  proof cases
    case 1
    then show ?thesis
      by (simp add: foldCoverageRules_def coverage_fold [OF nd] Let_def sub allow)
  next
    case 2
    then have "\<exists>r \<in> set rs. c_verb r = VerbAudit" using r sub by metis
    with 2 show ?thesis
      by (simp add: foldCoverageRules_def coverage_fold [OF nd] Let_def sub first)
  next
    case 3
    then show ?thesis
      by (simp add: foldCoverageRules_def coverage_fold [OF nd] Let_def sub)
  next
    case 4
    then have "\<exists>r \<in> set rs. c_verb r = VerbApprove" using r sub by metis
    with 4 show ?thesis
      by (simp add: foldCoverageRules_def coverage_fold [OF nd] Let_def sub first)
  qed
qed

section \<open>The passes over an effect\<close>

lemma deny_pass_None:
  "deny_pass L e rules = None \<longleftrightarrow>
     \<not> (\<exists>r \<in> set rules. c_verb r = VerbDeny \<and> ruleMatchesEffectMeta r e \<and>
          (\<exists>i < length (ef_Objects e). fst (ruleMatchesObjectSlot L r e i)))"
  by (induction rules) (auto simp: find_upt_None dest: find_upt_Some split: option.splits)

lemma deny_pass_Some:
  "deny_pass L e rules = Some (r, i) \<Longrightarrow>
     r \<in> set rules \<and> c_verb r = VerbDeny \<and> ruleMatchesEffectMeta r e \<and>
     i < length (ef_Objects e) \<and> fst (ruleMatchesObjectSlot L r e i)"
  by (induction rules) (auto dest: find_upt_Some split: option.splits if_splits)

lemma coverage_pass_nth:
  "i < length (ef_Objects e) \<Longrightarrow> coverage_pass L e rules ! i = filter (covers_slot L e i) rules"
  by (simp add: coverage_pass_def covers_slot_def [abs_def])

lemma length_coverage_pass [simp]: "length (coverage_pass L e rules) = length (ef_Objects e)"
  by (simp add: coverage_pass_def)

lemma set_concat_coverage:
  "ef_Objects e \<noteq> [] \<Longrightarrow> set (concat (coverage_pass L e rules)) = set (covering L e rules)"
  by (auto simp: coverage_pass_def covering_def touches_def)

lemma coverage_in_policy_order:
  "ef_Objects e \<noteq> [] \<Longrightarrow>
     coverageRulesInPolicyOrder rules (coverage_pass L e rules) = covering L e rules"
  unfolding coverageRulesInPolicyOrder_def set_concat_coverage
  by (auto simp: covering_def intro: filter_cong)

lemma redirectSourceCount_sources:
  assumes "ef_Objects e \<noteq> []"
  shows "redirectSourceCount (coverage_pass L e rules) = card (redirect_sources L e rules)"
proof -
  have one: "set (if c_verb r = VerbRedirect
                  then (case c_redirect r of None \<Rightarrow> [] | Some rd \<Rightarrow> [rd_SourceRelation rd])
                  else []) = redirect_source r" for r
    by (cases "c_redirect r"; cases "c_verb r = VerbRedirect")
      (simp_all only: redirect_source_def if_True if_False option.case list.set simp_thms)
  have flat: "set (concat (map f xs)) = (\<Union>r \<in> set xs. set (f r))"
    for f :: "compiledStatementRule \<Rightarrow> string list" and xs
    by simp
  show ?thesis
    unfolding redirectSourceCount_def redirect_sources_def flat one set_concat_coverage [OF assms] ..
qed

section \<open>Refinement of one effect\<close>

lemma evaluateEffect_objects:
  assumes "ef_Objects e \<noteq> []"
  shows "evaluateEffect L e rules =
    (case deny_pass L e rules of
       Some (r, i) \<Rightarrow> (simpleDecision verbDeny (Some r))\<lparr>ed_denyMatchingObject := ef_Objects e ! i\<rparr>
     | None \<Rightarrow>
         (case List.find (\<lambda>i. \<not> (\<exists>r \<in> set rules. covers_slot L e i r)) [0..<length (ef_Objects e)] of
            Some i \<Rightarrow> (simpleDecision verbImplicitDeny None)\<lparr>ed_uncoveredObject := ef_Objects e ! i\<rparr>
          | None \<Rightarrow>
              (let d = foldCoverageRules (covering L e rules)
               in if ed_verb d \<noteq> verbRedirect then d
                  else if card (redirect_sources L e rules) \<noteq> 1 then simpleDecision verbImplicitDeny None
                  else d)))"
proof -
  have "List.find (\<lambda>i. length (coverage_pass L e rules ! i) = 0) [0..<length (ef_Objects e)] =
        List.find (\<lambda>i. \<not> (\<exists>r \<in> set rules. covers_slot L e i r)) [0..<length (ef_Objects e)]"
    by (rule find_cong_set) (simp add: coverage_pass_nth filter_empty_conv)
  moreover from assms have "length (ef_Objects e) \<noteq> 0" by simp
  ultimately show ?thesis
    by (simp only: evaluateEffect_def foldObjectCoverageRules_def coverage_in_policy_order [OF assms]
        redirectSourceCount_sources [OF assms] Let_def if_False)
qed

lemma evaluateEffect_no_objects:
  assumes "ef_Objects e = []"
  shows "evaluateEffect L e rules =
    (case List.find (\<lambda>r. c_verb r = VerbDeny \<and> touches L e r) rules of
       Some r \<Rightarrow> simpleDecision verbDeny (Some r)
     | None \<Rightarrow> (if covering L e rules = [] then simpleDecision verbImplicitDeny None
               else foldCoverageRules (covering L e rules)))"
proof -
  consider (resolved) "isResolvedOnlyFunctionEffect e"
    | (objectless) "\<not> isResolvedOnlyFunctionEffect e" "isObjectlessEffect e"
    | (neither) "\<not> isResolvedOnlyFunctionEffect e" "\<not> isObjectlessEffect e"
    by blast
  then show ?thesis
  proof cases
    case resolved
    with assms have "touches L e r \<longleftrightarrow> ruleMatchesEffectMeta r e \<and> matches_some_resolved L r e" for r
      by (simp add: touches_def)
    with resolved assms show ?thesis
      by (simp add: evaluateEffect_def evaluateEffectResolvedOnly_def covering_def Let_def
          split: option.split)
  next
    case objectless
    with assms have "touches L e r \<longleftrightarrow> ruleMatchesEffectMeta r e \<and> coversAllObjects r" for r
      by (simp add: touches_def coversAllObjects_def)
    with objectless assms show ?thesis
      by (simp add: evaluateEffect_def evaluateEffectObjectless_def covering_def Let_def
          split: option.split)
  next
    case neither
    with assms have "\<not> touches L e r" for r
      by (simp add: touches_def)
    moreover have "List.find (\<lambda>r. False) rules = None"
      by (simp add: find_None_iff)
    ultimately show ?thesis
      using neither assms by (simp add: evaluateEffect_def covering_def)
  qed
qed

lemma fully_covered_nonempty:
  assumes "fully_covered L e rules"
  shows "covering L e rules \<noteq> []"
proof (cases "ef_Objects e = []")
  case False
  with assms obtain r where "r \<in> set rules" "covers_slot L e 0 r"
    by (auto simp: fully_covered_def)
  with False have "r \<in> set (covering L e rules)"
    by (auto simp: covering_def covers_slot_def touches_def)
  then show ?thesis by auto
qed (use assms in \<open>simp add: fully_covered_def\<close>)

lemma covering_not_Deny: "\<forall>r \<in> set (covering L e rules). c_verb r \<noteq> VerbDeny"
  by (simp add: covering_def)

lemma foldCoverageRules_covering:
  "covering L e rules \<noteq> [] \<Longrightarrow>
     ed_verb (foldCoverageRules (covering L e rules)) =
       Max (toInternal ` c_verb ` set (covering L e rules))"
  by (simp add: foldCoverageRules_closed covering_not_Deny best_verb_Max)

lemma deny_pass_denied:
  "ef_Objects e \<noteq> [] \<Longrightarrow> deny_pass L e rules = None \<longleftrightarrow> \<not> denied L e rules"
  by (auto simp: deny_pass_None denied_def touches_def)

lemma find_denied:
  "List.find (\<lambda>r. c_verb r = VerbDeny \<and> touches L e r) rules = None \<longleftrightarrow> \<not> denied L e rules"
  by (auto simp: find_None_all denied_def)

lemma simpleDecision_verb [simp]: "ed_verb (simpleDecision v r) = v" "ed_rule (simpleDecision v r) = r"
  by (simp_all add: simpleDecision_def)

lemma evaluateEffect_verdict: "ed_verb (evaluateEffect L e rules) = effect_verdict L e rules"
proof (cases "ef_Objects e = []")
  case True
  then have "fully_covered L e rules \<longleftrightarrow> covering L e rules \<noteq> []"
    by (simp add: fully_covered_def)
  then show ?thesis
    using True find_denied [of L e rules] foldCoverageRules_covering [of L e rules]
    by (cases "List.find (\<lambda>r. c_verb r = VerbDeny \<and> touches L e r) rules")
      (simp_all add: evaluateEffect_no_objects effect_verdict_def Let_def)
next
  case False
  then have "fully_covered L e rules \<longleftrightarrow>
        List.find (\<lambda>i. \<not> (\<exists>r \<in> set rules. covers_slot L e i r)) [0..<length (ef_Objects e)] = None"
    by (simp add: fully_covered_def find_upt_None)
  then show ?thesis
    using False deny_pass_denied [OF False, of L rules]
      foldCoverageRules_covering [of L e rules] fully_covered_nonempty [of L e rules]
    by (cases "deny_pass L e rules";
        cases "List.find (\<lambda>i. \<not> (\<exists>r \<in> set rules. covers_slot L e i r)) [0..<length (ef_Objects e)]")
      (auto simp: evaluateEffect_objects effect_verdict_def Let_def)
qed

text \<open>
  The rule an effect verdict is attributed to: the first rule in policy order that touches the
  effect and has the verdict's verb.
\<close>

definition deciding_rule ::
  "policyLib \<Rightarrow> effect \<Rightarrow> compiledStatementRule list \<Rightarrow> compiledStatementRule option" where
  "deciding_rule L e rules =
     (if effect_verdict L e rules = verbImplicitDeny then None
      else List.find (\<lambda>r. touches L e r \<and> toInternal (c_verb r) = effect_verdict L e rules) rules)"

lemma deny_pass_find:
  "ef_Objects e \<noteq> [] \<Longrightarrow>
     map_option fst (deny_pass L e rules) = List.find (\<lambda>r. c_verb r = VerbDeny \<and> touches L e r) rules"
proof (induction rules)
  case (Cons r rules)
  then show ?case
    using find_upt_None [of "\<lambda>i. fst (ruleMatchesObjectSlot L r e i)" "length (ef_Objects e)"]
    by (auto simp: touches_def dest: find_upt_Some split: option.splits)
qed simp

lemma find_filter_conj: "List.find P (filter Q xs) = List.find (\<lambda>x. Q x \<and> P x) xs"
  by (induction xs) auto

lemma toInternal_Deny [simp]: "toInternal v = verbDeny \<longleftrightarrow> v = VerbDeny" "toInternal v \<noteq> verbImplicitDeny"
  by (cases v; simp)+

lemma covering_find:
  "v \<noteq> verbDeny \<Longrightarrow>
     List.find (\<lambda>r. toInternal (c_verb r) = v) (covering L e rules) =
     List.find (\<lambda>r. touches L e r \<and> toInternal (c_verb r) = v) rules"
  unfolding covering_def find_filter_conj by (rule find_cong_set) auto

lemma foldCoverageRules_rule:
  assumes "covering L e rules \<noteq> []"
  shows "ed_rule (foldCoverageRules (covering L e rules)) =
    List.find (\<lambda>r. touches L e r \<and>
      toInternal (c_verb r) = ed_verb (foldCoverageRules (covering L e rules))) rules"
proof -
  have "best_verb (covering L e rules) \<noteq> verbDeny"
    using best_verb_not_Deny [OF covering_not_Deny, of L e rules] by auto
  with assms show ?thesis
    by (simp add: foldCoverageRules_closed covering_not_Deny covering_find)
qed

lemma fold_verb_not_deny:
  assumes "covering L e rules \<noteq> []"
  shows "ed_verb (foldCoverageRules (covering L e rules)) \<notin> {verbImplicitDeny, verbDeny}"
  using best_verb_not_Deny [OF covering_not_Deny, of L e rules] assms
  by (auto simp: foldCoverageRules_closed covering_not_Deny)

lemma evaluateEffect_fold:
  assumes "\<not> denied L e rules"
  shows "evaluateEffect L e rules = foldCoverageRules (covering L e rules) \<and> covering L e rules \<noteq> [] \<or>
    ed_rule (evaluateEffect L e rules) = None \<and> ed_verb (evaluateEffect L e rules) = verbImplicitDeny"
proof (cases "ef_Objects e = []")
  case True
  with assms find_denied [of L e rules] show ?thesis
    by (auto simp: evaluateEffect_no_objects)
next
  case False
  with assms have "deny_pass L e rules = None" by (simp add: deny_pass_denied)
  with False show ?thesis
    using fully_covered_nonempty [of L e rules]
    by (auto simp: evaluateEffect_objects Let_def fully_covered_def find_upt_None split: option.split)
qed

lemma evaluateEffect_rule: "ed_rule (evaluateEffect L e rules) = deciding_rule L e rules"
proof (cases "denied L e rules")
  case True
  then have v: "effect_verdict L e rules = verbDeny"
    by (simp add: effect_verdict_def)
  have comm: "(\<lambda>r. c_verb r = VerbDeny \<and> touches L e r) = (\<lambda>r. touches L e r \<and> c_verb r = VerbDeny)"
    by auto
  from True obtain r where r: "List.find (\<lambda>r. c_verb r = VerbDeny \<and> touches L e r) rules = Some r"
    using find_denied by (metis not_Some_eq)
  show ?thesis
  proof (cases "ef_Objects e = []")
    case True
    with r v show ?thesis by (simp add: evaluateEffect_no_objects deciding_rule_def comm)
  next
    case False
    with deny_pass_find [OF False, of L rules] r obtain i where "deny_pass L e rules = Some (r, i)"
      by auto
    with False r v show ?thesis by (simp add: evaluateEffect_objects deciding_rule_def comm)
  qed
next
  case no_deny: False
  have v: "ed_verb (evaluateEffect L e rules) = effect_verdict L e rules"
    by (rule evaluateEffect_verdict)
  show ?thesis
    using evaluateEffect_fold [OF no_deny] v foldCoverageRules_rule [of L e rules] fold_verb_not_deny [of L e rules]
    by (auto simp: deciding_rule_def)
qed

lemma deciding_rule_Some:
  assumes "effect_verdict L e rules \<noteq> verbImplicitDeny"
  shows "\<exists>r \<in> set rules. deciding_rule L e rules = Some r \<and> touches L e r \<and>
           toInternal (c_verb r) = effect_verdict L e rules"
proof -
  have "\<exists>r \<in> set rules. touches L e r \<and> toInternal (c_verb r) = effect_verdict L e rules"
  proof (cases "denied L e rules")
    case True
    then show ?thesis by (auto simp: effect_verdict_def denied_def)
  next
    case False
    with assms have cov: "fully_covered L e rules" by (auto simp: effect_verdict_def split: if_splits)
    with False assms have v: "effect_verdict L e rules = Max (toInternal ` c_verb ` set (covering L e rules))"
      by (auto simp: effect_verdict_def Let_def split: if_splits)
    moreover have "Max (toInternal ` c_verb ` set (covering L e rules))
        \<in> toInternal ` c_verb ` set (covering L e rules)"
      using fully_covered_nonempty [OF cov] by (intro Max_in) auto
    ultimately show ?thesis by (auto simp: covering_def)
  qed
  then obtain r where
    "List.find (\<lambda>r. touches L e r \<and> toInternal (c_verb r) = effect_verdict L e rules) rules = Some r"
    by (cases "List.find (\<lambda>r. touches L e r \<and> toInternal (c_verb r) = effect_verdict L e rules) rules")
      (auto simp: find_None_all)
  with assms find_Some_mem [OF this] show ?thesis
    by (auto simp: deciding_rule_def)
qed

section \<open>Refinement of a statement\<close>

lemma compareInternalVerb_pos [simp]: "compareInternalVerb a b > 0 \<longleftrightarrow> a > b"
  by (simp add: compareInternalVerb_def)

lemma bestEffectIndex_keep_best:
  "bestEffectIndex ps = keep_best (\<lambda>i. ed_verb (ps ! i)) 0 [1..<length ps]"
  by (simp add: bestEffectIndex_def keep_best_def)

lemma bestEffectIndex_bound: "ps \<noteq> [] \<Longrightarrow> bestEffectIndex ps < length ps"
  using keep_best_mem [of "\<lambda>i. ed_verb (ps ! i)" 0 "[1..<length ps]"]
  by (auto simp: bestEffectIndex_keep_best)

lemma bestEffectIndex_max:
  "i < length ps \<Longrightarrow> ed_verb (ps ! i) \<le> ed_verb (ps ! bestEffectIndex ps)"
  using keep_best_ge [of i 0 "[1..<length ps]" "\<lambda>i. ed_verb (ps ! i)"]
  by (cases i) (simp_all add: bestEffectIndex_keep_best)

lemma bestEffectIndex_first:
  assumes "j < bestEffectIndex ps"
  shows "ed_verb (ps ! j) < ed_verb (ps ! bestEffectIndex ps)"
proof -
  let ?key = "\<lambda>i. ed_verb (ps ! i)" and ?b = "bestEffectIndex ps"
  have "ps \<noteq> []"
    using assms by (auto simp: bestEffectIndex_def)
  then have upt: "0 # [1..<length ps] = [0..<length ps]"
    by (simp add: upt_rec)
  obtain ys zs where split: "0 # [1..<length ps] = ys @ ?b # zs" "\<forall>y \<in> set ys. ?key y < ?key ?b"
    using keep_best_first [of 0 "[1..<length ps]" ?key] unfolding bestEffectIndex_keep_best by blast
  have "length ys < length ps"
    using arg_cong [OF split(1), of length] unfolding upt by simp
  moreover have "[0..<length ps] ! length ys = ?b"
    using split(1) unfolding upt by (simp add: nth_append)
  ultimately have "j < length ys" "j < length ps"
    using assms by simp_all
  moreover have "[0..<length ps] ! j = ys ! j"
    using split(1) \<open>j < length ys\<close> unfolding upt by (simp add: nth_append)
  ultimately have "j \<in> set ys"
    by (simp add: in_set_conv_nth) metis
  with split(2) show ?thesis by blast
qed

lemma foldEffects_verb:
  "dec_Verb (foldEffects L stmt ps) = toPublic (ed_verb (ps ! bestEffectIndex ps))"
  by (cases "ed_verb (ps ! bestEffectIndex ps)")
    (simp_all add: foldEffects_def Let_def ruleDecision_def implicitDeny_def)

lemma foldEffects_index:
  "dec_MatchingEffectIndex (foldEffects L stmt ps) = int (bestEffectIndex ps)"
  by (cases "ed_verb (ps ! bestEffectIndex ps)")
    (simp_all add: foldEffects_def Let_def ruleDecision_def implicitDeny_def)

lemma foldEffects_name:
  "dec_RuleName (foldEffects L stmt ps) =
     (if ed_verb (ps ! bestEffectIndex ps) = verbImplicitDeny then []
      else ruleName (the (ed_rule (ps ! bestEffectIndex ps))))"
  by (cases "ed_verb (ps ! bestEffectIndex ps)")
    (simp_all add: foldEffects_def Let_def ruleDecision_def implicitDeny_def)

abbreviation perEffect :: "policyLib \<Rightarrow> classifiedStatement \<Rightarrow> compiledStatementRule list \<Rightarrow> effectDecision list" where
  "perEffect L stmt rules \<equiv> map (\<lambda>e. evaluateEffect L e rules) (cs_Effects stmt)"

lemma best_verdict_Max:
  assumes "cs_Effects stmt \<noteq> []"
  shows "ed_verb (perEffect L stmt rules ! bestEffectIndex (perEffect L stmt rules)) =
           Max ((\<lambda>e. effect_verdict L e rules) ` set (cs_Effects stmt))"
proof (rule Max_eqI [symmetric])
  let ?ps = "perEffect L stmt rules"
  have b: "bestEffectIndex ?ps < length (cs_Effects stmt)"
    using bestEffectIndex_bound [of ?ps] assms by simp
  then show "ed_verb (?ps ! bestEffectIndex ?ps) \<in> (\<lambda>e. effect_verdict L e rules) ` set (cs_Effects stmt)"
    by (simp add: evaluateEffect_verdict)
  show "v \<le> ed_verb (?ps ! bestEffectIndex ?ps)"
    if "v \<in> (\<lambda>e. effect_verdict L e rules) ` set (cs_Effects stmt)" for v
  proof -
    from that obtain i where "i < length (cs_Effects stmt)" "v = effect_verdict L (cs_Effects stmt ! i) rules"
      by (auto simp: in_set_conv_nth)
    then show ?thesis
      using bestEffectIndex_max [of i ?ps] by (simp add: evaluateEffect_verdict)
  qed
qed simp

lemma Evaluate_verdict:
  "dec_Verb (Evaluate L stmt (Some rs) svc) = statement_verdict L stmt (statementRulesFor rs svc)"
  by (cases "cs_Effects stmt = []")
    (simp_all add: Evaluate_def statement_verdict_def implicitDeny_def foldEffects_verb
      best_verdict_Max Let_def del: nth_map)

lemma toPublic_Deny: "toPublic v = VerbDeny \<longleftrightarrow> verbImplicitDeny \<le> v"
  by (cases v) (simp_all add: internalVerb_order)

lemma statement_verdict_Deny:
  "statement_verdict L stmt rules = VerbDeny \<longleftrightarrow>
     cs_Effects stmt = [] \<or> (\<exists>e \<in> set (cs_Effects stmt). verbImplicitDeny \<le> effect_verdict L e rules)"
  by (auto simp: statement_verdict_def toPublic_Deny Max_ge_iff)

lemma effect_verdict_Deny:
  "verbImplicitDeny \<le> effect_verdict L e rules \<longleftrightarrow>
     denied L e rules \<or> \<not> fully_covered L e rules \<or>
     (ef_Objects e \<noteq> [] \<and> Max (toInternal ` c_verb ` set (covering L e rules)) = verbRedirect \<and>
      card (redirect_sources L e rules) \<noteq> 1)"
proof (cases "denied L e rules \<or> \<not> fully_covered L e rules")
  case True
  then show ?thesis by (auto simp: effect_verdict_def internalVerb_order)
next
  case False
  then have "covering L e rules \<noteq> []" by (simp add: fully_covered_nonempty)
  then have "Max (toInternal ` c_verb ` set (covering L e rules)) \<notin> {verbImplicitDeny, verbDeny}"
    using fold_verb_not_deny foldCoverageRules_covering by metis
  then have "\<not> verbImplicitDeny \<le> Max (toInternal ` c_verb ` set (covering L e rules))"
    by (cases "Max (toInternal ` c_verb ` set (covering L e rules))") (simp_all add: internalVerb_order)
  with False show ?thesis by (auto simp: effect_verdict_def Let_def)
qed

lemma evaluateEffect_approve:
  assumes "effect_verdict L e rules = verbApprove"
  shows "ed_contributingApprove (evaluateEffect L e rules) =
           dedup_by ruleName [] (filter (\<lambda>r. c_verb r = VerbApprove) (covering L e rules))"
    and "filter (\<lambda>r. c_verb r = VerbApprove) (covering L e rules) \<noteq> []"
proof -
  have "\<not> denied L e rules"
    using assms by (auto simp: effect_verdict_def)
  from evaluateEffect_fold [OF this] assms
  have fold: "evaluateEffect L e rules = foldCoverageRules (covering L e rules)" "covering L e rules \<noteq> []"
    by (auto simp: evaluateEffect_verdict)
  then show "ed_contributingApprove (evaluateEffect L e rules) =
           dedup_by ruleName [] (filter (\<lambda>r. c_verb r = VerbApprove) (covering L e rules))"
    by (simp add: foldCoverageRules_closed covering_not_Deny)
  have "best_verb (covering L e rules) = verbApprove"
    using fold assms evaluateEffect_verdict [of L e rules]
    by (simp add: foldCoverageRules_closed covering_not_Deny)
  with best_verb_in [OF fold(2)] obtain r where
    "r \<in> set (covering L e rules)" "toInternal (c_verb r) = verbApprove" by auto
  then have "r \<in> set (filter (\<lambda>r. c_verb r = VerbApprove) (covering L e rules))"
    by (cases "c_verb r") auto
  then show "filter (\<lambda>r. c_verb r = VerbApprove) (covering L e rules) \<noteq> []" by force
qed

lemma shortestTimeout_Min: "rs \<noteq> [] \<Longrightarrow> shortestTimeout rs = Min (c_timeout ` set rs)"
proof -
  have mn: "(if a < b then a else b) = min b a" for a b :: int
    by (simp add: min_def)
  have "foldl (\<lambda>t r. if c_timeout r < t then c_timeout r else t) t0 rs = Min (insert t0 (c_timeout ` set rs))" for t0
  proof (induction rs arbitrary: t0)
    case (Cons r rs)
    then show ?case
      by (cases "rs = []") (simp_all add: mn min.assoc)
  qed simp
  then show "rs \<noteq> [] \<Longrightarrow> shortestTimeout rs = Min (c_timeout ` set rs)"
    by (simp add: shortestTimeout_def insert_absorb)
qed

lemma dedup_by_distinct: "distinct (map key xs) \<Longrightarrow> key ` set xs \<inter> set seen = {} \<Longrightarrow> dedup_by key seen xs = xs"
  by (induction xs arbitrary: seen) auto

text \<open>The verdict reads the rules as a set.\<close>

lemma covering_set_cong: "set rules = set rules' \<Longrightarrow> set (covering L e rules) = set (covering L e rules')"
  by (simp add: covering_def)

lemma effect_verdict_set_cong:
  assumes "set rules = set rules'"
  shows "effect_verdict L e rules = effect_verdict L e rules'"
proof -
  have c: "set (covering L e rules) = set (covering L e rules')"
    using assms by (rule covering_set_cong)
  then have n: "covering L e rules = [] \<longleftrightarrow> covering L e rules' = []"
    by (metis set_empty)
  show ?thesis
    by (simp only: effect_verdict_def denied_def fully_covered_def redirect_sources_def assms c n)
qed

lemma statement_verdict_set_cong:
  assumes "set rules = set rules'"
  shows "statement_verdict L stmt rules = statement_verdict L stmt rules'"
  by (simp only: statement_verdict_def effect_verdict_set_cong [OF assms])

text \<open>More deny rules never make the verdict less restrictive.\<close>

lemma effect_verdict_deny_mono:
  assumes sub: "set rules \<subseteq> set rules'" and new: "\<forall>r \<in> set rules' - set rules. c_verb r = VerbDeny"
  shows "effect_verdict L e rules \<le> effect_verdict L e rules'"
proof (cases "denied L e rules'")
  case True
  then show ?thesis
    by (cases "effect_verdict L e rules") (simp_all add: effect_verdict_def [of L e rules'] internalVerb_order)
next
  case False
  then have "\<not> denied L e rules"
    using sub by (auto simp: denied_def)
  moreover have c: "set (covering L e rules') = set (covering L e rules)"
    using sub new by (auto simp: covering_def)
  moreover have "covering L e rules' = [] \<longleftrightarrow> covering L e rules = []"
    using c by (metis set_empty)
  moreover have "(\<exists>r \<in> set rules'. covers_slot L e i r) \<longleftrightarrow> (\<exists>r \<in> set rules. covers_slot L e i r)" for i
    using sub new by (auto simp: covers_slot_def)
  ultimately show ?thesis
    using False by (simp add: effect_verdict_def fully_covered_def redirect_sources_def)
qed

lemma statement_verdict_deny_mono:
  assumes "set rules \<subseteq> set rules'" and "\<forall>r \<in> set rules' - set rules. c_verb r = VerbDeny"
  shows "statement_verdict L stmt rules \<le> statement_verdict L stmt rules'"
proof -
  have "Max ((\<lambda>e. effect_verdict L e rules) ` set (cs_Effects stmt))
      \<le> Max ((\<lambda>e. effect_verdict L e rules') ` set (cs_Effects stmt))" if "cs_Effects stmt \<noteq> []"
    using that effect_verdict_deny_mono [OF assms, of L]
    by (simp add: Max_le_iff) (meson Max_ge dual_order.trans finite_imageI finite_set imageI)
  then show ?thesis
    by (simp add: statement_verdict_def toPublic_mono)
qed

end
