(* ===== verification/Db_Guarantees.thy ===== *)
theory Db_Guarantees
  imports Db_Verdict
begin

text \<open>
  The guarantees of \<open>Evaluate\<close> and \<open>EvaluateConnection\<close>, from the refinement in \<open>Db_Verdict\<close>, each
  with an instance on a small policy that runs through the compiler.
\<close>

section \<open>A small policy\<close>

definition exact_lib :: policyLib where
  "exact_lib = \<lparr>glob_compile = \<lambda>_. Inr (), glob_match = \<lambda>p s. p = ''*'' \<or> p = s,
                template_parse = \<lambda>_. Inr (), template_execute = \<lambda>t _. Inr t\<rparr>"

definition sample_rule :: "string \<Rightarrow> string list \<Rightarrow> string list \<Rightarrow> string \<Rightarrow> statementRule" where
  "sample_rule name ops objs dec =
     \<lparr>sr_Name = name, sr_DBService = [], sr_DBFamily = [], sr_DBDialect = [], sr_Schemas = [],
      sr_Objects = objs, sr_Relations = [], sr_Functions = [], sr_Operations = ops, sr_Subtypes = [],
      sr_MatchObjectResolution = [], sr_RequireWhere = False, sr_Decision = dec, sr_Message = [],
      sr_Timeout = 0, sr_Redirect = None, sr_AcknowledgeAuditOnDangerous = False,
      sr_DenyModeInTx = []\<rparr>"

definition sample_policy :: "statementRule list \<Rightarrow> ruleSet" where
  "sample_policy rules =
     \<lparr>rs_services = [], rs_statement = map (\<lambda>r. projr (compileStatementRule exact_lib r)) rules,
      rs_connection = [], rs_redaction = RuleSet_Redaction None,
      rs_unavoidability = UnavoidabilityOff\<rparr>"

definition sample_effect :: "group \<Rightarrow> string list \<Rightarrow> effect" where
  "sample_effect g names =
     \<lparr>ef_Group = g, ef_Subtype = SubtypeNone,
      ef_Objects = map (\<lambda>n. zeroObject\<lparr>or_Kind := ObjectTable, or_Name := n\<rparr>) names,
      ef_ResolvedObjects = [], ef_Resolution = ResolutionUnqualified, ef_HasWhere = False,
      ef_FunctionOID = None\<rparr>"

definition sample_stmt :: "effect list \<Rightarrow> classifiedStatement" where
  "sample_stmt es =
     \<lparr>cs_Effects = es, cs_RawVerb = ''SELECT'', cs_ParserBackend = ParserBackendPureGo, cs_Error = [],
      cs_SourceStart = 0, cs_SourceEnd = 0, cs_PreparedName = [], cs_BulkOp = BulkOpNone\<rparr>"

abbreviation read_users :: statementRule where
  "read_users \<equiv> sample_rule ''read-users'' [''READ''] [''users''] ''allow''"
abbreviation approve_users :: statementRule where
  "approve_users \<equiv> (sample_rule ''approve-users'' [''READ''] [''users''] ''approve'')\<lparr>sr_Timeout := 5 * second\<rparr>"
abbreviation approve_reads :: statementRule where
  "approve_reads \<equiv> sample_rule ''approve-reads'' [''*''] [] ''approve''"
abbreviation deny_secrets :: statementRule where
  "deny_secrets \<equiv> sample_rule ''deny-secrets'' [''*''] [''secrets''] ''deny''"

lemma isBlank_Nil_message: "isBlank []"
  by simp

section \<open>Statements\<close>

text \<open>C1: Refinement. The verb \<open>Evaluate\<close> returns for a loaded policy is the declarative verdict of
  the statement under the rules that apply to the service: deny when a deny rule touches an effect,
  deny when some effect is not fully covered, and otherwise the most restrictive verb over all
  covering rules of all effects.\<close>

theorem Evaluate_refines_verdict:
  "dec_Verb (Evaluate L stmt (Some rs) svc) = statement_verdict L stmt (statementRulesFor rs svc)"
  by (rule Evaluate_verdict)

text \<open>C9: Fail-closed. A statement is denied exactly when the policy is not loaded, the statement has
  no effects, or some effect is touched by a deny rule, or has an object (or, for effects without
  objects, is itself) not covered by any non-deny rule, or is covered by redirect rules with
  conflicting source relations.\<close>

theorem Evaluate_denies_iff:
  "dec_Verb (Evaluate L stmt rs svc) = VerbDeny \<longleftrightarrow>
     (case rs of
        None \<Rightarrow> True
      | Some rset \<Rightarrow>
          cs_Effects stmt = [] \<or>
          (\<exists>e \<in> set (cs_Effects stmt).
             let rules = statementRulesFor rset svc in
               denied L e rules \<or> \<not> fully_covered L e rules \<or>
               (ef_Objects e \<noteq> [] \<and> card (redirect_sources L e rules) \<noteq> 1 \<and>
                Max (toInternal ` c_verb ` set (covering L e rules)) = verbRedirect)))"
proof (cases rs)
  case None
  then show ?thesis by (simp add: Evaluate_def implicitDeny_def)
next
  case (Some rset)
  show ?thesis
    unfolding Some option.case Evaluate_verdict statement_verdict_Deny effect_verdict_Deny Let_def
    by blast
qed

theorem Evaluate_denies_iff_witness:
  "dec_Verb (Evaluate exact_lib (sample_stmt [sample_effect GroupRead [''users'', ''orders'']])
     (Some (sample_policy [read_users])) ''db'') = VerbDeny \<and>
   dec_Verb (Evaluate exact_lib (sample_stmt [sample_effect GroupRead [''users'']])
     (Some (sample_policy [read_users])) ''db'') \<noteq> VerbDeny"
proof
  have "\<not> fully_covered exact_lib (sample_effect GroupRead [''users'', ''orders''])
          (statementRulesFor (sample_policy [read_users]) ''db'')"
    by code_simp
  then show "dec_Verb (Evaluate exact_lib (sample_stmt [sample_effect GroupRead [''users'', ''orders'']])
     (Some (sample_policy [read_users])) ''db'') = VerbDeny"
    by (simp add: Evaluate_denies_iff sample_stmt_def)
  show "dec_Verb (Evaluate exact_lib (sample_stmt [sample_effect GroupRead [''users'']])
     (Some (sample_policy [read_users])) ''db'') \<noteq> VerbDeny"
    by code_simp
qed

text \<open>C26: Attribution. The reported effect index is the first effect with the most restrictive
  verdict, and the reported rule is the first rule in policy order that touches that effect with
  the verdict's verb; the name is empty exactly for an implicit deny of a policy whose rules are
  named.\<close>

theorem Evaluate_attribution:
  fixes L :: policyLib and stmt :: classifiedStatement and rs :: ruleSet and svc :: serviceID
  assumes "cs_Effects stmt \<noteq> []"
  defines "rules \<equiv> statementRulesFor rs svc" and "d \<equiv> Evaluate L stmt (Some rs) svc"
  shows "\<exists>i < length (cs_Effects stmt).
           dec_MatchingEffectIndex d = int i \<and>
           (\<forall>j < length (cs_Effects stmt).
              effect_verdict L (cs_Effects stmt ! j) rules \<le> effect_verdict L (cs_Effects stmt ! i) rules) \<and>
           (\<forall>j < i. effect_verdict L (cs_Effects stmt ! j) rules < effect_verdict L (cs_Effects stmt ! i) rules) \<and>
           dec_RuleName d = (case deciding_rule L (cs_Effects stmt ! i) rules of
                               None \<Rightarrow> [] | Some r \<Rightarrow> sr_Name (c_src r))"
proof -
  let ?ps = "perEffect L stmt rules"
  let ?i = "bestEffectIndex ?ps"
  let ?e = "cs_Effects stmt ! ?i"
  have i: "?i < length (cs_Effects stmt)"
    using bestEffectIndex_bound [of ?ps] assms by simp
  have d: "d = foldEffects L stmt ?ps"
    using assms by (simp add: Evaluate_def)
  have verb: "ed_verb (?ps ! j) = effect_verdict L (cs_Effects stmt ! j) rules"
    if "j < length (cs_Effects stmt)" for j
    using that by (simp add: evaluateEffect_verdict)
  have "dec_RuleName d = (case deciding_rule L ?e rules of None \<Rightarrow> [] | Some r \<Rightarrow> ruleName r)"
    using verb [OF i] deciding_rule_Some [of L ?e rules] i
    by (auto simp: d foldEffects_name evaluateEffect_rule deciding_rule_def)
  then show ?thesis
    using i bestEffectIndex_max [of _ ?ps] bestEffectIndex_first [of _ ?ps]
    by (intro exI [of _ ?i]) (simp add: d foldEffects_index verb [symmetric])
qed

theorem Evaluate_attribution_witness:
  "dec_RuleName (Evaluate exact_lib
     (sample_stmt [sample_effect GroupRead [''users''], sample_effect GroupWrite [''secrets'']])
     (Some (sample_policy [read_users, deny_secrets])) ''db'') = ''deny-secrets''"
proof -
  let ?s = "sample_stmt [sample_effect GroupRead [''users''], sample_effect GroupWrite [''secrets'']]"
  let ?p = "sample_policy [read_users, deny_secrets]"
  let ?rules = "statementRulesFor ?p ''db''"
  have ne: "cs_Effects ?s \<noteq> []" and len: "length (cs_Effects ?s) = 2"
    by (simp_all add: sample_stmt_def)
  from Evaluate_attribution [OF ne, of exact_lib ?p "''db''"] obtain i where i: "i < 2"
    "\<forall>j < 2. effect_verdict exact_lib (cs_Effects ?s ! j) ?rules \<le> effect_verdict exact_lib (cs_Effects ?s ! i) ?rules"
    "dec_RuleName (Evaluate exact_lib ?s (Some ?p) ''db'') =
       (case deciding_rule exact_lib (cs_Effects ?s ! i) ?rules of None \<Rightarrow> [] | Some r \<Rightarrow> sr_Name (c_src r))"
    unfolding len by blast
  have "ed_verb (evaluateEffect exact_lib (cs_Effects ?s ! 1) ?rules) = verbDeny"
    "ed_verb (evaluateEffect exact_lib (cs_Effects ?s ! 0) ?rules) = verbAllow"
    by code_simp+
  then have "\<not> effect_verdict exact_lib (cs_Effects ?s ! 1) ?rules \<le> effect_verdict exact_lib (cs_Effects ?s ! 0) ?rules"
    by (simp add: evaluateEffect_verdict internalVerb_order)
  with i(1) i(2) [rule_format, of 1] have "i = 1" by (cases i) auto
  moreover have "map_option (\<lambda>r. sr_Name (c_src r)) (ed_rule (evaluateEffect exact_lib (cs_Effects ?s ! 1) ?rules)) = Some ''deny-secrets''"
    by code_simp
  then have "map_option (\<lambda>r. sr_Name (c_src r)) (deciding_rule exact_lib (cs_Effects ?s ! 1) ?rules) = Some ''deny-secrets''"
    by (simp only: evaluateEffect_rule)
  ultimately show ?thesis using i(3) by (auto split: option.splits)
qed

text \<open>Rule order. The verb does not depend on the order of the statement rules in the policy
  file, nor on duplicates among them.\<close>

theorem Evaluate_order_independent:
  assumes "set xs = set (rs_statement rs)"
  shows "dec_Verb (Evaluate L stmt (Some (rs\<lparr>rs_statement := xs\<rparr>)) svc) =
         dec_Verb (Evaluate L stmt (Some rs) svc)"
  unfolding Evaluate_verdict
  by (rule statement_verdict_set_cong) (simp add: statementRulesFor_def assms)

theorem Evaluate_order_independent_witness:
  "dec_Verb (Evaluate exact_lib (sample_stmt [sample_effect GroupRead [''users'']])
     (Some (sample_policy [approve_reads, read_users])) ''db'') = VerbApprove"
proof -
  have swap: "sample_policy [approve_reads, read_users] =
      (sample_policy [read_users, approve_reads])
        \<lparr>rs_statement := rev (rs_statement (sample_policy [read_users, approve_reads]))\<rparr>"
    by (simp add: sample_policy_def)
  have "dec_Verb (Evaluate exact_lib (sample_stmt [sample_effect GroupRead [''users'']])
     (Some (sample_policy [read_users, approve_reads])) ''db'') = VerbApprove"
    by code_simp
  then show ?thesis
    unfolding swap by (subst Evaluate_order_independent) simp_all
qed

text \<open>C27: Monotonicity. Adding deny rules anywhere in the policy never makes the decision on any
  statement less restrictive.\<close>

theorem Evaluate_deny_monotone:
  assumes "set (rs_statement rs) \<subseteq> set xs"
    and "\<forall>r \<in> set xs - set (rs_statement rs). c_verb r = VerbDeny"
  shows "dec_Verb (Evaluate L stmt (Some rs) svc) \<le>
         dec_Verb (Evaluate L stmt (Some (rs\<lparr>rs_statement := xs\<rparr>)) svc)"
  unfolding Evaluate_verdict using assms
  by (intro statement_verdict_deny_mono) (auto simp: statementRulesFor_def)

theorem Evaluate_deny_monotone_witness:
  "dec_Verb (Evaluate exact_lib (sample_stmt [sample_effect GroupRead [''users'']])
     (Some (sample_policy [read_users])) ''db'') \<le>
   dec_Verb (Evaluate exact_lib (sample_stmt [sample_effect GroupRead [''users'']])
     (Some (sample_policy [deny_secrets, read_users])) ''db'')"
proof -
  have ext: "sample_policy [deny_secrets, read_users] =
      (sample_policy [read_users])\<lparr>rs_statement :=
         projr (compileStatementRule exact_lib deny_secrets) # rs_statement (sample_policy [read_users])\<rparr>"
    by (simp add: sample_policy_def)
  have "c_verb (projr (compileStatementRule exact_lib deny_secrets)) = VerbDeny"
    by code_simp
  then show ?thesis
    unfolding ext by (intro Evaluate_deny_monotone) auto
qed

text \<open>Safety of the fold. Whenever \<open>foldEffects\<close> dereferences the primary rule of an effect
  verdict the rule is there, is one of the applicable rules, touches the effect and has the verb;
  and an approve verdict has at least one contributing approve rule to take a timeout from.\<close>

theorem evaluateEffect_well_formed:
  "ed_verb (evaluateEffect L e rules) = verbImplicitDeny \<or>
     (\<exists>r \<in> set rules. ed_rule (evaluateEffect L e rules) = Some r \<and> touches L e r \<and>
        toInternal (c_verb r) = ed_verb (evaluateEffect L e rules) \<and>
        (ed_contributingApprove (evaluateEffect L e rules) \<noteq> [] \<or> c_verb r \<noteq> VerbApprove))"
proof (cases "effect_verdict L e rules = verbImplicitDeny")
  case True
  then show ?thesis by (simp add: evaluateEffect_verdict)
next
  case False
  then obtain r where "r \<in> set rules" "deciding_rule L e rules = Some r" "touches L e r"
    "toInternal (c_verb r) = effect_verdict L e rules"
    using deciding_rule_Some by blast
  moreover have "ed_contributingApprove (evaluateEffect L e rules) \<noteq> []"
    if "effect_verdict L e rules = verbApprove"
    using evaluateEffect_approve [OF that] by simp
  ultimately show ?thesis
    by (cases "c_verb r") (auto simp: evaluateEffect_verdict evaluateEffect_rule)
qed

theorem evaluateEffect_well_formed_witness:
  "ed_contributingApprove (evaluateEffect exact_lib (sample_effect GroupRead [''users''])
     (rs_statement (sample_policy [approve_users]))) \<noteq> []"
proof -
  let ?d = "evaluateEffect exact_lib (sample_effect GroupRead [''users''])
     (rs_statement (sample_policy [approve_users]))"
  have "ed_verb ?d = verbApprove"
    by code_simp
  with evaluateEffect_well_formed [of exact_lib "sample_effect GroupRead [''users'']"
      "rs_statement (sample_policy [approve_users])"]
  obtain r :: compiledStatementRule where "toInternal (c_verb r) = verbApprove" "ed_contributingApprove ?d \<noteq> [] \<or> c_verb r \<noteq> VerbApprove"
    by auto
  then show ?thesis by (cases "c_verb r") auto
qed

text \<open>Approval timeout. When rule names are distinct, an approve decision carries the shortest
  timeout among all approve rules that touch the deciding effect, and names exactly these rules.\<close>

theorem Evaluate_approve_timeout:
  fixes L :: policyLib and stmt :: classifiedStatement and rs :: ruleSet and svc :: serviceID
  defines "d \<equiv> Evaluate L stmt (Some rs) svc"
  assumes approve: "dec_Verb d = VerbApprove"
    and names: "distinct (map (\<lambda>r. sr_Name (c_src r)) (rs_statement rs))"
  shows "\<exists>ap e. dec_Approval d = Some ap \<and> e = cs_Effects stmt ! nat (dec_MatchingEffectIndex d) \<and>
           (let rules = filter (\<lambda>r. c_verb r = VerbApprove) (covering L e (statementRulesFor rs svc))
            in rules \<noteq> [] \<and> ap_Timeout ap = Min (c_timeout ` set rules) \<and>
               ap_ContributingApproveRules ap = map (\<lambda>r. sr_Name (c_src r)) rules)"
proof -
  let ?rules = "statementRulesFor rs svc"
  let ?ps = "perEffect L stmt ?rules"
  let ?e = "cs_Effects stmt ! bestEffectIndex ?ps"
  let ?app = "filter (\<lambda>r. c_verb r = VerbApprove) (covering L ?e ?rules)"
  have ne: "cs_Effects stmt \<noteq> []"
    using approve by (auto simp: d_def Evaluate_def implicitDeny_def)
  then have d: "d = foldEffects L stmt ?ps"
    by (simp add: d_def Evaluate_def Let_def)
  have i: "bestEffectIndex ?ps < length (cs_Effects stmt)"
    using bestEffectIndex_bound [of ?ps] ne by simp
  have verb: "ed_verb (?ps ! bestEffectIndex ?ps) = verbApprove"
    using approve unfolding d foldEffects_verb
    by (cases "ed_verb (?ps ! bestEffectIndex ?ps)") simp_all
  then have v: "effect_verdict L ?e ?rules = verbApprove"
    using i by (simp add: evaluateEffect_verdict)
  have "distinct (map ruleName ?app)"
    using names by (simp add: covering_def statementRulesFor_def distinct_map_filter)
  then have app: "ed_contributingApprove (?ps ! bestEffectIndex ?ps) = ?app"
    using evaluateEffect_approve(1) [OF v] i by (simp add: dedup_by_distinct)
  have "dec_Approval d = Some \<lparr>ap_Timeout = shortestTimeout ?app,
                                ap_ContributingApproveRules = map ruleName ?app\<rparr>"
    using verb app unfolding d by (simp add: foldEffects_def Let_def ruleDecision_def)
  moreover have "nat (dec_MatchingEffectIndex d) = bestEffectIndex ?ps"
    unfolding d foldEffects_index by simp
  ultimately show ?thesis
    using evaluateEffect_approve(2) [OF v] by (simp add: shortestTimeout_Min Let_def)
qed

theorem Evaluate_approve_timeout_witness:
  "\<exists>ap. dec_Approval (Evaluate exact_lib (sample_stmt [sample_effect GroupRead [''users'']])
     (Some (sample_policy [approve_reads, approve_users])) ''db'') = Some ap \<and>
     ap_Timeout ap = 5 * second"
proof -
  let ?s = "sample_stmt [sample_effect GroupRead [''users'']]"
  let ?p = "sample_policy [approve_reads, approve_users]"
  have "dec_Verb (Evaluate exact_lib ?s (Some ?p) ''db'') = VerbApprove" by code_simp
  moreover have "distinct (map (\<lambda>r. sr_Name (c_src r)) (rs_statement ?p))" by code_simp
  ultimately obtain ap e where
    "dec_Approval (Evaluate exact_lib ?s (Some ?p) ''db'') = Some ap"
    "e = cs_Effects ?s ! nat (dec_MatchingEffectIndex (Evaluate exact_lib ?s (Some ?p) ''db''))"
    "ap_Timeout ap = Min (c_timeout ` set (filter (\<lambda>r. c_verb r = VerbApprove)
        (covering exact_lib e (statementRulesFor ?p ''db''))))"
    using Evaluate_approve_timeout [of exact_lib ?s ?p "''db''"] by (auto simp: Let_def)
  moreover have "nat (dec_MatchingEffectIndex (Evaluate exact_lib ?s (Some ?p) ''db'')) = 0"
    by code_simp
  moreover have "Min (c_timeout ` set (filter (\<lambda>r. c_verb r = VerbApprove)
        (covering exact_lib (sample_effect GroupRead [''users'']) (statementRulesFor ?p ''db'')))) = 5 * second"
    by code_simp
  ultimately show ?thesis by (simp add: sample_stmt_def)
qed

text \<open>C28: Unclassifiable statements. Under a compiled policy in which no rule that applies to the
  service lists the operation \<open>unknown\<close> literally, every statement with an effect the classifier
  could not place is denied, whatever wildcards and aliases the policy uses.\<close>

theorem unknown_effects_denied:
  assumes compiled: "\<forall>c \<in> set (rs_statement rs). \<exists>r. compileStatementRule L r = Inr c"
    and unlisted: "\<forall>c \<in> set (statementRulesFor rs svc). ''unknown'' \<notin> set (sr_Operations (c_src c))"
    and effect: "e \<in> set (cs_Effects stmt)" "ef_Group e = GroupUnknown"
  shows "dec_Verb (Evaluate L stmt (Some rs) svc) = VerbDeny"
proof -
  let ?rules = "statementRulesFor rs svc"
  have "\<not> ruleMatchesEffectMeta c e" if c: "c \<in> set ?rules" for c
  proof -
    from c obtain r where r: "compileStatementRule L r = Inr c"
      using compiled by (auto simp: statementRulesFor_def)
    have "c_src c = r" by (rule compileStatementRule_Inr(1) [OF r])
    with r unlisted c have "GroupUnknown \<notin> c_groups c"
      using compiled_unknown_group by blast
    then show ?thesis by (simp add: ruleMatchesEffectMeta_def effect)
  qed
  then have "\<not> fully_covered L e ?rules"
    by (auto simp: fully_covered_def covers_slot_def covering_def touches_def filter_empty_conv)
  then have "verbImplicitDeny \<le> effect_verdict L e ?rules"
    by (simp add: effect_verdict_Deny)
  with effect show ?thesis
    by (auto simp: Evaluate_verdict statement_verdict_Deny)
qed

theorem unknown_effects_denied_witness:
  "dec_Verb (Evaluate exact_lib (sample_stmt [sample_effect GroupUnknown [''users'']])
     (Some (sample_policy [sample_rule ''all'' [''*''] [] ''allow''])) ''db'') = VerbDeny"
proof (rule unknown_effects_denied [where e = "sample_effect GroupUnknown [''users'']"])
  let ?r = "sample_rule ''all'' [''*''] [] ''allow''"
  have ok: "isl (compileStatementRule exact_lib ?r) = False" by code_simp
  then obtain c where c: "compileStatementRule exact_lib ?r = Inr c"
    by (cases "compileStatementRule exact_lib ?r") auto
  then have rs: "rs_statement (sample_policy [?r]) = [c]" by (simp add: sample_policy_def)
  with c show "\<forall>c \<in> set (rs_statement (sample_policy [?r])). \<exists>r. compileStatementRule exact_lib r = Inr c"
    by auto
  show "\<forall>c \<in> set (statementRulesFor (sample_policy [?r]) ''db''). ''unknown'' \<notin> set (sr_Operations (c_src c))"
    by code_simp
qed (simp_all add: sample_stmt_def sample_effect_def)

text \<open>Redirects. Under a compiled policy a redirect decision on an effect with objects carries a
  redirect action, and every redirect rule that covers the effect has that action's source
  relation, so there is one relation to rewrite.\<close>

theorem Evaluate_redirect_unique:
  fixes L :: policyLib and stmt :: classifiedStatement and rs :: ruleSet and svc :: serviceID
  defines "d \<equiv> Evaluate L stmt (Some rs) svc"
  assumes compiled: "\<forall>c \<in> set (rs_statement rs). \<exists>r. compileStatementRule L r = Inr c"
    and redirect: "dec_Verb d = VerbRedirect"
  shows "\<exists>e rd. e = cs_Effects stmt ! nat (dec_MatchingEffectIndex d) \<and> dec_Redirect d = Some rd \<and>
           (ef_Objects e \<noteq> [] \<longrightarrow>
              redirect_sources L e (statementRulesFor rs svc) = {rd_SourceRelation rd})"
proof -
  let ?rules = "statementRulesFor rs svc"
  let ?ps = "perEffect L stmt ?rules"
  let ?e = "cs_Effects stmt ! bestEffectIndex ?ps"
  have ne: "cs_Effects stmt \<noteq> []"
    using redirect by (auto simp: d_def Evaluate_def implicitDeny_def)
  then have d: "d = foldEffects L stmt ?ps"
    by (simp add: d_def Evaluate_def Let_def)
  have i: "bestEffectIndex ?ps < length (cs_Effects stmt)"
    using bestEffectIndex_bound [of ?ps] ne by simp
  have verb: "ed_verb (?ps ! bestEffectIndex ?ps) = verbRedirect"
    using redirect unfolding d foldEffects_verb
    by (cases "ed_verb (?ps ! bestEffectIndex ?ps)") simp_all
  then have v: "effect_verdict L ?e ?rules = verbRedirect"
    using i by (simp add: evaluateEffect_verdict)
  then obtain r where r: "r \<in> set ?rules" "deciding_rule L ?e ?rules = Some r" "touches L ?e r"
    "toInternal (c_verb r) = verbRedirect"
    using deciding_rule_Some [of L ?e ?rules] by auto
  have rv: "c_verb r = VerbRedirect"
    using r(4) by (cases "c_verb r") simp_all
  have "r \<in> set (rs_statement rs)"
    using r(1) by (simp add: statementRulesFor_def)
  then obtain src where "compileStatementRule L src = Inr r"
    using compiled by blast
  from compiled_redirect [OF this] rv obtain rd where rd: "c_redirect r = Some rd"
    by auto
  have "dec_Redirect d = Some rd"
    using verb r(2) rd i unfolding d
    by (simp add: foldEffects_def Let_def evaluateEffect_rule)
  moreover have "nat (dec_MatchingEffectIndex d) = bestEffectIndex ?ps"
    unfolding d foldEffects_index by simp
  moreover have "redirect_sources L ?e ?rules = {rd_SourceRelation rd}" if "ef_Objects ?e \<noteq> []"
  proof -
    have "card (redirect_sources L ?e ?rules) = 1"
      using v that by (auto simp: effect_verdict_def Let_def split: if_splits)
    then obtain x where "redirect_sources L ?e ?rules = {x}"
      by (rule card_1_singletonE)
    moreover have "rd_SourceRelation rd \<in> redirect_sources L ?e ?rules"
      using r rv rd by (auto simp: redirect_sources_def redirect_source_def covering_def intro!: bexI [of _ r])
    ultimately show ?thesis by simp
  qed
  ultimately show ?thesis by (intro exI [of _ ?e] exI [of _ rd]) simp
qed

definition redirect_rule :: statementRule where
  "redirect_rule =
     (sample_rule ''mask-users'' [''READ''] [] ''redirect'')
       \<lparr>sr_Relations := [''public.users''], sr_MatchObjectResolution := ''catalog_resolved'',
        sr_Redirect := Some \<lparr>ra_Relation = ''masked.users''\<rparr>\<rparr>"

definition resolved_read :: effect where
  "resolved_read =
     (sample_effect GroupRead [''users''])
       \<lparr>ef_ResolvedObjects := [\<lparr>ro_Source = ''catalog'', ro_Kind = ''relation'', ro_OID = 16384,
          ro_Schema = ''public'', ro_Name = ''users'', ro_RelationKind = ''table'',
          ro_FunctionIdentityArgs = [], ro_FunctionVolatility = [], ro_UnresolvedReason = []\<rparr>],
        ef_Resolution := ResolutionCatalogResolved\<rparr>"

theorem Evaluate_redirect_unique_witness:
  "\<exists>rd. dec_Redirect (Evaluate exact_lib (sample_stmt [resolved_read])
           (Some (sample_policy [redirect_rule])) ''db'') = Some rd \<and>
        redirect_sources exact_lib resolved_read (statementRulesFor (sample_policy [redirect_rule]) ''db'')
          = {rd_SourceRelation rd}"
proof -
  let ?s = "sample_stmt [resolved_read]" and ?p = "sample_policy [redirect_rule]"
  have "isl (compileStatementRule exact_lib redirect_rule) = False" by code_simp
  then obtain c where c: "compileStatementRule exact_lib redirect_rule = Inr c"
    by (cases "compileStatementRule exact_lib redirect_rule") auto
  then have "\<forall>c \<in> set (rs_statement ?p). \<exists>r. compileStatementRule exact_lib r = Inr c"
    by (auto simp: sample_policy_def)
  moreover have "dec_Verb (Evaluate exact_lib ?s (Some ?p) ''db'') = VerbRedirect" by code_simp
  moreover have "nat (dec_MatchingEffectIndex (Evaluate exact_lib ?s (Some ?p) ''db'')) = 0" by code_simp
  moreover have "cs_Effects ?s ! 0 = resolved_read" "ef_Objects resolved_read \<noteq> []"
    by (simp_all add: sample_stmt_def resolved_read_def sample_effect_def)
  ultimately show ?thesis
    using Evaluate_redirect_unique [of ?p exact_lib ?s "''db''"] by auto
qed

section \<open>Connections\<close>

lemma compareConnVerb_pos: "compareConnVerb a b > 0 \<longleftrightarrow> connVerbRank a > connVerbRank b"
  by (simp add: compareConnVerb_def)

lemma connVerbRank_le:
  "a \<noteq> VerbRedirect \<Longrightarrow> b \<noteq> VerbRedirect \<Longrightarrow> connVerbRank a \<le> connVerbRank b \<longleftrightarrow> a \<le> b"
  by (cases a; cases b) (simp_all add: less_eq_decisionVerb_def)

lemma best_conn_keep_best:
  "foldl (\<lambda>b x. if compareConnVerb (cc_verb x) (cc_verb b) > 0 then x else b) r rest =
   keep_best (\<lambda>x. connVerbRank (cc_verb x)) r rest"
  by (simp add: keep_best_def compareConnVerb_pos)

text \<open>C29: Connections. Under compiled connection rules, \<open>EvaluateConnection\<close> denies when no rule
  matches the connection (naming no rule), and otherwise returns the most restrictive verb of the
  matching rules, attributed to the first matching rule that has it; approval is requested exactly
  for the verb approve, with that rule's timeout.\<close>

theorem EvaluateConnection_most_restrictive:
  fixes L :: policyLib and info :: connectionInfo and rs :: ruleSet
  defines "d \<equiv> EvaluateConnection L info (Some rs)" and "matched \<equiv> matchedConnRules L info rs"
  assumes compiled: "\<forall>c \<in> set (rs_connection rs). \<exists>r. compileConnectionRule L r = Inr c"
  shows "(matched = [] \<longrightarrow> dec_Verb d = VerbDeny \<and> dec_RuleName d = []) \<and>
         (matched \<noteq> [] \<longrightarrow>
            (\<exists>xs r ys. matched = xs @ r # ys \<and> dec_Verb d = cc_verb r \<and>
               dec_Verb d = Max (cc_verb ` set matched) \<and>
               (\<forall>x \<in> set xs. cc_verb x < cc_verb r) \<and> dec_RuleName d = cr_Name (cc_src r) \<and>
               dec_Approval d = (if cc_verb r = VerbApprove
                                 then Some \<lparr>ap_Timeout = cc_timeout r,
                                            ap_ContributingApproveRules = [cr_Name (cc_src r)]\<rparr>
                                 else None)))"
proof (cases matched)
  case Nil
  then show ?thesis by (simp add: d_def matched_def EvaluateConnection_def connDeny_def)
next
  case (Cons r rest)
  let ?key = "\<lambda>x. connVerbRank (cc_verb x)"
  let ?b = "keep_best ?key r rest"
  have nr: "cc_verb x \<noteq> VerbRedirect" if "x \<in> set matched" for x
    using that compiled compileConnectionRule_verb by (fastforce simp: matched_def matchedConnRules_def)
  have b: "?b \<in> set matched" unfolding Cons by (rule keep_best_mem)
  have ge: "cc_verb x \<le> cc_verb ?b" if "x \<in> set matched" for x
    using keep_best_ge [of x r rest ?key] that nr [OF that] nr [OF b] connVerbRank_le by (simp add: Cons)
  have max: "cc_verb ?b = Max (cc_verb ` set matched)"
    using b ge by (intro Max_eqI [symmetric]) auto
  obtain xs ys where split: "matched = xs @ ?b # ys" "\<forall>x \<in> set xs. ?key x < ?key ?b"
    using keep_best_first [of r rest ?key] Cons by auto
  then have first: "\<forall>x \<in> set xs. cc_verb x < cc_verb ?b"
    using ge by (metis (no_types, lifting) Un_iff order_less_irrefl order_neq_le_trans set_append)
  have "d = EvaluateConnection L info (Some rs)" by (simp add: d_def)
  then have "dec_Verb d = cc_verb ?b" "dec_RuleName d = cr_Name (cc_src ?b)"
    "dec_Approval d = (if cc_verb ?b = VerbApprove
       then Some \<lparr>ap_Timeout = cc_timeout ?b, ap_ContributingApproveRules = [cr_Name (cc_src ?b)]\<rparr>
       else None)"
    using Cons by (simp_all add: EvaluateConnection_def matched_def best_conn_keep_best Let_def)
  then have "matched = xs @ ?b # ys \<and> dec_Verb d = cc_verb ?b \<and>
      dec_Verb d = Max (cc_verb ` set matched) \<and>
      (\<forall>x \<in> set xs. cc_verb x < cc_verb ?b) \<and> dec_RuleName d = cr_Name (cc_src ?b) \<and>
      dec_Approval d = (if cc_verb ?b = VerbApprove
        then Some \<lparr>ap_Timeout = cc_timeout ?b, ap_ContributingApproveRules = [cr_Name (cc_src ?b)]\<rparr>
        else None)"
    using split(1) first max by (simp only: simp_thms)
  moreover have "matched \<noteq> []" using Cons by simp
  ultimately show ?thesis by blast
qed

definition sample_conn_rule :: "string \<Rightarrow> string \<Rightarrow> string \<Rightarrow> connectionRule" where
  "sample_conn_rule name user dec =
     \<lparr>cr_Name = name, cr_DBService = [], cr_MatchKind = [], cr_DBUser = (if user = [] then [] else [user]),
      cr_Database = [], cr_ApplicationName = [], cr_ClientIdentity = [], cr_Decision = dec,
      cr_Message = [], cr_Timeout = 0\<rparr>"

definition conn_policy :: "connectionRule list \<Rightarrow> ruleSet" where
  "conn_policy rules =
     (sample_policy [])\<lparr>rs_connection := map (\<lambda>r. projr (compileConnectionRule exact_lib r)) rules\<rparr>"

theorem EvaluateConnection_most_restrictive_witness:
  "let info = \<lparr>ci_Service = ''db'', ci_MatchKind = MatchConnect, ci_DBUser = ''app'', ci_Database = ''x'',
               ci_ApplicationName = [], ci_ClientIdentity = []\<rparr>;
       rs = conn_policy [sample_conn_rule ''any'' [] ''allow'', sample_conn_rule ''app'' ''app'' ''approve'']
   in dec_Verb (EvaluateConnection exact_lib info (Some rs)) =
        Max (cc_verb ` set (matchedConnRules exact_lib info rs)) \<and>
      dec_RuleName (EvaluateConnection exact_lib info (Some rs)) = ''app''"
proof -
  let ?info = "\<lparr>ci_Service = ''db'', ci_MatchKind = MatchConnect, ci_DBUser = ''app'', ci_Database = ''x'',
               ci_ApplicationName = [], ci_ClientIdentity = []\<rparr>"
  let ?a = "sample_conn_rule ''any'' [] ''allow''" and ?b = "sample_conn_rule ''app'' ''app'' ''approve''"
  let ?rs = "conn_policy [?a, ?b]"
  have "isl (compileConnectionRule exact_lib ?a) = False" "isl (compileConnectionRule exact_lib ?b) = False"
    by code_simp+
  then obtain x y where "compileConnectionRule exact_lib ?a = Inr x" "compileConnectionRule exact_lib ?b = Inr y"
    by (cases "compileConnectionRule exact_lib ?a"; cases "compileConnectionRule exact_lib ?b") auto
  then have "\<forall>c \<in> set (rs_connection ?rs). \<exists>r. compileConnectionRule exact_lib r = Inr c"
    by (auto simp: conn_policy_def)
  moreover have "map (\<lambda>r. cr_Name (cc_src r)) (matchedConnRules exact_lib ?info ?rs) = [''any'', ''app'']"
    by code_simp
  then have "matchedConnRules exact_lib ?info ?rs \<noteq> []" by auto
  moreover have "dec_RuleName (EvaluateConnection exact_lib ?info (Some ?rs)) = ''app''"
    by code_simp
  ultimately show ?thesis
    using EvaluateConnection_most_restrictive [of ?rs exact_lib ?info] by (simp add: Let_def) blast
qed

end
