(* ===== verification/Prepared_Cache.thy ===== *)
theory Prepared_Cache
  imports Db_Policy
begin

text \<open>
  The per-connection prepared-statement cache
  (\<open>internal/db/proxy/postgres/preparedcache/cache.go\<close>): a least-recently-used cache with a list in
  recency order and an index by name.

  The list holds the items front (most recent) to back; the index \<open>byKey\<close>, a map from names to list
  elements, is the set of its keys, and following it to the element is finding the item with that
  key. That the index and the list agree is the invariant \<open>cache_ok\<close>. The mutex serialises the
  operations, so each is one atomic step.
\<close>

section \<open>Data\<close>

record redirectMetadata =
  rm_OriginalClassification :: classifiedStatement
  rm_OriginalSQL :: string
  rm_OriginalStatementDigest :: string
  rm_RewrittenStatementDigest :: string
  rm_Rule :: string
  rm_SourceRelation :: string
  rm_TargetRelation :: string
  rm_PolicyIdentity :: string

record entry =
  en_Classification :: classifiedStatement
  en_RedactionTier :: redactionTier
  en_CatalogRefreshSearchPath :: bool
  en_CatalogRefreshSnapshot :: bool
  en_Redirect :: "redirectMetadata option"

record preparedCache =
  pc_cap :: int
  pc_order :: "(string \<times> entry) list"
  pc_byKey :: "string set"

abbreviation DefaultCapacity :: int where "DefaultCapacity \<equiv> 4096"

section \<open>Operations\<close>

definition Cache_New :: "int \<Rightarrow> preparedCache" where
  "Cache_New capacity =
     \<lparr>pc_cap = (if capacity \<le> 0 then DefaultCapacity else capacity), pc_order = [], pc_byKey = {}\<rparr>"

text \<open>\<open>MoveToFront\<close> on the element of \<open>name\<close>, whose value is now \<open>e\<close>.\<close>

definition move_to_front :: "string \<Rightarrow> entry \<Rightarrow> (string \<times> entry) list \<Rightarrow> (string \<times> entry) list" where
  "move_to_front name e order = (name, e) # filter (\<lambda>it. fst it \<noteq> name) order"

definition Cache_Put :: "preparedCache \<Rightarrow> string \<Rightarrow> entry \<Rightarrow> preparedCache" where
  "Cache_Put c name e =
     (if name \<in> pc_byKey c
      then c\<lparr>pc_order := move_to_front name e (pc_order c)\<rparr>
      else let order = (name, e) # pc_order c; byKey = insert name (pc_byKey c)
           in if int (length order) > pc_cap c
              then c\<lparr>pc_order := butlast order, pc_byKey := byKey - {fst (last order)}\<rparr>
              else c\<lparr>pc_order := order, pc_byKey := byKey\<rparr>)"

definition Cache_Get :: "preparedCache \<Rightarrow> string \<Rightarrow> entry option \<times> preparedCache" where
  "Cache_Get c name =
     (if name \<notin> pc_byKey c then (None, c)
      else case map_of (pc_order c) name of
        None \<Rightarrow> (None, c)
      | Some e \<Rightarrow> (Some e, c\<lparr>pc_order := move_to_front name e (pc_order c)\<rparr>))"

definition Cache_Delete :: "preparedCache \<Rightarrow> string \<Rightarrow> preparedCache" where
  "Cache_Delete c name =
     (if name \<notin> pc_byKey c then c
      else c\<lparr>pc_order := filter (\<lambda>it. fst it \<noteq> name) (pc_order c), pc_byKey := pc_byKey c - {name}\<rparr>)"

definition Cache_Clear :: "preparedCache \<Rightarrow> preparedCache" where
  "Cache_Clear c = c\<lparr>pc_order := [], pc_byKey := {}\<rparr>"

definition Cache_Len :: "preparedCache \<Rightarrow> nat" where
  "Cache_Len c = length (pc_order c)"

section \<open>The invariant\<close>

definition cache_ok :: "preparedCache \<Rightarrow> bool" where
  "cache_ok c \<longleftrightarrow>
     0 < pc_cap c \<and> distinct (map fst (pc_order c)) \<and> pc_byKey c = fst ` set (pc_order c) \<and>
     int (length (pc_order c)) \<le> pc_cap c"

lemma cache_okD:
  assumes "cache_ok c"
  shows "0 < pc_cap c" "distinct (map fst (pc_order c))" "pc_byKey c = fst ` set (pc_order c)"
    "int (length (pc_order c)) \<le> pc_cap c"
  using assms by (simp_all add: cache_ok_def)

definition cache_lookup :: "preparedCache \<Rightarrow> string \<Rightarrow> entry option" where
  "cache_lookup c name = map_of (pc_order c) name"

lemma keys_move_to_front:
  "name \<in> fst ` set xs \<Longrightarrow> fst ` set (move_to_front name e xs) = fst ` set xs"
  by (auto simp: move_to_front_def image_iff)

lemma distinct_move_to_front:
  "distinct (map fst xs) \<Longrightarrow> distinct (map fst (move_to_front name e xs))"
  by (auto simp: move_to_front_def distinct_map_filter)

lemma length_filter_key:
  assumes "distinct (map fst xs)" and "name \<in> fst ` set xs"
  shows "Suc (length (filter (\<lambda>it. fst it \<noteq> name) xs)) = length xs"
  using assms
proof (induction xs)
  case (Cons x xs)
  show ?case
  proof (cases "fst x = name")
    case True
    moreover have "fst x \<notin> fst ` set xs" using Cons.prems(1) by simp
    ultimately have "\<forall>it \<in> set xs. fst it \<noteq> name" by (metis image_eqI)
    then have "filter (\<lambda>it. fst it \<noteq> name) xs = xs" by (simp add: filter_id_conv)
    with True show ?thesis by simp
  next
    case False
    with Cons show ?thesis by auto
  qed
qed simp

lemma map_of_filter_key: "map_of (filter (\<lambda>it. fst it \<noteq> name) xs) k = (if k = name then None else map_of xs k)"
  by (induction xs) auto

lemma map_of_move_to_front [simp]:
  "map_of (move_to_front name e xs) k = (if k = name then Some e else map_of xs k)"
  by (simp add: move_to_front_def map_of_filter_key)

lemma length_move_to_front:
  "distinct (map fst xs) \<Longrightarrow> name \<in> fst ` set xs \<Longrightarrow> length (move_to_front name e xs) = length xs"
  by (simp add: move_to_front_def length_filter_key)

lemma map_of_None_key: "map_of xs k = None \<longleftrightarrow> k \<notin> fst ` set xs"
  by (simp add: map_of_eq_None_iff)

lemma butlast_map_of:
  assumes "xs \<noteq> []" and "distinct (map fst xs)"
  shows "map_of (butlast xs) k = (if k = fst (last xs) then None else map_of xs k)"
    and "fst ` set (butlast xs) = fst ` set xs - {fst (last xs)}"
proof -
  obtain ys y where xs: "xs = ys @ [y]" using assms(1) by (metis append_butlast_last_id)
  with assms(2) have "fst y \<notin> fst ` set ys" by auto
  with xs show "map_of (butlast xs) k = (if k = fst (last xs) then None else map_of xs k)"
    by (cases y) (auto simp: map_add_def map_of_eq_None_iff split: option.splits)
  from xs \<open>fst y \<notin> fst ` set ys\<close> show "fst ` set (butlast xs) = fst ` set xs - {fst (last xs)}"
    by auto
qed

section \<open>Every operation keeps it\<close>

lemma cache_ok_New [simp]: "cache_ok (Cache_New n)"
  by (simp add: Cache_New_def cache_ok_def)

lemma cache_ok_Clear [simp]: "cache_ok c \<Longrightarrow> cache_ok (Cache_Clear c)"
  by (simp add: Cache_Clear_def cache_ok_def)

lemma cache_ok_Delete [simp]: "cache_ok c \<Longrightarrow> cache_ok (Cache_Delete c name)"
  using length_filter_le [of "\<lambda>it. fst it \<noteq> name" "pc_order c"]
  by (auto simp: Cache_Delete_def cache_ok_def distinct_map_filter simp del: length_filter_le)

lemma cache_ok_Get [simp]: "cache_ok c \<Longrightarrow> cache_ok (snd (Cache_Get c name))"
  by (auto simp: Cache_Get_def cache_ok_def keys_move_to_front distinct_move_to_front
      length_move_to_front split: option.splits)

lemma cache_ok_Put [simp]:
  assumes "cache_ok c"
  shows "cache_ok (Cache_Put c name e)"
proof (cases "name \<in> pc_byKey c")
  case True
  with assms show ?thesis
    by (simp add: Cache_Put_def cache_ok_def keys_move_to_front distinct_move_to_front length_move_to_front)
next
  case False
  let ?order = "(name, e) # pc_order c"
  have d: "distinct (map fst ?order)"
    using False cache_okD [OF assms] by simp
  show ?thesis
  proof (cases "int (length ?order) > pc_cap c")
    case True
    have "distinct (map fst (butlast ?order))"
      using d by (simp only: map_butlast distinct_butlast)
    moreover have "insert name (pc_byKey c) - {fst (last ?order)} = fst ` set (butlast ?order)"
      using butlast_map_of(2) [OF _ d] cache_okD(3) [OF assms] by simp
    moreover have "int (length (butlast ?order)) \<le> pc_cap c" "0 < pc_cap c"
      using cache_okD [OF assms] by simp_all
    ultimately show ?thesis
      using False True unfolding cache_ok_def Cache_Put_def Let_def
      by (simp del: butlast.simps last.simps list.map)
  next
    case small: False
    with False d cache_okD [OF assms] show ?thesis
      by (simp add: Cache_Put_def cache_ok_def Let_def)
  qed
qed

section \<open>Lookup after each operation\<close>

lemma lookup_key: "cache_ok c \<Longrightarrow> name \<in> pc_byKey c \<longleftrightarrow> cache_lookup c name \<noteq> None"
  by (simp add: cache_ok_def cache_lookup_def map_of_eq_None_iff)

lemma fst_Get: "cache_ok c \<Longrightarrow> fst (Cache_Get c name) = cache_lookup c name"
  using lookup_key [of c name] by (auto simp: Cache_Get_def cache_lookup_def split: option.splits)

lemma lookup_Get [simp]: "cache_lookup (snd (Cache_Get c name)) k = cache_lookup c k"
  by (auto simp: Cache_Get_def cache_lookup_def split: option.splits)

lemma lookup_Delete:
  "cache_ok c \<Longrightarrow> cache_lookup (Cache_Delete c name) k = (if k = name then None else cache_lookup c k)"
  using lookup_key [of c name] by (auto simp: Cache_Delete_def cache_lookup_def map_of_filter_key)

lemma lookup_Clear [simp]: "cache_lookup (Cache_Clear c) k = None"
  by (simp add: Cache_Clear_def cache_lookup_def)

lemma lookup_New [simp]: "cache_lookup (Cache_New n) k = None"
  by (simp add: Cache_New_def cache_lookup_def)

text \<open>
  The key a \<open>Put\<close> evicts: the least recently used one, when the cache is full and the name is new.
\<close>

definition victim :: "preparedCache \<Rightarrow> string \<Rightarrow> string option" where
  "victim c name =
     (if cache_lookup c name = None \<and> int (length (pc_order c)) = pc_cap c
      then Some (fst (last (pc_order c))) else None)"

lemma lookup_Put:
  assumes "cache_ok c"
  shows "cache_lookup (Cache_Put c name e) k =
    (if k = name then Some e else if victim c name = Some k then None else cache_lookup c k)"
proof (cases "name \<in> pc_byKey c")
  case True
  with lookup_key [OF assms, of name] show ?thesis
    by (auto simp: Cache_Put_def cache_lookup_def victim_def)
next
  case False
  then have miss: "cache_lookup c name = None"
    using lookup_key [OF assms] by simp
  let ?order = "(name, e) # pc_order c"
  have d: "distinct (map fst ?order)"
    using False cache_okD [OF assms] by simp
  show ?thesis
  proof (cases "int (length ?order) > pc_cap c")
    case True
    then have full: "int (length (pc_order c)) = pc_cap c"
      using cache_okD(4) [OF assms] by simp
    then have ne: "pc_order c \<noteq> []"
      using cache_okD(1) [OF assms] by auto
    then have last: "last ?order = last (pc_order c)" by simp
    have "fst (last (pc_order c)) \<noteq> name"
      using ne False cache_okD(3) [OF assms] by auto
    moreover have "cache_lookup (Cache_Put c name e) k = map_of (butlast ?order) k"
      using False True by (simp add: Cache_Put_def cache_lookup_def Let_def del: butlast.simps)
    ultimately show ?thesis
      using butlast_map_of(1) [OF _ d, of k] miss full
      unfolding last by (auto simp: victim_def cache_lookup_def)
  next
    case small: False
    with False miss show ?thesis
      by (simp add: Cache_Put_def cache_lookup_def victim_def Let_def)
  qed
qed

section \<open>Histories\<close>

datatype cacheCall = CallPut string entry | CallGet string | CallDelete string | CallClear

fun cache_call :: "preparedCache \<Rightarrow> cacheCall \<Rightarrow> preparedCache" where
  "cache_call c (CallPut name e) = Cache_Put c name e"
| "cache_call c (CallGet name) = snd (Cache_Get c name)"
| "cache_call c (CallDelete name) = Cache_Delete c name"
| "cache_call c CallClear = Cache_Clear c"

definition cache_after :: "int \<Rightarrow> cacheCall list \<Rightarrow> preparedCache" where
  "cache_after capacity calls = foldl cache_call (Cache_New capacity) calls"

lemma cache_ok_call: "cache_ok c \<Longrightarrow> cache_ok (cache_call c call)"
  by (cases call) simp_all

lemma cache_ok_after: "cache_ok (cache_after capacity calls)"
  unfolding cache_after_def by (induction calls rule: rev_induct) (simp_all add: cache_ok_call)

lemma cap_call [simp]: "pc_cap (cache_call c call) = pc_cap c"
  by (cases call)
    (simp_all add: Cache_Put_def Cache_Get_def Cache_Delete_def Cache_Clear_def Let_def split: option.split)

lemma cap_after: "pc_cap (cache_after capacity calls) = (if capacity \<le> 0 then DefaultCapacity else capacity)"
  unfolding cache_after_def by (induction calls rule: rev_induct) (simp_all add: Cache_New_def)

text \<open>C33: After any sequence of calls the cache holds at most its capacity (4096 entries for a
  non-positive request), every name is in the recency list once, and the index names exactly the
  entries of the list.\<close>

theorem cache_bounded_and_consistent:
  "let c = cache_after capacity calls
   in int (Cache_Len c) \<le> (if capacity \<le> 0 then DefaultCapacity else capacity) \<and>
      distinct (map fst (pc_order c)) \<and> pc_byKey c = fst ` set (pc_order c)"
  using cache_okD [OF cache_ok_after [of capacity calls]] cap_after [of capacity calls]
  by (simp add: Let_def Cache_Len_def)

text \<open>A \<open>Get\<close> after a \<open>Put\<close> returns the stored entry for that name; for every other name it
  returns what it returned before, except for the one evicted name, which is the least recently
  used entry and is evicted only when the name was new and the cache full.\<close>

theorem cache_get_after_put:
  "let c = cache_after capacity calls
   in fst (Cache_Get (Cache_Put c name e) k) =
        (if k = name then Some e
         else if cache_lookup c name = None \<and> int (Cache_Len c) = pc_cap c \<and> k = fst (last (pc_order c))
         then None
         else fst (Cache_Get c k))"
  by (auto simp: Let_def fst_Get cache_ok_after lookup_Put victim_def Cache_Len_def)

end
