(* ===== verification/Pg_Machine.thy ===== *)
theory Pg_Machine
  imports Db_Guarantees Prepared_Cache "HOL-Library.AList"
begin

text \<open>
  The Extended Query and transaction state machine of the PostgreSQL proxy:
  \<open>internal/db/proxy/postgres/statemachine/*.go\<close>, with the adapter that gives it the wire cache
  (\<open>extquery.go\<close>) and the interception of SQL-level prepared statements (\<open>sqlprepared.go\<close>).

  The classifier is a parameter \<open>classify\<close> from SQL text to classified statements: the parser with
  its options applied. Its error result is discarded by the code, so it has none here. The
  \<open>CacheView\<close> interface is a record of its methods over an arbitrary cache state. A protocol byte is
  a \<^typ>\<open>char\<close>.
\<close>

section \<open>State and frames (\<open>state.go\<close>, \<open>frame.go\<close>)\<close>

datatype phase = PhasePreAuth | PhaseIdle | PhaseInQuery | PhaseInTx | PhaseInTxError
  | PhaseInCopyIn | PhaseInCopyOut

fun Phase_String :: "phase \<Rightarrow> string" where
  "Phase_String PhasePreAuth = ''pre_auth''"
| "Phase_String PhaseIdle = ''idle''"
| "Phase_String PhaseInQuery = ''in_query''"
| "Phase_String PhaseInTx = ''in_tx''"
| "Phase_String PhaseInTxError = ''in_tx_error''"
| "Phase_String PhaseInCopyIn = ''in_copy_in''"
| "Phase_String PhaseInCopyOut = ''in_copy_out''"

record connState =
  st_Phase :: phase
  st_LastUpstreamRFQ :: char
  st_Absorbing :: bool
  st_UpstreamDirtySinceSync :: bool
  st_TxStartedAt :: int

datatype frame =
    QueryFrame string
  | ParseFrame string string
  | BindFrame string string
  | DescribeFrame char string
  | ExecuteFrame string
  | SyncFrame
  | FlushFrame
  | CloseFrame char string
  | TerminateFrame
  | FunctionCallFrame uint32
  | CopyDataFrame bytes
  | CopyDoneFrame
  | CopyFailFrame string

section \<open>Actions (\<open>action.go\<close>)\<close>

text \<open>
  The text of a synthesised error is a literal, or the policy prefix followed by a decision's reason.
\<close>

datatype message = MsgText string | MsgReason reason

datatype action =
    ActionForward
  | ActionSynthError string message string
  | ActionSynthReadyForQuery char
  | ActionSynthParseComplete
  | ActionSynthBindComplete
  | ActionSuppress
  | ActionInjectRollback
  | ActionDrainUntilRFQ
  | ActionClose
  | ActionTrackUpstreamRFQ char
  | ActionApproverWait duration classifiedStatement statementRule

section \<open>The cache view (\<open>cacheview.go\<close>)\<close>

record cacheValue =
  cv_Verb :: string
  cv_GroupID :: "8 word"
  cv_OpaqueID :: string
  cv_CatalogRefreshSearchPath :: bool
  cv_CatalogRefreshSnapshot :: bool

record 'c cacheView =
  view_Get :: "'c \<Rightarrow> string \<Rightarrow> cacheValue option \<times> 'c"
  view_Put :: "'c \<Rightarrow> string \<Rightarrow> cacheValue \<Rightarrow> 'c"
  view_Delete :: "'c \<Rightarrow> string \<Rightarrow> 'c"
  view_Clear :: "'c \<Rightarrow> 'c"

datatype cacheOp = OpGet string "cacheValue option" | OpPut string cacheValue | OpDelete string | OpClear

record fakeCacheView =
  fk_store :: "(string \<times> cacheValue) list"
  fk_history :: "cacheOp list"

definition fake_Get :: "fakeCacheView \<Rightarrow> string \<Rightarrow> cacheValue option \<times> fakeCacheView" where
  "fake_Get f name =
     (map_of (fk_store f) name,
      f\<lparr>fk_history := fk_history f @ [OpGet name (map_of (fk_store f) name)]\<rparr>)"

definition fake_Put :: "fakeCacheView \<Rightarrow> string \<Rightarrow> cacheValue \<Rightarrow> fakeCacheView" where
  "fake_Put f name v =
     f\<lparr>fk_store := AList.update name v (fk_store f), fk_history := fk_history f @ [OpPut name v]\<rparr>"

definition fake_Delete :: "fakeCacheView \<Rightarrow> string \<Rightarrow> fakeCacheView" where
  "fake_Delete f name =
     f\<lparr>fk_store := AList.delete name (fk_store f), fk_history := fk_history f @ [OpDelete name]\<rparr>"

definition fake_Clear :: "fakeCacheView \<Rightarrow> fakeCacheView" where
  "fake_Clear f = f\<lparr>fk_store := [], fk_history := fk_history f @ [OpClear]\<rparr>"

definition fakeView :: "fakeCacheView cacheView" where
  "fakeView = \<lparr>view_Get = fake_Get, view_Put = fake_Put, view_Delete = fake_Delete, view_Clear = fake_Clear\<rparr>"

text \<open>The adapter of \<open>extquery.go\<close> over the wire cache.\<close>

definition groupIDFromClassification :: "classifiedStatement \<Rightarrow> 8 word" where
  "groupIDFromClassification cs =
     (case cs_Effects cs of [] \<Rightarrow> 0 | e # _ \<Rightarrow> group_num (ef_Group e))"

definition zeroClassification :: classifiedStatement where
  "zeroClassification = \<lparr>cs_Effects = [], cs_RawVerb = [], cs_ParserBackend = ParserBackendUnknown,
     cs_Error = [], cs_SourceStart = 0, cs_SourceEnd = 0, cs_PreparedName = [], cs_BulkOp = BulkOpNone\<rparr>"

definition entryOf :: "classifiedStatement \<Rightarrow> bool \<Rightarrow> bool \<Rightarrow> entry" where
  "entryOf cs searchPath snapshot =
     \<lparr>en_Classification = cs, en_RedactionTier = RedactNone, en_CatalogRefreshSearchPath = searchPath,
      en_CatalogRefreshSnapshot = snapshot, en_Redirect = None\<rparr>"

definition valueOf :: "entry \<Rightarrow> cacheValue" where
  "valueOf e =
     \<lparr>cv_Verb = cs_RawVerb (en_Classification e),
      cv_GroupID = groupIDFromClassification (en_Classification e), cv_OpaqueID = [],
      cv_CatalogRefreshSearchPath = en_CatalogRefreshSearchPath e,
      cv_CatalogRefreshSnapshot = en_CatalogRefreshSnapshot e\<rparr>"

definition wire_Get :: "preparedCache \<Rightarrow> string \<Rightarrow> cacheValue option \<times> preparedCache" where
  "wire_Get c name = (case Cache_Get c name of
       (None, c') \<Rightarrow> (None, c')
     | (Some e, c') \<Rightarrow> (Some (valueOf e), c'))"

definition wire_Put :: "preparedCache \<Rightarrow> string \<Rightarrow> cacheValue \<Rightarrow> preparedCache" where
  "wire_Put c name val =
     Cache_Put c name (entryOf (zeroClassification\<lparr>cs_RawVerb := cv_Verb val\<rparr>)
       (cv_CatalogRefreshSearchPath val) (cv_CatalogRefreshSnapshot val))"

definition wireView :: "preparedCache cacheView" where
  "wireView = \<lparr>view_Get = wire_Get, view_Put = wire_Put, view_Delete = Cache_Delete, view_Clear = Cache_Clear\<rparr>"

section \<open>Denying (\<open>denyroute.go\<close>)\<close>

definition zeroStatementRule :: statementRule where
  "zeroStatementRule =
     \<lparr>sr_Name = [], sr_DBService = [], sr_DBFamily = [], sr_DBDialect = [], sr_Schemas = [],
      sr_Objects = [], sr_Relations = [], sr_Functions = [], sr_Operations = [], sr_Subtypes = [],
      sr_MatchObjectResolution = [], sr_RequireWhere = False, sr_Decision = [], sr_Message = [],
      sr_Timeout = 0, sr_Redirect = None, sr_AcknowledgeAuditOnDangerous = False, sr_DenyModeInTx = []\<rparr>"

definition DenyRoute :: "connState \<Rightarrow> statementRule \<Rightarrow> message \<Rightarrow> string \<Rightarrow> action list" where
  "DenyRoute s rule msg sqlstate =
     (if st_LastUpstreamRFQ s = CHR ''T'' \<or> st_LastUpstreamRFQ s = CHR ''E''
      then if sr_DenyModeInTx rule = ''rollback_then_continue''
           then [ActionSynthError sqlstate msg [], ActionInjectRollback, ActionDrainUntilRFQ,
                 ActionSynthReadyForQuery (CHR ''I'')]
           else [ActionSynthError sqlstate msg ''FATAL'', ActionClose]
      else if st_UpstreamDirtySinceSync s
           then [ActionSynthError sqlstate msg [], ActionDrainUntilRFQ]
           else [ActionSynthError sqlstate msg [], ActionSynthReadyForQuery (CHR ''I'')])"

section \<open>Transitions (\<open>transition.go\<close>)\<close>

definition lookupStatementRule :: "ruleSet option \<Rightarrow> string \<Rightarrow> statementRule" where
  "lookupStatementRule rs name =
     (if rs = None \<or> name = [] then zeroStatementRule
      else case List.find (\<lambda>r. sr_Name r = name) (AllStatementRules rs) of
             Some r \<Rightarrow> r | None \<Rightarrow> zeroStatementRule)"

definition renderDenyMessage :: "decision \<Rightarrow> message" where
  "renderDenyMessage d =
     (if dec_RuleName d \<noteq> [] then MsgText (''denied by AepCaw policy: '' @ dec_RuleName d)
      else if dec_Reason d \<noteq> ReasonText [] then MsgReason (dec_Reason d)
      else MsgText ''denied by AepCaw policy'')"

definition sqlstateForDecision :: "decision \<Rightarrow> string" where
  "sqlstateForDecision d = (if dec_RuleKind d = RuleKindConnection then ''28000'' else ''42501'')"

definition containsClose :: "action list \<Rightarrow> bool" where
  "containsClose acts = list_ex (\<lambda>a. a = ActionClose) acts"

definition newApproverWaitAction :: "decision \<Rightarrow> classifiedStatement \<Rightarrow> statementRule \<Rightarrow> action" where
  "newApproverWaitAction d cs rule =
     (let timeout = sr_Timeout rule;
          timeout = (if timeout = 0
                     then (case dec_Approval d of None \<Rightarrow> timeout | Some ap \<Rightarrow> ap_Timeout ap)
                     else timeout);
          timeout = (if timeout = 0 then 60 * second else timeout)
      in ActionApproverWait timeout cs rule)"

definition portalCacheKey :: "string \<Rightarrow> string" where
  "portalCacheKey name = [CHR 0x00] @ ''portal:'' @ name"

text \<open>
  The loop over the classified statements of a \<open>Parse\<close> or \<open>Query\<close> frame stops at the first approve
  or deny decision.
\<close>

datatype screening = ScreenAllow | ScreenApprove decision classifiedStatement | ScreenDeny decision

fun screen :: "policyLib \<Rightarrow> ruleSet option \<Rightarrow> serviceID \<Rightarrow> classifiedStatement list \<Rightarrow> screening" where
  "screen L rules svc [] = ScreenAllow"
| "screen L rules svc (cs # stmts) =
     (let d = Evaluate L cs rules svc
      in if dec_Verb d = VerbApprove then ScreenApprove d cs
         else if dec_Verb d = VerbDeny then ScreenDeny d
         else screen L rules svc stmts)"

definition handleSync :: "connState \<Rightarrow> connState \<times> action list" where
  "handleSync s =
     (if \<not> st_Absorbing s \<and> \<not> st_UpstreamDirtySinceSync s then (s, [ActionForward])
      else if st_Absorbing s \<and> st_UpstreamDirtySinceSync s
      then (s\<lparr>st_Absorbing := False, st_UpstreamDirtySinceSync := False\<rparr>,
            [ActionForward, ActionDrainUntilRFQ])
      else if st_Absorbing s \<and> \<not> st_UpstreamDirtySinceSync s
      then (s\<lparr>st_Absorbing := False\<rparr>, [ActionSynthReadyForQuery (CHR ''I'')])
      else (s\<lparr>st_UpstreamDirtySinceSync := False\<rparr>, [ActionForward, ActionDrainUntilRFQ]))"

definition parsedValue :: "classifiedStatement list \<Rightarrow> cacheValue" where
  "parsedValue stmts =
     \<lparr>cv_Verb = (case stmts of [] \<Rightarrow> [] | cs # _ \<Rightarrow> cs_RawVerb cs),
      cv_GroupID = (case stmts of [] \<Rightarrow> 0 | cs # _ \<Rightarrow> groupIDFromClassification cs),
      cv_OpaqueID = [], cv_CatalogRefreshSearchPath = False, cv_CatalogRefreshSnapshot = False\<rparr>"

definition handleParse ::
  "policyLib \<Rightarrow> 'c cacheView \<Rightarrow> ruleSet option \<Rightarrow> serviceID \<Rightarrow> (string \<Rightarrow> classifiedStatement list) \<Rightarrow>
   connState \<Rightarrow> 'c \<Rightarrow> string \<Rightarrow> string \<Rightarrow> connState \<times> 'c \<times> action list" where
  "handleParse L V rules svc classify s c name sql =
     (if st_Absorbing s then (s, c, [ActionSuppress])
      else let stmts = classify sql in
        case screen L rules svc stmts of
          ScreenApprove d cs \<Rightarrow>
            (s, c, [newApproverWaitAction d cs (lookupStatementRule rules (dec_RuleName d))])
        | ScreenDeny d \<Rightarrow>
            (let actions = DenyRoute s (lookupStatementRule rules (dec_RuleName d))
                             (renderDenyMessage d) (sqlstateForDecision d)
             in (if \<not> containsClose actions then s\<lparr>st_Absorbing := True\<rparr> else s, c, actions))
        | ScreenAllow \<Rightarrow>
            (s\<lparr>st_UpstreamDirtySinceSync := True\<rparr>, view_Put V c name (parsedValue stmts),
             [ActionForward]))"

definition handleBind ::
  "'c cacheView \<Rightarrow> connState \<Rightarrow> 'c \<Rightarrow> string \<Rightarrow> string \<Rightarrow> connState \<times> 'c \<times> action list" where
  "handleBind V s c portal stmt =
     (if st_Absorbing s then (s, c, [ActionSuppress])
      else case view_Get V c stmt of
        (None, c') \<Rightarrow>
          (s\<lparr>st_Absorbing := True\<rparr>, c',
           [ActionSynthError ''34000''
              (MsgText (''prepared statement '' @ dquote @ stmt @ dquote @ '' does not exist'')) []])
      | (Some v, c') \<Rightarrow>
          (s\<lparr>st_UpstreamDirtySinceSync := True\<rparr>, view_Put V c' (portalCacheKey portal) v,
           [ActionForward]))"

definition handleDescribe :: "connState \<Rightarrow> connState \<times> action list" where
  "handleDescribe s =
     (if st_Absorbing s then (s, [ActionSuppress])
      else (s\<lparr>st_UpstreamDirtySinceSync := True\<rparr>, [ActionForward]))"

definition handleExecute :: "'c cacheView \<Rightarrow> connState \<Rightarrow> 'c \<Rightarrow> string \<Rightarrow> connState \<times> 'c \<times> action list" where
  "handleExecute V s c portal =
     (if st_Absorbing s then (s, c, [ActionSuppress])
      else case view_Get V c (portalCacheKey portal) of
        (None, c') \<Rightarrow>
          (s\<lparr>st_Absorbing := True\<rparr>, c',
           [ActionSynthError ''34000''
              (MsgText (''portal '' @ dquote @ portal @ dquote @ '' does not exist'')) []])
      | (Some _, c') \<Rightarrow> (s\<lparr>st_UpstreamDirtySinceSync := True\<rparr>, c', [ActionForward]))"

definition handleFlush :: "connState \<Rightarrow> connState \<times> action list" where
  "handleFlush s = (if st_Absorbing s then (s, [ActionSuppress]) else (s, [ActionForward]))"

definition handleClose ::
  "'c cacheView \<Rightarrow> connState \<Rightarrow> 'c \<Rightarrow> char \<Rightarrow> string \<Rightarrow> connState \<times> 'c \<times> action list" where
  "handleClose V s c objectType name =
     (if st_Absorbing s then (s, c, [ActionSuppress])
      else let c' = (if objectType = CHR ''S'' then view_Delete V c name
                     else if objectType = CHR ''P'' then view_Delete V c (portalCacheKey name)
                     else c)
           in (s\<lparr>st_UpstreamDirtySinceSync := True\<rparr>, c', [ActionForward]))"

definition handleQuery ::
  "policyLib \<Rightarrow> ruleSet option \<Rightarrow> serviceID \<Rightarrow> (string \<Rightarrow> classifiedStatement list) \<Rightarrow>
   connState \<Rightarrow> string \<Rightarrow> connState \<times> action list" where
  "handleQuery L rules svc classify s sql =
     (if st_Absorbing s then (s, [ActionSuppress])
      else case screen L rules svc (classify sql) of
        ScreenApprove d cs \<Rightarrow>
          (s, [newApproverWaitAction d cs (lookupStatementRule rules (dec_RuleName d))])
      | ScreenDeny d \<Rightarrow>
          (s, DenyRoute s (lookupStatementRule rules (dec_RuleName d)) (renderDenyMessage d)
                (sqlstateForDecision d))
      | ScreenAllow \<Rightarrow> (s, [ActionForward]))"

fun TransitionWithParser ::
  "policyLib \<Rightarrow> 'c cacheView \<Rightarrow> ruleSet option \<Rightarrow> serviceID \<Rightarrow> (string \<Rightarrow> classifiedStatement list) \<Rightarrow>
   connState \<Rightarrow> frame \<Rightarrow> 'c \<Rightarrow> connState \<times> 'c \<times> action list" where
  "TransitionWithParser L V rules svc classify s SyncFrame c =
     (let (s', acts) = handleSync s in (s', c, acts))"
| "TransitionWithParser L V rules svc classify s (QueryFrame sql) c =
     (let (s', acts) = handleQuery L rules svc classify s sql in (s', c, acts))"
| "TransitionWithParser L V rules svc classify s (ParseFrame name sql) c =
     handleParse L V rules svc classify s c name sql"
| "TransitionWithParser L V rules svc classify s (BindFrame portal stmt) c = handleBind V s c portal stmt"
| "TransitionWithParser L V rules svc classify s (DescribeFrame ty name) c =
     (let (s', acts) = handleDescribe s in (s', c, acts))"
| "TransitionWithParser L V rules svc classify s (ExecuteFrame portal) c = handleExecute V s c portal"
| "TransitionWithParser L V rules svc classify s FlushFrame c =
     (let (s', acts) = handleFlush s in (s', c, acts))"
| "TransitionWithParser L V rules svc classify s (CloseFrame ty name) c = handleClose V s c ty name"
| "TransitionWithParser L V rules svc classify s TerminateFrame c = (s, c, [ActionForward, ActionClose])"
| "TransitionWithParser L V rules svc classify s _ c =
     (s, c, [ActionSynthError ''0A000'' (MsgText ''frame not supported'') [], ActionClose])"

section \<open>SQL-level prepared statements (\<open>sqlprepared.go\<close>)\<close>

definition trimPrefix :: "string \<Rightarrow> string \<Rightarrow> string" where
  "trimPrefix pre s = (if take (length pre) s = pre then drop (length pre) s else s)"

definition hasPrefix :: "string \<Rightarrow> string \<Rightarrow> bool" where
  "hasPrefix pre s = (take (length pre) s = pre)"

text \<open>
  \<open>Intercept\<close> rewrites \<open>stmts[0]\<close> in place; the result is the new statement list, the new cache, and
  the actions when the frame is handled (\<^const>\<open>None\<close> when the caller goes on).
\<close>

definition Intercept ::
  "classifiedStatement list \<Rightarrow> decision list \<Rightarrow> preparedCache \<Rightarrow> connState \<Rightarrow> ruleSet option \<Rightarrow>
   action list option \<times> classifiedStatement list \<times> preparedCache" where
  "Intercept stmts decisions cache s rs =
     (case stmts of
        [] \<Rightarrow> (None, stmts, cache)
      | first # rest \<Rightarrow>
          if hasPrefix ''PREPARE'' (cs_RawVerb first)
          then (case decisions of
                  d # _ \<Rightarrow>
                    if dec_Verb d = VerbDeny
                    then (Some (DenyRoute s (lookupStatementRule rs (dec_RuleName d))
                                  (MsgText (''denied by AepCaw policy: '' @ dec_RuleName d)) ''42501''),
                          stmts, cache)
                    else (None, stmts, Cache_Put cache (cs_PreparedName first)
                            (entryOf (first\<lparr>cs_RawVerb := trimPrefix ''PREPARE_'' (cs_RawVerb first),
                                            cs_PreparedName := []\<rparr>) False False))
                | [] \<Rightarrow> (None, stmts, Cache_Put cache (cs_PreparedName first)
                            (entryOf (first\<lparr>cs_RawVerb := trimPrefix ''PREPARE_'' (cs_RawVerb first),
                                            cs_PreparedName := []\<rparr>) False False)))
          else if cs_RawVerb first = ''EXECUTE''
          then (case Cache_Get cache (cs_PreparedName first) of
                  (None, cache') \<Rightarrow>
                    (Some [ActionSynthError ''26000''
                             (MsgText (''SQL_PREPARED_CACHE_MISS: prepared statement '' @ dquote @
                                       cs_PreparedName first @ dquote @
                                       '' does not exist in AepCaw proxy cache'')) [],
                           ActionSynthReadyForQuery (CHR ''I'')], stmts, cache')
                | (Some e, cache') \<Rightarrow>
                    (None, first\<lparr>cs_Effects := cs_Effects (en_Classification e), cs_Error := []\<rparr> # rest,
                     cache'))
          else if cs_RawVerb first = ''DEALLOCATE''
          then (None, stmts, if cs_PreparedName first = [] then Cache_Clear cache
                             else Cache_Delete cache (cs_PreparedName first))
          else if cs_RawVerb first = ''DISCARD''
          then (None, stmts,
                case cs_Effects first of
                  [] \<Rightarrow> cache
                | e # _ \<Rightarrow> if ef_Subtype e = SubtypeDiscardAll \<or> ef_Subtype e = SubtypeDiscardPlans
                          then Cache_Clear cache else cache)
          else (None, stmts, cache))"

end
