(* ===== verification/Pg_Safety.thy ===== *)
theory Pg_Safety
  imports Pg_Machine
begin

text \<open>
  What the proxy state machine guarantees. The contract of a cache view is the locale
  \<open>cache_view\<close>: which names are present after each operation. It is interpreted on the wire-cache
  adapter over the LRU cache and on the recording view of \<open>cacheview.go\<close>. Runs of the machine are
  the inductive relation \<open>transition_run\<close>: any sequence of frames, each under whatever rule set is
  current, interleaved with status bytes observed from upstream.
\<close>

section \<open>Screening and denying\<close>

lemma screen_allow_iff:
  "screen L rules svc stmts = ScreenAllow \<longleftrightarrow>
     (\<forall>cs \<in> set stmts. dec_Verb (Evaluate L cs rules svc) \<notin> {VerbApprove, VerbDeny})"
  by (induction stmts) (auto simp: Let_def)

lemma screen_approve:
  "screen L rules svc stmts = ScreenApprove d cs \<Longrightarrow>
     cs \<in> set stmts \<and> d = Evaluate L cs rules svc \<and> dec_Verb d = VerbApprove"
  by (induction stmts) (auto simp: Let_def split: if_splits)

lemma screen_deny:
  "screen L rules svc stmts = ScreenDeny d \<Longrightarrow>
     \<exists>cs \<in> set stmts. d = Evaluate L cs rules svc \<and> dec_Verb d = VerbDeny"
  by (induction stmts) (auto simp: Let_def split: if_splits)

lemma DenyRoute_no_forward [simp]: "ActionForward \<notin> set (DenyRoute s rule msg st)"
  by (simp add: DenyRoute_def)

lemma newApproverWait_not_forward [simp]:
  "newApproverWaitAction d cs rule \<noteq> ActionForward" "ActionForward \<noteq> newApproverWaitAction d cs rule"
  by (simp_all add: newApproverWaitAction_def Let_def)

lemmas handler_defs = handleSync_def handleQuery_def handleParse_def handleBind_def
  handleDescribe_def handleExecute_def handleFlush_def handleClose_def

section \<open>The contract of a cache view\<close>

locale cache_view =
  fixes V :: "'c cacheView" and ok :: "'c \<Rightarrow> bool" and keys :: "'c \<Rightarrow> string set"
  assumes Get_hit: "ok c \<Longrightarrow> fst (view_Get V c k) = None \<longleftrightarrow> k \<notin> keys c"
    and Get_keys: "ok c \<Longrightarrow> keys (snd (view_Get V c k)) = keys c"
    and Get_ok: "ok c \<Longrightarrow> ok (snd (view_Get V c k))"
    and Put_hit: "ok c \<Longrightarrow> k \<in> keys (view_Put V c k v)"
    and Put_keys: "ok c \<Longrightarrow> keys (view_Put V c k v) \<subseteq> insert k (keys c)"
    and Put_ok: "ok c \<Longrightarrow> ok (view_Put V c k v)"
    and Delete_keys: "ok c \<Longrightarrow> keys (view_Delete V c k) = keys c - {k}"
    and Delete_ok: "ok c \<Longrightarrow> ok (view_Delete V c k)"
    and Clear_keys: "keys (view_Clear V c) = {}"
    and Clear_ok: "ok c \<Longrightarrow> ok (view_Clear V c)"
begin

text \<open>Which names a transition can add: the one parsed, or the portal bound to a present one.\<close>

lemma transition_ok:
  assumes "ok c" and "TransitionWithParser L V rules svc classify s f c = (s', c', acts)"
  shows "ok c'"
proof (cases f)
  case (ParseFrame name sql)
  with assms Put_ok [OF assms(1)] show ?thesis
    by (auto simp: handleParse_def Let_def split: if_splits screening.splits)
next
  case (BindFrame portal stmt)
  obtain v c1 where g: "view_Get V c stmt = (v, c1)" by (cases "view_Get V c stmt")
  then have "ok c1" using Get_ok [OF assms(1), of stmt] by simp
  with assms g BindFrame Put_ok [of c1] show ?thesis
    by (auto simp: handleBind_def split: if_splits option.splits)
next
  case (ExecuteFrame portal)
  obtain v c1 where g: "view_Get V c (portalCacheKey portal) = (v, c1)"
    by (cases "view_Get V c (portalCacheKey portal)")
  then have "ok c1" using Get_ok [OF assms(1), of "portalCacheKey portal"] by simp
  with assms g ExecuteFrame show ?thesis
    by (auto simp: handleExecute_def split: if_splits option.splits)
next
  case (CloseFrame ty name)
  with assms Delete_ok [OF assms(1)] show ?thesis
    by (auto simp: handleClose_def Let_def split: if_splits)
qed (use assms in \<open>auto simp: Let_def split: prod.splits\<close>)

lemma transition_keys:
  assumes "ok c" and "TransitionWithParser L V rules svc classify s f c = (s', c', acts)"
    and k: "k \<in> keys c'"
  shows "k \<in> keys c \<or>
           (ActionForward \<in> set acts \<and>
            ((\<exists>sql. f = ParseFrame k sql) \<or>
             (\<exists>portal stmt. f = BindFrame portal stmt \<and> k = portalCacheKey portal \<and> stmt \<in> keys c)))"
proof (cases f)
  case (ParseFrame name sql)
  with assms show ?thesis
    using Put_keys [OF assms(1), of name "parsedValue (classify sql)"]
    by (auto simp: handleParse_def Let_def split: if_splits screening.splits)
next
  case (BindFrame portal stmt)
  obtain v c1 where g: "view_Get V c stmt = (v, c1)" by (cases "view_Get V c stmt")
  then have c1: "ok c1" "keys c1 = keys c" "v = None \<longleftrightarrow> stmt \<notin> keys c"
    using Get_ok [OF assms(1), of stmt] Get_keys [OF assms(1), of stmt] Get_hit [OF assms(1), of stmt]
    by simp_all
  show ?thesis
  proof (cases v)
    case None
    with assms BindFrame g c1 show ?thesis
      by (auto simp: handleBind_def split: if_splits)
  next
    case (Some w)
    with assms BindFrame g c1 Put_keys [OF c1(1), of "portalCacheKey portal" w] show ?thesis
      by (auto simp: handleBind_def split: if_splits)
  qed
next
  case (ExecuteFrame portal)
  obtain v c1 where g: "view_Get V c (portalCacheKey portal) = (v, c1)"
    by (cases "view_Get V c (portalCacheKey portal)")
  then have "keys c1 = keys c" using Get_keys [OF assms(1), of "portalCacheKey portal"] by simp
  with assms g ExecuteFrame show ?thesis
    by (auto simp: handleExecute_def split: if_splits option.splits)
next
  case (CloseFrame ty name)
  with assms Delete_keys [OF assms(1)] show ?thesis
    by (auto simp: handleClose_def Let_def split: if_splits)
qed (use assms in \<open>auto simp: Let_def split: prod.splits\<close>)

lemma execute_forward_present:
  assumes "ok c" and "TransitionWithParser L V rules svc classify s (ExecuteFrame portal) c = (s', c', acts)"
    and "ActionForward \<in> set acts"
  shows "portalCacheKey portal \<in> keys c"
  using assms Get_hit [OF assms(1), of "portalCacheKey portal"]
  by (auto simp: handleExecute_def split: if_splits prod.splits option.splits)

end

section \<open>Runs\<close>

text \<open>
  The history lists the forwarded frames with the rule set they were judged under. Between frames
  the dispatcher may record a status byte and phase from upstream.
\<close>

inductive transition_run ::
  "policyLib \<Rightarrow> 'c cacheView \<Rightarrow> serviceID \<Rightarrow> (string \<Rightarrow> classifiedStatement list) \<Rightarrow> connState \<Rightarrow> 'c \<Rightarrow>
   connState \<Rightarrow> 'c \<Rightarrow> (ruleSet option \<times> frame) list \<Rightarrow> bool"
  for L V svc classify s0 c0 where
  run_start: "transition_run L V svc classify s0 c0 s0 c0 []"
| run_frame: "transition_run L V svc classify s0 c0 s c hist \<Longrightarrow>
    TransitionWithParser L V rules svc classify s f c = (s', c', acts) \<Longrightarrow>
    transition_run L V svc classify s0 c0 s' c'
      (if ActionForward \<in> set acts then hist @ [(rules, f)] else hist)"
| run_upstream: "transition_run L V svc classify s0 c0 s c hist \<Longrightarrow>
    transition_run L V svc classify s0 c0 (s\<lparr>st_LastUpstreamRFQ := z, st_Phase := p\<rparr>) c hist"

text \<open>
  Where a cached name comes from: a forwarded \<open>Parse\<close> of some SQL under some rules, or, for a
  portal, a forwarded \<open>Bind\<close> to a name that comes from one.
\<close>

inductive provenance :: "(ruleSet option \<times> frame) list \<Rightarrow> string \<Rightarrow> ruleSet option \<Rightarrow> string \<Rightarrow> bool"
  for hist where
  parsed: "(rules, ParseFrame name sql) \<in> set hist \<Longrightarrow> provenance hist name rules sql"
| bound: "(rules', BindFrame portal stmt) \<in> set hist \<Longrightarrow> provenance hist stmt rules sql \<Longrightarrow>
    provenance hist (portalCacheKey portal) rules sql"

lemma provenance_mono:
  "provenance hist k rules sql \<Longrightarrow> set hist \<subseteq> set hist' \<Longrightarrow> provenance hist' k rules sql"
  by (induction rule: provenance.induct) (auto intro: provenance.intros)

definition allowed_parses :: "policyLib \<Rightarrow> serviceID \<Rightarrow> (string \<Rightarrow> classifiedStatement list) \<Rightarrow>
  (ruleSet option \<times> frame) list \<Rightarrow> bool" where
  "allowed_parses L svc classify hist \<longleftrightarrow>
     (\<forall>rules name sql. (rules, ParseFrame name sql) \<in> set hist \<longrightarrow>
        screen L rules svc (classify sql) = ScreenAllow)"

lemma forwarded_parse_allowed:
  assumes "TransitionWithParser L V rules svc classify s (ParseFrame name sql) c = (s', c', acts)"
    and "ActionForward \<in> set acts"
  shows "screen L rules svc (classify sql) = ScreenAllow"
  using assms by (auto simp: handleParse_def Let_def split: if_splits screening.splits)

lemma run_allowed_parses:
  "transition_run L V svc classify s0 c0 s c hist \<Longrightarrow> allowed_parses L svc classify hist"
proof (induction rule: transition_run.induct)
  case (run_frame s c hist rules f s' c' acts)
  then show ?case
    using forwarded_parse_allowed [of L V rules svc classify s _ _ c s' c' acts]
    by (cases f) (auto simp: allowed_parses_def)
qed (simp_all add: allowed_parses_def)

lemma provenance_allowed:
  "provenance hist k rules sql \<Longrightarrow> allowed_parses L svc classify hist \<Longrightarrow>
     screen L rules svc (classify sql) = ScreenAllow"
  by (induction rule: provenance.induct) (auto simp: allowed_parses_def)

context cache_view
begin

lemma run_provenance:
  assumes "transition_run L V svc classify s0 c0 s c hist" and "ok c0" and "keys c0 = {}"
  shows "ok c \<and> (\<forall>k \<in> keys c. \<exists>rules sql. provenance hist k rules sql)"
  using assms(1)
proof (induction rule: transition_run.induct)
  case run_start
  then show ?case using assms by simp
next
  case (run_frame s c hist rules f s' c' acts)
  let ?hist = "if ActionForward \<in> set acts then hist @ [(rules, f)] else hist"
  have ok: "ok c" and IH: "\<forall>k \<in> keys c. \<exists>rules sql. provenance hist k rules sql"
    using run_frame.IH by blast+
  have mono: "provenance ?hist k r sql" if "provenance hist k r sql" for k r sql
    using that by (rule provenance_mono) auto
  have "\<exists>rules sql. provenance ?hist k rules sql" if "k \<in> keys c'" for k
    using transition_keys [OF ok run_frame.hyps(2) that]
  proof (elim disjE conjE exE)
    assume "k \<in> keys c"
    then show ?thesis using IH mono by blast
  next
    fix sql
    assume "ActionForward \<in> set acts" "f = ParseFrame k sql"
    then have "(rules, ParseFrame k sql) \<in> set ?hist" by simp
    then show ?thesis by (blast intro: provenance.parsed)
  next
    fix portal stmt
    assume fwd: "ActionForward \<in> set acts" "f = BindFrame portal stmt"
      and k: "k = portalCacheKey portal" and "stmt \<in> keys c"
    then obtain r sql where "provenance ?hist stmt r sql" using IH mono by blast
    moreover from fwd have "(rules, BindFrame portal stmt) \<in> set ?hist" by simp
    ultimately show ?thesis unfolding k by (blast intro: provenance.bound)
  qed
  then show ?case using transition_ok [OF ok run_frame.hyps(2)] by blast
next
  case (run_upstream s c hist z p)
  then show ?case by blast
qed

lemma executed_portal_allowed:
  assumes "transition_run L V svc classify s0 c0 s c hist" and "ok c0" and "keys c0 = {}"
    and "TransitionWithParser L V rules svc classify s (ExecuteFrame portal) c = (s', c', acts)"
    and "ActionForward \<in> set acts"
  shows "\<exists>rules' sql. provenance hist (portalCacheKey portal) rules' sql \<and>
           screen L rules' svc (classify sql) = ScreenAllow"
proof -
  have "ok c" and all: "\<forall>k \<in> keys c. \<exists>rules sql. provenance hist k rules sql"
    using run_provenance [OF assms(1-3)] by blast+
  then have "portalCacheKey portal \<in> keys c"
    using execute_forward_present assms(4,5) by blast
  then obtain rules' sql where "provenance hist (portalCacheKey portal) rules' sql"
    using all by blast
  then show ?thesis
    using provenance_allowed run_allowed_parses [OF assms(1)] by blast
qed

end

section \<open>The two cache views\<close>

definition fake_keys :: "fakeCacheView \<Rightarrow> string set" where
  "fake_keys f = fst ` set (fk_store f)"

lemma keys_alist_delete: "fst ` set (AList.delete k al) = fst ` set al - {k}"
  by (metis delete_keys image_set set_removeAll)

interpretation fake: cache_view fakeView "\<lambda>_. True" fake_keys
  by unfold_locales
    (auto simp: fakeView_def fake_Get_def fake_Put_def fake_Delete_def fake_Clear_def fake_keys_def
      map_of_eq_None_iff dom_update keys_alist_delete)

definition wire_keys :: "preparedCache \<Rightarrow> string set" where
  "wire_keys c = {k. cache_lookup c k \<noteq> None}"

lemma wire_Get_simps:
  "fst (wire_Get c k) = map_option valueOf (fst (Cache_Get c k))"
  "snd (wire_Get c k) = snd (Cache_Get c k)"
  by (simp_all add: wire_Get_def split: prod.split option.split)

interpretation wire: cache_view wireView cache_ok wire_keys
  by unfold_locales
    (auto simp: wireView_def wire_Get_simps wire_Put_def wire_keys_def fst_Get lookup_Put lookup_Delete
      split: if_splits)

section \<open>Properties\<close>


abbreviation start_state :: connState where
  "start_state \<equiv> \<lparr>st_Phase = PhaseIdle, st_LastUpstreamRFQ = CHR ''I'', st_Absorbing = False,
                  st_UpstreamDirtySinceSync = False, st_TxStartedAt = 0\<rparr>"

definition classify_users :: "string \<Rightarrow> classifiedStatement list" where
  "classify_users sql = [sample_stmt [sample_effect GroupRead [''users'']]]"

lemma read_users_allowed:
  "screen exact_lib (Some (sample_policy [read_users])) ''db'' (classify_users sql) = ScreenAllow"
proof -
  have "dec_Verb (Evaluate exact_lib (sample_stmt [sample_effect GroupRead [''users'']])
     (Some (sample_policy [read_users])) ''db'') = VerbAllow"
    by code_simp
  then show ?thesis by (simp add: classify_users_def)
qed


text \<open>C31: Nothing unapproved is forwarded. A \<open>Parse\<close> or \<open>Query\<close> frame is forwarded only when no
  statement the classifier found in it is judged deny or approve, and the machine is not absorbing;
  a frame that is not forwarded leaves the cache as it was.\<close>

theorem forward_only_if_allowed:
  assumes "f = ParseFrame name sql \<or> f = QueryFrame sql"
    and "TransitionWithParser L V rules svc classify s f c = (s', c', acts)"
  shows "(ActionForward \<in> set acts \<longleftrightarrow>
            \<not> st_Absorbing s \<and>
            (\<forall>cs \<in> set (classify sql). dec_Verb (Evaluate L cs rules svc) \<notin> {VerbApprove, VerbDeny})) \<and>
         (ActionForward \<notin> set acts \<longrightarrow> c' = c)"
  using assms unfolding screen_allow_iff [symmetric]
  by (auto simp: handleParse_def handleQuery_def Let_def split: if_splits screening.splits prod.splits)

theorem forward_only_if_allowed_witness:
  "\<exists>s' c' acts. TransitionWithParser exact_lib wireView None ''db'' classify_users start_state
     (QueryFrame ''q'') (Cache_New 8) = (s', c', acts) \<and> ActionForward \<notin> set acts \<and> c' = Cache_New 8"
proof -
  obtain s' c' acts where t: "TransitionWithParser exact_lib wireView None ''db'' classify_users start_state
     (QueryFrame ''q'') (Cache_New 8) = (s', c', acts)"
    by (metis prod_cases3)
  have "dec_Verb (Evaluate exact_lib (sample_stmt [sample_effect GroupRead [''users'']]) None ''db'') = VerbDeny"
    by code_simp
  then show ?thesis
    using forward_only_if_allowed [OF _ t, of _ "''q''"] t by (auto simp: classify_users_def)
qed

fun suppressible :: "frame \<Rightarrow> bool" where
  "suppressible (QueryFrame _) = True"
| "suppressible (ParseFrame _ _) = True"
| "suppressible (BindFrame _ _) = True"
| "suppressible (DescribeFrame _ _) = True"
| "suppressible (ExecuteFrame _) = True"
| "suppressible FlushFrame = True"
| "suppressible (CloseFrame _ _) = True"
| "suppressible _ = False"



text \<open>Sync ends the window. After \<open>Sync\<close> the machine neither absorbs nor is dirty and everything
  else in the state is as before; the \<open>Sync\<close> is forwarded unless a deny happened with nothing
  forwarded, in which case one \<open>ReadyForQuery\<close> is synthesised, and upstream is drained exactly when
  something had been forwarded.\<close>

theorem sync_resolves_window:
  "let (s', acts) = handleSync s
   in s' = s\<lparr>st_Absorbing := False, st_UpstreamDirtySinceSync := False\<rparr> \<and>
      (ActionForward \<in> set acts \<longleftrightarrow> (st_Absorbing s \<longrightarrow> st_UpstreamDirtySinceSync s)) \<and>
      (ActionDrainUntilRFQ \<in> set acts \<longleftrightarrow> st_UpstreamDirtySinceSync s) \<and>
      (ActionSynthReadyForQuery (CHR ''I'') \<in> set acts \<longleftrightarrow> ActionForward \<notin> set acts)"
  by (cases s) (simp add: handleSync_def)

theorem sync_resolves_window_witness:
  "handleSync (start_state\<lparr>st_Absorbing := True\<rparr>) = (start_state, [ActionSynthReadyForQuery (CHR ''I'')])"
  using sync_resolves_window [of "start_state\<lparr>st_Absorbing := True\<rparr>"]
  by (simp add: handleSync_def)

text \<open>Denying a statement. When some statement of a \<open>Parse\<close> is denied before any other is
  found to need approval, the frame is not forwarded and the client gets an error; inside a
  transaction the connection is closed with a fatal error unless the deciding rule asks for
  \<open>rollback_then_continue\<close>, and in every case without a close the machine absorbs until \<open>Sync\<close>.\<close>

theorem denied_parse:
  assumes "\<not> st_Absorbing s" and "screen L rules svc (classify sql) = ScreenDeny d"
    and "TransitionWithParser L V rules svc classify s (ParseFrame name sql) c = (s', c', acts)"
  shows "ActionForward \<notin> set acts \<and> c' = c \<and>
         (\<exists>sev. hd acts = ActionSynthError ''42501'' (renderDenyMessage d) sev) \<and>
         (ActionClose \<in> set acts \<longleftrightarrow>
            st_LastUpstreamRFQ s \<in> {CHR ''T'', CHR ''E''} \<and>
            sr_DenyModeInTx (lookupStatementRule rules (dec_RuleName d)) \<noteq> ''rollback_then_continue'') \<and>
         (st_Absorbing s' \<longleftrightarrow> ActionClose \<notin> set acts)"
proof -
  obtain cs where d: "d = Evaluate L cs rules svc" "dec_Verb d = VerbDeny"
    using screen_deny [OF assms(2)] by blast
  have "dec_RuleKind (foldEffects L stmt ps) = RuleKindStatement" for stmt ps
    by (cases "ed_verb (ps ! bestEffectIndex ps)")
      (simp_all add: foldEffects_def Let_def ruleDecision_def implicitDeny_def)
  then have "dec_RuleKind d = RuleKindStatement"
    unfolding d by (simp add: Evaluate_def implicitDeny_def Let_def split: option.split)
  then have "sqlstateForDecision d = ''42501''"
    by (simp add: sqlstateForDecision_def)
  then show ?thesis
    using assms by (auto simp: handleParse_def Let_def DenyRoute_def containsClose_def split: if_splits)
qed

lemma classify_users_denied:
  "screen exact_lib None ''db'' (classify_users sql) =
     ScreenDeny (Evaluate exact_lib (sample_stmt [sample_effect GroupRead [''users'']]) None ''db'')"
  by (simp add: classify_users_def Evaluate_def implicitDeny_def)

theorem denied_parse_witness:
  "ActionClose \<in> set (snd (snd (TransitionWithParser exact_lib wireView None ''db'' classify_users
     (start_state\<lparr>st_LastUpstreamRFQ := CHR ''T''\<rparr>) (ParseFrame ''s'' ''q'') (Cache_New 8))))"
proof -
  obtain s' c' acts where t: "TransitionWithParser exact_lib wireView None ''db'' classify_users
     (start_state\<lparr>st_LastUpstreamRFQ := CHR ''T''\<rparr>) (ParseFrame ''s'' ''q'') (Cache_New 8) = (s', c', acts)"
    by (metis prod_cases3)
  show ?thesis
    using denied_parse [OF _ classify_users_denied t]
    unfolding t by (simp add: lookupStatementRule_def zeroStatementRule_def)
qed

text \<open>Two answers for one \<open>Sync\<close>. A \<open>Parse\<close> that is denied outside a transaction with nothing
  forwarded, followed by the client's \<open>Sync\<close>, is answered with \<open>ReadyForQuery\<close> twice: once by the
  deny route and once when the \<open>Sync\<close> ends the absorbing window.\<close>

theorem denied_parse_then_sync_two_ready:
  assumes "\<not> st_Absorbing s" "\<not> st_UpstreamDirtySinceSync s"
    and "st_LastUpstreamRFQ s \<notin> {CHR ''T'', CHR ''E''}"
    and "screen L rules svc (classify sql) = ScreenDeny d"
    and "TransitionWithParser L V rules svc classify s (ParseFrame name sql) c = (s1, c1, acts1)"
    and "TransitionWithParser L V rules svc classify s1 SyncFrame c1 = (s2, c2, acts2)"
  shows "filter (\<lambda>a. a = ActionSynthReadyForQuery (CHR ''I'')) (acts1 @ acts2) =
           [ActionSynthReadyForQuery (CHR ''I''), ActionSynthReadyForQuery (CHR ''I'')]"
  using assms by (auto simp: handleParse_def handleSync_def Let_def DenyRoute_def containsClose_def)

theorem denied_parse_then_sync_two_ready_witness:
  "\<exists>s1 c1 acts1 s2 c2 acts2.
     TransitionWithParser exact_lib wireView None ''db'' classify_users start_state (ParseFrame ''s'' ''q'')
       (Cache_New 8) = (s1, c1, acts1) \<and>
     TransitionWithParser exact_lib wireView None ''db'' classify_users s1 SyncFrame c1 = (s2, c2, acts2) \<and>
     length (filter (\<lambda>a. a = ActionSynthReadyForQuery (CHR ''I'')) (acts1 @ acts2)) = 2"
proof -
  obtain s1 c1 acts1 where t1: "TransitionWithParser exact_lib wireView None ''db'' classify_users start_state
     (ParseFrame ''s'' ''q'') (Cache_New 8) = (s1, c1, acts1)"
    by (metis prod_cases3)
  obtain s2 c2 acts2 where t2: "TransitionWithParser exact_lib wireView None ''db'' classify_users s1 SyncFrame c1
     = (s2, c2, acts2)"
    by (metis prod_cases3)
  have "filter (\<lambda>a. a = ActionSynthReadyForQuery (CHR ''I'')) (acts1 @ acts2) =
      [ActionSynthReadyForQuery (CHR ''I''), ActionSynthReadyForQuery (CHR ''I'')]"
    by (rule denied_parse_then_sync_two_ready [OF _ _ _ classify_users_denied t1 t2]) simp_all
  then have "length (filter (\<lambda>a. a = ActionSynthReadyForQuery (CHR ''I'')) (acts1 @ acts2)) = 2"
    by (simp only: list.size)
  with t1 t2 show ?thesis by (intro exI conjI)
qed

text \<open>Draining without a \<open>Sync\<close>. A \<open>Parse\<close> that is denied after another frame of the same
  window was forwarded makes the machine wait for an upstream \<open>ReadyForQuery\<close> although no \<open>Sync\<close> has
  been forwarded in the window, so no frame it sent asks upstream for one.\<close>

theorem denied_parse_drains_without_sync:
  assumes "\<not> st_Absorbing s" and "st_LastUpstreamRFQ s \<notin> {CHR ''T'', CHR ''E''}"
    and "screen L rules svc (classify ok_sql) = ScreenAllow"
    and "screen L rules svc (classify bad_sql) = ScreenDeny d"
    and "TransitionWithParser L V rules svc classify s (ParseFrame n1 ok_sql) c = (s1, c1, acts1)"
    and "TransitionWithParser L V rules svc classify s1 (ParseFrame n2 bad_sql) c1 = (s2, c2, acts2)"
  shows "acts1 = [ActionForward] \<and> ActionDrainUntilRFQ \<in> set acts2 \<and> ActionForward \<notin> set acts2 \<and>
         ActionInjectRollback \<notin> set acts2"
  using assms by (auto simp: handleParse_def Let_def DenyRoute_def)

definition classify_by_text :: "string \<Rightarrow> classifiedStatement list" where
  "classify_by_text sql = [sample_stmt [sample_effect GroupRead [sql]]]"

lemma classify_by_text_screen:
  "screen exact_lib (Some (sample_policy [read_users])) ''db'' (classify_by_text ''users'') = ScreenAllow"
  "\<exists>d. screen exact_lib (Some (sample_policy [read_users])) ''db'' (classify_by_text ''orders'') = ScreenDeny d"
proof -
  have "dec_Verb (Evaluate exact_lib (sample_stmt [sample_effect GroupRead [''users'']])
      (Some (sample_policy [read_users])) ''db'') = VerbAllow"
    "dec_Verb (Evaluate exact_lib (sample_stmt [sample_effect GroupRead [''orders'']])
      (Some (sample_policy [read_users])) ''db'') = VerbDeny"
    by code_simp+
  then show "screen exact_lib (Some (sample_policy [read_users])) ''db'' (classify_by_text ''users'') = ScreenAllow"
    "\<exists>d. screen exact_lib (Some (sample_policy [read_users])) ''db'' (classify_by_text ''orders'') = ScreenDeny d"
    by (simp_all add: classify_by_text_def)
qed

theorem denied_parse_drains_without_sync_witness:
  "\<exists>s1 c1 acts1 s2 c2 acts2.
     TransitionWithParser exact_lib wireView (Some (sample_policy [read_users])) ''db'' classify_by_text
       start_state (ParseFrame ''a'' ''users'') (Cache_New 8) = (s1, c1, acts1) \<and>
     TransitionWithParser exact_lib wireView (Some (sample_policy [read_users])) ''db'' classify_by_text
       s1 (ParseFrame ''b'' ''orders'') c1 = (s2, c2, acts2) \<and> ActionDrainUntilRFQ \<in> set acts2"
proof -
  obtain d where d: "screen exact_lib (Some (sample_policy [read_users])) ''db'' (classify_by_text ''orders'')
      = ScreenDeny d"
    using classify_by_text_screen(2) by blast
  obtain s1 c1 acts1 where t1: "TransitionWithParser exact_lib wireView (Some (sample_policy [read_users])) ''db''
      classify_by_text start_state (ParseFrame ''a'' ''users'') (Cache_New 8) = (s1, c1, acts1)"
    by (metis prod_cases3)
  obtain s2 c2 acts2 where t2: "TransitionWithParser exact_lib wireView (Some (sample_policy [read_users])) ''db''
      classify_by_text s1 (ParseFrame ''b'' ''orders'') c1 = (s2, c2, acts2)"
    by (metis prod_cases3)
  have "ActionDrainUntilRFQ \<in> set acts2"
    using denied_parse_drains_without_sync [OF _ _ classify_by_text_screen(1) d t1 t2] by simp
  with t1 t2 show ?thesis by (intro exI conjI)
qed

abbreviation approve_slow :: statementRule where
  "approve_slow \<equiv> (sample_rule ''approve-slow'' [''READ''] [] ''approve'')\<lparr>sr_Timeout := 120 * second\<rparr>"

text \<open>Approval waits. The timeout the machine waits for is the timeout of the primary rule when
  that is set, even when the decision's approval request, the shortest over all contributing rules,
  is shorter: here the request says 5 seconds and the machine waits 120.\<close>

theorem approval_wait_ignores_shortest:
  "map_option ap_Timeout (dec_Approval (Evaluate exact_lib (sample_stmt [sample_effect GroupRead [''users'']])
     (Some (sample_policy [approve_slow, approve_users])) ''db'')) = Some (5 * second) \<and>
   snd (snd (TransitionWithParser exact_lib wireView (Some (sample_policy [approve_slow, approve_users])) ''db''
     classify_users start_state (ParseFrame ''s'' ''q'') (Cache_New 8))) =
   [ActionApproverWait (120 * second) (sample_stmt [sample_effect GroupRead [''users'']]) approve_slow]"
proof
  show "map_option ap_Timeout (dec_Approval (Evaluate exact_lib (sample_stmt [sample_effect GroupRead [''users'']])
     (Some (sample_policy [approve_slow, approve_users])) ''db'')) = Some (5 * second)"
    by code_simp
  show "snd (snd (TransitionWithParser exact_lib wireView (Some (sample_policy [approve_slow, approve_users])) ''db''
     classify_users start_state (ParseFrame ''s'' ''q'') (Cache_New 8))) =
   [ActionApproverWait (120 * second) (sample_stmt [sample_effect GroupRead [''users'']]) approve_slow]"
    by code_simp
qed

end
