(* ===== verification/Go_Bytes.thy ===== *)
theory Go_Bytes
  imports Caw_Prelude
begin

text \<open>
  Byte-level parts of the Go standard library that the audit chain and the write-ahead log use:
  conversion between strings and byte slices, \<open>encoding/binary\<close> in big-endian order,
  \<open>strconv\<close> decimal printing and \<open>encoding/hex\<close>. Each printer comes with the lemma that it loses
  nothing, which the injectivity results of the clients rest on.
\<close>

unbundle bit_operations_syntax

section \<open>Strings and byte slices\<close>

definition bytes_of :: "string \<Rightarrow> bytes" where
  "bytes_of s = map of_char s"

definition string_of :: "bytes \<Rightarrow> string" where
  "string_of bs = map (\<lambda>b. char_of (unat b)) bs"

lemma string_of_bytes_of [simp]: "string_of (bytes_of s) = s"
proof -
  have "char_of (unat (of_char c :: 8 word)) = c" for c :: char
  proof -
    have "(of_char c :: 8 word) = word_of_nat (of_char c)"
      by (simp add: of_nat_of_char)
    moreover have "(of_char c :: nat) mod 256 = of_char c"
      by (rule of_char_mod_256)
    ultimately have "unat (of_char c :: 8 word) = of_char c"
      by (simp add: unsigned_of_nat take_bit_eq_mod)
    then show ?thesis by simp
  qed
  then show ?thesis by (simp add: bytes_of_def string_of_def o_def)
qed

lemma bytes_of_inject [simp]: "bytes_of s = bytes_of t \<longleftrightarrow> s = t"
  by (metis string_of_bytes_of)

lemma bytes_of_append [simp]: "bytes_of (s @ t) = bytes_of s @ bytes_of t"
  by (simp add: bytes_of_def)

lemma bytes_of_Nil [simp]: "bytes_of [] = []"
  by (simp add: bytes_of_def)

lemma length_bytes_of [simp]: "length (bytes_of s) = length s"
  by (simp add: bytes_of_def)

section \<open>Big-endian numbers (\<open>encoding/binary\<close>)\<close>

definition PutUint16 :: "uint16 \<Rightarrow> bytes" where
  "PutUint16 v = [ucast (drop_bit 8 v), ucast v]"

definition PutUint32 :: "uint32 \<Rightarrow> bytes" where
  "PutUint32 v = [ucast (drop_bit 24 v), ucast (drop_bit 16 v), ucast (drop_bit 8 v), ucast v]"

definition PutUint64 :: "uint64 \<Rightarrow> bytes" where
  "PutUint64 v =
     [ucast (drop_bit 56 v), ucast (drop_bit 48 v), ucast (drop_bit 40 v), ucast (drop_bit 32 v),
      ucast (drop_bit 24 v), ucast (drop_bit 16 v), ucast (drop_bit 8 v), ucast v]"

fun be_word :: "bytes \<Rightarrow> 'a::len word \<Rightarrow> 'a word" where
  "be_word [] acc = acc"
| "be_word (b # bs) acc = be_word bs (push_bit 8 acc OR ucast b)"

abbreviation Uint16 :: "bytes \<Rightarrow> uint16" where "Uint16 bs \<equiv> be_word bs 0"
abbreviation Uint32 :: "bytes \<Rightarrow> uint32" where "Uint32 bs \<equiv> be_word bs 0"
abbreviation Uint64 :: "bytes \<Rightarrow> uint64" where "Uint64 bs \<equiv> be_word bs 0"

lemma length_PutUint [simp]:
  "length (PutUint16 v) = 2" "length (PutUint32 w) = 4" "length (PutUint64 x) = 8"
  by (simp_all add: PutUint16_def PutUint32_def PutUint64_def)

lemma byte_step:
  fixes v :: "'a::len word"
  assumes "n + 8 \<le> LENGTH('a)"
  shows "push_bit 8 (drop_bit (n + 8) v) OR ucast (ucast (drop_bit n v) :: 8 word) = drop_bit n v"
  using assms by (intro bit_word_eqI) (auto simp: bit_simps)

lemma Uint16_Put [simp]: "Uint16 (PutUint16 v) = v"
  using byte_step [of 0 v] byte_step [of 8 v]
  by (simp add: PutUint16_def)

lemma Uint32_Put [simp]: "Uint32 (PutUint32 v) = v"
  using byte_step [of 0 v] byte_step [of 8 v] byte_step [of 16 v] byte_step [of 24 v]
  by (simp add: PutUint32_def)

lemma Uint64_Put [simp]: "Uint64 (PutUint64 v) = v"
  using byte_step [of 0 v] byte_step [of 8 v] byte_step [of 16 v] byte_step [of 24 v]
    byte_step [of 32 v] byte_step [of 40 v] byte_step [of 48 v] byte_step [of 56 v]
  by (simp add: PutUint64_def)

lemma byte_bit_high [simp]: "8 \<le> m \<Longrightarrow> \<not> bit (b :: byte) m"
  by (auto dest!: bit_imp_le_length)

lemma be_bytes_bits:
  "PutUint16 (Uint16 [a, b]) = [a, b]" "PutUint32 (Uint32 [a, b, c, d]) = [a, b, c, d]"
  "PutUint64 (Uint64 [a, b, c, d, e, f, g, h]) = [a, b, c, d, e, f, g, h]"
  by (auto simp: PutUint16_def PutUint32_def PutUint64_def bit_simps intro!: bit_word_eqI)

lemma Put_Uint32 [simp]: "length bs = 4 \<Longrightarrow> PutUint32 (Uint32 bs) = bs"
  by (auto simp: length_Suc_conv numeral_eq_Suc be_bytes_bits(2) simp del: be_word.simps)

section \<open>Decimal numbers (\<open>strconv\<close>)\<close>

definition digit_char :: "nat \<Rightarrow> char" where
  "digit_char n = char_of (48 + n)"

fun FormatUint :: "nat \<Rightarrow> string" where
  "FormatUint n = (if n < 10 then [digit_char n] else FormatUint (n div 10) @ [digit_char (n mod 10)])"

declare FormatUint.simps [simp del]

definition FormatInt :: "int \<Rightarrow> string" where
  "FormatInt i = (if i < 0 then CHR ''-'' # FormatUint (nat (- i)) else FormatUint (nat i))"

definition is_digit :: "char \<Rightarrow> bool" where
  "is_digit c = (48 \<le> (of_char c :: nat) \<and> (of_char c :: nat) \<le> 57)"

definition digit_val :: "char \<Rightarrow> nat" where
  "digit_val c = of_char c - 48"

definition decimal_val :: "string \<Rightarrow> nat" where
  "decimal_val s = foldl (\<lambda>n c. 10 * n + digit_val c) 0 s"

lemma digit_char_val [simp]: "n < 10 \<Longrightarrow> digit_val (digit_char n) = n"
  by (simp add: digit_val_def digit_char_def)

lemma digit_char_is_digit [simp]: "n < 10 \<Longrightarrow> is_digit (digit_char n)"
  by (simp add: is_digit_def digit_char_def)

lemma FormatUint_digits: "c \<in> set (FormatUint n) \<Longrightarrow> is_digit c"
proof (induction n rule: FormatUint.induct)
  case (1 n)
  then show ?case
    by (subst (asm) FormatUint.simps) (auto split: if_splits)
qed

lemma FormatUint_not_Nil [simp]: "FormatUint n \<noteq> []"
  by (subst FormatUint.simps) simp

lemma decimal_val_snoc: "decimal_val (s @ [c]) = 10 * decimal_val s + digit_val c"
  by (simp add: decimal_val_def)

lemma decimal_val_FormatUint [simp]: "decimal_val (FormatUint n) = n"
proof (induction n rule: FormatUint.induct)
  case (1 n)
  show ?case
  proof (cases "n < 10")
    case True
    then show ?thesis
      by (subst FormatUint.simps) (simp add: decimal_val_def)
  next
    case False
    then have "decimal_val (FormatUint n) = 10 * (n div 10) + n mod 10"
      using 1 by (subst FormatUint.simps) (simp add: decimal_val_snoc)
    then show ?thesis by simp
  qed
qed

lemma FormatUint_inject [simp]: "FormatUint m = FormatUint n \<longleftrightarrow> m = n"
  by (metis decimal_val_FormatUint)

lemma minus_not_digit: "\<not> is_digit (CHR ''-'')"
  by (simp add: is_digit_def)

lemma FormatInt_inject [simp]: "FormatInt i = FormatInt j \<longleftrightarrow> i = j"
proof -
  have "FormatUint m \<noteq> CHR ''-'' # s" for m s
    using FormatUint_digits [of "CHR ''-''" m] minus_not_digit by auto
  then show ?thesis
    by (auto simp: FormatInt_def dest: sym)
qed

lemma FormatInt_chars: "c \<in> set (FormatInt i) \<Longrightarrow> is_digit c \<or> c = CHR ''-''"
  using FormatUint_digits by (auto simp: FormatInt_def split: if_splits)

section \<open>Hexadecimal (\<open>encoding/hex\<close>)\<close>

definition hex_digit :: "nat \<Rightarrow> char" where
  "hex_digit n = (if n < 10 then char_of (48 + n) else char_of (87 + n))"

definition is_hex :: "char \<Rightarrow> bool" where
  "is_hex c = (let n = (of_char c :: nat) in
     48 \<le> n \<and> n \<le> 57 \<or> 97 \<le> n \<and> n \<le> 102 \<or> 65 \<le> n \<and> n \<le> 70)"

definition hex_val :: "char \<Rightarrow> nat" where
  "hex_val c = (let n = (of_char c :: nat) in
     if n \<le> 57 then n - 48 else if n \<le> 70 then n - 55 else n - 87)"

definition hex_EncodeToString :: "bytes \<Rightarrow> string" where
  "hex_EncodeToString bs =
     concat (map (\<lambda>b. [hex_digit (unat b div 16), hex_digit (unat b mod 16)]) bs)"

fun hex_DecodeString :: "string \<Rightarrow> bytes option" where
  "hex_DecodeString [] = Some []"
| "hex_DecodeString [c] = None"
| "hex_DecodeString (c # d # s) =
     (if is_hex c \<and> is_hex d
      then map_option (\<lambda>bs. word_of_nat (16 * hex_val c + hex_val d) # bs) (hex_DecodeString s)
      else None)"

lemma hex_digit_val [simp]: "n < 16 \<Longrightarrow> hex_val (hex_digit n) = n"
  by (simp add: hex_val_def hex_digit_def Let_def)

lemma hex_digit_is_hex [simp]: "n < 16 \<Longrightarrow> is_hex (hex_digit n)"
  by (simp add: is_hex_def hex_digit_def Let_def)

lemma byte_div16 [simp]: "unat (b :: 8 word) div 16 < 16"
  using unsigned_less [of b, where ?'a = nat] by simp

lemma hex_Decode_Encode [simp]: "hex_DecodeString (hex_EncodeToString bs) = Some bs"
proof (induction bs)
  case (Cons b bs)
  have "16 * (unat b div 16) + unat b mod 16 = unat b" by simp
  then show ?case using Cons by (simp add: hex_EncodeToString_def)
qed (simp add: hex_EncodeToString_def)

lemma hex_Encode_inject [simp]: "hex_EncodeToString a = hex_EncodeToString b \<longleftrightarrow> a = b"
  by (metis hex_Decode_Encode option.inject)

lemma length_hex_Encode [simp]: "length (hex_EncodeToString bs) = 2 * length bs"
  by (induction bs) (simp_all add: hex_EncodeToString_def)

lemma hex_Encode_chars: "c \<in> set (hex_EncodeToString bs) \<Longrightarrow> is_hex c"
  by (auto simp: hex_EncodeToString_def)

lemma hex_Decode_chars: "hex_DecodeString s \<noteq> None \<Longrightarrow> c \<in> set s \<Longrightarrow> is_hex c"
  by (induction s rule: hex_DecodeString.induct) (auto split: if_splits)

end
