(* ===== verification/Go_Crypto.thy ===== *)
theory Go_Crypto
  imports Go_Bytes
begin

text \<open>
  The hash functions of the Go standard library that the audit code calls: \<open>crypto/sha256\<close>,
  \<open>crypto/sha512\<close> and \<open>crypto/hmac\<close> over them, written out as FIPS 180-4 and FIPS 198-1
  define them. Message lengths are taken modulo \<open>2^64\<close> bits. The clients use the output length and,
  where a result speaks of tampering, the existence of a collision; nothing is assumed of the
  functions.
\<close>

unbundle bit_operations_syntax

fun chunks_fuel :: "nat \<Rightarrow> nat \<Rightarrow> 'a list \<Rightarrow> 'a list list" where
  "chunks_fuel 0 n xs = []"
| "chunks_fuel (Suc f) n xs = (if xs = [] then [] else take n xs # chunks_fuel f n (drop n xs))"

definition chunks :: "nat \<Rightarrow> 'a list \<Rightarrow> 'a list list" where
  "chunks n xs = chunks_fuel (length xs) n xs"

section \<open>SHA-256\<close>

definition rotr32 :: "nat \<Rightarrow> 32 word \<Rightarrow> 32 word" where
  "rotr32 n x = (drop_bit n x OR push_bit (32 - n) x)"

text \<open>The round constants, first constant most significant.\<close>

definition K256 :: "32 word list" where
  "K256 = map (\<lambda>i. word_of_int (drop_bit (32 * i)
     0x428a2f9871374491b5c0fbcfe9b5dba53956c25b59f111f1923f82a4ab1c5ed5d807aa9812835b01243185be550c7dc372be5d7480deb1fe9bdc06a7c19bf174e49b69c1efbe47860fc19dc6240ca1cc2de92c6f4a7484aa5cb0a9dc76f988da983e5152a831c66db00327c8bf597fc7c6e00bf3d5a7914706ca63511429296727b70a852e1b21384d2c6dfc53380d13650a7354766a0abb81c2c92e92722c85a2bfe8a1a81a664bc24b8b70c76c51a3d192e819d6990624f40e3585106aa07019a4c1161e376c082748774c34b0bcb5391c0cb34ed8aa4a5b9cca4f682e6ff3748f82ee78a5636f84c878148cc7020890befffaa4506cebbef9a3f7c67178f2)) (rev [0..<64])"

definition sigma256 :: "nat \<Rightarrow> nat \<Rightarrow> nat \<Rightarrow> 32 word \<Rightarrow> 32 word" where
  "sigma256 a b c x = (rotr32 a x XOR rotr32 b x XOR drop_bit c x)"

definition Sigma256 :: "nat \<Rightarrow> nat \<Rightarrow> nat \<Rightarrow> 32 word \<Rightarrow> 32 word" where
  "Sigma256 a b c x = (rotr32 a x XOR rotr32 b x XOR rotr32 c x)"

text \<open>The message schedule is kept with the newest word first.\<close>

fun extend256 :: "nat \<Rightarrow> 32 word list \<Rightarrow> 32 word list" where
  "extend256 0 ws = rev ws"
| "extend256 (Suc n) ws =
     extend256 n ((sigma256 17 19 10 (ws ! 1) + ws ! 6 + sigma256 7 18 3 (ws ! 14) + ws ! 15) # ws)"

fun round256 :: "32 word list \<Rightarrow> 32 word \<Rightarrow> 32 word list" where
  "round256 [a, b, c, d, e, f, g, h] kw =
     (let t1 = h + Sigma256 6 11 25 e + ((e AND f) XOR (NOT e AND g)) + kw;
          t2 = Sigma256 2 13 22 a + ((a AND b) XOR (a AND c) XOR (b AND c))
      in [t1 + t2, a, b, c, d + t1, e, f, g])"
| "round256 hs kw = hs"

definition block256 :: "32 word list \<Rightarrow> bytes \<Rightarrow> 32 word list" where
  "block256 hs blk =
     (let ws = extend256 48 (rev (map (\<lambda>bs. be_word bs 0) (chunks 4 blk)))
      in map2 (+) hs (foldl round256 hs (map2 (+) K256 ws)))"

definition Sum256 :: "bytes \<Rightarrow> bytes" where
  "Sum256 m =
     concat (map PutUint32 (foldl block256
       [0x6a09e667, 0xbb67ae85, 0x3c6ef372, 0xa54ff53a, 0x510e527f, 0x9b05688c,
        0x1f83d9ab, 0x5be0cd19]
       (chunks 64 (m @ 0x80 # replicate ((64 * 2 - 9 - length m mod 64) mod 64) 0 @
          PutUint64 (word_of_nat (8 * length m))))))"

section \<open>SHA-512\<close>

definition rotr64 :: "nat \<Rightarrow> 64 word \<Rightarrow> 64 word" where
  "rotr64 n x = (drop_bit n x OR push_bit (64 - n) x)"

text \<open>The round constants, first constant most significant.\<close>

definition K512 :: "64 word list" where
  "K512 = map (\<lambda>i. word_of_int (drop_bit (64 * i)
     0x428a2f98d728ae227137449123ef65cdb5c0fbcfec4d3b2fe9b5dba58189dbbc3956c25bf348b53859f111f1b605d019923f82a4af194f9bab1c5ed5da6d8118d807aa98a303024212835b0145706fbe243185be4ee4b28c550c7dc3d5ffb4e272be5d74f27b896f80deb1fe3b1696b19bdc06a725c71235c19bf174cf692694e49b69c19ef14ad2efbe4786384f25e30fc19dc68b8cd5b5240ca1cc77ac9c652de92c6f592b02754a7484aa6ea6e4835cb0a9dcbd41fbd476f988da831153b5983e5152ee66dfaba831c66d2db43210b00327c898fb213fbf597fc7beef0ee4c6e00bf33da88fc2d5a79147930aa72506ca6351e003826f142929670a0e6e7027b70a8546d22ffc2e1b21385c26c9264d2c6dfc5ac42aed53380d139d95b3df650a73548baf63de766a0abb3c77b2a881c2c92e47edaee692722c851482353ba2bfe8a14cf10364a81a664bbc423001c24b8b70d0f89791c76c51a30654be30d192e819d6ef5218d69906245565a910f40e35855771202a106aa07032bbd1b819a4c116b8d2d0c81e376c085141ab532748774cdf8eeb9934b0bcb5e19b48a8391c0cb3c5c95a634ed8aa4ae3418acb5b9cca4f7763e373682e6ff3d6b2b8a3748f82ee5defb2fc78a5636f43172f6084c87814a1f0ab728cc702081a6439ec90befffa23631e28a4506cebde82bde9bef9a3f7b2c67915c67178f2e372532bca273eceea26619cd186b8c721c0c207eada7dd6cde0eb1ef57d4f7fee6ed17806f067aa72176fba0a637dc5a2c898a6113f9804bef90dae1b710b35131c471b28db77f523047d8432caab7b40c724933c9ebe0a15c9bebc431d67c49c100d4c4cc5d4becb3e42b6597f299cfc657e2a5fcb6fab3ad6faec6c44198c4a475817)) (rev [0..<80])"

definition sigma512 :: "nat \<Rightarrow> nat \<Rightarrow> nat \<Rightarrow> 64 word \<Rightarrow> 64 word" where
  "sigma512 a b c x = (rotr64 a x XOR rotr64 b x XOR drop_bit c x)"

definition Sigma512 :: "nat \<Rightarrow> nat \<Rightarrow> nat \<Rightarrow> 64 word \<Rightarrow> 64 word" where
  "Sigma512 a b c x = (rotr64 a x XOR rotr64 b x XOR rotr64 c x)"

text \<open>The message schedule is kept with the newest word first.\<close>

fun extend512 :: "nat \<Rightarrow> 64 word list \<Rightarrow> 64 word list" where
  "extend512 0 ws = rev ws"
| "extend512 (Suc n) ws =
     extend512 n ((sigma512 19 61 6 (ws ! 1) + ws ! 6 + sigma512 1 8 7 (ws ! 14) + ws ! 15) # ws)"

fun round512 :: "64 word list \<Rightarrow> 64 word \<Rightarrow> 64 word list" where
  "round512 [a, b, c, d, e, f, g, h] kw =
     (let t1 = h + Sigma512 14 18 41 e + ((e AND f) XOR (NOT e AND g)) + kw;
          t2 = Sigma512 28 34 39 a + ((a AND b) XOR (a AND c) XOR (b AND c))
      in [t1 + t2, a, b, c, d + t1, e, f, g])"
| "round512 hs kw = hs"

definition block512 :: "64 word list \<Rightarrow> bytes \<Rightarrow> 64 word list" where
  "block512 hs blk =
     (let ws = extend512 64 (rev (map (\<lambda>bs. be_word bs 0) (chunks 8 blk)))
      in map2 (+) hs (foldl round512 hs (map2 (+) K512 ws)))"

definition Sum512 :: "bytes \<Rightarrow> bytes" where
  "Sum512 m =
     concat (map PutUint64 (foldl block512
       [0x6a09e667f3bcc908, 0xbb67ae8584caa73b, 0x3c6ef372fe94f82b, 0xa54ff53a5f1d36f1,
        0x510e527fade682d1, 0x9b05688c2b3e6c1f, 0x1f83d9abfb41bd6b, 0x5be0cd19137e2179]
       (chunks 128 (m @ 0x80 # replicate ((128 * 2 - 17 - length m mod 128) mod 128) 0 @
          replicate 8 0 @ PutUint64 (word_of_nat (8 * length m))))))"

section \<open>HMAC\<close>

definition hmac :: "(bytes \<Rightarrow> bytes) \<Rightarrow> nat \<Rightarrow> bytes \<Rightarrow> bytes \<Rightarrow> bytes" where
  "hmac H bsize key m =
     (let k = (if bsize < length key then H key else key);
          k' = k @ replicate (bsize - length k) 0
      in H (map (\<lambda>b. b XOR 0x5c) k' @ H (map (\<lambda>b. b XOR 0x36) k' @ m)))"

definition hmac_sha256 :: "bytes \<Rightarrow> bytes \<Rightarrow> bytes" where
  "hmac_sha256 = hmac Sum256 64"

definition hmac_sha512 :: "bytes \<Rightarrow> bytes \<Rightarrow> bytes" where
  "hmac_sha512 = hmac Sum512 128"

lemma length_round256 [simp]: "length (round256 hs kw) = length hs"
  by (induction hs kw rule: round256.induct) (simp_all add: Let_def)

lemma length_rounds256 [simp]: "length (foldl round256 hs kws) = length hs"
  by (induction kws arbitrary: hs) simp_all

lemma length_block256 [simp]: "length (block256 hs blk) = length hs"
  by (simp add: block256_def Let_def)

lemma length_blocks256 [simp]: "length (foldl block256 hs blks) = length hs"
  by (induction blks arbitrary: hs) simp_all

lemma length_Sum256 [simp]: "length (Sum256 m) = 32"
proof -
  have "length (concat (map PutUint32 ws)) = 4 * length ws" for ws
    by (induction ws) simp_all
  then show ?thesis by (simp add: Sum256_def)
qed

lemma length_round512 [simp]: "length (round512 hs kw) = length hs"
  by (induction hs kw rule: round512.induct) (simp_all add: Let_def)

lemma length_rounds512 [simp]: "length (foldl round512 hs kws) = length hs"
  by (induction kws arbitrary: hs) simp_all

lemma length_block512 [simp]: "length (block512 hs blk) = length hs"
  by (simp add: block512_def Let_def)

lemma length_blocks512 [simp]: "length (foldl block512 hs blks) = length hs"
  by (induction blks arbitrary: hs) simp_all

lemma length_Sum512 [simp]: "length (Sum512 m) = 64"
proof -
  have "length (concat (map PutUint64 ws)) = 8 * length ws" for ws
    by (induction ws) simp_all
  then show ?thesis by (simp add: Sum512_def)
qed

lemma length_hmac [simp]:
  "length (hmac_sha256 key m) = 32" "length (hmac_sha512 key m) = 64"
  by (simp_all add: hmac_sha256_def hmac_sha512_def hmac_def Let_def)

end
