(* ===== verification/Audit_Chain.thy ===== *)
theory Audit_Chain
  imports Go_Crypto
begin

text \<open>
  The tamper-evident audit log of \<open>internal/audit\<close>: the allocator of (sequence, generation) pairs
  (\<open>sequence_allocator.go\<close>), the hash chain of one sink (\<open>sink_chain.go\<close>) and the state operations
  of the legacy composer (\<open>integrity.go\<close>). Mutexes are not modelled: each operation is one atomic
  step, and the results below quantify over every order of the operations. A chain is identified by
  its address, which is what the pointer comparison of \<open>Commit\<close> looks at. Errors are the sentinel
  they wrap.
\<close>

type_synonym int64 = "64 word"

datatype auditError =
    ErrSequenceOverflow | ErrGenerationOverflow | ErrInvalidAllocatorState
  | ErrKeyTooShort | ErrUnsupportedAlgorithm | ErrNilResult
  | ErrFatalIntegrity | ErrCrossChainResult | ErrBackwardsGeneration | ErrStaleResult
  | ErrInvalidChainState

section \<open>Sequence allocation (\<open>sequence_allocator.go\<close>)\<close>

record sequenceAllocator =
  al_sequence :: int64
  al_generation :: uint32

record allocatorState =
  as_Sequence :: int64
  as_Generation :: uint32

abbreviation MaxInt64 :: int64 where "MaxInt64 \<equiv> 0x7FFFFFFFFFFFFFFF"
abbreviation MaxUint32 :: uint32 where "MaxUint32 \<equiv> 0xFFFFFFFF"

definition NewSequenceAllocator :: sequenceAllocator where
  "NewSequenceAllocator = \<lparr>al_sequence = - 1, al_generation = 0\<rparr>"

definition Allocator_Next :: "sequenceAllocator \<Rightarrow> (auditError + int64 \<times> uint32) \<times> sequenceAllocator" where
  "Allocator_Next a =
     (if al_sequence a = MaxInt64 then (Inl ErrSequenceOverflow, a)
      else (let a' = a\<lparr>al_sequence := al_sequence a + 1\<rparr>
            in (Inr (al_sequence a', al_generation a'), a')))"

definition NextGeneration :: "sequenceAllocator \<Rightarrow> (auditError + uint32) \<times> sequenceAllocator" where
  "NextGeneration a =
     (if al_generation a = MaxUint32 then (Inl ErrGenerationOverflow, a)
      else (let a' = a\<lparr>al_generation := al_generation a + 1, al_sequence := - 1\<rparr>
            in (Inr (al_generation a'), a')))"

definition Allocator_State :: "sequenceAllocator \<Rightarrow> allocatorState" where
  "Allocator_State a = \<lparr>as_Sequence = al_sequence a, as_Generation = al_generation a\<rparr>"

definition Allocator_Restore ::
  "sequenceAllocator \<Rightarrow> allocatorState \<Rightarrow> auditError option \<times> sequenceAllocator" where
  "Allocator_Restore a st =
     (if sint (as_Sequence st) < - 1 then (Some ErrInvalidAllocatorState, a)
      else (None, a\<lparr>al_sequence := as_Sequence st, al_generation := as_Generation st\<rparr>))"

section \<open>Entry hashes (\<open>integrity.go\<close>)\<close>

abbreviation MinKeyLength :: nat where "MinKeyLength \<equiv> 32"
abbreviation IntegrityFormatVersion :: int64 where "IntegrityFormatVersion \<equiv> 2"

definition mac_message :: "int64 \<Rightarrow> int64 \<Rightarrow> string \<Rightarrow> bytes \<Rightarrow> bytes" where
  "mac_message formatVersion sequence prevHash payload =
     bytes_of (FormatInt (sint formatVersion)) @ bytes_of ''|'' @
     bytes_of (FormatInt (sint sequence)) @ bytes_of ''|'' @
     bytes_of prevHash @ bytes_of ''|'' @ payload"

definition computeIntegrityHash ::
  "bytes \<Rightarrow> string \<Rightarrow> int64 \<Rightarrow> int64 \<Rightarrow> string \<Rightarrow> bytes \<Rightarrow> auditError + string" where
  "computeIntegrityHash key algorithm formatVersion sequence prevHash payload =
     (let m = mac_message formatVersion sequence prevHash payload
      in if algorithm = [] then Inr (hex_EncodeToString (hmac_sha256 key m))
         else if algorithm = ''hmac-sha512'' then Inr (hex_EncodeToString (hmac_sha512 key m))
         else if algorithm \<noteq> ''hmac-sha256'' then Inl ErrUnsupportedAlgorithm
         else Inr (hex_EncodeToString (hmac_sha256 key m)))"

section \<open>The chain of one sink (\<open>sink_chain.go\<close>)\<close>

record sinkChain =
  sk_addr :: nat
  sk_key :: bytes
  sk_algorithm :: string
  sk_generation :: uint32
  sk_prevHash :: string
  sk_fatal :: bool

record sinkChainState =
  ss_Generation :: uint32
  ss_PrevHash :: string
  ss_Fatal :: bool

record computeResult =
  tok_entryHash :: string
  tok_prevHash :: string
  tok_sequence :: int64
  tok_generation :: uint32
  tok_chain :: nat

definition NewSinkChain :: "nat \<Rightarrow> bytes \<Rightarrow> string \<Rightarrow> auditError + sinkChain" where
  "NewSinkChain addr key algorithm =
     (if length key < MinKeyLength then Inl ErrKeyTooShort
      else (let alg = (if algorithm = [] then ''hmac-sha256'' else algorithm)
            in if alg = ''hmac-sha256'' \<or> alg = ''hmac-sha512''
               then Inr \<lparr>sk_addr = addr, sk_key = key, sk_algorithm = alg, sk_generation = 0,
                         sk_prevHash = [], sk_fatal = False\<rparr>
               else Inl ErrUnsupportedAlgorithm))"

definition Compute :: "sinkChain \<Rightarrow> int64 \<Rightarrow> int64 \<Rightarrow> uint32 \<Rightarrow> bytes \<Rightarrow> auditError + computeResult" where
  "Compute c formatVersion sequence generation payload =
     (if sk_fatal c then Inl ErrFatalIntegrity
      else (let prev = (if generation \<noteq> sk_generation c then [] else sk_prevHash c)
            in bind_result (computeIntegrityHash (sk_key c) (sk_algorithm c) formatVersion sequence prev payload)
                 (\<lambda>h. Inr \<lparr>tok_entryHash = h, tok_prevHash = prev, tok_sequence = sequence,
                           tok_generation = generation, tok_chain = sk_addr c\<rparr>)))"

definition Commit :: "sinkChain \<Rightarrow> computeResult option \<Rightarrow> auditError option \<times> sinkChain" where
  "Commit c result =
     (case result of
        None \<Rightarrow> (Some ErrNilResult, c)
      | Some r \<Rightarrow>
          if sk_fatal c then (Some ErrFatalIntegrity, c)
          else if tok_chain r \<noteq> sk_addr c then (Some ErrCrossChainResult, c\<lparr>sk_fatal := True\<rparr>)
          else if tok_generation r < sk_generation c
          then (Some ErrBackwardsGeneration, c\<lparr>sk_fatal := True\<rparr>)
          else if tok_generation r = sk_generation c \<and> tok_prevHash r \<noteq> sk_prevHash c
          then (Some ErrStaleResult, c\<lparr>sk_fatal := True\<rparr>)
          else if tok_generation r \<noteq> sk_generation c \<and> tok_prevHash r \<noteq> []
          then (Some ErrStaleResult, c\<lparr>sk_fatal := True\<rparr>)
          else (None, c\<lparr>sk_generation := tok_generation r, sk_prevHash := tok_entryHash r\<rparr>))"

definition Fatal :: "sinkChain \<Rightarrow> sinkChain" where
  "Fatal c = c\<lparr>sk_fatal := True\<rparr>"

definition SinkChain_State :: "sinkChain \<Rightarrow> sinkChainState" where
  "SinkChain_State c =
     \<lparr>ss_Generation = sk_generation c, ss_PrevHash = sk_prevHash c, ss_Fatal = sk_fatal c\<rparr>"

definition validatePrevHash :: "string \<Rightarrow> string \<Rightarrow> auditError option" where
  "validatePrevHash algorithm prevHash =
     (if prevHash = [] then None
      else (let wantHex = (if algorithm = ''hmac-sha512'' then 64 else 32) * 2
            in if length prevHash \<noteq> wantHex then Some ErrInvalidChainState
               else (case hex_DecodeString prevHash of
                       None \<Rightarrow> Some ErrInvalidChainState
                     | Some _ \<Rightarrow> None)))"

definition SinkChain_Restore ::
  "sinkChain \<Rightarrow> uint32 \<Rightarrow> string \<Rightarrow> bool \<Rightarrow> auditError option \<times> sinkChain" where
  "SinkChain_Restore c generation prevHash fatal =
     (case validatePrevHash (sk_algorithm c) prevHash of
        Some e \<Rightarrow> (Some e, c)
      | None \<Rightarrow> (None, c\<lparr>sk_generation := generation, sk_prevHash := prevHash, sk_fatal := fatal\<rparr>))"

section \<open>The composer (\<open>integrity.go\<close>)\<close>

record integrityChain =
  ic_alloc :: sequenceAllocator
  ic_chain :: sinkChain

record chainState =
  cst_Sequence :: int64
  cst_PrevHash :: string

definition NewIntegrityChainWithAlgorithm :: "nat \<Rightarrow> bytes \<Rightarrow> string \<Rightarrow> auditError + integrityChain" where
  "NewIntegrityChainWithAlgorithm addr key algorithm =
     bind_result (NewSinkChain addr key algorithm)
       (\<lambda>c. Inr \<lparr>ic_alloc = NewSequenceAllocator, ic_chain = c\<rparr>)"

definition NewIntegrityChain :: "nat \<Rightarrow> bytes \<Rightarrow> auditError + integrityChain" where
  "NewIntegrityChain addr key =
     (if length key < MinKeyLength then Inl ErrKeyTooShort
      else NewIntegrityChainWithAlgorithm addr key ''hmac-sha256'')"

definition IntegrityChain_State :: "integrityChain \<Rightarrow> chainState" where
  "IntegrityChain_State c =
     (let allocState = Allocator_State (ic_alloc c); st = SinkChain_State (ic_chain c)
      in \<lparr>cst_Sequence = as_Sequence allocState, cst_PrevHash = ss_PrevHash st\<rparr>)"

definition IntegrityChain_Restore ::
  "integrityChain \<Rightarrow> int64 \<Rightarrow> string \<Rightarrow> auditError option \<times> integrityChain" where
  "IntegrityChain_Restore c sequence prevHash =
     (let prevAlloc = Allocator_State (ic_alloc c)
      in case Allocator_Restore (ic_alloc c) \<lparr>as_Sequence = sequence, as_Generation = 0\<rparr> of
           (Some e, a) \<Rightarrow> (Some e, c\<lparr>ic_alloc := a\<rparr>)
         | (None, a) \<Rightarrow>
             (case SinkChain_Restore (ic_chain c) 0 prevHash False of
                (Some e, s) \<Rightarrow> (Some e, \<lparr>ic_alloc = snd (Allocator_Restore a prevAlloc), ic_chain = s\<rparr>)
              | (None, s) \<Rightarrow> (None, \<lparr>ic_alloc = a, ic_chain = s\<rparr>)))"

text \<open>
  \<open>Wrap\<close> after the payload is parsed and before it is printed again: allocate, compute, commit. The
  canonical payload is the argument; the metadata is the result.
\<close>

record integrityMetadata =
  im_FormatVersion :: int64
  im_Sequence :: int64
  im_PrevHash :: string
  im_EntryHash :: string

definition wrap_canonical ::
  "integrityChain \<Rightarrow> bytes \<Rightarrow> (auditError + integrityMetadata) \<times> integrityChain" where
  "wrap_canonical c canonicalPayload =
     (case Allocator_Next (ic_alloc c) of
        (Inl e, a) \<Rightarrow> (Inl e, c\<lparr>ic_alloc := a\<rparr>)
      | (Inr (seq, gen), a) \<Rightarrow>
          (case Compute (ic_chain c) IntegrityFormatVersion seq gen canonicalPayload of
             Inl e \<Rightarrow> (Inl e, c\<lparr>ic_alloc := a\<rparr>)
           | Inr r \<Rightarrow>
               (case Commit (ic_chain c) (Some r) of
                  (Some e, s) \<Rightarrow> (Inl e, \<lparr>ic_alloc = a, ic_chain = s\<rparr>)
                | (None, s) \<Rightarrow>
                    (Inr \<lparr>im_FormatVersion = IntegrityFormatVersion, im_Sequence = seq,
                          im_PrevHash = tok_prevHash r, im_EntryHash = tok_entryHash r\<rparr>,
                     \<lparr>ic_alloc = a, ic_chain = s\<rparr>))))"

text \<open>\<open>VerifyWrapped\<close> on a parsed entry: recompute the hash from the metadata and compare.\<close>

definition verify_canonical :: "bytes \<Rightarrow> string \<Rightarrow> integrityMetadata \<Rightarrow> bytes \<Rightarrow> auditError + bool" where
  "verify_canonical key algorithm meta canonicalPayload =
     bind_result (computeIntegrityHash key algorithm (im_FormatVersion meta) (im_Sequence meta)
                    (im_PrevHash meta) canonicalPayload)
       (\<lambda>h. Inr (h = im_EntryHash meta))"

end
