(* ===== verification/Audit_Safety.thy ===== *)
theory Audit_Safety
  imports Audit_Chain
begin

text \<open>
  What the audit chain guarantees: stamps are never reused, the entries a sink commits form one
  linked chain whatever order \<open>Compute\<close>, \<open>Commit\<close> and \<open>Fatal\<close> come in, a log with a given head
  cannot be exchanged for another one without a collision of the keyed hash, a latched chain stays
  latched, and the state operations round-trip.
\<close>

section \<open>Stamps\<close>

datatype allocCall = CallNext | CallNextGeneration | CallReload

text \<open>\<open>CallReload\<close> is a restart: the saved state is restored into a new allocator.\<close>

fun alloc_step :: "sequenceAllocator \<Rightarrow> allocCall \<Rightarrow> (int64 \<times> uint32) list \<times> sequenceAllocator" where
  "alloc_step a CallNext =
     (case Allocator_Next a of (Inl e, a') \<Rightarrow> ([], a') | (Inr stamp, a') \<Rightarrow> ([stamp], a'))"
| "alloc_step a CallNextGeneration = ([], snd (NextGeneration a))"
| "alloc_step a CallReload = ([], snd (Allocator_Restore NewSequenceAllocator (Allocator_State a)))"

fun alloc_run :: "sequenceAllocator \<Rightarrow> allocCall list \<Rightarrow> (int64 \<times> uint32) list" where
  "alloc_run a [] = []"
| "alloc_run a (call # calls) = (case alloc_step a call of (out, a') \<Rightarrow> out @ alloc_run a' calls)"

definition stamp_less :: "int64 \<times> uint32 \<Rightarrow> int64 \<times> uint32 \<Rightarrow> bool" where
  "stamp_less p q = (snd p < snd q \<or> snd p = snd q \<and> sint (fst p) < sint (fst q))"

lemma stamp_less_trans: "stamp_less p q \<Longrightarrow> stamp_less q r \<Longrightarrow> stamp_less p r"
  by (auto simp: stamp_less_def)

abbreviation alloc_ok :: "sequenceAllocator \<Rightarrow> bool" where
  "alloc_ok a \<equiv> - 1 \<le> sint (al_sequence a)"

abbreviation last_stamp :: "sequenceAllocator \<Rightarrow> int64 \<times> uint32" where
  "last_stamp a \<equiv> (al_sequence a, al_generation a)"

lemma sint_succ:
  fixes s :: int64
  assumes "s \<noteq> MaxInt64"
  shows "sint (s + 1) = sint s + 1"
proof -
  have "sint s \<noteq> sint MaxInt64"
    using assms by (rule contrapos_nn) (rule signed_word_eqI)
  then have "sint s \<noteq> 2 ^ 63 - 1" by simp
  moreover have "sint s < 2 ^ 63" "- (2 ^ 63) \<le> sint s"
    using sint_lt [of s] sint_ge [of s] by simp_all
  ultimately show ?thesis
    by (simp add: sint_word_ariths signed_take_bit_int_eq_self)
qed

lemma word_succ_greater: "g \<noteq> MaxUint32 \<Longrightarrow> g < g + (1 :: uint32)"
  by unat_arith simp

lemma alloc_step_ok: "alloc_ok a \<Longrightarrow> alloc_step a call = (out, a') \<Longrightarrow> alloc_ok a'"
  by (cases call)
    (auto simp: Allocator_Next_def NextGeneration_def Allocator_Restore_def Allocator_State_def
       NewSequenceAllocator_def Let_def sint_succ split: if_splits)

lemma alloc_step_grows:
  assumes "alloc_ok a" and "alloc_step a call = (out, a')"
  shows "(out = [] \<and> (last_stamp a' = last_stamp a \<or> stamp_less (last_stamp a) (last_stamp a'))) \<or>
         (out = [last_stamp a'] \<and> stamp_less (last_stamp a) (last_stamp a') \<and> 0 \<le> sint (al_sequence a'))"
  using assms
  by (cases call)
    (auto simp: Allocator_Next_def NextGeneration_def Allocator_Restore_def Allocator_State_def
       NewSequenceAllocator_def Let_def sint_succ word_succ_greater stamp_less_def split: if_splits)

lemma alloc_run_above:
  assumes "alloc_ok a"
  shows "(\<forall>p \<in> set (alloc_run a calls). stamp_less (last_stamp a) p) \<and>
         sorted_wrt stamp_less (alloc_run a calls) \<and>
         list_all (\<lambda>p. 0 \<le> sint (fst p)) (alloc_run a calls)"
  using assms
proof (induction calls arbitrary: a)
  case (Cons call calls)
  obtain out a' where step: "alloc_step a call = (out, a')" by fastforce
  from alloc_step_ok [OF Cons.prems step] have IH:
    "\<forall>p \<in> set (alloc_run a' calls). stamp_less (last_stamp a') p"
    "sorted_wrt stamp_less (alloc_run a' calls)"
    "list_all (\<lambda>p. 0 \<le> sint (fst p)) (alloc_run a' calls)"
    using Cons.IH by blast+
  from alloc_step_grows [OF Cons.prems step] IH show ?case
    by (auto simp: step intro: stamp_less_trans)
qed simp

text \<open>C34: Stamps are never reused. Whatever sequence of allocations, generation rolls and restarts
  an allocator goes through, the (sequence, generation) pairs it hands out are strictly increasing,
  generation first, and every sequence number is non-negative.\<close>

theorem allocator_strictly_increasing:
  "sorted_wrt stamp_less (alloc_run NewSequenceAllocator calls) \<and>
   list_all (\<lambda>p. 0 \<le> sint (fst p)) (alloc_run NewSequenceAllocator calls)"
  using alloc_run_above [of NewSequenceAllocator calls] by (simp add: NewSequenceAllocator_def)

section \<open>Entry hashes\<close>

definition mac :: "string \<Rightarrow> bytes \<Rightarrow> bytes \<Rightarrow> bytes" where
  "mac algorithm key m = (if algorithm = ''hmac-sha512'' then hmac_sha512 key m else hmac_sha256 key m)"

abbreviation supported :: "string \<Rightarrow> bool" where
  "supported algorithm \<equiv> algorithm = ''hmac-sha256'' \<or> algorithm = ''hmac-sha512''"

lemma computeIntegrityHash_mac:
  "computeIntegrityHash key alg v s prev p = Inr h \<Longrightarrow>
   h = hex_EncodeToString (mac alg key (mac_message v s prev p))"
  by (auto simp: computeIntegrityHash_def mac_def Let_def split: if_splits)

lemma computeIntegrityHash_supported:
  "supported alg \<Longrightarrow>
   computeIntegrityHash key alg v s prev p = Inr (hex_EncodeToString (mac alg key (mac_message v s prev p)))"
  by (auto simp: computeIntegrityHash_def mac_def Let_def)

lemma length_mac: "length (mac alg key m) = (if alg = ''hmac-sha512'' then 64 else 32)"
  by (simp add: mac_def)

lemma computed_hash_valid:
  "computeIntegrityHash key alg v s prev p = Inr h \<Longrightarrow> h \<noteq> [] \<and> validatePrevHash alg h = None"
  by (drule computeIntegrityHash_mac)
    (auto simp: validatePrevHash_def Let_def length_mac simp flip: length_0_conv)

lemma split_at_separator:
  "z \<notin> set a \<Longrightarrow> z \<notin> set b \<Longrightarrow> a @ z # x = b @ z # y \<longleftrightarrow> a = b \<and> x = y"
proof (induction a arbitrary: b)
  case Nil
  then show ?case by (cases b) auto
next
  case (Cons c a)
  then show ?case by (cases b) auto
qed

abbreviation bar :: byte where "bar \<equiv> of_char (CHR ''|'')"

lemma byte_of_char_inject: "(of_char c :: byte) = of_char d \<longleftrightarrow> c = d"
  using bytes_of_inject [of "[c]" "[d]"] by (simp add: bytes_of_def)

lemma bar_notin: "CHR ''|'' \<notin> set s \<Longrightarrow> bar \<notin> set (bytes_of s)"
  by (auto simp: bytes_of_def byte_of_char_inject simp del: of_char_Char)


lemma hex_no_bar: "is_hex c \<Longrightarrow> c \<noteq> CHR ''|''"
  by (auto simp: is_hex_def)

lemma FormatInt_no_bar: "CHR ''|'' \<notin> set (FormatInt i)"
  using FormatInt_chars [of "CHR ''|''" i] by (auto simp: is_digit_def)

lemma valid_prev_no_bar: "validatePrevHash alg h = None \<Longrightarrow> CHR ''|'' \<notin> set h"
  using hex_Decode_chars [of h "CHR ''|''"]
  by (auto simp: validatePrevHash_def Let_def dest: hex_no_bar split: if_splits option.splits)

lemma sint_inject: "sint (a :: int64) = sint b \<longleftrightarrow> a = b"
  by (auto intro: signed_word_eqI)

text \<open>The separators make the message determine its parts, as long as the previous hashes are
  well-formed.\<close>

lemma mac_message_inject:
  assumes "validatePrevHash alg h = None" and "validatePrevHash alg' h' = None"
  shows "mac_message v s h p = mac_message v' s' h' p' \<longleftrightarrow> v = v' \<and> s = s' \<and> h = h' \<and> p = p'"
proof -
  have bars: "bytes_of ''|'' = [bar]"
    by (simp add: bytes_of_def)
  show ?thesis
    using assms [THEN valid_prev_no_bar]
    by (simp add: mac_message_def bars split_at_separator bar_notin FormatInt_no_bar sint_inject
        del: of_char_Char)
qed

section \<open>The committed log\<close>

record logEntry =
  le_version :: int64
  le_sequence :: int64
  le_generation :: uint32
  le_prev :: string
  le_payload :: bytes
  le_hash :: string

definition log_entry :: "computeResult \<Rightarrow> int64 \<Rightarrow> bytes \<Rightarrow> logEntry" where
  "log_entry r v p = \<lparr>le_version = v, le_sequence = tok_sequence r, le_generation = tok_generation r,
     le_prev = tok_prevHash r, le_payload = p, le_hash = tok_entryHash r\<rparr>"

definition entry_hash_ok :: "bytes \<Rightarrow> string \<Rightarrow> logEntry \<Rightarrow> bool" where
  "entry_hash_ok key alg e =
     (computeIntegrityHash key alg (le_version e) (le_sequence e) (le_prev e) (le_payload e) = Inr (le_hash e))"

text \<open>
  A log is linked from a generation and head when every entry carries the hash of its own contents
  and the head before it, or an empty head where it opens a later generation.
\<close>

fun linked :: "bytes \<Rightarrow> string \<Rightarrow> uint32 \<Rightarrow> string \<Rightarrow> logEntry list \<Rightarrow> bool" where
  "linked key alg g h [] = True"
| "linked key alg g h (e # es) =
     (g \<le> le_generation e \<and> le_prev e = (if le_generation e = g then h else []) \<and>
      entry_hash_ok key alg e \<and> linked key alg (le_generation e) (le_hash e) es)"

definition head_generation :: "uint32 \<Rightarrow> logEntry list \<Rightarrow> uint32" where
  "head_generation g es = (if es = [] then g else le_generation (last es))"

definition head_hash :: "string \<Rightarrow> logEntry list \<Rightarrow> string" where
  "head_hash h es = (if es = [] then h else le_hash (last es))"

lemma head_snoc [simp]:
  "head_generation g (es @ [e]) = le_generation e" "head_hash h (es @ [e]) = le_hash e"
  by (simp_all add: head_generation_def head_hash_def)

lemma head_Nil [simp]: "head_generation g [] = g" "head_hash h [] = h"
  by (simp_all add: head_generation_def head_hash_def)

lemma head_Cons [simp]:
  "head_generation g (e # es) = head_generation (le_generation e) es"
  "head_hash h (e # es) = head_hash (le_hash e) es"
  by (simp_all add: head_generation_def head_hash_def)

lemma linked_snoc:
  "linked key alg g h (es @ [e]) \<longleftrightarrow>
     linked key alg g h es \<and> head_generation g es \<le> le_generation e \<and>
     le_prev e = (if le_generation e = head_generation g es then head_hash h es else []) \<and>
     entry_hash_ok key alg e"
  by (induction es arbitrary: g h) auto

text \<open>
  Every order of calls on one chain: \<open>Compute\<close> hands out tokens, \<open>Commit\<close> is called with any token
  handed out so far, in any order and any number of times, or with a token of another chain, and
  \<open>Fatal\<close> at any moment. The log records the entries whose \<open>Commit\<close> returned no error.
\<close>

inductive sink_run ::
  "sinkChain \<Rightarrow> sinkChain \<Rightarrow> (computeResult \<times> int64 \<times> bytes) set \<Rightarrow> logEntry list \<Rightarrow> bool"
  for c0 :: sinkChain where
  sink_start: "sink_run c0 c0 {} []"
| sink_compute: "sink_run c0 c issued log \<Longrightarrow> Compute c v s g p = Inr r \<Longrightarrow>
    sink_run c0 c (insert (r, v, p) issued) log"
| sink_commit: "sink_run c0 c issued log \<Longrightarrow> (r, v, p) \<in> issued \<Longrightarrow> Commit c (Some r) = (None, c') \<Longrightarrow>
    sink_run c0 c' issued (log @ [log_entry r v p])"
| sink_rejected: "sink_run c0 c issued log \<Longrightarrow> Commit c result = (Some e, c') \<Longrightarrow> sink_run c0 c' issued log"
| sink_fatal: "sink_run c0 c issued log \<Longrightarrow> sink_run c0 (Fatal c) issued log"

lemma Commit_accepts:
  "Commit c (Some r) = (None, c') \<Longrightarrow>
     \<not> sk_fatal c \<and> tok_chain r = sk_addr c \<and> sk_generation c \<le> tok_generation r \<and>
     tok_prevHash r = (if tok_generation r = sk_generation c then sk_prevHash c else []) \<and>
     c' = c\<lparr>sk_generation := tok_generation r, sk_prevHash := tok_entryHash r\<rparr>"
  by (auto simp: Commit_def split: if_splits)

lemma Commit_rejects:
  "Commit c result = (Some e, c') \<Longrightarrow> c' = c \<or> c' = c\<lparr>sk_fatal := True\<rparr>"
  by (auto simp: Commit_def split: if_splits option.splits)

lemma Compute_token:
  "Compute c v s g p = Inr r \<Longrightarrow>
     \<not> sk_fatal c \<and> tok_chain r = sk_addr c \<and> tok_generation r = g \<and> tok_sequence r = s \<and>
     computeIntegrityHash (sk_key c) (sk_algorithm c) v s (tok_prevHash r) p = Inr (tok_entryHash r)"
  by (auto simp: Compute_def Let_def bind_result_Inr_iff split: if_splits)

lemma sink_run_inv:
  "sink_run c0 c issued log \<Longrightarrow>
     sk_key c = sk_key c0 \<and> sk_algorithm c = sk_algorithm c0 \<and> sk_addr c = sk_addr c0 \<and>
     (\<forall>(r, v, p) \<in> issued. entry_hash_ok (sk_key c0) (sk_algorithm c0) (log_entry r v p)) \<and>
     linked (sk_key c0) (sk_algorithm c0) (sk_generation c0) (sk_prevHash c0) log \<and>
     sk_generation c = head_generation (sk_generation c0) log \<and> sk_prevHash c = head_hash (sk_prevHash c0) log"
proof (induction rule: sink_run.induct)
  case (sink_compute c issued log v s g p r)
  then show ?case
    by (auto simp: entry_hash_ok_def log_entry_def dest!: Compute_token)
next
  case (sink_commit c issued log r v p c')
  note accepted = Commit_accepts [OF sink_commit.hyps(3)]
  have "entry_hash_ok (sk_key c0) (sk_algorithm c0) (log_entry r v p)"
    using sink_commit by blast
  then show ?case
    using sink_commit.IH accepted by (auto simp: linked_snoc log_entry_def)
next
  case (sink_rejected c issued log result e c')
  then show ?case by (auto dest!: Commit_rejects)
qed (auto simp: Fatal_def)

lemma Compute_succeeds:
  assumes "supported (sk_algorithm c)" and "\<not> sk_fatal c"
  shows "\<exists>r. Compute c v s g p = Inr r"
  using assms by (auto simp: Compute_def Let_def computeIntegrityHash_supported)

lemma NewSinkChain_Inr:
  "NewSinkChain addr key alg = Inr c \<Longrightarrow>
     sk_key c = key \<and> supported (sk_algorithm c) \<and> sk_generation c = 0 \<and> sk_prevHash c = [] \<and>
     \<not> sk_fatal c \<and> sk_addr c = addr"
  by (auto simp: NewSinkChain_def Let_def split: if_splits)

lemma sample_chain:
  "NewSinkChain a (replicate 32 7) ''hmac-sha512'' =
     Inr \<lparr>sk_addr = a, sk_key = replicate 32 7, sk_algorithm = ''hmac-sha512'', sk_generation = 0,
          sk_prevHash = [], sk_fatal = False\<rparr>"
  by (simp add: NewSinkChain_def)

text \<open>C12: One linked chain. Whatever order \<open>Compute\<close>, \<open>Commit\<close> and \<open>Fatal\<close> are called in on a new
  chain, with stale, repeated or foreign tokens, the entries whose commit succeeded form one chain:
  each carries the hash of its contents and of the entry before it, or no predecessor where it opens
  a later generation, and the chain's state is the head of that log.\<close>

theorem sink_log_linked:
  assumes "NewSinkChain addr key alg = Inr c0" and "sink_run c0 c issued log"
  shows "linked key (sk_algorithm c0) 0 [] log \<and>
         sk_generation c = head_generation 0 log \<and> sk_prevHash c = head_hash [] log"
  using sink_run_inv [OF assms(2)] NewSinkChain_Inr [OF assms(1)] by simp

theorem sink_log_linked_witness:
  "\<exists>c0 c issued e. NewSinkChain 1 (replicate 32 7) ''hmac-sha512'' = Inr c0 \<and> sink_run c0 c issued [e] \<and>
     linked (replicate 32 7) (sk_algorithm c0) 0 [] [e]"
proof -
  obtain c0 where new: "NewSinkChain 1 (replicate 32 7) ''hmac-sha512'' = Inr c0"
    by (simp add: sample_chain)
  note props = NewSinkChain_Inr [OF new]
  obtain r where r: "Compute c0 2 0 0 [1, 2] = Inr r"
    using Compute_succeeds props by blast
  have "sink_run c0 c0 {(r, 2, [1, 2])} []"
    using sink_compute [OF sink_start r] by simp
  moreover obtain c where c: "Commit c0 (Some r) = (None, c)"
    using r props by (auto simp: Compute_def Commit_def bind_result_Inr_iff)
  ultimately have run: "sink_run c0 c {(r, 2, [1, 2])} ([] @ [log_entry r 2 [1, 2]])"
    by (intro sink_commit) simp_all
  then have "sink_run c0 c {(r, 2, [1, 2])} [log_entry r 2 [1, 2]]" by simp
  then show ?thesis
    using new sink_log_linked [OF new run] by (intro exI conjI) auto
qed

lemma linked_prev_valid:
  "linked key alg g h es \<Longrightarrow> validatePrevHash alg h = None \<Longrightarrow> e \<in> set es \<Longrightarrow>
   validatePrevHash alg (le_prev e) = None"
proof (induction es arbitrary: g h)
  case (Cons a es)
  have empty: "validatePrevHash alg [] = None" by (simp add: validatePrevHash_def)
  have "validatePrevHash alg (le_hash a) = None"
    using Cons.prems computed_hash_valid by (auto simp: entry_hash_ok_def)
  then show ?case using Cons empty by (auto split: if_splits)
qed simp

definition entry_message :: "logEntry \<Rightarrow> bytes" where
  "entry_message e = mac_message (le_version e) (le_sequence e) (le_prev e) (le_payload e)"

definition mac_collision :: "bytes \<Rightarrow> string \<Rightarrow> logEntry \<Rightarrow> logEntry \<Rightarrow> bool" where
  "mac_collision key alg e e' =
     (entry_message e \<noteq> entry_message e' \<and> mac alg key (entry_message e) = mac alg key (entry_message e'))"

lemma same_hash_same_entry:
  assumes "entry_hash_ok key alg e" "entry_hash_ok key alg e'" and "le_hash e = le_hash e'"
    and "validatePrevHash alg (le_prev e) = None" "validatePrevHash alg (le_prev e') = None"
    and "le_generation e = le_generation e'" and "\<not> mac_collision key alg e e'"
  shows "e = e'"
proof -
  have "mac alg key (entry_message e) = mac alg key (entry_message e')"
    using assms(1-3) by (auto simp: entry_hash_ok_def entry_message_def dest!: computeIntegrityHash_mac)
  with assms(7) have "entry_message e = entry_message e'"
    by (simp add: mac_collision_def)
  with assms(3-6) show ?thesis
    by (simp add: entry_message_def mac_message_inject)
qed

lemma linked_hash_nonempty: "linked key alg g h (es @ [e]) \<Longrightarrow> le_hash e \<noteq> []"
  by (auto simp: linked_snoc entry_hash_ok_def dest: computed_hash_valid)

lemma equal_heads_equal_logs:
  assumes "linked key alg g [] es" "linked key alg g [] es'" and "head_hash [] es = head_hash [] es'"
    and "\<forall>e \<in> set es \<union> set es'. le_generation e = g"
    and "\<forall>e \<in> set es. \<forall>e' \<in> set es'. \<not> mac_collision key alg e e'"
  shows "es = es'"
  using assms
proof (induction es arbitrary: es' rule: rev_induct)
  case Nil
  then show ?case
    by (cases es' rule: rev_cases) (auto dest: linked_hash_nonempty)
next
  case (snoc e es)
  from snoc.prems(1,3) have "es' \<noteq> []" by (auto dest: linked_hash_nonempty)
  then obtain fs f where es': "es' = fs @ [f]" by (cases es' rule: rev_cases) auto
  have empty: "validatePrevHash alg [] = None" by (simp add: validatePrevHash_def)
  have "e = f"
    using snoc.prems linked_prev_valid [OF snoc.prems(1) empty, of e] linked_prev_valid [OF snoc.prems(2) empty, of f]
    by (intro same_hash_same_entry [of key alg]) (auto simp: es' linked_snoc)
  moreover have gens: "head_generation g es = g" "head_generation g fs = g"
    using snoc.prems(4) by (auto simp: head_generation_def es')
  ultimately have "head_hash [] es = head_hash [] fs"
    using snoc.prems(1,2,4) by (auto simp: es' linked_snoc)
  then have "es = fs"
    using snoc.prems by (intro snoc.IH) (auto simp: es' linked_snoc)
  with \<open>e = f\<close> show ?case by (simp add: es')
qed

text \<open>C13: Tamper evidence. Two linked logs of one generation that end in the same head are the same
  log, entry by entry, unless an entry of one and an entry of the other are two different messages
  with the same keyed hash. Nothing is assumed about the hash function.\<close>

theorem audit_log_tamper_evident:
  assumes "linked key alg g [] log" and "linked key alg g [] log'"
    and "head_hash [] log = head_hash [] log'"
    and "\<forall>e \<in> set log \<union> set log'. le_generation e = g"
  shows "log = log' \<or> (\<exists>e \<in> set log. \<exists>e' \<in> set log'. mac_collision key alg e e')"
  using equal_heads_equal_logs [OF assms] by blast

theorem audit_log_tamper_evident_witness:
  "\<exists>e. linked (replicate 32 7) ''hmac-sha512'' 0 [] [e] \<and>
     ([e] = [e] \<or> mac_collision (replicate 32 7) ''hmac-sha512'' e e)"
proof -
  define h where "h = hex_EncodeToString (mac ''hmac-sha512'' (replicate 32 7) (mac_message 2 0 [] [1]))"
  define e where "e = \<lparr>le_version = 2, le_sequence = 0, le_generation = 0, le_prev = [], le_payload = [1], le_hash = h\<rparr>"
  have "linked (replicate 32 7) ''hmac-sha512'' 0 [] [e]"
    by (simp add: entry_hash_ok_def e_def h_def computeIntegrityHash_supported)
  moreover have "[e] = [e] \<or> mac_collision (replicate 32 7) ''hmac-sha512'' e e"
    using audit_log_tamper_evident [OF calculation calculation] by (simp add: e_def)
  ultimately show ?thesis by blast
qed

section \<open>Latching and restarting\<close>

lemma fatal_run_logs_nothing:
  "sink_run c0 c issued log \<Longrightarrow> sk_fatal c0 \<Longrightarrow> sk_fatal c \<and> issued = {} \<and> log = []"
  by (induction rule: sink_run.induct)
    (auto simp: Fatal_def dest: Compute_token Commit_accepts Commit_rejects)

lemma Commit_error_latches: "Commit c (Some r) = (Some e, c') \<Longrightarrow> sk_fatal c'"
  by (auto simp: Commit_def split: if_splits)


abbreviation token :: "string \<Rightarrow> computeResult" where
  "token prev \<equiv> \<lparr>tok_entryHash = ''e'', tok_prevHash = prev, tok_sequence = 0, tok_generation = 0, tok_chain = 1\<rparr>"


lemma linked_head_valid:
  "linked key alg g h es \<Longrightarrow> validatePrevHash alg h = None \<Longrightarrow> validatePrevHash alg (head_hash h es) = None"
  by (cases es rule: rev_cases)
    (auto simp: linked_snoc entry_hash_ok_def dest: computed_hash_valid)

text \<open>Restart. Restoring the saved state of a chain into a new chain with the same algorithm is
  accepted and gives the same chain under its new address: generation, head and latch survive.\<close>

theorem sink_state_restore:
  assumes "NewSinkChain addr key alg = Inr c0" and "sink_run c0 c issued log"
    and "NewSinkChain addr' key alg = Inr c1" and "SinkChain_State c = st"
  shows "SinkChain_Restore c1 (ss_Generation st) (ss_PrevHash st) (ss_Fatal st) =
         (None, c\<lparr>sk_addr := addr'\<rparr>)"
proof -
  have "sk_algorithm c1 = sk_algorithm c0" "sk_key c1 = key" "sk_addr c1 = addr'"
    using assms(1,3) by (auto simp: NewSinkChain_def Let_def split: if_splits)
  moreover note inv = sink_run_inv [OF assms(2)] NewSinkChain_Inr [OF assms(1)]
  moreover have "validatePrevHash (sk_algorithm c0) (sk_prevHash c) = None"
    using inv linked_head_valid [of "sk_key c0" "sk_algorithm c0" 0 "[]" log]
    by (simp add: validatePrevHash_def)
  ultimately show ?thesis
    using assms(4) by (auto simp: SinkChain_Restore_def SinkChain_State_def intro!: sinkChain.equality)
qed

theorem sink_state_restore_witness:
  "\<exists>c0 c1. NewSinkChain 1 (replicate 32 7) ''hmac-sha512'' = Inr c0 \<and>
     NewSinkChain 2 (replicate 32 7) ''hmac-sha512'' = Inr c1 \<and>
     SinkChain_Restore c1 0 [] True = (None, (Fatal c0)\<lparr>sk_addr := 2\<rparr>)"
proof -
  obtain c0 where new: "NewSinkChain 1 (replicate 32 7) ''hmac-sha512'' = Inr c0"
    by (simp add: sample_chain)
  obtain c1 where new1: "NewSinkChain 2 (replicate 32 7) ''hmac-sha512'' = Inr c1"
    by (simp add: sample_chain)
  have "SinkChain_State (Fatal c0) = \<lparr>ss_Generation = 0, ss_PrevHash = [], ss_Fatal = True\<rparr>"
    using NewSinkChain_Inr [OF new] by (simp add: SinkChain_State_def Fatal_def)
  from sink_state_restore [OF new sink_fatal [OF sink_start] new1 this] new new1 show ?thesis
    by (intro exI conjI) simp_all
qed

text \<open>Restoring the composer. A refused restore leaves it exactly as it was; an accepted one sets
  the given sequence and head and generation zero. It also clears a fatal latch of the chain.\<close>

theorem integrity_restore_all_or_nothing:
  assumes "alloc_ok (ic_alloc c)" and "IntegrityChain_Restore c sequence prev = (err, c')"
  shows "(err \<noteq> None \<longrightarrow> c' = c) \<and>
         (err = None \<longrightarrow> IntegrityChain_State c' = \<lparr>cst_Sequence = sequence, cst_PrevHash = prev\<rparr> \<and>
            al_generation (ic_alloc c') = 0 \<and> \<not> sk_fatal (ic_chain c'))"
  using assms
  by (auto simp: IntegrityChain_Restore_def Allocator_Restore_def SinkChain_Restore_def
      IntegrityChain_State_def Allocator_State_def SinkChain_State_def Let_def
      split: if_splits option.splits)

theorem integrity_restore_all_or_nothing_witness:
  "\<exists>c c'. NewIntegrityChain 1 (replicate 32 7) = Inr c \<and>
     IntegrityChain_Restore c (- 2) [] = (Some ErrInvalidAllocatorState, c') \<and> c' = c"
proof -
  obtain c where new: "NewIntegrityChain 1 (replicate 32 7) = Inr c"
    by (simp add: NewIntegrityChain_def NewIntegrityChainWithAlgorithm_def NewSinkChain_def)
  then have ok: "alloc_ok (ic_alloc c)"
    by (auto simp: NewIntegrityChain_def NewIntegrityChainWithAlgorithm_def NewSequenceAllocator_def
        bind_result_Inr_iff split: if_splits)
  obtain c' where "IntegrityChain_Restore c (- 2) [] = (Some ErrInvalidAllocatorState, c')"
    by (simp add: IntegrityChain_Restore_def Allocator_Restore_def)
  with new integrity_restore_all_or_nothing [OF ok this] show ?thesis by blast
qed

section \<open>Wrapping and verifying\<close>



end
