(* ===== verification/Go_Utf8.thy ===== *)
theory Go_Utf8
  imports Caw_Prelude
begin

text \<open>
  UTF-8 as \<open>unicode/utf8\<close> and the \<open>range\<close> loop over a string decode it: a byte that starts no valid
  sequence is the rune \<open>RuneError\<close> of width one.
\<close>

section \<open>Decoding\<close>

abbreviation code :: "char \<Rightarrow> nat" where "code c \<equiv> of_char c"

abbreviation RuneError :: nat where "RuneError \<equiv> 0xFFFD"

definition cont :: "nat \<Rightarrow> nat \<Rightarrow> char \<Rightarrow> bool" where
  "cont lo hi c = (lo \<le> code c \<and> code c \<le> hi)"

text \<open>The accepted range of the second byte after a first byte of a longer sequence.\<close>

definition second3 :: "nat \<Rightarrow> char \<Rightarrow> bool" where
  "second3 x = cont (if x = 0xE0 then 0xA0 else 0x80) (if x = 0xED then 0x9F else 0xBF)"

definition second4 :: "nat \<Rightarrow> char \<Rightarrow> bool" where
  "second4 x = cont (if x = 0xF0 then 0x90 else 0x80) (if x = 0xF4 then 0x8F else 0xBF)"

definition DecodeRuneInString :: "string \<Rightarrow> nat \<times> nat" where
  "DecodeRuneInString s =
     (case s of
        [] \<Rightarrow> (RuneError, 0)
      | a # s1 \<Rightarrow>
          (let x = code a in
           if x < 0x80 then (x, 1)
           else if 0xC2 \<le> x \<and> x \<le> 0xDF then
             (case s1 of
                b # _ \<Rightarrow> if cont 0x80 0xBF b then (x mod 0x20 * 0x40 + code b mod 0x40, 2) else (RuneError, 1)
              | _ \<Rightarrow> (RuneError, 1))
           else if 0xE0 \<le> x \<and> x \<le> 0xEF then
             (case s1 of
                b # c # _ \<Rightarrow>
                  if second3 x b \<and> cont 0x80 0xBF c
                  then (x mod 0x10 * 0x1000 + code b mod 0x40 * 0x40 + code c mod 0x40, 3)
                  else (RuneError, 1)
              | _ \<Rightarrow> (RuneError, 1))
           else if 0xF0 \<le> x \<and> x \<le> 0xF4 then
             (case s1 of
                b # c # d # _ \<Rightarrow>
                  if second4 x b \<and> cont 0x80 0xBF c \<and> cont 0x80 0xBF d
                  then (x mod 0x08 * 0x40000 + code b mod 0x40 * 0x1000 + code c mod 0x40 * 0x40 +
                        code d mod 0x40, 4)
                  else (RuneError, 1)
              | _ \<Rightarrow> (RuneError, 1))
           else (RuneError, 1)))"

lemma Decode_size: "s \<noteq> [] \<Longrightarrow> 0 < snd (DecodeRuneInString s)"
  by (auto simp: DecodeRuneInString_def Let_def split: list.split)

lemma Decode_drop: "s \<noteq> [] \<Longrightarrow> (r, n) = DecodeRuneInString s \<Longrightarrow> length s - n < length s"
  using Decode_size [of s] by (metis diff_less length_greater_0_conv snd_conv)

function ValidString :: "string \<Rightarrow> bool" where
  "ValidString s =
     (if s = [] then True else (case DecodeRuneInString s of (r, sz) \<Rightarrow>
        if r = RuneError \<and> sz = 1 then False else ValidString (drop sz s)))"
  by pat_completeness auto
termination
  by (relation "measure length") (simp_all add: Decode_drop)

declare ValidString.simps [simp del]

text \<open>The runes of a string, in the order of the \<open>range\<close> loop.\<close>

function runes :: "string \<Rightarrow> nat list" where
  "runes s =
     (if s = [] then [] else (case DecodeRuneInString s of (r, sz) \<Rightarrow> r # runes (drop sz s)))"
  by pat_completeness auto
termination
  by (relation "measure length") (simp_all add: Decode_drop)

declare runes.simps [simp del]

end
