(* ===== verification/Canonical_Record.thy ===== *)
theory Canonical_Record
  imports Go_Crypto Go_Utf8
begin

text \<open>
  The canonical JSON encoding of integrity records and session contexts
  (\<open>internal/store/watchtower/chain/canonical.go\<close> and \<open>chain.go\<close>), which runs the UTF-8 decoder of
  \<open>Go_Utf8\<close> over its string fields. The result that matters to every other
  implementation of the format is that the encoding determines the record.
\<close>

section \<open>The writers (\<open>canonical.go\<close>)\<close>

definition hex4 :: "nat \<Rightarrow> string" where
  "hex4 r = [hex_digit (r div 0x1000 mod 16), hex_digit (r div 0x100 mod 16),
             hex_digit (r div 0x10 mod 16), hex_digit (r mod 16)]"

definition backslash :: char where "backslash = CHR 0x5C"
definition quote :: char where "quote = CHR 0x22"

definition escape_rune :: "nat \<Rightarrow> string" where
  "escape_rune r =
     (if r = 0x22 then [backslash, quote]
      else if r = 0x5C then [backslash, backslash]
      else if r = 0x08 then [backslash, CHR ''b'']
      else if r = 0x0C then [backslash, CHR ''f'']
      else if r = 0x0A then [backslash, CHR ''n'']
      else if r = 0x0D then [backslash, CHR ''r'']
      else if r = 0x09 then [backslash, CHR ''t'']
      else if r < 0x20 then [backslash, CHR ''u''] @ hex4 r
      else if r < 0x80 then [char_of r]
      else if r \<le> 0xFFFF then [backslash, CHR ''u''] @ hex4 r
      else [backslash, CHR ''u''] @ hex4 (0xD800 + (r - 0x10000) div 0x400) @
           [backslash, CHR ''u''] @ hex4 (0xDC00 + (r - 0x10000) mod 0x400))"

function writeStringEscapedBody :: "string \<Rightarrow> string" where
  "writeStringEscapedBody s =
     (if s = [] then []
      else (case DecodeRuneInString s of (r, sz) \<Rightarrow>
              escape_rune r @ writeStringEscapedBody (drop sz s)))"
  by pat_completeness auto
termination
  by (relation "measure length") (simp_all add: Decode_drop)

declare writeStringEscapedBody.simps [simp del]

definition writeKey :: "string \<Rightarrow> bool \<Rightarrow> string" where
  "writeKey k first =
     (if first then [] else '','') @ [quote] @ writeStringEscapedBody k @ [quote] @ '':''"

definition writeStringValue :: "string \<Rightarrow> string" where
  "writeStringValue s = [quote] @ writeStringEscapedBody s @ [quote]"

definition writeUint :: "uint64 \<Rightarrow> string" where
  "writeUint n = FormatUint (unat n)"

record integrityRecord =
  ir_FormatVersion :: uint32
  ir_Sequence :: uint64
  ir_Generation :: uint32
  ir_PrevHash :: string
  ir_EventHash :: string
  ir_ContextDigest :: string
  ir_KeyFingerprint :: string

record sessionContext =
  sc_SessionID :: string
  sc_AgentID :: string
  sc_AgentVersion :: string
  sc_OCSFVersion :: string
  sc_FormatVersion :: uint32
  sc_Algorithm :: string
  sc_KeyFingerprint :: string

text \<open>The error names the first field, in the order of the check, that is not valid UTF-8.\<close>

datatype canonicalError = ErrInvalidUTF8 string

definition check_fields :: "(string \<times> string) list \<Rightarrow> canonicalError + unit" where
  "check_fields fs =
     (case find (\<lambda>f. \<not> ValidString (snd f)) fs of
        Some f \<Rightarrow> Inl (ErrInvalidUTF8 (fst f))
      | None \<Rightarrow> Inr ())"

definition canonical_record_text :: "integrityRecord \<Rightarrow> string" where
  "canonical_record_text rec =
     ''{'' @
     writeKey ''context_digest'' True @ writeStringValue (ir_ContextDigest rec) @
     writeKey ''event_hash'' False @ writeStringValue (ir_EventHash rec) @
     writeKey ''format_version'' False @ writeUint (ucast (ir_FormatVersion rec)) @
     writeKey ''generation'' False @ writeUint (ucast (ir_Generation rec)) @
     writeKey ''key_fingerprint'' False @ writeStringValue (ir_KeyFingerprint rec) @
     writeKey ''prev_hash'' False @ writeStringValue (ir_PrevHash rec) @
     writeKey ''sequence'' False @ writeUint (ir_Sequence rec) @
     ''}''"

definition EncodeCanonical :: "integrityRecord \<Rightarrow> canonicalError + bytes" where
  "EncodeCanonical rec =
     bind_result (check_fields
       [(''context_digest'', ir_ContextDigest rec), (''event_hash'', ir_EventHash rec),
        (''key_fingerprint'', ir_KeyFingerprint rec), (''prev_hash'', ir_PrevHash rec)])
       (\<lambda>_. Inr (bytes_of (canonical_record_text rec)))"

definition context_text :: "sessionContext \<Rightarrow> string" where
  "context_text ctx =
     ''{'' @
     writeKey ''agent_id'' True @ writeStringValue (sc_AgentID ctx) @
     writeKey ''agent_version'' False @ writeStringValue (sc_AgentVersion ctx) @
     writeKey ''algorithm'' False @ writeStringValue (sc_Algorithm ctx) @
     writeKey ''format_version'' False @ writeUint (ucast (sc_FormatVersion ctx)) @
     writeKey ''key_fingerprint'' False @ writeStringValue (sc_KeyFingerprint ctx) @
     writeKey ''ocsf_version'' False @ writeStringValue (sc_OCSFVersion ctx) @
     writeKey ''session_id'' False @ writeStringValue (sc_SessionID ctx) @
     ''}''"

definition encodeContextCanonical :: "sessionContext \<Rightarrow> canonicalError + bytes" where
  "encodeContextCanonical ctx =
     bind_result (check_fields
       [(''agent_id'', sc_AgentID ctx), (''agent_version'', sc_AgentVersion ctx),
        (''algorithm'', sc_Algorithm ctx), (''key_fingerprint'', sc_KeyFingerprint ctx),
        (''ocsf_version'', sc_OCSFVersion ctx), (''session_id'', sc_SessionID ctx)])
       (\<lambda>_. Inr (bytes_of (context_text ctx)))"

section \<open>Decoding is injective\<close>

definition valid_rune :: "nat \<Rightarrow> bool" where
  "valid_rune r = (r < 0x110000 \<and> \<not> (0xD800 \<le> r \<and> r \<le> 0xDFFF))"

lemma mod_offset:
  fixes k m x :: nat
  assumes "k * m \<le> x" and "x < k * m + m"
  shows "x mod m = x - k * m"
proof -
  obtain y where "x = k * m + y"
    using assms(1) by (auto simp: le_iff_add)
  with assms(2) show ?thesis by simp
qed

lemma mod_low:
  "0xC2 \<le> x \<Longrightarrow> x \<le> 0xDF \<Longrightarrow> x mod 0x20 = x - (0xC0 :: nat)"
  "0xE0 \<le> x \<Longrightarrow> x \<le> 0xEF \<Longrightarrow> x mod 0x10 = x - (0xE0 :: nat)"
  "0xF0 \<le> x \<Longrightarrow> x \<le> 0xF4 \<Longrightarrow> x mod 0x08 = x - (0xF0 :: nat)"
  "0x80 \<le> x \<Longrightarrow> x < 0xC0 \<Longrightarrow> x mod 0x40 = x - (0x80 :: nat)"
  using mod_offset [of 6 32 x] mod_offset [of 14 16 x] mod_offset [of 30 8 x] mod_offset [of 2 64 x]
  by simp_all

text \<open>The shape of the input where the decoder finds a rune, by the number of bytes it takes.\<close>

datatype rune_shape = Shape1 char | Shape2 char char | Shape3 char char char | Shape4 char char char char

fun shape_bytes :: "rune_shape \<Rightarrow> string" where
  "shape_bytes (Shape1 a) = [a]"
| "shape_bytes (Shape2 a b) = [a, b]"
| "shape_bytes (Shape3 a b c) = [a, b, c]"
| "shape_bytes (Shape4 a b c d) = [a, b, c, d]"

fun shape_rune :: "rune_shape \<Rightarrow> nat" where
  "shape_rune (Shape1 a) = code a"
| "shape_rune (Shape2 a b) = (code a - 0xC0) * 0x40 + (code b - 0x80)"
| "shape_rune (Shape3 a b c) = (code a - 0xE0) * 0x1000 + (code b - 0x80) * 0x40 + (code c - 0x80)"
| "shape_rune (Shape4 a b c d) =
     (code a - 0xF0) * 0x40000 + (code b - 0x80) * 0x1000 + (code c - 0x80) * 0x40 + (code d - 0x80)"

fun shape_ok :: "rune_shape \<Rightarrow> bool" where
  "shape_ok (Shape1 a) = (code a < 0x80)"
| "shape_ok (Shape2 a b) = (0xC2 \<le> code a \<and> code a \<le> 0xDF \<and> cont 0x80 0xBF b)"
| "shape_ok (Shape3 a b c) =
     (0xE0 \<le> code a \<and> code a \<le> 0xEF \<and> second3 (code a) b \<and> cont 0x80 0xBF c)"
| "shape_ok (Shape4 a b c d) =
     (0xF0 \<le> code a \<and> code a \<le> 0xF4 \<and> second4 (code a) b \<and> cont 0x80 0xBF c \<and> cont 0x80 0xBF d)"

lemma second_range:
  "second3 x b \<Longrightarrow> 0x80 \<le> code b \<and> code b < 0xC0" "second4 x b \<Longrightarrow> 0x80 \<le> code b \<and> code b < 0xC0"
  "cont 0x80 0xBF b \<Longrightarrow> 0x80 \<le> code b \<and> code b < 0xC0"
  by (auto simp: second3_def second4_def cont_def split: if_splits)

lemma second_mod:
  "second3 x b \<Longrightarrow> code b mod 0x40 = code b - 0x80" "second4 x b \<Longrightarrow> code b mod 0x40 = code b - 0x80"
  by (simp_all add: second_range mod_low)

lemma Decode1: "code a < 0x80 \<Longrightarrow> DecodeRuneInString (a # t) = (code a, 1)"
  by (simp add: DecodeRuneInString_def Let_def)

lemma Decode2:
  "0xC2 \<le> code a \<Longrightarrow> code a \<le> 0xDF \<Longrightarrow> DecodeRuneInString (a # t) =
     (case t of
        b # _ \<Rightarrow> if cont 0x80 0xBF b then (shape_rune (Shape2 a b), 2) else (RuneError, 1)
      | _ \<Rightarrow> (RuneError, 1))"
  by (simp add: DecodeRuneInString_def Let_def mod_low second_range cong: if_cong split: list.split)

lemma Decode3:
  "0xE0 \<le> code a \<Longrightarrow> code a \<le> 0xEF \<Longrightarrow> DecodeRuneInString (a # t) =
     (case t of
        b # c # _ \<Rightarrow> if second3 (code a) b \<and> cont 0x80 0xBF c
                   then (shape_rune (Shape3 a b c), 3) else (RuneError, 1)
      | _ \<Rightarrow> (RuneError, 1))"
  by (simp add: DecodeRuneInString_def Let_def mod_low second_range second_mod [of "code a"] cong: if_cong split: list.split)

lemma Decode4:
  "0xF0 \<le> code a \<Longrightarrow> code a \<le> 0xF4 \<Longrightarrow> DecodeRuneInString (a # t) =
     (case t of
        b # c # d # _ \<Rightarrow> if second4 (code a) b \<and> cont 0x80 0xBF c \<and> cont 0x80 0xBF d
                       then (shape_rune (Shape4 a b c d), 4) else (RuneError, 1)
      | _ \<Rightarrow> (RuneError, 1))"
  by (simp add: DecodeRuneInString_def Let_def mod_low second_range second_mod [of "code a"] cong: if_cong split: list.split)

lemma Decode_bad:
  "\<not> code a < 0x80 \<Longrightarrow> \<not> (0xC2 \<le> code a \<and> code a \<le> 0xDF) \<Longrightarrow> \<not> (0xE0 \<le> code a \<and> code a \<le> 0xEF) \<Longrightarrow>
   \<not> (0xF0 \<le> code a \<and> code a \<le> 0xF4) \<Longrightarrow> DecodeRuneInString (a # t) = (RuneError, 1)"
  by (simp add: DecodeRuneInString_def Let_def del: not_less not_le de_Morgan_conj)

definition has_shape :: "string \<Rightarrow> nat \<Rightarrow> nat \<Rightarrow> rune_shape \<Rightarrow> bool" where
  "has_shape s r n sh =
     (shape_ok sh \<and> s = shape_bytes sh @ drop n s \<and> r = shape_rune sh \<and> n = length (shape_bytes sh))"

lemma Decode_shape:
  assumes "DecodeRuneInString s = (r, n)" and "s \<noteq> []" and "\<not> (r = RuneError \<and> n = 1)"
  shows "\<exists>sh. has_shape s r n sh"
proof -
  obtain a t where s: "s = a # t" using assms(2) by (cases s) auto
  note dec = assms(1) [unfolded s]
  consider "code a < 0x80" | "0xC2 \<le> code a" "code a \<le> 0xDF" | "0xE0 \<le> code a" "code a \<le> 0xEF"
    | "0xF0 \<le> code a" "code a \<le> 0xF4"
    using Decode_bad [of a t] dec assms(3) by auto
  then show ?thesis
  proof cases
    case 1
    with dec have "has_shape s r n (Shape1 a)" by (auto simp: has_shape_def s Decode1)
    then show ?thesis ..
  next
    case 2
    with dec [unfolded Decode2 [OF 2]] assms(3) obtain b u where "t = b # u" "has_shape s r n (Shape2 a b)"
      by (auto simp: has_shape_def s split: list.splits if_splits)
    then show ?thesis by blast
  next
    case 3
    with dec [unfolded Decode3 [OF 3]] assms(3) obtain b c u where
      "t = b # c # u" "has_shape s r n (Shape3 a b c)"
      by (auto simp: has_shape_def s split: list.splits if_splits)
    then show ?thesis by blast
  next
    case 4
    with dec [unfolded Decode4 [OF 4]] assms(3) obtain b c d u where
      "t = b # c # d # u" "has_shape s r n (Shape4 a b c d)"
      by (auto simp: has_shape_def s split: list.splits if_splits)
    then show ?thesis by blast
  qed
qed

lemma digit_split:
  fixes m :: nat
  assumes "u * m + v = u' * m + v'" and "v < m" and "v' < m"
  shows "u = u' \<and> v = v'"
proof -
  have "(u * m + v) div m = u" "(u' * m + v') div m = u'" using assms(2,3) by simp_all
  then have "u = u'" using assms(1) by simp
  with assms(1) show ?thesis by simp
qed

fun shape_min :: "rune_shape \<Rightarrow> nat" where
  "shape_min (Shape1 _) = 0" | "shape_min (Shape2 _ _) = 0x80"
| "shape_min (Shape3 _ _ _) = 0x800" | "shape_min (Shape4 _ _ _ _) = 0x10000"

fun shape_max :: "rune_shape \<Rightarrow> nat" where
  "shape_max (Shape1 _) = 0x7F" | "shape_max (Shape2 _ _) = 0x7FF"
| "shape_max (Shape3 _ _ _) = 0xFFFF" | "shape_max (Shape4 _ _ _ _) = 0x10FFFF"

lemma shape_range: "shape_ok sh \<Longrightarrow> shape_min sh \<le> shape_rune sh \<and> shape_rune sh \<le> shape_max sh"
proof (cases sh)
  case (Shape3 a b c)
  assume "shape_ok sh"
  with Shape3 show ?thesis
    by (cases "code a = 0xE0") (auto simp: second3_def cont_def split: if_splits)
next
  case (Shape4 a b c d)
  assume "shape_ok sh"
  with Shape4 show ?thesis
    by (cases "code a = 0xF0"; cases "code a = 0xF4") (auto simp: second4_def cont_def split: if_splits)
qed (auto simp: cont_def)

lemma shape_valid: "shape_ok sh \<Longrightarrow> valid_rune (shape_rune sh)"
proof (cases sh)
  case (Shape3 a b c)
  assume ok: "shape_ok sh"
  with Shape3 have "code a \<le> 0xEC \<or> code a = 0xED \<or> 0xEE \<le> code a" by auto
  with ok Shape3 shape_range [OF ok] show ?thesis
    by (auto simp: valid_rune_def second3_def cont_def split: if_splits)
next
  case (Shape4 a b c d)
  assume "shape_ok sh"
  with shape_range [OF this] Shape4 show ?thesis by (simp add: valid_rune_def)
qed (auto simp: valid_rune_def cont_def)

lemma digit_split3:
  fixes u v w :: nat
  assumes "u * 0x1000 + v * 0x40 + w = u' * 0x1000 + v' * 0x40 + w'" and "v < 64" "v' < 64" "w < 64" "w' < 64"
  shows "u = u' \<and> v = v' \<and> w = w'"
  using digit_split [of "u * 64 + v" 64 w "u' * 64 + v'" w'] digit_split [of u 64 v u' v'] assms by simp

lemma digit_split4:
  fixes t u v w :: nat
  assumes "t * 0x40000 + u * 0x1000 + v * 0x40 + w = t' * 0x40000 + u' * 0x1000 + v' * 0x40 + w'"
    and "u < 64" "u' < 64" "v < 64" "v' < 64" "w < 64" "w' < 64"
  shows "t = t' \<and> u = u' \<and> v = v' \<and> w = w'"
  using digit_split [of "t * 4096 + u * 64 + v" 64 w "t' * 4096 + u' * 64 + v'" w']
    digit_split3 [of t u v t' u' v'] assms by simp

lemma code_offset: "k \<le> code x \<Longrightarrow> k \<le> code y \<Longrightarrow> code x - k = code y - k \<longleftrightarrow> x = y"
  by (metis le_add_diff_inverse of_char_eq_iff)

lemma shape_inject_same:
  "shape_ok (Shape2 a b) \<Longrightarrow> shape_ok (Shape2 a' b') \<Longrightarrow>
   shape_rune (Shape2 a b) = shape_rune (Shape2 a' b') \<Longrightarrow> a = a' \<and> b = b'"
  "shape_ok (Shape3 a b c) \<Longrightarrow> shape_ok (Shape3 a' b' c') \<Longrightarrow>
   shape_rune (Shape3 a b c) = shape_rune (Shape3 a' b' c') \<Longrightarrow> a = a' \<and> b = b' \<and> c = c'"
  "shape_ok (Shape4 a b c d) \<Longrightarrow> shape_ok (Shape4 a' b' c' d') \<Longrightarrow>
   shape_rune (Shape4 a b c d) = shape_rune (Shape4 a' b' c' d') \<Longrightarrow> a = a' \<and> b = b' \<and> c = c' \<and> d = d'"
    apply (unfold shape_rune.simps)
    apply (drule digit_split)
      apply (auto simp: cont_def code_offset) [3]
   apply (drule digit_split3)
       apply (auto simp: code_offset dest!: second_range) [5]
  apply (drule digit_split4)
        apply (auto simp: code_offset dest!: second_range) [7]
  done

lemma shape_inject:
  assumes "shape_ok sh" "shape_ok sh'" and "shape_rune sh = shape_rune sh'"
  shows "sh = sh'"
  using assms shape_range [OF assms(1)] shape_range [OF assms(2)]
  by (cases sh; cases sh') (auto dest: shape_inject_same simp del: shape_ok.simps(2-) shape_rune.simps(2-))

section \<open>Digests (\<open>chain.go\<close>)\<close>

definition ComputeContextDigest :: "sessionContext \<Rightarrow> canonicalError + string" where
  "ComputeContextDigest ctx =
     bind_result (encodeContextCanonical ctx) (\<lambda>canon. Inr (hex_EncodeToString (Sum256 canon)))"

definition ComputeEventHash :: "bytes \<Rightarrow> string" where
  "ComputeEventHash canonicalEvent = hex_EncodeToString (Sum256 canonicalEvent)"

section \<open>Escaping is injective\<close>

text \<open>A reader for one escaped rune, the left inverse of the writer.\<close>

definition unhex4 :: "string \<Rightarrow> nat" where
  "unhex4 hs = foldl (\<lambda>n c. 16 * n + hex_val c) 0 (take 4 hs)"

fun read_rune :: "string \<Rightarrow> nat \<times> string" where
  "read_rune [] = (0, [])"
| "read_rune (c # s) =
     (if c \<noteq> backslash then (code c, s)
      else if hd s = CHR ''u'' then
        (let v = unhex4 (tl s); rest = drop 4 (tl s) in
         if 0xD800 \<le> v \<and> v < 0xDC00
         then (0x10000 + (v - 0xD800) * 0x400 + (unhex4 (drop 2 rest) - 0xDC00), drop 6 rest)
         else (v, rest))
      else ((if hd s = CHR ''b'' then 0x08 else if hd s = CHR ''f'' then 0x0C
             else if hd s = CHR ''n'' then 0x0A else if hd s = CHR ''r'' then 0x0D
             else if hd s = CHR ''t'' then 0x09 else code (hd s)), tl s))"

lemma unhex4_hex4:
  assumes "r < 0x10000"
  shows "unhex4 (hex4 r @ x) = r"
proof -
  define r1 r2 r3 where "r1 = r div 16" and "r2 = r1 div 16" and "r3 = r2 div 16"
  have "r div 0x10 = r1" "r div 0x100 = r2" "r div 0x1000 = r3"
    by (simp_all add: r1_def r2_def r3_def flip: div_mult2_eq)
  moreover have "r = 16 * r1 + r mod 16" "r1 = 16 * r2 + r1 mod 16" "r2 = 16 * r3 + r2 mod 16"
    by (simp_all add: r1_def r2_def r3_def)
  moreover from this assms have "r3 < 16" by linarith
  ultimately show ?thesis by (simp add: unhex4_def hex4_def)
qed

lemma hex4_length [simp]: "length (hex4 r) = 4"
  by (simp add: hex4_def)

lemma hex4_drop: "drop 4 (hex4 r @ x) = x" "drop 6 ([p, q] @ hex4 r @ x) = x" "drop 2 ([p, q] @ y) = y"
  by (simp_all add: hex4_def)

lemma read_rune_u:
  "read_rune ([backslash, CHR ''u''] @ hex4 v @ x) =
     (if 0xD800 \<le> v \<and> v < 0xDC00
      then (0x10000 + (v - 0xD800) * 0x400 + (unhex4 (drop 2 x) - 0xDC00), drop 6 x) else (v, x))"
  if "v < 0x10000"
  using that by (simp add: unhex4_hex4 hex4_drop Let_def)

lemma read_escape_rune:
  assumes "valid_rune r"
  shows "read_rune (escape_rune r @ x) = (r, x)"
proof -
  consider (special) "r \<in> {0x22, 0x5C, 0x08, 0x0C, 0x0A, 0x0D, 0x09}"
    | (control) "r < 0x20" "r \<notin> {0x22, 0x5C, 0x08, 0x0C, 0x0A, 0x0D, 0x09}"
    | (ascii) "0x20 \<le> r" "r < 0x80" "r \<noteq> 0x22" "r \<noteq> 0x5C"
    | (bmp) "0x80 \<le> r" "r < 0x10000" | (astral) "0x10000 \<le> r"
    by fastforce
  then show ?thesis
  proof cases
    case special
    then show ?thesis by (auto simp: escape_rune_def backslash_def quote_def)
  next
    case control
    then have "escape_rune r = [backslash, CHR ''u''] @ hex4 r" by (simp add: escape_rune_def)
    with control show ?thesis by (simp only: append_assoc) (subst read_rune_u, simp_all)
  next
    case ascii
    then have "char_of r \<noteq> backslash" by (auto simp: backslash_def char_of_eq_iff take_bit_eq_mod)
    with ascii show ?thesis by (simp add: escape_rune_def)
  next
    case bmp
    then have "escape_rune r = [backslash, CHR ''u''] @ hex4 r" by (simp add: escape_rune_def)
    with bmp assms show ?thesis
      by (simp only: append_assoc) (subst read_rune_u, auto simp: valid_rune_def)
  next
    case astral
    define h l where "h = 0xD800 + (r - 0x10000) div 0x400" and "l = 0xDC00 + (r - 0x10000) mod 0x400"
    have "r - 0x10000 < 0x400 * 0x400"
      using assms astral by (simp add: valid_rune_def)
    then have "(r - 0x10000) div 0x400 < 0x400"
      by (rule less_mult_imp_div_less)
    then have h: "0xD800 \<le> h" "h < 0xDC00" by (simp_all add: h_def)
    have l: "l < 0x10000" by (simp add: l_def)
    have "escape_rune r @ x = [backslash, CHR ''u''] @ hex4 h @ [backslash, CHR ''u''] @ hex4 l @ x"
      using astral by (simp add: escape_rune_def h_def l_def)
    then have "read_rune (escape_rune r @ x) = (0x10000 + (h - 0xD800) * 0x400 + (l - 0xDC00), x)"
      using h l by (simp only:) (subst read_rune_u, simp_all add: unhex4_hex4 hex4_drop [simplified])
    then show ?thesis using astral by (simp add: h_def l_def)
  qed
qed

lemma escape_rune_start: "escape_rune r @ x \<noteq> quote # y"
proof -
  have "char_of r \<noteq> quote" if "r < 0x80" "r \<noteq> 0x22" for r :: nat
    using that by (auto simp: quote_def char_of_eq_iff take_bit_eq_mod)
  then show ?thesis
    by (auto simp: escape_rune_def backslash_def quote_def)
qed

lemma body_Nil [simp]: "writeStringEscapedBody [] = []"
  by (simp add: writeStringEscapedBody.simps)

lemma valid_body:
  assumes "ValidString s" and "s \<noteq> []"
  obtains sh t where "s = shape_bytes sh @ t" "shape_ok sh" "ValidString t"
    "writeStringEscapedBody s = escape_rune (shape_rune sh) @ writeStringEscapedBody t"
proof -
  obtain r n where dec: "DecodeRuneInString s = (r, n)" by fastforce
  have ok: "\<not> (r = RuneError \<and> n = 1)" "ValidString (drop n s)"
    using assms dec by (auto simp: ValidString.simps [of s] split: if_splits)
  obtain sh where "has_shape s r n sh"
    using Decode_shape [OF dec assms(2) ok(1)] by blast
  then show thesis
    using that [of sh "drop n s"] ok dec assms(2)
    by (auto simp: has_shape_def writeStringEscapedBody.simps [of s])
qed

lemma body_inject:
  assumes "ValidString s" and "ValidString s'"
    and "writeStringEscapedBody s @ quote # x = writeStringEscapedBody s' @ quote # y"
  shows "s = s' \<and> x = y"
  using assms
proof (induction "length s" arbitrary: s s' rule: less_induct)
  case less
  show ?case
  proof (cases "s = [] \<or> s' = []")
    case True
    then show ?thesis
      using less.prems valid_body [OF less.prems(1)] valid_body [OF less.prems(2)] escape_rune_start
      by (metis append.assoc body_Nil append_Nil list.inject)
  next
    case False
    obtain sh t where s: "s = shape_bytes sh @ t" "shape_ok sh" "ValidString t"
        "writeStringEscapedBody s = escape_rune (shape_rune sh) @ writeStringEscapedBody t"
      using valid_body less.prems(1) False by blast
    obtain sh' t' where s': "s' = shape_bytes sh' @ t'" "shape_ok sh'" "ValidString t'"
        "writeStringEscapedBody s' = escape_rune (shape_rune sh') @ writeStringEscapedBody t'"
      using valid_body less.prems(2) False by blast
    let ?X = "writeStringEscapedBody t @ quote # x" and ?Y = "writeStringEscapedBody t' @ quote # y"
    have "escape_rune (shape_rune sh) @ ?X = escape_rune (shape_rune sh') @ ?Y"
      using less.prems(3) by (simp only: s(4) s'(4) append_assoc)
    then have "read_rune (escape_rune (shape_rune sh) @ ?X) = read_rune (escape_rune (shape_rune sh') @ ?Y)"
      by (rule arg_cong)
    then have "(shape_rune sh, ?X) = (shape_rune sh', ?Y)"
      by (simp only: read_escape_rune shape_valid s(2) s'(2))
    moreover from this have "sh = sh'"
      using shape_inject s(2) s'(2) by blast
    moreover have "length t < length s"
      by (cases sh) (simp_all add: s(1))
    ultimately show ?thesis
      using less.hyps [of t t'] s s' by simp
  qed
qed

lemma string_field_inject:
  "ValidString s \<Longrightarrow> ValidString s' \<Longrightarrow>
   writeStringValue s @ x = writeStringValue s' @ y \<longleftrightarrow> s = s' \<and> x = y"
  using body_inject [of s s' x y] by (auto simp: writeStringValue_def)

lemma digits_split:
  assumes "\<forall>c \<in> set u. is_digit c" "\<forall>c \<in> set u'. is_digit c" and "\<not> is_digit c" "\<not> is_digit c'"
    and "u @ c # x = u' @ c' # y"
  shows "u = u' \<and> x = y"
proof -
  have "takeWhile is_digit (u @ c # x) = u" "takeWhile is_digit (u' @ c' # y) = u'"
    using assms(1-4) by (auto simp: takeWhile_append)
  with assms(5) have "u = u'" by metis
  with assms(5) show ?thesis by simp
qed

lemma uint_field_inject:
  assumes "\<not> is_digit c"
  shows "writeUint n @ c # x = writeUint n' @ c # y \<longleftrightarrow> n = n' \<and> x = y"
  using digits_split [of "FormatUint (unat n)" "FormatUint (unat n')" c c x y] assms FormatUint_digits
  by (auto simp: writeUint_def word_unat_eq_iff)

section \<open>Records and contexts\<close>

lemma ucast_32_64_inject: "(ucast (a :: uint32) :: uint64) = ucast b \<longleftrightarrow> a = b"
proof -
  have "(ucast (ucast w :: uint64) :: uint32) = w" for w :: uint32
    by (simp add: ucast_up_ucast_id is_up)
  then show ?thesis by metis
qed

lemma uint_key_inject:
  "writeUint n @ writeKey k False @ x = writeUint n' @ writeKey k False @ y \<longleftrightarrow> n = n' \<and> x = y"
proof -
  have "\<not> is_digit (CHR '','')" by (simp add: is_digit_def)
  from uint_field_inject [OF this] show ?thesis by (simp add: writeKey_def)
qed

lemma value_inject:
  "ValidString s \<Longrightarrow> ValidString s' \<Longrightarrow> writeStringValue s = writeStringValue s' \<longleftrightarrow> s = s'"
  "writeUint n = writeUint n' \<longleftrightarrow> n = n'"
  using string_field_inject [of s s' "[]" "[]"] by (simp_all add: writeUint_def word_unat_eq_iff)

lemma check_fields_ok: "check_fields fs = Inr u \<longleftrightarrow> (\<forall>f \<in> set fs. ValidString (snd f))"
  by (auto simp: check_fields_def find_None_all dest!: find_Some_mem split: option.splits)

lemma EncodeCanonical_Inr:
  "EncodeCanonical rec = Inr b \<longleftrightarrow>
     ValidString (ir_ContextDigest rec) \<and> ValidString (ir_EventHash rec) \<and>
     ValidString (ir_KeyFingerprint rec) \<and> ValidString (ir_PrevHash rec) \<and>
     b = bytes_of (canonical_record_text rec)"
  by (auto simp: EncodeCanonical_def bind_result_Inr_iff check_fields_ok)

lemma encodeContextCanonical_Inr:
  "encodeContextCanonical ctx = Inr b \<longleftrightarrow>
     ValidString (sc_AgentID ctx) \<and> ValidString (sc_AgentVersion ctx) \<and> ValidString (sc_Algorithm ctx) \<and>
     ValidString (sc_KeyFingerprint ctx) \<and> ValidString (sc_OCSFVersion ctx) \<and> ValidString (sc_SessionID ctx) \<and>
     b = bytes_of (context_text ctx)"
  by (auto simp: encodeContextCanonical_def bind_result_Inr_iff check_fields_ok)

lemmas field_injects = string_field_inject uint_key_inject value_inject ucast_32_64_inject

lemma context_inject:
  assumes "encodeContextCanonical ctx = Inr b" and "encodeContextCanonical ctx' = Inr b"
  shows "ctx = ctx'"
  using assms
  by (auto simp: encodeContextCanonical_Inr context_text_def field_injects intro: sessionContext.equality)

text \<open>C37: The canonical encoding determines the record. Two integrity records with the same canonical
  bytes are the same record, in every field, whatever Unicode text the string fields hold.\<close>

theorem canonical_record_determines:
  assumes "EncodeCanonical rec = Inr b" and "EncodeCanonical rec' = Inr b"
  shows "rec = rec'"
  using assms
  by (auto simp: EncodeCanonical_Inr canonical_record_text_def field_injects intro: integrityRecord.equality)

abbreviation sample_record :: "string \<Rightarrow> integrityRecord" where
  "sample_record text \<equiv> \<lparr>ir_FormatVersion = 2, ir_Sequence = 7, ir_Generation = 1, ir_PrevHash = [],
     ir_EventHash = ''ab'', ir_ContextDigest = text, ir_KeyFingerprint = ''sha256:00''\<rparr>"

lemma ValidString_Nil: "ValidString []"
  by (simp add: ValidString.simps)

lemma ValidString_one: "code a < 0x80 \<Longrightarrow> ValidString (a # t) = ValidString t"
  by (subst ValidString.simps) (simp add: Decode1)

lemma ValidString_two:
  "0xC2 \<le> code a \<Longrightarrow> code a \<le> 0xDF \<Longrightarrow> cont 0x80 0xBF b \<Longrightarrow> ValidString (a # b # t) = ValidString t"
  by (subst ValidString.simps) (simp add: Decode2)

lemmas valid_simps = ValidString_Nil ValidString_one ValidString_two

lemma sample_record_encodes: "\<exists>b. EncodeCanonical (sample_record [CHR 0xC3, CHR 0xA9, CHR 0x0A]) = Inr b"
proof -
  have "ValidString [CHR 0xC3, CHR 0xA9, CHR 0x0A]" "ValidString ''ab''" "ValidString ''sha256:00''" "ValidString []"
    by (simp_all add: valid_simps cont_def)
  then show ?thesis by (simp add: EncodeCanonical_Inr)
qed

theorem canonical_record_determines_witness:
  "\<exists>b. EncodeCanonical (sample_record [CHR 0xC3, CHR 0xA9, CHR 0x0A]) = Inr b \<and>
     sample_record [CHR 0xC3, CHR 0xA9, CHR 0x0A] = sample_record [CHR 0xC3, CHR 0xA9, CHR 0x0A]"
proof -
  obtain b where "EncodeCanonical (sample_record [CHR 0xC3, CHR 0xA9, CHR 0x0A]) = Inr b"
    using sample_record_encodes by blast
  with canonical_record_determines [OF this this] show ?thesis by blast
qed

text \<open>The context digest commits to the session context. Two contexts with the same digest are the
  same context, unless their canonical encodings are two different byte strings with the same
  SHA-256 hash.\<close>

theorem context_digest_commits:
  assumes "ComputeContextDigest ctx = Inr d" and "ComputeContextDigest ctx' = Inr d"
  shows "ctx = ctx' \<or>
    (\<exists>b b'. encodeContextCanonical ctx = Inr b \<and> encodeContextCanonical ctx' = Inr b' \<and> b \<noteq> b' \<and> Sum256 b = Sum256 b')"
proof -
  obtain b b' where b: "encodeContextCanonical ctx = Inr b" "encodeContextCanonical ctx' = Inr b'"
      "Sum256 b = Sum256 b'"
    using assms by (auto simp: ComputeContextDigest_def bind_result_Inr_iff)
  show ?thesis
  proof (cases "b = b'")
    case True
    with b context_inject [of ctx b ctx'] show ?thesis by simp
  next
    case False
    with b show ?thesis by blast
  qed
qed

abbreviation sample_context :: sessionContext where
  "sample_context \<equiv> \<lparr>sc_SessionID = ''s'', sc_AgentID = ''a'', sc_AgentVersion = ''1'', sc_OCSFVersion = ''1'',
     sc_FormatVersion = 2, sc_Algorithm = ''hmac-sha256'', sc_KeyFingerprint = ''f''\<rparr>"

theorem context_digest_commits_witness:
  "\<exists>d. ComputeContextDigest sample_context = Inr d \<and>
     (sample_context = sample_context \<or>
      (\<exists>b b'. encodeContextCanonical sample_context = Inr b \<and> encodeContextCanonical sample_context = Inr b' \<and>
         b \<noteq> b' \<and> Sum256 b = Sum256 b'))"
proof -
  have "ValidString ''s''" "ValidString ''a''" "ValidString ''1''" "ValidString ''hmac-sha256''" "ValidString ''f''"
    by (simp_all add: valid_simps)
  then obtain d where d: "ComputeContextDigest sample_context = Inr d"
    by (simp add: ComputeContextDigest_def encodeContextCanonical_def check_fields_def)
  with context_digest_commits [OF d d] show ?thesis by blast
qed

section \<open>Only printable ASCII is written\<close>

definition plain :: "char \<Rightarrow> bool" where
  "plain c = (0x20 \<le> code c \<and> code c < 0x80)"

lemma hex_digit_plain: "plain (hex_digit (n mod 16))"
  using mod_less_divisor [of 16 n] by (auto simp: plain_def hex_digit_def simp del: mod_less_divisor)

lemma hex4_plain: "list_all plain (hex4 r)"
  unfolding hex4_def by (simp only: list.pred_inject hex_digit_plain simp_thms)

lemma escape_rune_plain: "list_all plain (escape_rune r)"
proof -
  have "list_all plain [backslash, c]" if "c \<in> set ''bfnrtu'' \<union> {backslash, quote}" for c
    using that by (auto simp: plain_def backslash_def quote_def)
  moreover have "plain (char_of r)" if "0x20 \<le> r" "r < 0x80"
    using that by (simp add: plain_def)
  ultimately show ?thesis
    unfolding escape_rune_def by (simp add: hex4_plain)
qed

lemma body_plain: "list_all plain (writeStringEscapedBody s)"
proof (induction s rule: writeStringEscapedBody.induct)
  case (1 s)
  then show ?case
    by (subst writeStringEscapedBody.simps) (auto simp: escape_rune_plain split: prod.split)
qed

lemma writers_plain:
  "list_all plain (writeKey k first)" "list_all plain (writeStringValue s)" "list_all plain (writeUint n)"
proof -
  have sep: "plain quote" "plain (CHR '','')" "plain (CHR '':'')"
    by (simp_all add: plain_def quote_def)
  show "list_all plain (writeKey k first)" "list_all plain (writeStringValue s)"
    by (simp_all add: writeKey_def writeStringValue_def body_plain sep)
  show "list_all plain (writeUint n)"
    by (auto simp: writeUint_def list_all_iff is_digit_def plain_def dest!: FormatUint_digits)
qed

text \<open>What is accepted and what is written. Encoding fails exactly when a string field is not valid
  UTF-8, and the bytes it writes are printable ASCII only.\<close>

theorem canonical_record_total_ascii:
  "(\<exists>b. EncodeCanonical rec = Inr b \<and> list_all plain (string_of b)) \<longleftrightarrow>
   list_all ValidString [ir_ContextDigest rec, ir_EventHash rec, ir_KeyFingerprint rec, ir_PrevHash rec]"
proof -
  have "plain (CHR ''{'')" "plain (CHR ''}'')" by (simp_all add: plain_def)
  then have "list_all plain (canonical_record_text rec)"
    by (simp add: canonical_record_text_def writers_plain)
  then show ?thesis by (auto simp: EncodeCanonical_Inr)
qed

end
