(* ===== verification/Wal_Framing.thy ===== *)
theory Wal_Framing
  imports Go_Bytes
begin

text \<open>
  The on-disk format of the write-ahead log (\<open>internal/store/watchtower/wal/framing.go\<close> and the
  payload codecs of \<open>wal.go\<close>): segment headers, length-prefixed records with a CRC-32C, the
  (sequence, generation) prefix of data records and the layout of loss markers. A reader is the list
  of bytes not yet read, so every read returns the rest; a writer returns the bytes it writes.
\<close>

unbundle bit_operations_syntax

section \<open>CRC-32C (\<open>hash/crc32\<close> with the Castagnoli table)\<close>

fun crc_shift :: "nat \<Rightarrow> uint32 \<Rightarrow> uint32" where
  "crc_shift 0 c = c"
| "crc_shift (Suc n) c = crc_shift n (if bit c 0 then drop_bit 1 c XOR 0x82F63B78 else drop_bit 1 c)"

definition crc_update :: "uint32 \<Rightarrow> byte \<Rightarrow> uint32" where
  "crc_update c b = crc_shift 8 ((c XOR ucast b) AND 0xFF) XOR drop_bit 8 c"

definition Checksum :: "bytes \<Rightarrow> uint32" where
  "Checksum p = NOT (foldl crc_update 0xFFFFFFFF p)"

section \<open>Segment headers\<close>

definition SegmentHeaderSize :: nat where "SegmentHeaderSize = 16"
definition SegmentMagic :: bytes where "SegmentMagic = bytes_of ''WTP1''"
definition SegmentVersion :: uint16 where "SegmentVersion = 1"
definition FlagGenInit :: uint16 where "FlagGenInit = 1"
definition knownFlagsMask :: uint16 where "knownFlagsMask = FlagGenInit"

record segmentHeader =
  sh_Version :: uint16
  sh_Flags :: uint16
  sh_Generation :: uint32

datatype walError =
    ErrEOF | ErrUnexpectedEOF | ErrCRCMismatch | ErrCorruptFrame | ErrRecordTooLarge | ErrMaxPayload
  | ErrEmptyPayload | ErrReservedFlags | ErrBadMagic | ErrBadVersion | ErrReservedBytes
  | ErrSegmentClosed | ErrNotSegment | ErrTooShort | ErrIO | ErrExists | ErrNotExist
  | ErrNoSegment | ErrClosed | ErrFatal walError | ErrSegmentBudget | ErrDirRequired | ErrSegmentSize
  | ErrSyncMode | ErrMetaVersion | ErrIdentityMismatch string | ErrMalformed | ErrReaderClosed

definition WriteSegmentHeader :: "segmentHeader \<Rightarrow> walError + bytes" where
  "WriteSegmentHeader h =
     (if sh_Flags h AND NOT knownFlagsMask \<noteq> 0 then Inl ErrReservedFlags
      else Inr (SegmentMagic @ PutUint16 (sh_Version h) @ PutUint16 (sh_Flags h) @
                PutUint32 (sh_Generation h) @ replicate 4 0))"

text \<open>\<open>io.ReadFull\<close>: nothing read is \<open>io.EOF\<close>, less than asked for is \<open>io.ErrUnexpectedEOF\<close>; the
  bytes that were there are consumed in both cases.\<close>

definition ReadFull :: "nat \<Rightarrow> bytes \<Rightarrow> (walError + bytes) \<times> bytes" where
  "ReadFull n r =
     (if n \<le> length r then (Inr (take n r), drop n r)
      else (Inl (if r = [] then ErrEOF else ErrUnexpectedEOF), []))"

definition ReadSegmentHeader :: "bytes \<Rightarrow> (walError + segmentHeader) \<times> bytes" where
  "ReadSegmentHeader r =
     (case ReadFull SegmentHeaderSize r of
        (Inl e, r') \<Rightarrow> (Inl e, r')
      | (Inr buf, r') \<Rightarrow>
          (if take 4 buf \<noteq> SegmentMagic then (Inl ErrBadMagic, r')
           else (let h = \<lparr>sh_Version = Uint16 (take 2 (drop 4 buf)), sh_Flags = Uint16 (take 2 (drop 6 buf)),
                          sh_Generation = Uint32 (take 4 (drop 8 buf))\<rparr>
                 in if sh_Version h \<noteq> SegmentVersion then (Inl ErrBadVersion, r')
                    else if sh_Flags h AND NOT knownFlagsMask \<noteq> 0 then (Inl ErrReservedFlags, r')
                    else if list_ex (\<lambda>b. b \<noteq> 0) (drop 12 buf) then (Inl ErrReservedBytes, r')
                    else (Inr h, r'))))"

section \<open>Records\<close>

definition MaxFramedPayload :: nat where "MaxFramedPayload = 0xFFFFFFFF - 4"

definition record_frame :: "bytes \<Rightarrow> bytes" where
  "record_frame payload =
     PutUint32 (word_of_nat (length payload + 4)) @ PutUint32 (Checksum payload) @ payload"

definition WriteRecord :: "bytes \<Rightarrow> int \<Rightarrow> walError + bytes" where
  "WriteRecord payload maxPayload =
     (if maxPayload \<le> 0 then Inl ErrMaxPayload
      else if int MaxFramedPayload < maxPayload then Inl ErrMaxPayload
      else if length payload = 0 then Inl ErrEmptyPayload
      else if maxPayload < int (length payload) then Inl ErrRecordTooLarge
      else Inr (record_frame payload))"

definition ReadRecord :: "bytes \<Rightarrow> int \<Rightarrow> (walError + bytes) \<times> bytes" where
  "ReadRecord r maxPayload =
     (if maxPayload \<le> 0 then (Inl ErrMaxPayload, r)
      else if int MaxFramedPayload < maxPayload then (Inl ErrMaxPayload, r)
      else (case ReadFull 8 r of
              (Inl e, r') \<Rightarrow> (Inl e, r')
            | (Inr header, r') \<Rightarrow>
                (let len = Uint32 (take 4 header); expectedCRC = Uint32 (drop 4 header)
                 in if len < 4 then (Inl ErrCorruptFrame, r')
                    else (let payloadLen = unat (len - 4)
                          in if maxPayload < int payloadLen then (Inl ErrRecordTooLarge, r')
                             else if length r' < payloadLen then (Inl ErrUnexpectedEOF, [])
                             else if Checksum (take payloadLen r') \<noteq> expectedCRC
                             then (Inl ErrCRCMismatch, drop payloadLen r')
                             else (Inr (take payloadLen r'), drop payloadLen r')))))"

section \<open>Payloads of the log (\<open>wal.go\<close>)\<close>

definition encodeSeqGenFrame :: "uint64 \<Rightarrow> uint32 \<Rightarrow> bytes \<Rightarrow> bytes" where
  "encodeSeqGenFrame seq gen payload = PutUint64 seq @ PutUint32 gen @ payload"

definition parseSeqGen :: "bytes \<Rightarrow> (uint64 \<times> uint32) option" where
  "parseSeqGen framed =
     (if length framed < 12 then None
      else Some (Uint64 (take 8 framed), Uint32 (take 4 (drop 8 framed))))"

definition LossMarkerSentinel :: bytes where
  "LossMarkerSentinel = 0 # bytes_of ''WTPLOSS'' @ [0]"

definition isLossMarker :: "bytes \<Rightarrow> bool" where
  "isLossMarker payload =
     (length LossMarkerSentinel \<le> length payload \<and> take (length LossMarkerSentinel) payload = LossMarkerSentinel)"

record lossRecord =
  lr_FromSequence :: uint64
  lr_ToSequence :: uint64
  lr_Generation :: uint32
  lr_Reason :: string

text \<open>The sentinel is copied into the first ten bytes of a zeroed buffer.\<close>

definition encodeLossPayload :: "lossRecord \<Rightarrow> bytes" where
  "encodeLossPayload l =
     take 10 (LossMarkerSentinel @ replicate 10 0) @ PutUint64 (lr_FromSequence l) @
     PutUint64 (lr_ToSequence l) @ PutUint32 (lr_Generation l) @ bytes_of (lr_Reason l)"

definition decodeLossPayload :: "bytes \<Rightarrow> lossRecord option" where
  "decodeLossPayload payload =
     (if length payload < 30 then None
      else if take (length LossMarkerSentinel) payload \<noteq> LossMarkerSentinel then None
      else Some \<lparr>lr_FromSequence = Uint64 (take 8 (drop 10 payload)),
                 lr_ToSequence = Uint64 (take 8 (drop 18 payload)),
                 lr_Generation = Uint32 (take 4 (drop 26 payload)),
                 lr_Reason = string_of (drop 30 payload)\<rparr>)"

section \<open>Round trips\<close>

lemma ReadFull_append: "length a = n \<Longrightarrow> ReadFull n (a @ r) = (Inr a, r)"
  by (simp add: ReadFull_def)

lemma length_SegmentMagic [simp]: "length SegmentMagic = 4"
  by (simp add: SegmentMagic_def)

lemma header_length: "WriteSegmentHeader h = Inr bs \<Longrightarrow> length bs = SegmentHeaderSize"
  by (auto simp: WriteSegmentHeader_def SegmentHeaderSize_def split: if_splits)

lemma ReadSegmentHeader_Write:
  assumes "WriteSegmentHeader h = Inr bs" and "sh_Version h = SegmentVersion"
  shows "ReadSegmentHeader (bs @ r) = (Inr h, r)"
proof -
  have bs: "bs = SegmentMagic @ PutUint16 (sh_Version h) @ PutUint16 (sh_Flags h) @
      PutUint32 (sh_Generation h) @ replicate 4 0" and flags: "sh_Flags h AND NOT knownFlagsMask = 0"
    using assms(1) by (auto simp: WriteSegmentHeader_def split: if_splits)
  have "ReadFull SegmentHeaderSize (bs @ r) = (Inr bs, r)"
    by (rule ReadFull_append [OF header_length [OF assms(1)]])
  with flags assms(2) show ?thesis
    by (simp add: ReadSegmentHeader_def bs Let_def list_ex_iff)
qed

lemma length_record_frame [simp]: "length (record_frame p) = 8 + length p"
  by (simp add: record_frame_def)

lemma unat_frame_length:
  assumes "length p \<le> MaxFramedPayload"
  shows "\<not> (word_of_nat (length p + 4) :: uint32) < 4" "unat ((word_of_nat (length p + 4) :: uint32) - 4) = length p"
proof -
  have "length p + 4 < 2 ^ 32"
    using assms by (simp add: MaxFramedPayload_def)
  then have u: "unat (word_of_nat (length p + 4) :: uint32) = length p + 4"
    by (simp add: unsigned_of_nat take_bit_nat_eq_self del: of_nat_add)
  then show "\<not> (word_of_nat (length p + 4) :: uint32) < 4"
    by (simp add: word_less_nat_alt)
  have "unat (word_of_nat (length p) :: uint32) = length p"
    using \<open>length p + 4 < 2 ^ 32\<close> by (simp add: unsigned_of_nat take_bit_nat_eq_self)
  then show "unat ((word_of_nat (length p + 4) :: uint32) - 4) = length p"
    by simp
qed

abbreviation max_ok :: "int \<Rightarrow> bool" where
  "max_ok m \<equiv> 0 < m \<and> m \<le> int MaxFramedPayload"

lemma ReadRecord_frame:
  assumes "max_ok m" and "int (length p) \<le> m"
  shows "ReadRecord (record_frame p @ r) m = (Inr p, r)"
proof -
  let ?hdr = "PutUint32 (word_of_nat (length p + 4)) @ PutUint32 (Checksum p)"
  have "ReadFull 8 (record_frame p @ r) = (Inr ?hdr, p @ r)"
    using ReadFull_append [of ?hdr 8 "p @ r"] by (simp add: record_frame_def)
  moreover have "length p \<le> MaxFramedPayload" using assms by linarith
  note unat_frame_length [OF this]
  ultimately show ?thesis
    using assms by (simp add: ReadRecord_def Let_def del: of_nat_add)
qed

text \<open>A frame cut short anywhere reads as a truncation, never as a record.\<close>

lemma ReadRecord_torn:
  assumes "max_ok m" and "int (length p) \<le> m" and "k < length (record_frame p)"
  shows "fst (ReadRecord (take k (record_frame p)) m) = Inl (if k = 0 then ErrEOF else ErrUnexpectedEOF)"
proof (cases "k < 8")
  case True
  moreover have "record_frame p \<noteq> []" by (simp flip: length_greater_0_conv)
  ultimately show ?thesis using assms(1,3) by (auto simp: ReadRecord_def ReadFull_def)
next
  case False
  let ?hdr = "PutUint32 (word_of_nat (length p + 4)) @ PutUint32 (Checksum p)"
  have "take k (record_frame p) = ?hdr @ take (k - 8) p"
    using False by (simp add: record_frame_def)
  then have "ReadFull 8 (take k (record_frame p)) = (Inr ?hdr, take (k - 8) p)"
    using ReadFull_append [of ?hdr 8 "take (k - 8) p"] by simp
  moreover have "k - 8 < length p" using assms(3) False by simp
  moreover have "length p \<le> MaxFramedPayload" using assms by linarith
  note unat_frame_length [OF this]
  ultimately show ?thesis
    using assms False by (simp add: ReadRecord_def Let_def del: of_nat_add)
qed

text \<open>Whatever is accepted as a record is exactly a written frame.\<close>

lemma ReadRecord_only_frames:
  assumes "ReadRecord r m = (Inr p, r')"
  shows "max_ok m \<and> int (length p) \<le> m \<and> r = record_frame p @ r'"
proof -
  from assms have m: "max_ok m" by (auto simp: ReadRecord_def split: if_splits)
  from assms m obtain header body where full: "ReadFull 8 r = (Inr header, body)"
    by (auto simp: ReadRecord_def split: if_splits prod.splits sum.splits)
  then have r: "r = header @ body" and len8: "length header = 8"
    by (auto simp: ReadFull_def split: if_splits)
  define len where "len = Uint32 (take 4 header)"
  from assms full m have ok: "\<not> len < 4" "int (unat (len - 4)) \<le> m" "unat (len - 4) \<le> length body"
      "p = take (unat (len - 4)) body" "r' = drop (unat (len - 4)) body" "Checksum p = Uint32 (drop 4 header)"
    by (auto simp: ReadRecord_def Let_def len_def split: if_splits)
  then have "length p = unat (len - 4)" by simp
  moreover have "unat (len - 4) + 4 = unat len"
    using ok(1) by (simp add: unat_sub word_le_nat_alt word_less_nat_alt)
  ultimately have "PutUint32 (word_of_nat (length p + 4)) = take 4 header"
    using len8 by (simp add: len_def del: of_nat_add)
  moreover have "PutUint32 (Checksum p) = drop 4 header"
    using len8 ok(6) by simp
  ultimately have "header = PutUint32 (word_of_nat (length p + 4)) @ PutUint32 (Checksum p)"
    by (metis append_take_drop_id)
  then show ?thesis
    using m ok(2-5) by (simp add: r record_frame_def)
qed

section \<open>Reading a segment to its end\<close>

text \<open>
  The loop all scans share: read records until the first error, which ends the scan. The result is
  the payloads read and that error.
\<close>

function read_records :: "bytes \<Rightarrow> int \<Rightarrow> bytes list \<times> walError" where
  "read_records r m =
     (case ReadRecord r m of
        (Inl e, r') \<Rightarrow> ([], e)
      | (Inr p, r') \<Rightarrow> (case read_records r' m of (ps, e) \<Rightarrow> (p # ps, e)))"
  by pat_completeness auto
termination
  by (relation "measure (\<lambda>(r, m). length r)") (auto dest!: ReadRecord_only_frames [OF sym])

declare read_records.simps [simp del]

definition frames :: "bytes list \<Rightarrow> bytes" where
  "frames ps = concat (map record_frame ps)"

lemma frames_simps [simp]:
  "frames [] = []" "frames (p # ps) = record_frame p @ frames ps" "frames (ps @ qs) = frames ps @ frames qs"
  by (simp_all add: frames_def)

abbreviation fits :: "int \<Rightarrow> bytes \<Rightarrow> bool" where
  "fits m p \<equiv> int (length p) \<le> m"

lemma read_records_frames:
  assumes "max_ok m" and "\<forall>p \<in> set ps. fits m p"
  shows "read_records (frames ps @ r) m = (ps @ fst (read_records r m), snd (read_records r m))"
  using assms(2)
proof (induction ps)
  case (Cons p ps)
  then have "ReadRecord (record_frame p @ frames ps @ r) m = (Inr p, frames ps @ r)"
    by (intro ReadRecord_frame assms(1)) simp
  with Cons show ?case
    by (simp add: read_records.simps [of "record_frame p @ frames ps @ r"])
qed simp

lemma read_records_stop: "fst (ReadRecord r m) = Inl e \<Longrightarrow> read_records r m = ([], e)"
  by (auto simp: read_records.simps split: prod.splits sum.splits)

lemma read_records_prefix:
  "read_records r m = (ps, e) \<Longrightarrow> \<exists>t. r = frames ps @ t \<and> fst (ReadRecord t m) = Inl e \<and> (\<forall>p \<in> set ps. fits m p)"
proof (induction r m arbitrary: ps rule: read_records.induct)
  case (1 r m)
  show ?case
  proof (cases "ReadRecord r m")
    case (Pair res r')
    show ?thesis
    proof (cases res)
      case (Inl e')
      with 1(2) Pair show ?thesis by (auto simp: read_records.simps [of r])
    next
      case (Inr p)
      obtain qs e' where rest: "read_records r' m = (qs, e')" by fastforce
      have ps: "ps = p # qs" "e = e'"
        using 1(2) Pair Inr rest by (auto simp: read_records.simps [of r])
      from 1(1) [OF Pair [symmetric] Inr, of qs] rest ps ReadRecord_only_frames [of r m p r'] Pair Inr
      show ?thesis by (auto simp: ps)
    qed
  qed
qed

section \<open>Payload codecs\<close>

lemma parse_encodeSeqGen [simp]: "parseSeqGen (encodeSeqGenFrame seq gen p) = Some (seq, gen)"
  by (simp add: parseSeqGen_def encodeSeqGenFrame_def)

lemma length_sentinel [simp]: "length LossMarkerSentinel = 9"
  by (simp add: LossMarkerSentinel_def)

lemma isLossMarker_encode [simp]: "isLossMarker (encodeLossPayload l)"
  by (simp add: isLossMarker_def encodeLossPayload_def)

lemma decode_encodeLoss: "decodeLossPayload (encodeLossPayload l) = Some l"
proof -
  have "length (take 10 (LossMarkerSentinel @ replicate 10 0)) = 10" by simp
  then show ?thesis
    by (simp add: decodeLossPayload_def encodeLossPayload_def string_of_bytes_of)
qed

text \<open>
  A data record can look like a loss marker, for one sequence number only: the one whose bytes are
  the sentinel.
\<close>

lemma seq_gen_marker_iff:
  "isLossMarker (encodeSeqGenFrame seq gen p) \<longleftrightarrow> seq = 0x005754504C4F5353 \<and> gen < 0x01000000"
proof -
  have top: "ucast (drop_bit 24 gen) = (0 :: byte) \<longleftrightarrow> gen < 0x01000000"
  proof -
    have "unat gen < 2 ^ 32" using unsigned_less [of gen, where ?'a = nat] by simp
    then have "unat gen div 2 ^ 24 < 256" by simp
    then have "unat (ucast (drop_bit 24 gen) :: byte) = unat gen div 2 ^ 24"
      by (simp add: unsigned_ucast_eq unsigned_drop_bit_eq drop_bit_eq_div take_bit_eq_mod unat_div)
    then have "ucast (drop_bit 24 gen) = (0 :: byte) \<longleftrightarrow> unat gen div 2 ^ 24 = 0"
      by (metis unsigned_eq_0_iff)
    also have "\<dots> \<longleftrightarrow> gen < 0x01000000"
      by (auto simp: word_less_nat_alt div_eq_0_iff)
    finally show ?thesis .
  qed
  have sent: "LossMarkerSentinel = PutUint64 0x005754504C4F5353 @ [0]"
    by code_simp
  have "take 9 (encodeSeqGenFrame seq gen p) = PutUint64 seq @ [ucast (drop_bit 24 gen)]"
    by (simp add: encodeSeqGenFrame_def PutUint32_def)
  then have "isLossMarker (encodeSeqGenFrame seq gen p) \<longleftrightarrow>
      PutUint64 seq = PutUint64 0x005754504C4F5353 \<and> ucast (drop_bit 24 gen) = (0 :: byte)"
    by (simp add: isLossMarker_def sent encodeSeqGenFrame_def)
  moreover have "PutUint64 seq = PutUint64 0x005754504C4F5353 \<longleftrightarrow> seq = 0x005754504C4F5353"
    by (metis Uint64_Put)
  ultimately show ?thesis by (simp only: top)
qed

end
