(* ===== verification/Wal_Segment.thy ===== *)
theory Wal_Segment
  imports Wal_Framing "HOL-Library.AList"
begin

text \<open>
  One segment file of the write-ahead log (\<open>internal/store/watchtower/wal/segment.go\<close>) over a model
  of the file system it uses. The file system is the contents of the segment directory, by file name,
  the parsed metadata file, and a schedule that decides, operation by operation, whether the next
  system call succeeds; a call that fails may still have written some of its bytes. The results hold
  for every schedule. Reading a file that could be opened does not fail; removing a file in a
  clean-up path is allowed to fail silently, as in the code.
\<close>

section \<open>Operations with a state and an error\<close>

type_synonym ('e, 's, 'a) result_io = "'s \<Rightarrow> ('e + 'a) \<times> 's"

type_synonym ('s, 'a) io = "(walError, 's, 'a) result_io"

definition io_return :: "'a \<Rightarrow> ('e, 's, 'a) result_io" where
  "io_return x s = (Inr x, s)"

definition io_fail :: "'e \<Rightarrow> ('e, 's, 'a) result_io" where
  "io_fail e s = (Inl e, s)"

definition io_bind :: "('e, 's, 'a) result_io \<Rightarrow> ('a \<Rightarrow> ('e, 's, 'b) result_io) \<Rightarrow> ('e, 's, 'b) result_io" where
  "io_bind m f s = (case m s of (Inl e, s') \<Rightarrow> (Inl e, s') | (Inr x, s') \<Rightarrow> f x s')"

definition io_then :: "('e, 's, 'a) result_io \<Rightarrow> ('e, 's, 'b) result_io \<Rightarrow> ('e, 's, 'b) result_io" where
  "io_then m k = io_bind m (\<lambda>_. k)"

text \<open>Run a clean-up when an operation fails and keep its error.\<close>

definition io_on_error :: "('s, 'a) io \<Rightarrow> ('s \<Rightarrow> 's) \<Rightarrow> ('s, 'a) io" where
  "io_on_error m cleanup s = (case m s of (Inl e, s') \<Rightarrow> (Inl e, cleanup s') | (Inr x, s') \<Rightarrow> (Inr x, s'))"

text \<open>An operation on the second component of a pair of states.\<close>

definition io_snd :: "('s, 'a) io \<Rightarrow> ('t \<times> 's, 'a) io" where
  "io_snd m ts = (case m (snd ts) of (r, s') \<Rightarrow> (r, (fst ts, s')))"

section \<open>The file system\<close>

record meta =
  mt_FormatVersion :: int
  mt_AckHighWatermarkSeq :: uint64
  mt_AckHighWatermarkGen :: uint32
  mt_AckRecorded :: bool
  mt_SessionID :: string
  mt_KeyFingerprint :: string
  mt_ContextDigest :: string

text \<open>The schedule: \<^const>\<open>None\<close> for a call that succeeds, \<open>Some n\<close> for one that fails after \<open>n\<close> bytes
  (of a write); calls beyond its end succeed.\<close>

record fsys =
  fs_files :: "(string \<times> bytes) list"
  fs_meta :: "meta option"
  fs_sched :: "nat option list"

definition fs_tick :: "fsys \<Rightarrow> nat option \<times> fsys" where
  "fs_tick fs = (case fs_sched fs of [] \<Rightarrow> (None, fs) | x # xs \<Rightarrow> (x, fs\<lparr>fs_sched := xs\<rparr>))"

definition fs_call :: "(fsys \<Rightarrow> (walError + 'a) \<times> fsys) \<Rightarrow> (fsys, 'a) io" where
  "fs_call f fs = (case fs_tick fs of (Some _, fs') \<Rightarrow> (Inl ErrIO, fs') | (None, fs') \<Rightarrow> f fs')"

abbreviation lookup_file :: "fsys \<Rightarrow> string \<Rightarrow> bytes option" where
  "lookup_file fs name \<equiv> map_of (fs_files fs) name"

definition contents :: "fsys \<Rightarrow> string \<Rightarrow> bytes" where
  "contents fs name = (case lookup_file fs name of None \<Rightarrow> [] | Some bs \<Rightarrow> bs)"

definition fs_put :: "string \<Rightarrow> bytes \<Rightarrow> fsys \<Rightarrow> fsys" where
  "fs_put name bs fs = fs\<lparr>fs_files := AList.update name bs (fs_files fs)\<rparr>"

definition fs_create_excl :: "string \<Rightarrow> (fsys, unit) io" where
  "fs_create_excl name = fs_call (\<lambda>fs.
     if lookup_file fs name \<noteq> None then (Inl ErrExists, fs) else (Inr (), fs_put name [] fs))"

definition fs_open :: "string \<Rightarrow> (fsys, bytes) io" where
  "fs_open name = fs_call (\<lambda>fs.
     case lookup_file fs name of None \<Rightarrow> (Inl ErrNotExist, fs) | Some bs \<Rightarrow> (Inr bs, fs))"

definition fs_write :: "string \<Rightarrow> bytes \<Rightarrow> (fsys, unit) io" where
  "fs_write name bs fs =
     (case fs_tick fs of
        (None, fs') \<Rightarrow> (Inr (), fs_put name (contents fs' name @ bs) fs')
      | (Some n, fs') \<Rightarrow> (Inl ErrIO, fs_put name (contents fs' name @ take n bs) fs'))"

definition fs_fsync :: "(fsys, unit) io" where
  "fs_fsync = fs_call (\<lambda>fs. (Inr (), fs))"

definition fs_close :: "(fsys, unit) io" where
  "fs_close = fs_call (\<lambda>fs. (Inr (), fs))"

definition syncDir :: "(fsys, unit) io" where
  "syncDir = fs_call (\<lambda>fs. (Inr (), fs))"

definition fs_truncate :: "string \<Rightarrow> int \<Rightarrow> (fsys, unit) io" where
  "fs_truncate name n = fs_call (\<lambda>fs.
     let bs = contents fs name
     in (Inr (), fs_put name (take (nat n) bs @ replicate (nat n - length bs) 0) fs))"

definition atomicRename :: "string \<Rightarrow> string \<Rightarrow> (fsys, unit) io" where
  "atomicRename from to = fs_call (\<lambda>fs.
     case lookup_file fs from of
       None \<Rightarrow> (Inl ErrNotExist, fs)
     | Some bs \<Rightarrow> (Inr (), fs_put to bs (fs\<lparr>fs_files := AList.delete from (fs_files fs)\<rparr>)))"

definition fs_remove :: "string \<Rightarrow> (fsys, unit) io" where
  "fs_remove name = fs_call (\<lambda>fs.
     if lookup_file fs name = None then (Inl ErrNotExist, fs)
     else (Inr (), fs\<lparr>fs_files := AList.delete name (fs_files fs)\<rparr>))"

definition fs_remove_quiet :: "string \<Rightarrow> fsys \<Rightarrow> fsys" where
  "fs_remove_quiet name fs = snd (fs_remove name fs)"

definition fs_stat :: "string \<Rightarrow> (fsys, int) io" where
  "fs_stat name = fs_call (\<lambda>fs.
     case lookup_file fs name of None \<Rightarrow> (Inl ErrNotExist, fs) | Some bs \<Rightarrow> (Inr (int (length bs)), fs))"

definition fs_readdir :: "(fsys, string list) io" where
  "fs_readdir = fs_call (\<lambda>fs. (Inr (map fst (fs_files fs)), fs))"

section \<open>Segment names\<close>

abbreviation segmentExt :: string where "segmentExt \<equiv> ''.seg''"
abbreviation inProgressSuffix :: string where "inProgressSuffix \<equiv> ''.INPROGRESS''"

definition segmentName :: "uint64 \<Rightarrow> string" where
  "segmentName index =
     (let s = FormatUint (unat index) in replicate (10 - length s) (CHR ''0'') @ s @ segmentExt)"

definition hasSuffix :: "string \<Rightarrow> string \<Rightarrow> bool" where
  "hasSuffix s suf = (length suf \<le> length s \<and> drop (length s - length suf) s = suf)"

definition trimSuffix :: "string \<Rightarrow> string \<Rightarrow> string" where
  "trimSuffix s suf = (if hasSuffix s suf then take (length s - length suf) s else s)"

definition ParseUint :: "string \<Rightarrow> uint64 option" where
  "ParseUint s =
     (if s = [] \<or> \<not> list_all is_digit s \<or> 2 ^ 64 \<le> decimal_val s then None
      else Some (word_of_nat (decimal_val s)))"

section \<open>Segments (\<open>segment.go\<close>)\<close>

text \<open>
  The file handle and its buffered writer are one thing here: open or not, the bytes buffered and not
  yet written, and whether a write has failed, after which \<open>bufio\<close> refuses to write again.
\<close>

record segment =
  sg_index :: uint64
  sg_gen :: uint32
  sg_path :: string
  sg_open :: bool
  sg_buffer :: bytes
  sg_werr :: bool
  sg_bytes :: int
  sg_maxRecordBytes :: int
  sg_closed :: bool

definition validateMaxRecordBytes :: "int \<Rightarrow> walError option" where
  "validateMaxRecordBytes m =
     (if m \<le> 0 then Some ErrMaxPayload else if int MaxFramedPayload < m then Some ErrMaxPayload else None)"

definition OpenSegment :: "uint64 \<Rightarrow> segmentHeader \<Rightarrow> int \<Rightarrow> (fsys, segment) io" where
  "OpenSegment index hdr maxRecordBytes =
     (case validateMaxRecordBytes maxRecordBytes of
        Some e \<Rightarrow> io_fail e
      | None \<Rightarrow>
          (let path = segmentName index @ inProgressSuffix in
           io_then (fs_create_excl path)
             (io_then
                (io_on_error
                   (case WriteSegmentHeader hdr of
                      Inl e \<Rightarrow> io_fail e
                    | Inr bs \<Rightarrow> io_then (fs_write path bs) (io_then fs_fsync syncDir))
                   (fs_remove_quiet path))
                (io_return
                   \<lparr>sg_index = index, sg_gen = sh_Generation hdr, sg_path = path, sg_open = True,
                    sg_buffer = [], sg_werr = False, sg_bytes = int SegmentHeaderSize,
                    sg_maxRecordBytes = maxRecordBytes, sg_closed = False\<rparr>))))"

definition ReopenSegment :: "string \<Rightarrow> int \<Rightarrow> (fsys, segment) io" where
  "ReopenSegment path maxRecordBytes =
     (case validateMaxRecordBytes maxRecordBytes of
        Some e \<Rightarrow> io_fail e
      | None \<Rightarrow>
          io_bind (fs_open path) (\<lambda>content.
          io_bind (fs_stat path) (\<lambda>sz.
            if sz < int SegmentHeaderSize then io_fail ErrTooShort
            else (case fst (ReadSegmentHeader content) of
                    Inl e \<Rightarrow> io_fail e
                  | Inr hdr \<Rightarrow>
                      if \<not> hasSuffix path (segmentExt @ inProgressSuffix) then io_fail ErrNotSegment
                      else (case ParseUint (trimSuffix path (segmentExt @ inProgressSuffix)) of
                              None \<Rightarrow> io_fail ErrNotSegment
                            | Some index \<Rightarrow>
                                io_return
                                  \<lparr>sg_index = index, sg_gen = sh_Generation hdr, sg_path = path,
                                   sg_open = True, sg_buffer = [], sg_werr = False, sg_bytes = sz,
                                   sg_maxRecordBytes = maxRecordBytes, sg_closed = False\<rparr>)))))"

text \<open>\<open>bufio.Writer\<close> with its default buffer of 4096 bytes: what does not fit is written through.\<close>

definition bufio_put :: "bytes \<Rightarrow> (segment \<times> fsys, unit) io" where
  "bufio_put bs sf =
     (case fs_write (sg_path (fst sf)) bs (snd sf) of
        (Inl e, fs') \<Rightarrow> (Inl e, ((fst sf)\<lparr>sg_werr := True\<rparr>, fs'))
      | (Inr _, fs') \<Rightarrow> (Inr (), (fst sf, fs')))"

definition bufio_Flush :: "(segment \<times> fsys, unit) io" where
  "bufio_Flush sf =
     (let s = fst sf in
      if sg_werr s then (Inl ErrIO, sf)
      else if sg_buffer s = [] then (Inr (), sf)
      else bufio_put (sg_buffer s) (s\<lparr>sg_buffer := []\<rparr>, snd sf))"

definition bufio_Write :: "bytes \<Rightarrow> (segment \<times> fsys, unit) io" where
  "bufio_Write p sf =
     (let s = fst sf; avail = 4096 - length (sg_buffer s) in
      if sg_werr s then (Inl ErrIO, sf)
      else if length p \<le> avail then (Inr (), (s\<lparr>sg_buffer := sg_buffer s @ p\<rparr>, snd sf))
      else if sg_buffer s = [] then bufio_put p sf
      else io_then
             (\<lambda>sf. bufio_Flush ((fst sf)\<lparr>sg_buffer := sg_buffer s @ take avail p\<rparr>, snd sf))
             (\<lambda>sf. if length (drop avail p) \<le> 4096
                   then (Inr (), ((fst sf)\<lparr>sg_buffer := drop avail p\<rparr>, snd sf))
                   else bufio_put (drop avail p) sf) sf)"

definition Segment_WriteRecord :: "bytes \<Rightarrow> (segment \<times> fsys, unit) io" where
  "Segment_WriteRecord payload sf =
     (if sg_closed (fst sf) then (Inl ErrSegmentClosed, sf)
      else (let startBytes = sg_bytes (fst sf) in
            case WriteRecord payload (sg_maxRecordBytes (fst sf)) of
              Inl e \<Rightarrow> (Inl e, sf)
            | Inr frame \<Rightarrow>
                io_then (io_then (bufio_Write (take 8 frame)) (bufio_Write (drop 8 frame)))
                  (\<lambda>sf. (Inr (), ((fst sf)\<lparr>sg_bytes := startBytes + int (8 + length payload)\<rparr>, snd sf))) sf))"

definition Segment_Sync :: "(segment \<times> fsys, unit) io" where
  "Segment_Sync sf =
     (if sg_closed (fst sf) then (Inl ErrSegmentClosed, sf)
      else io_then bufio_Flush (io_snd fs_fsync) sf)"

definition Seal :: "(segment \<times> fsys, string) io" where
  "Seal sf =
     (if sg_closed (fst sf) then (Inl ErrSegmentClosed, sf)
      else (let s = fst sf; sealed = segmentName (sg_index s) in
            io_then Segment_Sync
              (io_then (io_snd (io_then (fs_truncate (sg_path s) (sg_bytes s)) (io_then fs_fsync
                 (io_then fs_close (io_then (atomicRename (sg_path s) sealed) syncDir)))))
                 (\<lambda>sf. (Inr sealed, ((fst sf)\<lparr>sg_path := sealed, sg_open := False, sg_buffer := [],
                                              sg_closed := True\<rparr>, snd sf)))) sf))"

definition Segment_Close :: "(segment \<times> fsys, unit) io" where
  "Segment_Close sf =
     (if sg_closed (fst sf) \<or> \<not> sg_open (fst sf)
      then (Inr (), ((fst sf)\<lparr>sg_closed := True\<rparr>, snd sf))
      else (case Segment_Sync sf of
              (Inl e, sf') \<Rightarrow> (Inl e, sf')
            | (Inr _, sf') \<Rightarrow>
                (case fs_close (snd sf') of
                   (r, fs') \<Rightarrow> (r, ((fst sf')\<lparr>sg_open := False, sg_buffer := [], sg_closed := True\<rparr>, fs')))))"

end
