(* ===== verification/Wal_Log.thy ===== *)
theory Wal_Log
  imports Wal_Segment
begin

text \<open>
  The write-ahead log itself (\<open>internal/store/watchtower/wal/wal.go\<close> and \<open>meta.go\<close>): opening and
  recovering a directory, appending records and loss markers, acknowledging, and the two kinds of
  garbage collection, on a state of the log record and the file system. Readers and their
  notification channels are left out: they see the log and change nothing of it. The metadata file is
  kept parsed. Byte counts are mathematical integers. The identity error carries the name of the
  field; the values it also carries are those of the arguments. Sorting by index is stable, which only
  matters when two file names have the same number.
\<close>

section \<open>Options, errors and the log record\<close>

datatype syncMode = SyncImmediate | SyncDeferred

record walOptions =
  wo_Dir :: string
  wo_SegmentSize :: int
  wo_MaxTotalBytes :: int
  wo_SyncMode :: syncMode
  wo_SessionID :: string
  wo_KeyFingerprint :: string
  wo_ContextDigest :: string

datatype failureClass = FailureNone | FailureClean | FailureAmbiguous

record appendError =
  ae_Class :: failureClass
  ae_Op :: string
  ae_Err :: walError

definition IsClean :: "appendError option \<Rightarrow> bool" where
  "IsClean err = (case err of None \<Rightarrow> False | Some e \<Rightarrow> ae_Class e = FailureClean)"

definition IsAmbiguous :: "appendError option \<Rightarrow> bool" where
  "IsAmbiguous err = (case err of None \<Rightarrow> False | Some e \<Rightarrow> ae_Class e = FailureAmbiguous)"

record wal =
  w_opts :: walOptions
  w_maxRec :: int
  w_current :: "segment option"
  w_closed :: bool
  w_fatalErr :: "walError option"
  w_highSeq :: uint64
  w_highGen :: uint32
  w_nextIndex :: uint64
  w_totalBytes :: int
  w_ackHighSeq :: uint64
  w_ackHighGen :: uint32
  w_ackPresent :: bool
  w_perGenDataHighWater :: "(uint32 \<times> uint64) list"
  w_perGenAnyReplayable :: "uint32 list"

type_synonym 'a wal_io = "(wal \<times> fsys, 'a) io"
type_synonym 'a append_io = "(appendError, wal \<times> fsys, 'a) result_io"

abbreviation sealedSuffix :: string where "sealedSuffix \<equiv> segmentExt"
abbreviation inprogressSuffix :: string where "inprogressSuffix \<equiv> ''.seg.INPROGRESS''"
abbreviation recordOverhead :: int where "recordOverhead \<equiv> 20"

definition modify_wal :: "(wal \<Rightarrow> wal) \<Rightarrow> ('e, wal \<times> fsys, unit) result_io" where
  "modify_wal f ws = (Inr (), (f (fst ws), snd ws))"

definition nonEmpty :: "string \<Rightarrow> string \<Rightarrow> string" where
  "nonEmpty a b = (if a \<noteq> [] then a else b)"

section \<open>Listing and scanning segments\<close>

record segmentEntry =
  se_name :: string
  se_idx :: uint64

definition parseSegmentIndex :: "string \<Rightarrow> uint64 option" where
  "parseSegmentIndex name =
     (if hasSuffix name inprogressSuffix then ParseUint (trimSuffix name inprogressSuffix)
      else if hasSuffix name sealedSuffix then ParseUint (trimSuffix name sealedSuffix)
      else None)"

definition entry_for :: "string \<Rightarrow> segmentEntry option" where
  "entry_for name = map_option (\<lambda>idx. \<lparr>se_name = name, se_idx = idx\<rparr>) (parseSegmentIndex name)"

abbreviation is_sealed_name :: "string \<Rightarrow> bool" where
  "is_sealed_name name \<equiv> hasSuffix name sealedSuffix \<and> \<not> hasSuffix name inprogressSuffix"

definition sealed_entries :: "string list \<Rightarrow> segmentEntry list" where
  "sealed_entries names =
     sort_key (\<lambda>e. unat (se_idx e)) (List.map_filter entry_for (filter is_sealed_name names))"

definition inprogress_entries :: "string list \<Rightarrow> segmentEntry list" where
  "inprogress_entries names =
     sort_key (\<lambda>e. unat (se_idx e))
       (List.map_filter entry_for (filter (\<lambda>n. hasSuffix n inprogressSuffix) names))"

definition pickMaxByIndex :: "segmentEntry list \<Rightarrow> segmentEntry option" where
  "pickMaxByIndex entries =
     (case entries of
        [] \<Rightarrow> None
      | e # es \<Rightarrow> Some (foldl (\<lambda>m e. if se_idx m < se_idx e then e else m) e es))"

text \<open>What one payload contributes to the highest sequence, the user flag and the payload flag.\<close>

definition high_step :: "uint64 \<times> bool \<times> bool \<Rightarrow> bytes \<Rightarrow> uint64 \<times> bool \<times> bool" where
  "high_step acc payload =
     (case acc of (hi, hasUser, hasAny) \<Rightarrow>
        if isLossMarker payload then (hi, hasUser, True)
        else (case parseSeqGen payload of
                None \<Rightarrow> (hi, hasUser, hasAny)
              | Some (seq, _) \<Rightarrow> (if hi < seq then seq else hi, True, True)))"

definition segmentHighSeqAndGen :: "string \<Rightarrow> int \<Rightarrow> (fsys, uint64 \<times> bool \<times> uint32 \<times> bool) io" where
  "segmentHighSeqAndGen path maxPayload =
     io_bind (fs_open path) (\<lambda>content.
       case ReadSegmentHeader content of
         (Inl e, _) \<Rightarrow> io_fail e
       | (Inr hdr, rest) \<Rightarrow>
           (case foldl high_step (0, False, False) (fst (read_records rest maxPayload)) of
              (hi, hasUser, hasAny) \<Rightarrow> io_return (hi, hasUser, sh_Generation hdr, hasAny)))"

fun has_records_loop :: "string list \<Rightarrow> int \<Rightarrow> (fsys, bool) io" where
  "has_records_loop [] maxPayload fs = (Inr False, fs)"
| "has_records_loop (name # names) maxPayload fs =
     (if \<not> hasSuffix name sealedSuffix \<and> \<not> hasSuffix name inprogressSuffix
      then has_records_loop names maxPayload fs
      else (case segmentHighSeqAndGen name maxPayload fs of
              (Inl _, fs') \<Rightarrow> (Inr True, fs')
            | (Inr (_, hasUser, _, _), fs') \<Rightarrow>
                if hasUser then (Inr True, fs') else has_records_loop names maxPayload fs'))"

definition segmentsDirHasRecords :: "int \<Rightarrow> (fsys, bool) io" where
  "segmentsDirHasRecords maxPayload = io_bind fs_readdir (\<lambda>names. has_records_loop names maxPayload)"

section \<open>Metadata (\<open>meta.go\<close>)\<close>

definition ReadMeta :: "(fsys, meta) io" where
  "ReadMeta = fs_call (\<lambda>fs.
     case fs_meta fs of
       None \<Rightarrow> (Inl ErrNotExist, fs)
     | Some m \<Rightarrow>
         (if mt_FormatVersion m = 1 then (Inr (m\<lparr>mt_AckRecorded := True\<rparr>), fs)
          else if mt_FormatVersion m = 2 then (Inr m, fs)
          else (Inl ErrMetaVersion, fs)))"

text \<open>Write a temporary file, sync it, close it, rename it over the old one, sync the directory.\<close>

definition WriteMeta :: "meta \<Rightarrow> (fsys, unit) io" where
  "WriteMeta m =
     io_then (fs_call (\<lambda>fs. (Inr (), fs)))
       (io_then (fs_call (\<lambda>fs. (Inr (), fs)))
          (io_then fs_fsync (io_then fs_close
             (io_then (fs_call (\<lambda>fs. (Inr (), fs\<lparr>fs_meta := Some (m\<lparr>mt_FormatVersion := 2\<rparr>)\<rparr>)))
                syncDir))))"

section \<open>Garbage collection\<close>

definition segmentFullyAckedLocked :: "wal \<Rightarrow> uint32 \<Rightarrow> uint64 \<Rightarrow> bool \<Rightarrow> bool" where
  "segmentFullyAckedLocked w segGen segHi hasUser =
     (if \<not> w_ackPresent w then False
      else if \<not> hasUser then segGen \<le> w_ackHighGen w
      else if segGen < w_ackHighGen w then True
      else if segGen = w_ackHighGen w \<and> segHi \<le> w_ackHighSeq w then True
      else False)"

fun surviving_gens :: "string list \<Rightarrow> fsys \<Rightarrow> uint32 list \<times> fsys" where
  "surviving_gens [] fs = ([], fs)"
| "surviving_gens (name # names) fs =
     (if \<not> hasSuffix name sealedSuffix \<and> \<not> hasSuffix name inprogressSuffix \<or> parseSegmentIndex name = None
      then surviving_gens names fs
      else (case fs_open name fs of
              (Inl _, fs') \<Rightarrow> surviving_gens names fs'
            | (Inr content, fs') \<Rightarrow>
                (case fst (ReadSegmentHeader content) of
                   Inl _ \<Rightarrow> surviving_gens names fs'
                 | Inr hdr \<Rightarrow> (case surviving_gens names fs' of (gs, fs'') \<Rightarrow> (sh_Generation hdr # gs, fs'')))))"

definition prunePerGenMapsLocked :: "wal \<times> fsys \<Rightarrow> wal \<times> fsys" where
  "prunePerGenMapsLocked ws =
     (case fs_readdir (snd ws) of
        (Inl _, fs') \<Rightarrow> (fst ws, fs')
      | (Inr names, fs') \<Rightarrow>
          (case surviving_gens names fs' of (gs, fs'') \<Rightarrow>
             ((fst ws)\<lparr>w_perGenDataHighWater := filter (\<lambda>p. fst p \<in> set gs) (w_perGenDataHighWater (fst ws)),
                       w_perGenAnyReplayable := filter (\<lambda>g. g \<in> set gs) (w_perGenAnyReplayable (fst ws))\<rparr>,
              fs'')))"

text \<open>Remove one segment file and take its size off the total when it could be read.\<close>

definition remove_segment :: "string \<Rightarrow> unit wal_io" where
  "remove_segment name ws =
     (case fs_stat name (snd ws) of (st, fs1) \<Rightarrow>
        case fs_remove name fs1 of
          (Inl e, fs2) \<Rightarrow> (Inl e, (fst ws, fs2))
        | (Inr _, fs2) \<Rightarrow>
            (Inr (), ((case st of Inl _ \<Rightarrow> fst ws
                       | Inr sz \<Rightarrow> (fst ws)\<lparr>w_totalBytes := w_totalBytes (fst ws) - sz\<rparr>), fs2)))"

fun gc_acked_loop :: "segmentEntry list \<Rightarrow> nat \<Rightarrow> nat wal_io" where
  "gc_acked_loop [] removed ws = (Inr removed, ws)"
| "gc_acked_loop (e # es) removed ws =
     (case segmentHighSeqAndGen (se_name e) (w_maxRec (fst ws)) (snd ws) of
        (Inl err, fs') \<Rightarrow> (Inl err, (fst ws, fs'))
      | (Inr (hi, hasUser, segGen, _), fs') \<Rightarrow>
          if \<not> segmentFullyAckedLocked (fst ws) segGen hi hasUser then (Inr removed, (fst ws, fs'))
          else (case remove_segment (se_name e) (fst ws, fs') of
                  (Inl err, ws') \<Rightarrow> (Inl err, ws')
                | (Inr _, ws') \<Rightarrow> gc_acked_loop es (Suc removed) ws'))"

definition gcAckedLocked :: "nat wal_io" where
  "gcAckedLocked ws =
     (if \<not> w_ackPresent (fst ws) then (Inr 0, ws)
      else io_bind (io_snd fs_readdir) (\<lambda>names.
             if sealed_entries names = [] then io_return 0
             else io_bind (gc_acked_loop (sealed_entries names) 0) (\<lambda>removed.
                    if 0 < removed
                    then io_then (io_snd syncDir) (\<lambda>ws. (Inr removed, prunePerGenMapsLocked ws))
                    else io_return removed)) ws)"

text \<open>The range of user sequences of a dropped segment: first and last in file order.\<close>

definition range_step :: "(uint64 \<times> uint64) option \<Rightarrow> bytes \<Rightarrow> (uint64 \<times> uint64) option" where
  "range_step acc payload =
     (if isLossMarker payload then acc
      else (case parseSeqGen payload of
              None \<Rightarrow> acc
            | Some (seq, _) \<Rightarrow> (case acc of None \<Rightarrow> Some (seq, seq) | Some (from, _) \<Rightarrow> Some (from, seq))))"

text \<open>
  The code ignores an error of the header read, which leaves a zero header and the reader wherever
  the read stopped.
\<close>

definition dropped_range :: "bytes \<Rightarrow> int \<Rightarrow> uint32 \<times> (uint64 \<times> uint64) option" where
  "dropped_range content maxRec =
     (case ReadSegmentHeader content of (h, rest) \<Rightarrow>
        ((case h of Inl _ \<Rightarrow> 0 | Inr hdr \<Rightarrow> sh_Generation hdr),
         foldl range_step None (fst (read_records rest maxRec))))"

definition dropOldestLocked :: "(lossRecord \<times> bool \<times> bool) wal_io" where
  "dropOldestLocked =
     (let zero = \<lparr>lr_FromSequence = 0, lr_ToSequence = 0, lr_Generation = 0, lr_Reason = []\<rparr> in
      io_bind (io_snd fs_readdir) (\<lambda>names.
        case sealed_entries names of
          [] \<Rightarrow> io_return (zero, False, False)
        | oldest # _ \<Rightarrow>
            io_bind (io_snd (fs_open (se_name oldest))) (\<lambda>content ws.
              case dropped_range content (w_maxRec (fst ws)) of (gen, rng) \<Rightarrow>
                io_then (remove_segment (se_name oldest))
                  (io_then (io_snd syncDir) (\<lambda>ws.
                     (Inr (\<lparr>lr_FromSequence = (case rng of None \<Rightarrow> 0 | Some (from, _) \<Rightarrow> from),
                            lr_ToSequence = (case rng of None \<Rightarrow> 0 | Some (_, to) \<Rightarrow> to),
                            lr_Generation = gen, lr_Reason = ''overflow''\<rparr>, True, rng \<noteq> None),
                      prunePerGenMapsLocked ws))) ws)))"

section \<open>Appending\<close>

definition failAmbiguousLocked :: "string \<Rightarrow> walError \<Rightarrow> wal \<Rightarrow> appendError \<times> wal" where
  "failAmbiguousLocked op err w =
     (\<lparr>ae_Class = FailureAmbiguous, ae_Op = op, ae_Err = err\<rparr>,
      if w_fatalErr w = None then w\<lparr>w_fatalErr := Some err\<rparr> else w)"

text \<open>Run a step and classify its failure as ambiguous.\<close>

definition ambiguous :: "string \<Rightarrow> 'a wal_io \<Rightarrow> 'a append_io" where
  "ambiguous op m ws =
     (case m ws of
        (Inr x, ws') \<Rightarrow> (Inr x, ws')
      | (Inl e, ws') \<Rightarrow> (case failAmbiguousLocked op e (fst ws') of (ae, w) \<Rightarrow> (Inl ae, (w, snd ws'))))"

definition on_current :: "(segment \<times> fsys, 'a) io \<Rightarrow> 'a wal_io" where
  "on_current m ws =
     (case w_current (fst ws) of
        None \<Rightarrow> (Inl ErrNoSegment, ws)
      | Some s \<Rightarrow> (case m (s, snd ws) of (r, (s', fs')) \<Rightarrow> (r, ((fst ws)\<lparr>w_current := Some s'\<rparr>, fs'))))"

definition sealCurrentLocked :: "unit wal_io" where
  "sealCurrentLocked ws =
     (if w_current (fst ws) = None then (Inr (), ws)
      else io_then (on_current Seal) (modify_wal (\<lambda>w. w\<lparr>w_current := None\<rparr>)) ws)"

definition openNewSegmentLocked :: "uint32 \<Rightarrow> uint16 \<Rightarrow> segment wal_io" where
  "openNewSegmentLocked gen flags ws =
     (let idx = w_nextIndex (fst ws)
      in io_snd (OpenSegment idx \<lparr>sh_Version = SegmentVersion, sh_Flags = flags, sh_Generation = gen\<rparr>
                   (w_maxRec (fst ws)))
           ((fst ws)\<lparr>w_nextIndex := idx + 1\<rparr>, snd ws))"

definition open_current :: "uint32 \<Rightarrow> uint16 \<Rightarrow> unit wal_io" where
  "open_current gen flags =
     io_bind (openNewSegmentLocked gen flags) (\<lambda>seg. modify_wal (\<lambda>w. w\<lparr>w_current := Some seg\<rparr>))"

definition current_gen :: "wal \<Rightarrow> uint32" where
  "current_gen w = (case w_current w of None \<Rightarrow> 0 | Some s \<Rightarrow> sg_gen s)"

definition note_replayable :: "uint32 \<Rightarrow> wal \<Rightarrow> wal" where
  "note_replayable g w =
     w\<lparr>w_perGenAnyReplayable := (if g \<in> set (w_perGenAnyReplayable w) then w_perGenAnyReplayable w
                                  else g # w_perGenAnyReplayable w)\<rparr>"

definition note_data :: "uint32 \<Rightarrow> uint64 \<Rightarrow> wal \<Rightarrow> wal" where
  "note_data g seq w =
     (case map_of (w_perGenDataHighWater w) g of
        None \<Rightarrow> w\<lparr>w_perGenDataHighWater := AList.update g seq (w_perGenDataHighWater w)\<rparr>
      | Some cur \<Rightarrow>
          if cur < seq then w\<lparr>w_perGenDataHighWater := AList.update g seq (w_perGenDataHighWater w)\<rparr> else w)"

definition appendLossLocked :: "lossRecord \<Rightarrow> unit wal_io" where
  "appendLossLocked loss =
     (let payload = encodeLossPayload loss in
      io_then (on_current (Segment_WriteRecord payload))
        (io_then (on_current Segment_Sync)
           (modify_wal (\<lambda>w. note_replayable (current_gen w)
              (w\<lparr>w_totalBytes := w_totalBytes w + int (8 + length payload)\<rparr>)))))"

definition over_budget :: "wal \<Rightarrow> bool" where
  "over_budget w = (wo_MaxTotalBytes (w_opts w) < w_totalBytes w + wo_SegmentSize (w_opts w))"

text \<open>
  The loop that drops the oldest segments. Every round that goes on removes a sealed file, so as many
  rounds as there are files are enough; the argument bounds them.
\<close>

fun overflow_loop :: "nat \<Rightarrow> uint32 \<Rightarrow> unit append_io" where
  "overflow_loop 0 gen ws = (Inr (), ws)"
| "overflow_loop (Suc n) gen ws =
     (if \<not> over_budget (fst ws) then (Inr (), ws)
      else io_bind (ambiguous ''overflow-gc'' dropOldestLocked) (\<lambda>(loss, dropped, hasUserRange).
             if \<not> dropped then io_return ()
             else if \<not> hasUserRange then overflow_loop n gen
             else io_then
                    (\<lambda>ws. if w_current (fst ws) = None
                          then ambiguous ''overflow-open'' (open_current gen FlagGenInit) ws
                          else (Inr (), ws))
                    (io_then (ambiguous ''overflow-loss'' (appendLossLocked loss)) (overflow_loop n gen))) ws)"

definition reclaim :: "uint32 \<Rightarrow> unit append_io" where
  "reclaim gen ws =
     (if over_budget (fst ws)
      then io_then (ambiguous ''overflow-gc-acked'' gcAckedLocked)
             (\<lambda>ws. overflow_loop (Suc (length (fs_files (snd ws)))) gen ws) ws
      else (Inr (), ws))"

definition roll_generation :: "uint32 \<Rightarrow> bool append_io" where
  "roll_generation gen ws =
     (if w_current (fst ws) \<noteq> None \<and> current_gen (fst ws) \<noteq> gen
      then io_then (ambiguous ''seal-on-gen-roll'' sealCurrentLocked)
             (io_then (ambiguous ''open-on-gen-roll'' (open_current gen FlagGenInit)) (io_return True)) ws
      else (Inr False, ws))"

definition open_first :: "uint32 \<Rightarrow> unit append_io" where
  "open_first gen ws =
     (if w_current (fst ws) = None then ambiguous ''open-first'' (open_current gen FlagGenInit) ws
      else (Inr (), ws))"

definition roll_full :: "uint32 \<Rightarrow> bytes \<Rightarrow> unit append_io" where
  "roll_full gen payload ws =
     (if wo_SegmentSize (w_opts (fst ws)) <
           (case w_current (fst ws) of None \<Rightarrow> 0 | Some s \<Rightarrow> sg_bytes s) + recordOverhead + int (length payload)
      then io_then (ambiguous ''seal-on-full'' sealCurrentLocked)
             (ambiguous ''open-on-full'' (open_current gen 0)) ws
      else (Inr (), ws))"

definition write_framed :: "uint64 \<Rightarrow> uint32 \<Rightarrow> bytes \<Rightarrow> unit append_io" where
  "write_framed seq gen payload =
     (let framed = encodeSeqGenFrame seq gen payload in
      io_then (ambiguous ''write-record'' (on_current (Segment_WriteRecord framed)))
        (io_then
           (\<lambda>ws. if wo_SyncMode (w_opts (fst ws)) = SyncImmediate
                 then ambiguous ''sync'' (on_current Segment_Sync) ws else (Inr (), ws))
           (modify_wal (\<lambda>w.
              (note_replayable gen (note_data gen seq (w\<lparr>w_highSeq := seq, w_highGen := gen\<rparr>)))
                \<lparr>w_totalBytes := w_totalBytes w + int (8 + length framed)\<rparr>))))"

text \<open>
  \<open>Append\<close>. The first argument is what an installed failure injector returns, \<^const>\<open>None\<close> when there
  is none or it returns nil; production code installs none.
\<close>

definition Append :: "appendError option \<Rightarrow> uint64 \<Rightarrow> uint32 \<Rightarrow> bytes \<Rightarrow> bool append_io" where
  "Append injected seq gen payload ws =
     (let w = fst ws in
      if w_closed w then (Inl \<lparr>ae_Class = FailureClean, ae_Op = ''append'', ae_Err = ErrClosed\<rparr>, ws)
      else (case w_fatalErr w of
              Some e \<Rightarrow> (Inl \<lparr>ae_Class = FailureClean, ae_Op = ''append'', ae_Err = ErrFatal e\<rparr>, ws)
            | None \<Rightarrow>
                if wo_SegmentSize (w_opts w) - int SegmentHeaderSize < recordOverhead + int (length payload)
                then (Inl \<lparr>ae_Class = FailureClean, ae_Op = ''append'', ae_Err = ErrSegmentBudget\<rparr>, ws)
                else (case injected of
                        Some ae \<Rightarrow>
                          (Inl ae, (if ae_Class ae = FailureAmbiguous then w\<lparr>w_fatalErr := Some (ae_Err ae)\<rparr> else w,
                                    snd ws))
                      | None \<Rightarrow>
                          io_then (reclaim gen)
                            (io_bind (roll_generation gen) (\<lambda>rolled.
                               io_then (open_first gen)
                                 (io_then (roll_full gen payload)
                                    (io_then (write_framed seq gen payload) (io_return rolled))))) ws)))"

definition AppendLoss :: "lossRecord \<Rightarrow> unit append_io" where
  "AppendLoss loss ws =
     (let w = fst ws in
      if w_closed w then (Inl \<lparr>ae_Class = FailureClean, ae_Op = ''append-loss'', ae_Err = ErrClosed\<rparr>, ws)
      else (case w_fatalErr w of
              Some e \<Rightarrow> (Inl \<lparr>ae_Class = FailureClean, ae_Op = ''append-loss'', ae_Err = ErrFatal e\<rparr>, ws)
            | None \<Rightarrow>
                (let payload = encodeLossPayload loss in
                 io_then
                   (\<lambda>ws. if w_current (fst ws) = None
                         then ambiguous ''open-loss-segment'' (open_current (lr_Generation loss) FlagGenInit) ws
                         else (Inr (), ws))
                   (io_then (ambiguous ''write-loss'' (on_current (Segment_WriteRecord payload)))
                      (io_then (ambiguous ''sync-loss'' (on_current Segment_Sync))
                         (modify_wal (\<lambda>w. note_replayable (current_gen w)
                            (w\<lparr>w_totalBytes := w_totalBytes w + int (8 + length payload)\<rparr>))))) ws)))"

definition Wal_Close :: "unit wal_io" where
  "Wal_Close ws =
     (if w_closed (fst ws) then (Inr (), ws)
      else io_then (modify_wal (\<lambda>w. w\<lparr>w_closed := True\<rparr>))
             (\<lambda>ws. if w_current (fst ws) = None then (Inr (), ws)
                   else io_then (on_current Segment_Close) (modify_wal (\<lambda>w. w\<lparr>w_current := None\<rparr>)) ws) ws)"

section \<open>Acknowledging\<close>

fun mark_acked_loop :: "segmentEntry list \<Rightarrow> bool \<Rightarrow> wal \<times> fsys \<Rightarrow> bool \<times> wal \<times> fsys" where
  "mark_acked_loop [] removed ws = (removed, ws)"
| "mark_acked_loop (e # es) removed ws =
     (case segmentHighSeqAndGen (se_name e) (w_maxRec (fst ws)) (snd ws) of
        (Inl _, fs') \<Rightarrow> mark_acked_loop es removed (fst ws, fs')
      | (Inr (hi, hasUser, segGen, _), fs') \<Rightarrow>
          if \<not> segmentFullyAckedLocked (fst ws) segGen hi hasUser
          then mark_acked_loop es removed (fst ws, fs')
          else (case remove_segment (se_name e) (fst ws, fs') of
                  (Inl _, ws') \<Rightarrow> mark_acked_loop es removed ws'
                | (Inr _, ws') \<Rightarrow> mark_acked_loop es True ws'))"

definition ack_advances :: "wal \<Rightarrow> uint32 \<Rightarrow> uint64 \<Rightarrow> bool" where
  "ack_advances w gen seq =
     (\<not> w_ackPresent w \<or> w_ackHighGen w < gen \<or> gen = w_ackHighGen w \<and> w_ackHighSeq w < seq)"

definition set_ack :: "uint32 \<Rightarrow> uint64 \<Rightarrow> wal \<Rightarrow> wal" where
  "set_ack gen seq w =
     (if ack_advances w gen seq
      then w\<lparr>w_ackHighGen := gen, w_ackHighSeq := seq, w_ackPresent := True\<rparr> else w)"

definition MarkAcked :: "uint32 \<Rightarrow> uint64 \<Rightarrow> unit wal_io" where
  "MarkAcked gen seq =
     io_then (modify_wal (set_ack gen seq))
       (io_then
          (\<lambda>ws. io_snd (WriteMeta
             \<lparr>mt_FormatVersion = 0, mt_AckHighWatermarkSeq = w_ackHighSeq (fst ws),
              mt_AckHighWatermarkGen = w_ackHighGen (fst ws), mt_AckRecorded = True,
              mt_SessionID = wo_SessionID (w_opts (fst ws)),
              mt_KeyFingerprint = wo_KeyFingerprint (w_opts (fst ws)),
              mt_ContextDigest = wo_ContextDigest (w_opts (fst ws))\<rparr>) ws)
          (io_bind (io_snd fs_readdir) (\<lambda>names ws.
             case mark_acked_loop (sealed_entries names) False ws of
               (False, ws') \<Rightarrow> (Inr (), ws')
             | (True, ws') \<Rightarrow> io_then (io_snd syncDir) (\<lambda>ws. (Inr (), prunePerGenMapsLocked ws)) ws')))"

section \<open>Accessors\<close>

definition HighWatermark :: "wal \<Rightarrow> uint64" where "HighWatermark w = w_highSeq w"
definition HighGeneration :: "wal \<Rightarrow> uint32" where "HighGeneration w = w_highGen w"

definition WrittenDataHighWater :: "wal \<Rightarrow> uint32 \<Rightarrow> walError + uint64 option" where
  "WrittenDataHighWater w gen =
     (if w_closed w then Inl ErrClosed else Inr (map_of (w_perGenDataHighWater w) gen))"

definition HasDataBelowGeneration :: "wal \<Rightarrow> uint32 \<Rightarrow> walError + bool" where
  "HasDataBelowGeneration w threshold =
     (if w_closed w then Inl ErrClosed
      else Inr (list_ex (\<lambda>p. fst p < threshold) (w_perGenDataHighWater w)))"

definition HasReplayableRecords :: "wal \<Rightarrow> uint32 \<Rightarrow> walError + bool" where
  "HasReplayableRecords w gen =
     (if w_closed w then Inl ErrClosed else Inr (gen \<in> set (w_perGenAnyReplayable w)))"

definition first_data :: "bytes list \<Rightarrow> uint64 option" where
  "first_data ps =
     (case find (\<lambda>p. \<not> isLossMarker p \<and> parseSeqGen p \<noteq> None) ps of
        None \<Rightarrow> None
      | Some p \<Rightarrow> map_option fst (parseSeqGen p))"

fun earliest_loop :: "segmentEntry list \<Rightarrow> uint32 \<Rightarrow> int \<Rightarrow> (fsys, uint64 option) io" where
  "earliest_loop [] gen maxRec fs = (Inr None, fs)"
| "earliest_loop (e # es) gen maxRec fs =
     (case fs_open (se_name e) fs of
        (Inl ErrNotExist, fs') \<Rightarrow> earliest_loop es gen maxRec fs'
      | (Inl err, fs') \<Rightarrow> (Inl err, fs')
      | (Inr content, fs') \<Rightarrow>
          (case ReadSegmentHeader content of
             (Inl err, _) \<Rightarrow> (Inl err, fs')
           | (Inr hdr, rest) \<Rightarrow>
               if sh_Generation hdr \<noteq> gen then earliest_loop es gen maxRec fs'
               else (case first_data (fst (read_records rest maxRec)) of
                       Some seq \<Rightarrow> (Inr (Some seq), fs')
                     | None \<Rightarrow> earliest_loop es gen maxRec fs')))"

definition EarliestDataSequence :: "uint32 \<Rightarrow> uint64 option wal_io" where
  "EarliestDataSequence gen ws =
     (if w_closed (fst ws) then (Inl ErrClosed, ws)
      else io_bind (io_snd fs_readdir) (\<lambda>names.
             io_snd (earliest_loop
               (sort_key (\<lambda>e. unat (se_idx e)) (List.map_filter entry_for
                  (filter (\<lambda>n. hasSuffix n sealedSuffix \<or> hasSuffix n inprogressSuffix) names)))
               gen (w_maxRec (fst ws)))) ws)"

section \<open>Recovery and opening\<close>

definition scan_step :: "uint32 \<Rightarrow> wal \<Rightarrow> bytes \<Rightarrow> wal" where
  "scan_step hdrGen w payload =
     (if isLossMarker payload then note_replayable hdrGen w
      else (case parseSeqGen payload of
              None \<Rightarrow> w
            | Some (seq, gen) \<Rightarrow>
                note_replayable hdrGen (note_data gen seq (w\<lparr>w_highSeq := seq, w_highGen := gen\<rparr>))))"

definition stops_scan :: "walError \<Rightarrow> bool" where
  "stops_scan e = (e \<in> {ErrEOF, ErrUnexpectedEOF, ErrCRCMismatch, ErrCorruptFrame})"

definition scanForRecovery :: "string \<Rightarrow> int wal_io" where
  "scanForRecovery path =
     io_bind (io_snd (fs_open path)) (\<lambda>content ws.
       case ReadSegmentHeader content of
         (Inl e, _) \<Rightarrow> (Inl e, ws)
       | (Inr hdr, rest) \<Rightarrow>
           (let g = sh_Generation hdr; w = (fst ws)\<lparr>w_highGen := g\<rparr> in
            case read_records rest (w_maxRec w) of (ps, e) \<Rightarrow>
              (if stops_scan e then Inr (int SegmentHeaderSize + int (length (frames ps))) else Inl e,
               (foldl (scan_step g) w ps, snd ws))))"

definition truncateLiveSegment :: "string \<Rightarrow> int \<Rightarrow> (fsys, unit) io" where
  "truncateLiveSegment path lastGood =
     io_bind (fs_open path) (\<lambda>_.
     io_bind (fs_stat path) (\<lambda>sz.
       if sz = lastGood then io_return ()
       else io_then (fs_truncate path lastGood) (io_then fs_fsync syncDir)))"

definition recover_live :: "segmentEntry list \<Rightarrow> segmentEntry list \<Rightarrow> unit wal_io" where
  "recover_live sealed inProgress =
     (case pickMaxByIndex inProgress of
        Some e \<Rightarrow>
          io_bind (scanForRecovery (se_name e)) (\<lambda>lastGood.
            io_then (io_snd (truncateLiveSegment (se_name e) lastGood))
              (\<lambda>ws. io_bind (io_snd (ReopenSegment (se_name e) (w_maxRec (fst ws)))) (\<lambda>seg.
                 modify_wal (\<lambda>w. w\<lparr>w_current := Some seg, w_nextIndex := sg_index seg + 1\<rparr>)) ws))
      | None \<Rightarrow>
          (case pickMaxByIndex sealed of
             Some e \<Rightarrow> io_then (scanForRecovery (se_name e)) (io_return ())
           | None \<Rightarrow> io_return ()))"

fun total_bytes_loop :: "segmentEntry list \<Rightarrow> unit wal_io" where
  "total_bytes_loop [] ws = (Inr (), ws)"
| "total_bytes_loop (e # es) ws =
     io_bind (io_snd (fs_stat (se_name e))) (\<lambda>sz.
       io_then (modify_wal (\<lambda>w. w\<lparr>w_totalBytes := w_totalBytes w + sz\<rparr>)) (total_bytes_loop es)) ws"

fun seed_loop :: "segmentEntry list \<Rightarrow> wal \<times> fsys \<Rightarrow> wal \<times> fsys" where
  "seed_loop [] ws = ws"
| "seed_loop (e # es) ws =
     (case segmentHighSeqAndGen (se_name e) (w_maxRec (fst ws)) (snd ws) of
        (Inl _, fs') \<Rightarrow> seed_loop es (fst ws, fs')
      | (Inr (hi, hasUser, segGen, hasAny), fs') \<Rightarrow>
          (let w1 = (if hasAny then note_replayable segGen (fst ws) else fst ws);
               w2 = (if hasUser then note_data segGen hi w1 else w1)
           in seed_loop es (w2, fs')))"

definition max_index :: "segmentEntry list \<Rightarrow> segmentEntry list \<Rightarrow> uint64" where
  "max_index sealed inProgress =
     (let m = (case pickMaxByIndex sealed of None \<Rightarrow> 0 | Some e \<Rightarrow> se_idx e)
      in case pickMaxByIndex inProgress of None \<Rightarrow> m | Some e \<Rightarrow> if m \<le> se_idx e then se_idx e else m)"

definition recover :: "unit wal_io" where
  "recover =
     io_bind (io_snd fs_readdir) (\<lambda>names.
       let sealed = sealed_entries names; inProgress = inprogress_entries names in
       io_then (modify_wal (\<lambda>w. w\<lparr>w_nextIndex := max_index sealed inProgress + 1\<rparr>))
         (io_then (recover_live sealed inProgress)
            (io_then (total_bytes_loop sealed)
               (io_then (total_bytes_loop inProgress)
                  (\<lambda>ws. (Inr (), seed_loop (sealed @ inProgress) ws))))))"

definition mismatched_field :: "meta \<Rightarrow> walOptions \<Rightarrow> string option" where
  "mismatched_field m opts =
     (if mt_SessionID m \<noteq> [] \<and> wo_SessionID opts \<noteq> [] \<and> mt_SessionID m \<noteq> wo_SessionID opts
      then Some ''session_id''
      else if mt_KeyFingerprint m \<noteq> [] \<and> wo_KeyFingerprint opts \<noteq> [] \<and>
              mt_KeyFingerprint m \<noteq> wo_KeyFingerprint opts
      then Some ''key_fingerprint''
      else if mt_ContextDigest m \<noteq> [] \<and> wo_ContextDigest opts \<noteq> [] \<and>
              mt_ContextDigest m \<noteq> wo_ContextDigest opts
      then Some ''context_digest''
      else None)"

definition backfillNeeded :: "meta \<Rightarrow> walOptions \<Rightarrow> bool" where
  "backfillNeeded m opts =
     (mt_SessionID m = [] \<and> wo_SessionID opts \<noteq> [] \<or>
      mt_KeyFingerprint m = [] \<and> wo_KeyFingerprint opts \<noteq> [] \<or>
      mt_ContextDigest m = [] \<and> wo_ContextDigest opts \<noteq> [])"

definition recordBearingBackfillMismatch :: "meta \<Rightarrow> walOptions \<Rightarrow> walError" where
  "recordBearingBackfillMismatch m opts =
     ErrIdentityMismatch
       (if mt_SessionID m = [] \<and> wo_SessionID opts \<noteq> [] then ''session_id''
        else if mt_KeyFingerprint m = [] \<and> wo_KeyFingerprint opts \<noteq> [] then ''key_fingerprint''
        else ''context_digest'')"

definition zero_meta :: meta where
  "zero_meta = \<lparr>mt_FormatVersion = 0, mt_AckHighWatermarkSeq = 0, mt_AckHighWatermarkGen = 0,
     mt_AckRecorded = False, mt_SessionID = [], mt_KeyFingerprint = [], mt_ContextDigest = []\<rparr>"

definition backfill_identity :: "meta \<Rightarrow> walOptions \<Rightarrow> int \<Rightarrow> (fsys, unit) io" where
  "backfill_identity m opts maxRec =
     io_bind (segmentsDirHasRecords maxRec) (\<lambda>hasRecords.
       if hasRecords then io_fail (recordBearingBackfillMismatch m opts)
       else WriteMeta (m\<lparr>mt_SessionID := nonEmpty (mt_SessionID m) (wo_SessionID opts),
                         mt_KeyFingerprint := nonEmpty (mt_KeyFingerprint m) (wo_KeyFingerprint opts),
                         mt_ContextDigest := nonEmpty (mt_ContextDigest m) (wo_ContextDigest opts)\<rparr>))"

text \<open>The metadata part of \<open>Open\<close>: load the acknowledged watermark, check or adopt the identity.\<close>

definition open_meta :: "unit wal_io" where
  "open_meta ws =
     (let opts = w_opts (fst ws); maxRec = w_maxRec (fst ws) in
      case ReadMeta (snd ws) of
        (Inr m, fs') \<Rightarrow>
          io_then
            (modify_wal (\<lambda>w. if mt_AckRecorded m
               then w\<lparr>w_ackHighSeq := mt_AckHighWatermarkSeq m, w_ackHighGen := mt_AckHighWatermarkGen m,
                      w_ackPresent := True\<rparr>
               else w))
            (case mismatched_field m opts of
               Some f \<Rightarrow> io_fail (ErrIdentityMismatch f)
             | None \<Rightarrow> if backfillNeeded m opts then io_snd (backfill_identity m opts maxRec)
                       else io_return ()) (fst ws, fs')
      | (Inl ErrNotExist, fs') \<Rightarrow>
          (if wo_SessionID opts \<noteq> [] \<or> wo_KeyFingerprint opts \<noteq> [] \<or> wo_ContextDigest opts \<noteq> []
           then io_snd (backfill_identity zero_meta opts maxRec) (fst ws, fs')
           else (Inr (), (fst ws, fs')))
      | (Inl e, fs') \<Rightarrow> (Inl e, (fst ws, fs')))"

definition new_wal :: "walOptions \<Rightarrow> wal" where
  "new_wal opts =
     \<lparr>w_opts = opts, w_maxRec = wo_SegmentSize opts - int SegmentHeaderSize, w_current = None, w_closed = False,
      w_fatalErr = None, w_highSeq = 0, w_highGen = 0, w_nextIndex = 0, w_totalBytes = 0,
      w_ackHighSeq = 0, w_ackHighGen = 0, w_ackPresent = False, w_perGenDataHighWater = [],
      w_perGenAnyReplayable = []\<rparr>"

definition Wal_Open :: "walOptions \<Rightarrow> (fsys, wal) io" where
  "Wal_Open opts fs =
     (if wo_Dir opts = [] then (Inl ErrDirRequired, fs)
      else if wo_SegmentSize opts \<le> int SegmentHeaderSize then (Inl ErrSegmentSize, fs)
      else if int MaxFramedPayload < wo_SegmentSize opts - int SegmentHeaderSize then (Inl ErrSegmentSize, fs)
      else if wo_SyncMode opts \<noteq> SyncImmediate then (Inl ErrSyncMode, fs)
      else (case io_then (io_snd (fs_call (\<lambda>fs. (Inr (), fs)))) (io_then open_meta recover) (new_wal opts, fs) of
              (Inl e, ws) \<Rightarrow> (Inl e, snd ws)
            | (Inr _, ws) \<Rightarrow> (Inr (fst ws), snd ws)))"

end
