(* ===== verification/Wal_Live.thy ===== *)
theory Wal_Live
  imports Wal_Log
begin

text \<open>
  The live segment of the write-ahead log: what the buffered writer does to the stream of bytes for
  every schedule of failures, the state of a live segment and that writing and syncing keep it, and
  what recovery makes of the file a crash leaves behind.
\<close>

section \<open>Steps\<close>

lemma io_bind_Inr_iff:
  "io_bind m f s = (Inr y, s'') \<longleftrightarrow> (\<exists>x s'. m s = (Inr x, s') \<and> f x s' = (Inr y, s''))"
  by (auto simp: io_bind_def split: prod.splits sum.splits)

lemma io_then_Inr_iff:
  "io_then m k s = (Inr y, s'') \<longleftrightarrow> (\<exists>x s'. m s = (Inr x, s') \<and> k s' = (Inr y, s''))"
  by (simp add: io_then_def io_bind_Inr_iff)

lemma io_bind_Inl_iff:
  "io_bind m f s = (Inl e, s'') \<longleftrightarrow>
     m s = (Inl e, s'') \<or> (\<exists>x s'. m s = (Inr x, s') \<and> f x s' = (Inl e, s''))"
  by (auto simp: io_bind_def split: prod.splits sum.splits)

lemma io_then_Inl_iff:
  "io_then m k s = (Inl e, s'') \<longleftrightarrow>
     m s = (Inl e, s'') \<or> (\<exists>x s'. m s = (Inr x, s') \<and> k s' = (Inl e, s''))"
  by (simp add: io_then_def io_bind_Inl_iff)

lemma io_then_app:
  "io_then m k s = (case m s of (Inl e, s') \<Rightarrow> (Inl e, s') | (Inr _, s') \<Rightarrow> k s')"
  by (simp add: io_then_def io_bind_def)

lemma io_return_app [simp]: "io_return x s = (Inr x, s)"
  by (simp add: io_return_def)

lemma io_fail_app [simp]: "io_fail e s = (Inl e, s)"
  by (simp add: io_fail_def)

lemma io_snd_iff [simp]: "io_snd m (t, s) = (r, (t', s')) \<longleftrightarrow> t' = t \<and> m s = (r, s')"
  by (auto simp: io_snd_def split: prod.splits)

lemma modify_wal_app [simp]: "modify_wal f (w, fs) = (Inr (), (f w, fs))"
  by (simp add: modify_wal_def)

lemmas io_iffs = io_bind_Inr_iff io_then_Inr_iff io_bind_Inl_iff io_then_Inl_iff

section \<open>The file system\<close>

lemma fs_tick_files: "fs_tick fs = (x, fs') \<Longrightarrow> fs_files fs' = fs_files fs \<and> fs_meta fs' = fs_meta fs"
  by (auto simp: fs_tick_def split: list.splits)

lemma fs_tick_idle: "fs_sched fs = [] \<Longrightarrow> fs_tick fs = (None, fs)"
  by (simp add: fs_tick_def)

lemma lookup_fs_put [simp]:
  "map_of (fs_files (fs_put name bs fs)) n = (if n = name then Some bs else map_of (fs_files fs) n)"
  by (simp add: fs_put_def update_conv')

lemma contents_fs_put [simp]:
  "contents (fs_put name bs fs) n = (if n = name then bs else contents fs n)"
  by (simp add: contents_def)

lemma contents_cong: "fs_files fs' = fs_files fs \<Longrightarrow> contents fs' n = contents fs n"
  by (simp add: contents_def)

lemma fs_write_effect:
  assumes "fs_write name bs fs = (r, fs')"
  shows "\<exists>k. (r = Inr () \<longrightarrow> k = length bs) \<and> contents fs' name = contents fs name @ take k bs \<and>
             lookup_file fs' name = Some (contents fs' name) \<and>
             (\<forall>n. n \<noteq> name \<longrightarrow> lookup_file fs' n = lookup_file fs n)"
proof (cases "fs_tick fs")
  case (Pair x fs1)
  from fs_tick_files [OF Pair] have f: "fs_files fs1 = fs_files fs" "contents fs1 = contents fs"
    by (auto simp: contents_def)
  show ?thesis
  proof (cases x)
    case None
    with assms Pair f show ?thesis
      by (intro exI [of _ "length bs"]) (auto simp: fs_write_def)
  next
    case (Some k)
    with assms Pair f show ?thesis
      by (intro exI [of _ k]) (auto simp: fs_write_def)
  qed
qed

lemma fs_call_pure: "fs_call (Pair (Inr x)) fs = (r, fs') \<Longrightarrow> fs_files fs' = fs_files fs \<and> fs_meta fs' = fs_meta fs"
  by (auto simp: fs_call_def dest: fs_tick_files split: prod.splits option.splits)

lemma fs_sync_files:
  "fs_fsync fs = (r, fs') \<Longrightarrow> fs_files fs' = fs_files fs \<and> fs_meta fs' = fs_meta fs"
  "syncDir fs = (r', fs'') \<Longrightarrow> fs_files fs'' = fs_files fs \<and> fs_meta fs'' = fs_meta fs"
  "fs_close fs = (r'', fs3) \<Longrightarrow> fs_files fs3 = fs_files fs \<and> fs_meta fs3 = fs_meta fs"
  by (auto simp: fs_fsync_def syncDir_def fs_close_def dest!: fs_call_pure)

section \<open>The buffered writer\<close>

definition same_but_buffer :: "segment \<Rightarrow> segment \<Rightarrow> bool" where
  "same_but_buffer s s' =
     (sg_index s' = sg_index s \<and> sg_gen s' = sg_gen s \<and> sg_path s' = sg_path s \<and> sg_open s' = sg_open s \<and>
      sg_bytes s' = sg_bytes s \<and> sg_maxRecordBytes s' = sg_maxRecordBytes s \<and> sg_closed s' = sg_closed s)"

text \<open>
  What a call on the buffered writer does to the stream of bytes: the file grows by a part of what was
  buffered and given, nothing else changes, and after a success file and buffer together hold all
  of it.
\<close>

definition streamed :: "bytes \<Rightarrow> (walError + unit) \<Rightarrow> segment \<times> fsys \<Rightarrow> segment \<times> fsys \<Rightarrow> bool" where
  "streamed p r sf sf' =
     (case sf of (s, fs) \<Rightarrow> case sf' of (s', fs') \<Rightarrow>
        same_but_buffer s s' \<and>
        (\<forall>n. n \<noteq> sg_path s \<longrightarrow> lookup_file fs' n = lookup_file fs n) \<and>
        (lookup_file fs (sg_path s) \<noteq> None \<longrightarrow> lookup_file fs' (sg_path s) \<noteq> None) \<and>
        prefix (contents fs (sg_path s)) (contents fs' (sg_path s)) \<and>
        prefix (contents fs' (sg_path s)) (contents fs (sg_path s) @ sg_buffer s @ p) \<and>
        (r = Inr () \<longrightarrow> \<not> sg_werr s' \<and>
           contents fs' (sg_path s) @ sg_buffer s' = contents fs (sg_path s) @ sg_buffer s @ p))"

lemma streamed_refl: "streamed p (Inl e) sf sf"
  by (cases sf) (auto simp: streamed_def same_but_buffer_def)

lemma streamed_trans:
  assumes "streamed p (Inr ()) sf sf1" and "streamed q r sf1 sf2"
  shows "streamed (p @ q) r sf sf2"
proof -
  obtain s fs s1 fs1 s2 fs2 where [simp]: "sf = (s, fs)" "sf1 = (s1, fs1)" "sf2 = (s2, fs2)"
    by (metis surj_pair)
  have "contents fs1 (sg_path s) @ sg_buffer s1 @ q = contents fs (sg_path s) @ sg_buffer s @ p @ q"
    using assms(1) by (auto simp: streamed_def simp flip: append_assoc)
  with assms show ?thesis
    by (auto simp: streamed_def same_but_buffer_def intro: prefix_order.trans)
qed

lemma streamed_widen:
  "streamed p r sf sf' \<Longrightarrow> r \<noteq> Inr () \<Longrightarrow> streamed (p @ q) r sf sf'"
  by (auto simp: streamed_def intro: prefix_order.trans split: prod.splits)

lemma bufio_put_streamed:
  assumes "bufio_put p (s, fs) = (r, sf')" and "sg_buffer s = []" and "\<not> sg_werr s"
  shows "streamed p r (s, fs) sf'"
proof -
  obtain w fs1 where w: "fs_write (sg_path s) p fs = (w, fs1)" by fastforce
  from fs_write_effect [OF w] obtain k where k:
    "w = Inr () \<longrightarrow> k = length p" "contents fs1 (sg_path s) = contents fs (sg_path s) @ take k p"
    "lookup_file fs1 (sg_path s) \<noteq> None" "\<forall>n. n \<noteq> sg_path s \<longrightarrow> lookup_file fs1 n = lookup_file fs n"
    by auto
  with assms w show ?thesis
    by (cases w) (auto simp: bufio_put_def streamed_def same_but_buffer_def take_is_prefix)
qed

lemma bufio_Flush_streamed:
  assumes "bufio_Flush (s, fs) = (r, sf')"
  shows "streamed [] r (s, fs) sf' \<and> (r = Inr () \<longrightarrow> sg_buffer (fst sf') = [])"
proof (cases "sg_werr s \<or> sg_buffer s = []")
  case True
  with assms show ?thesis
    by (auto simp: bufio_Flush_def Let_def streamed_def same_but_buffer_def split: if_splits)
next
  case False
  let ?s = "s\<lparr>sg_buffer := []\<rparr>"
  from False assms have put: "bufio_put (sg_buffer s) (?s, fs) = (r, sf')"
    by (simp add: bufio_Flush_def Let_def)
  with False have "streamed (sg_buffer s) r (?s, fs) sf'"
    by (intro bufio_put_streamed) simp_all
  moreover have "r = Inr () \<Longrightarrow> sg_buffer (fst sf') = []"
    using put by (auto simp: bufio_put_def split: prod.splits sum.splits)
  ultimately show ?thesis by (auto simp: streamed_def same_but_buffer_def)
qed

lemma bufio_Write_streamed:
  assumes "bufio_Write p (s, fs) = (r, sf')"
  shows "streamed p r (s, fs) sf'"
proof -
  let ?avail = "4096 - length (sg_buffer s)"
  consider "sg_werr s" | "\<not> sg_werr s" "length p \<le> ?avail"
    | "\<not> sg_werr s" "\<not> length p \<le> ?avail" "sg_buffer s = []"
    | "\<not> sg_werr s" "\<not> length p \<le> ?avail" "sg_buffer s \<noteq> []" by blast
  then show ?thesis
  proof cases
    case 1
    with assms show ?thesis by (auto simp: bufio_Write_def Let_def streamed_refl)
  next
    case 2
    with assms show ?thesis
      by (auto simp: bufio_Write_def Let_def streamed_def same_but_buffer_def)
  next
    case 3
    with assms show ?thesis by (intro bufio_put_streamed) (auto simp: bufio_Write_def Let_def)
  next
    case 4
    let ?s = "s\<lparr>sg_buffer := sg_buffer s @ take ?avail p\<rparr>"
    obtain r1 sf1 where fl: "bufio_Flush (?s, fs) = (r1, sf1)" by (rule prod.exhaust)
    from bufio_Flush_streamed [OF fl]
    have st: "streamed (take ?avail p) r1 (s, fs) sf1" and empty: "r1 = Inr () \<longrightarrow> sg_buffer (fst sf1) = []"
      by (auto simp: streamed_def same_but_buffer_def)
    show ?thesis
    proof (cases r1)
      case (Inl e)
      with 4 fl assms have "r = r1" "sf' = sf1" by (auto simp: bufio_Write_def Let_def io_then_app)
      with st Inl streamed_widen [OF st, of "drop ?avail p"] show ?thesis by simp
    next
      case (Inr u)
      from Inr have r1: "r1 = Inr ()" by simp
      obtain s1 fs1 where sf1: "sf1 = (s1, fs1)" by fastforce
      have s1: "sg_buffer s1 = []" "\<not> sg_werr s1"
        using r1 empty st sf1 by (auto simp: streamed_def)
      have "streamed (drop ?avail p) r sf1 sf'"
      proof (cases "length (drop ?avail p) \<le> 4096")
        case True
        with 4 fl assms r1 sf1 s1 show ?thesis
          by (auto simp: bufio_Write_def Let_def io_then_app streamed_def same_but_buffer_def)
      next
        case False
        with 4 fl assms r1 have "bufio_put (drop ?avail p) sf1 = (r, sf')"
          by (auto simp: bufio_Write_def Let_def io_then_app)
        with s1 sf1 show ?thesis by (auto intro: bufio_put_streamed)
      qed
      from streamed_trans [OF st [unfolded r1] this] show ?thesis by simp
    qed
  qed
qed

lemma bufio_two_streamed:
  assumes "io_then (bufio_Write p) (bufio_Write q) (s, fs) = (r, sf')"
  shows "streamed (p @ q) r (s, fs) sf'"
proof -
  obtain r1 s1 fs1 where w: "bufio_Write p (s, fs) = (r1, (s1, fs1))" by (metis surj_pair)
  note st = bufio_Write_streamed [OF w]
  show ?thesis
  proof (cases r1)
    case (Inl e)
    with assms w streamed_widen [OF st, of q] show ?thesis by (auto simp: io_then_app)
  next
    case (Inr u)
    with assms w have "bufio_Write q (s1, fs1) = (r, sf')" by (simp add: io_then_app)
    from streamed_trans [OF _ bufio_Write_streamed [OF this]] st Inr show ?thesis by simp
  qed
qed

section \<open>Live segments\<close>

text \<open>The payloads a reader of a segment file sees.\<close>

definition segment_records :: "int \<Rightarrow> bytes \<Rightarrow> bytes list" where
  "segment_records m bs =
     (case ReadSegmentHeader bs of (Inl _, _) \<Rightarrow> [] | (Inr _, rest) \<Rightarrow> fst (read_records rest m))"

text \<open>
  A segment being written: the file followed by the buffer is a header and whole frames. Between
  operations of the log the buffer is empty.
\<close>

definition seg_stream :: "int \<Rightarrow> segment \<Rightarrow> fsys \<Rightarrow> bytes list \<Rightarrow> bool" where
  "seg_stream m s fs ps =
     (\<not> sg_closed s \<and> sg_open s \<and> \<not> sg_werr s \<and> sg_maxRecordBytes s = m \<and>
      hasSuffix (sg_path s) inprogressSuffix \<and> parseSegmentIndex (sg_path s) = Some (sg_index s) \<and>
      lookup_file fs (sg_path s) \<noteq> None \<and>
      (\<exists>h. ReadSegmentHeader (contents fs (sg_path s) @ sg_buffer s) = (Inr h, frames ps) \<and>
           sh_Generation h = sg_gen s) \<and>
      sg_bytes s = int (length (contents fs (sg_path s) @ sg_buffer s)) \<and>
      (\<forall>p \<in> set ps. fits m p))"

definition seg_live :: "int \<Rightarrow> segment \<Rightarrow> fsys \<Rightarrow> bytes list \<Rightarrow> bool" where
  "seg_live m s fs ps = (seg_stream m s fs ps \<and> sg_buffer s = [])"

lemma ReadSegmentHeader_append:
  "ReadSegmentHeader c = (Inr h, rest) \<Longrightarrow> ReadSegmentHeader (c @ x) = (Inr h, rest @ x)"
  by (auto simp: ReadSegmentHeader_def ReadFull_def Let_def split: if_splits)

lemma ReadSegmentHeader_length:
  "ReadSegmentHeader c = (Inr h, rest) \<Longrightarrow> length c = SegmentHeaderSize + length rest"
  by (auto simp: ReadSegmentHeader_def ReadFull_def Let_def split: if_splits)

lemma records_of_frames:
  assumes "ReadSegmentHeader c = (Inr h, frames ps)" and "max_ok m" and "\<forall>p \<in> set ps. fits m p"
  shows "segment_records m c = ps"
proof -
  have "ReadRecord [] m = (Inl ErrEOF, [])"
    using assms(2) by (auto simp: ReadRecord_def ReadFull_def)
  then have "fst (read_records [] m) = []" by (simp add: read_records.simps)
  with read_records_frames [OF assms(2,3), of "[]"] assms(1) show ?thesis
    by (simp add: segment_records_def)
qed

lemma live_records:
  assumes "seg_live m s fs ps" and "max_ok m"
  shows "segment_records m (contents fs (sg_path s)) = ps"
  using assms by (auto simp: seg_live_def seg_stream_def intro: records_of_frames)

lemma WriteRecord_Inr: "WriteRecord p m = Inr f \<Longrightarrow> f = record_frame p \<and> fits m p \<and> max_ok m"
  by (auto simp: WriteRecord_def split: if_splits)

lemma Segment_WriteRecord_stream:
  assumes "seg_stream m s fs ps" and "Segment_WriteRecord p (s, fs) = (Inr (), (s', fs'))"
  shows "seg_stream m s' fs' (ps @ [p]) \<and> sg_gen s' = sg_gen s \<and> sg_path s' = sg_path s \<and>
         (\<forall>n. n \<noteq> sg_path s \<longrightarrow> lookup_file fs' n = lookup_file fs n)"
proof -
  from assms obtain f where f: "WriteRecord p m = Inr f"
    by (auto simp: Segment_WriteRecord_def seg_stream_def Let_def split: sum.splits if_splits)
  note fr = WriteRecord_Inr [OF f]
  from assms f obtain s1 where
    w: "io_then (bufio_Write (take 8 f)) (bufio_Write (drop 8 f)) (s, fs) = (Inr (), (s1, fs'))" and
    s': "s' = s1\<lparr>sg_bytes := sg_bytes s + int (8 + length p)\<rparr>"
    by (auto simp: Segment_WriteRecord_def seg_stream_def Let_def io_then_Inr_iff split: if_splits)
  have "streamed f (Inr ()) (s, fs) (s1, fs')"
    using bufio_two_streamed [OF w] by simp
  then have st: "same_but_buffer s s1" "\<not> sg_werr s1" "lookup_file fs (sg_path s) \<noteq> None \<longrightarrow> lookup_file fs' (sg_path s) \<noteq> None"
      "contents fs' (sg_path s) @ sg_buffer s1 = (contents fs (sg_path s) @ sg_buffer s) @ record_frame p"
      "\<forall>n. n \<noteq> sg_path s \<longrightarrow> lookup_file fs' n = lookup_file fs n"
    using fr by (auto simp: streamed_def)
  from assms(1) obtain h where
    "ReadSegmentHeader (contents fs (sg_path s) @ sg_buffer s) = (Inr h, frames ps)" "sh_Generation h = sg_gen s"
    by (auto simp: seg_stream_def)
  then have "ReadSegmentHeader (contents fs' (sg_path s) @ sg_buffer s1) = (Inr h, frames (ps @ [p]))"
    by (simp only: st(4) ReadSegmentHeader_append) simp
  moreover have "int (length (contents fs' (sg_path s) @ sg_buffer s1)) =
      int (length (contents fs (sg_path s) @ sg_buffer s)) + int (8 + length p)"
    by (simp only: st(4)) simp
  ultimately show ?thesis
    using assms(1) st fr \<open>sh_Generation h = sg_gen s\<close>
    by (auto simp: seg_stream_def s' same_but_buffer_def)
qed

lemma Segment_Sync_live:
  assumes "seg_stream m s fs ps" and "Segment_Sync (s, fs) = (Inr (), (s', fs'))"
  shows "seg_live m s' fs' ps \<and> sg_gen s' = sg_gen s \<and> sg_path s' = sg_path s \<and>
         (\<forall>n. n \<noteq> sg_path s \<longrightarrow> lookup_file fs' n = lookup_file fs n)"
proof -
  from assms obtain fs1 where fl: "bufio_Flush (s, fs) = (Inr (), (s', fs1))" and
    sy: "fs_fsync fs1 = (Inr (), fs')"
    by (auto simp: Segment_Sync_def seg_stream_def io_then_Inr_iff split: if_splits prod.splits)
  have same: "fs_files fs' = fs_files fs1" using fs_sync_files(1) [OF sy] by simp
  then have c: "contents fs' n = contents fs1 n" for n by (simp add: contents_def)
  from bufio_Flush_streamed [OF fl] have "sg_buffer s' = []"
    "contents fs1 (sg_path s) @ sg_buffer s' = contents fs (sg_path s) @ sg_buffer s"
    "same_but_buffer s s'" "\<not> sg_werr s'" "lookup_file fs (sg_path s) \<noteq> None \<longrightarrow> lookup_file fs1 (sg_path s) \<noteq> None"
    "\<forall>n. n \<noteq> sg_path s \<longrightarrow> lookup_file fs1 n = lookup_file fs n"
    by (auto simp: streamed_def)
  with assms(1) show ?thesis
    by (auto simp: seg_live_def seg_stream_def c same same_but_buffer_def)
qed

section \<open>Segment names\<close>

lemma hasSuffix_append [simp]: "hasSuffix (a @ suf) suf"
  by (simp add: hasSuffix_def)

lemma trimSuffix_append [simp]: "trimSuffix (a @ suf) suf = a"
  by (simp add: trimSuffix_def)

lemma decimal_val_zeros [simp]: "decimal_val (replicate n (CHR ''0'') @ s) = decimal_val s"
proof -
  have "foldl (\<lambda>n c. 10 * n + digit_val c) 0 (replicate n (CHR ''0'')) = 0"
    by (induction n) (simp_all add: digit_val_def)
  then show ?thesis by (simp add: decimal_val_def)
qed

lemma ParseUint_padded: "ParseUint (replicate n (CHR ''0'') @ FormatUint (unat i)) = Some i"
proof -
  have "list_all is_digit (replicate n (CHR ''0'') @ FormatUint (unat i))"
    using FormatUint_digits [of _ "unat i"] by (auto simp: list_all_iff is_digit_def [of "CHR ''0''"])
  moreover have "unat i < 2 ^ 64" using unsigned_less [of i, where ?'a = nat] by simp
  ultimately show ?thesis by (simp add: ParseUint_def)
qed

lemma live_name:
  "hasSuffix (segmentName i @ inProgressSuffix) inprogressSuffix"
  "parseSegmentIndex (segmentName i @ inProgressSuffix) = Some i"
proof -
  let ?d = "replicate (10 - length (FormatUint (unat i))) (CHR ''0'') @ FormatUint (unat i)"
  have eq: "segmentName i @ inProgressSuffix = ?d @ inprogressSuffix"
    by (simp add: segmentName_def Let_def)
  show "hasSuffix (segmentName i @ inProgressSuffix) inprogressSuffix"
    unfolding eq by (rule hasSuffix_append)
  then show "parseSegmentIndex (segmentName i @ inProgressSuffix) = Some i"
    unfolding parseSegmentIndex_def by (simp only: eq trimSuffix_append ParseUint_padded simp_thms if_True)
qed

section \<open>Recovery of the live segment\<close>

lemma fs_call_idle: "fs_sched fs = [] \<Longrightarrow> fs_call f fs = f fs"
  by (simp add: fs_call_def fs_tick_idle)

lemma fs_call_Inr:
  assumes "fs_call f fs = (Inr x, fs')"
  obtains fs1 where "f fs1 = (Inr x, fs')" "fs_files fs1 = fs_files fs" "fs_meta fs1 = fs_meta fs"
  using assms by (auto simp: fs_call_def dest: fs_tick_files split: prod.splits option.splits)

lemma fs_open_Inr: "fs_open name fs = (Inr bs, fs') \<Longrightarrow> lookup_file fs name = Some bs \<and> fs_files fs' = fs_files fs"
  by (auto simp: fs_open_def elim!: fs_call_Inr split: option.splits)

lemma fs_stat_Inr:
  "fs_stat name fs = (Inr n, fs') \<Longrightarrow>
   (\<exists>bs. lookup_file fs name = Some bs \<and> n = int (length bs)) \<and> fs_files fs' = fs_files fs"
  by (auto simp: fs_stat_def elim!: fs_call_Inr split: option.splits)

lemma ReadSegmentHeader_take:
  "ReadSegmentHeader c = (Inr h, r @ t) \<Longrightarrow>
   ReadSegmentHeader (take (SegmentHeaderSize + length r) c) = (Inr h, r)"
  by (auto simp: ReadSegmentHeader_def ReadFull_def Let_def drop_take split: if_splits)

lemma truncateLiveSegment_Inr:
  assumes "truncateLiveSegment path n fs = (Inr (), fs')" and "lookup_file fs path = Some c"
    and "0 \<le> n" and "n \<le> int (length c)"
  shows "lookup_file fs' path = Some (take (nat n) c) \<and>
         (\<forall>k. k \<noteq> path \<longrightarrow> lookup_file fs' k = lookup_file fs k)"
proof -
  from assms(1) obtain bs fs1 sz fs2 where
    op: "fs_open path fs = (Inr bs, fs1)" and st: "fs_stat path fs1 = (Inr sz, fs2)" and
    rest: "(if sz = n then io_return () else io_then (fs_truncate path n) (io_then fs_fsync syncDir)) fs2 = (Inr (), fs')"
    by (auto simp: truncateLiveSegment_def io_bind_Inr_iff)
  have files: "fs_files fs2 = fs_files fs" "sz = int (length c)"
    using fs_open_Inr [OF op] fs_stat_Inr [OF st] assms(2) by auto
  show ?thesis
  proof (cases "sz = n")
    case True
    with rest files assms(2) show ?thesis by auto
  next
    case False
    with rest obtain fs3 fs4 where tr: "fs_truncate path n fs2 = (Inr (), fs3)" and
      sy: "fs_fsync fs3 = (Inr (), fs4)" "syncDir fs4 = (Inr (), fs')"
      by (auto simp: io_then_Inr_iff)
    have "fs_files fs' = fs_files fs3"
      using fs_sync_files(1) [OF sy(1)] fs_sync_files(2) [OF sy(2)] by simp
    moreover from tr obtain fs5 where
      "fs3 = fs_put path (take (nat n) (contents fs5 path) @ replicate (nat n - length (contents fs5 path)) 0) fs5"
      "fs_files fs5 = fs_files fs2"
      by (auto simp: fs_truncate_def Let_def elim!: fs_call_Inr)
    ultimately show ?thesis
      using files assms(2-4) by (auto simp: contents_def nat_le_iff)
  qed
qed

lemma ReopenSegment_Inr:
  assumes "ReopenSegment path m fs = (Inr s, fs')" and "lookup_file fs path = Some c"
    and "ReadSegmentHeader c = (Inr h, frames ps)" and "\<forall>p \<in> set ps. fits m p"
  shows "seg_live m s fs' ps \<and> sg_path s = path \<and> max_ok m \<and> sg_gen s = sh_Generation h \<and> fs_files fs' = fs_files fs"
proof -
  from assms(1) have m: "validateMaxRecordBytes m = None"
    by (auto simp: ReopenSegment_def split: option.splits)
  with assms(1) obtain bs fs1 sz where op: "fs_open path fs = (Inr bs, fs1)" and
    st: "fs_stat path fs1 = (Inr sz, fs')" and
    s: "hasSuffix path inprogressSuffix" "\<exists>idx. ParseUint (trimSuffix path inprogressSuffix) = Some idx \<and>
       s = \<lparr>sg_index = idx, sg_gen = sh_Generation h, sg_path = path, sg_open = True, sg_buffer = [],
            sg_werr = False, sg_bytes = sz, sg_maxRecordBytes = m, sg_closed = False\<rparr>"
    using assms(2,3)
    by (auto simp: ReopenSegment_def io_bind_Inr_iff dest!: fs_open_Inr split: if_splits sum.splits option.splits)
  have files: "fs_files fs' = fs_files fs" "sz = int (length c)"
    using fs_open_Inr [OF op] fs_stat_Inr [OF st] assms(2) by auto
  then have "contents fs' path = c" using assms(2) by (simp add: contents_def)
  with files s assms(2-4) m show ?thesis
    by (auto simp: seg_live_def seg_stream_def parseSegmentIndex_def validateMaxRecordBytes_def split: if_splits)
qed

lemma scan_keeps:
  "w_maxRec (foldl (scan_step g) w ps) = w_maxRec w \<and> w_totalBytes (foldl (scan_step g) w ps) = w_totalBytes w \<and>
   w_opts (foldl (scan_step g) w ps) = w_opts w \<and> w_closed (foldl (scan_step g) w ps) = w_closed w \<and>
   w_fatalErr (foldl (scan_step g) w ps) = w_fatalErr w \<and> w_current (foldl (scan_step g) w ps) = w_current w"
proof (induction ps arbitrary: w)
  case (Cons p ps)
  have "w_maxRec (scan_step g w p) = w_maxRec w \<and> w_totalBytes (scan_step g w p) = w_totalBytes w \<and>
    w_opts (scan_step g w p) = w_opts w \<and> w_closed (scan_step g w p) = w_closed w \<and>
    w_fatalErr (scan_step g w p) = w_fatalErr w \<and> w_current (scan_step g w p) = w_current w"
    by (auto simp: scan_step_def note_replayable_def note_data_def split: option.splits)
  with Cons show ?case by simp
qed simp

lemma scanForRecovery_Inr:
  assumes "scanForRecovery path (w, fs) = (Inr n, (w1, fs1))"
  shows "\<exists>c h rest ps err. lookup_file fs path = Some c \<and> fs_files fs1 = fs_files fs \<and>
     ReadSegmentHeader c = (Inr h, rest) \<and> read_records rest (w_maxRec w) = (ps, err) \<and>
     n = int SegmentHeaderSize + int (length (frames ps)) \<and>
     w1 = foldl (scan_step (sh_Generation h)) (w\<lparr>w_highGen := sh_Generation h\<rparr>) ps"
proof -
  obtain r0 fs0 where op: "fs_open path fs = (r0, fs0)" by fastforce
  with assms obtain c where c: "r0 = Inr c"
    by (cases r0) (auto simp: scanForRecovery_def io_bind_def io_snd_def)
  obtain hh rest where hh: "ReadSegmentHeader c = (hh, rest)" by fastforce
  with assms op c obtain h where h: "hh = Inr h"
    by (cases hh) (auto simp: scanForRecovery_def io_bind_def io_snd_def)
  obtain ps err where rr: "read_records rest (w_maxRec w) = (ps, err)" by fastforce
  show ?thesis
    using assms op c hh h rr fs_open_Inr [of path fs c fs0]
    by (intro exI [of _ c] exI [of _ h] exI [of _ rest] exI [of _ ps] exI [of _ err])
      (auto simp: scanForRecovery_def io_bind_def io_snd_def Let_def split: if_splits)
qed

lemma recover_live_Inr:
  assumes "recover_live sealed inProgress (w, fs) = (Inr (), (w', fs'))" and "pickMaxByIndex inProgress = Some e"
  shows "\<exists>s ps. w_current w' = Some s \<and> seg_live (w_maxRec w) s fs' ps \<and> max_ok (w_maxRec w) \<and>
            sg_path s = se_name e \<and> segment_records (w_maxRec w) (contents fs (se_name e)) = ps \<and>
            (\<forall>n. n \<noteq> se_name e \<longrightarrow> lookup_file fs' n = lookup_file fs n)"
proof -
  let ?path = "se_name e" and ?m = "w_maxRec w"
  from assms obtain n w1 fs1 fs2 seg where
    sc: "scanForRecovery ?path (w, fs) = (Inr n, (w1, fs1))" and
    tr: "truncateLiveSegment ?path n fs1 = (Inr (), fs2)" and
    re: "ReopenSegment ?path (w_maxRec w1) fs2 = (Inr seg, fs')" and
    cur: "w_current w' = Some seg"
    by (auto simp: recover_live_def io_bind_Inr_iff io_then_Inr_iff)
  from sc obtain c h rest ps err where
    c: "lookup_file fs ?path = Some c" "fs_files fs1 = fs_files fs" and
    h: "ReadSegmentHeader c = (Inr h, rest)" and rr: "read_records rest ?m = (ps, err)" and
    n: "n = int SegmentHeaderSize + int (length (frames ps))" and
    w1: "w1 = foldl (scan_step (sh_Generation h)) (w\<lparr>w_highGen := sh_Generation h\<rparr>) ps"
    using scanForRecovery_Inr [OF sc] by blast
  from read_records_prefix [OF rr] obtain t where t: "rest = frames ps @ t" "\<forall>p \<in> set ps. fits ?m p" by blast
  have len: "length c = SegmentHeaderSize + length (frames ps) + length t"
    using ReadSegmentHeader_length [OF h] t by simp
  let ?k = "SegmentHeaderSize + length (frames ps)"
  have trunc: "lookup_file fs2 ?path = Some (take ?k c)"
     "\<forall>k. k \<noteq> ?path \<longrightarrow> lookup_file fs2 k = lookup_file fs1 k"
    using truncateLiveSegment_Inr [OF tr, of c] c len n by (auto simp: nat_int_add)
  have m1: "w_maxRec w1 = ?m" by (simp add: w1 scan_keeps)
  have hd: "ReadSegmentHeader (take ?k c) = (Inr h, frames ps)"
    using ReadSegmentHeader_take [of c h "frames ps" t] h t by simp
  note live = ReopenSegment_Inr [OF re [unfolded m1] trunc(1) hd t(2)]
  have "segment_records ?m (contents fs ?path) = ps"
    using c h rr by (simp add: contents_def segment_records_def)
  with live cur trunc(2) c(2) show ?thesis by auto
qed

lemma idle_files [simp]: "fs_sched fs = [] \<Longrightarrow> fs_sched (fs_put n bs fs) = []"
  by (simp add: fs_put_def)

lemma keys_fs_put: "lookup_file fs n \<noteq> None \<Longrightarrow> map fst (fs_files (fs_put n bs fs)) = map fst (fs_files fs)"
  by (simp add: fs_put_def update_keys map_of_eq_None_iff)

lemma fs_open_idle: "fs_sched fs = [] \<Longrightarrow> lookup_file fs n = Some bs \<Longrightarrow> fs_open n fs = (Inr bs, fs)"
  by (simp add: fs_open_def fs_call_idle)

lemma fs_stat_idle:
  "fs_sched fs = [] \<Longrightarrow> lookup_file fs n = Some bs \<Longrightarrow> fs_stat n fs = (Inr (int (length bs)), fs)"
  by (simp add: fs_stat_def fs_call_idle)

text \<open>On a working disk recovery of a readable live segment always succeeds.\<close>

lemma recover_live_idle:
  assumes idle: "fs_sched fs = []" and e: "pickMaxByIndex inProgress = Some e"
    and name: "hasSuffix (se_name e) inprogressSuffix" "parseSegmentIndex (se_name e) = Some idx"
    and c: "lookup_file fs (se_name e) = Some c" "ReadSegmentHeader c = (Inr h, rest)"
    and stop: "stops_scan (snd (read_records rest (w_maxRec w)))" and m: "max_ok (w_maxRec w)"
  shows "\<exists>w' fs'. recover_live sealed inProgress (w, fs) = (Inr (), (w', fs')) \<and> fs_sched fs' = [] \<and>
           map fst (fs_files fs') = map fst (fs_files fs) \<and> w_totalBytes w' = w_totalBytes w"
proof -
  obtain ps err where rr: "read_records rest (w_maxRec w) = (ps, err)" by fastforce
  from read_records_prefix [OF rr] obtain t where t: "rest = frames ps @ t" by blast
  let ?n = "int SegmentHeaderSize + int (length (frames ps))" and ?g = "sh_Generation h"
  let ?w = "foldl (scan_step ?g) (w\<lparr>w_highGen := ?g\<rparr>) ps"
  let ?k = "SegmentHeaderSize + length (frames ps)"
  have sc: "scanForRecovery (se_name e) (w, fs) = (Inr ?n, (?w, fs))"
    using stop rr c by (simp add: scanForRecovery_def io_bind_def io_snd_def fs_open_idle [OF idle] Let_def)
  have len: "length c = ?k + length t"
    using ReadSegmentHeader_length [OF c(2)] t by simp
  define fs1 where "fs1 = (if length c = ?k then fs else fs_put (se_name e) (take ?k c) fs)"
  have tr: "truncateLiveSegment (se_name e) ?n fs = (Inr (), fs1)"
    using len idle c(1)
    by (auto simp: truncateLiveSegment_def io_bind_def io_then_def fs_open_idle fs_stat_idle fs1_def
        fs_truncate_def fs_fsync_def syncDir_def fs_call_idle contents_def nat_int_add Let_def)
  have f1: "fs_sched fs1 = []" "lookup_file fs1 (se_name e) = Some (take ?k c)"
      "map fst (fs_files fs1) = map fst (fs_files fs)"
    using idle c(1) len by (auto simp: fs1_def keys_fs_put)
  have "ReadSegmentHeader (take ?k c) = (Inr h, frames ps)"
    using ReadSegmentHeader_take [of c h "frames ps" t] c(2) t by simp
  then have "\<exists>s. ReopenSegment (se_name e) (w_maxRec w) fs1 = (Inr s, fs1)"
    using f1 m name len
    by (simp add: ReopenSegment_def validateMaxRecordBytes_def io_bind_def fs_open_idle fs_stat_idle
        parseSegmentIndex_def)
  then obtain s where "ReopenSegment (se_name e) (w_maxRec w) fs1 = (Inr s, fs1)" by blast
  then show ?thesis
    using sc tr f1 e by (simp add: recover_live_def io_bind_def io_then_def io_snd_def scan_keeps)
qed

end
