(* ===== verification/Wal_Crash.thy ===== *)
theory Wal_Crash
  imports Wal_Live
begin

text \<open>
  A crash during an append to the write-ahead log: what a write with any failures leaves in the live
  file, and that recovery of the directory succeeds on it and finds the old records or the old
  records and the new one.
\<close>

section \<open>A crash during an append\<close>

lemma torn_append:
  assumes live: "seg_live m s fs ps"
    and run: "io_then (Segment_WriteRecord p) Segment_Sync (s, fs) = (r, (s', fs'))"
  shows "\<exists>k. contents fs' (sg_path s) = contents fs (sg_path s) @ take k (record_frame p) \<and>
             (r = Inr () \<longrightarrow> length (record_frame p) \<le> k) \<and> (0 < k \<longrightarrow> fits m p) \<and>
             lookup_file fs' (sg_path s) \<noteq> None \<and>
             (\<forall>n. n \<noteq> sg_path s \<longrightarrow> lookup_file fs' n = lookup_file fs n)"
proof (cases "WriteRecord p m")
  case (Inl e)
  then have "Segment_WriteRecord p (s, fs) = (Inl e, (s, fs))"
    using live by (simp add: Segment_WriteRecord_def seg_live_def seg_stream_def Let_def)
  then show ?thesis
    using run live by (intro exI [of _ 0]) (auto simp: io_then_app seg_live_def seg_stream_def)
next
  case (Inr f)
  note fr = WriteRecord_Inr [OF Inr]
  obtain r1 s1 fs1 where
    w: "io_then (bufio_Write (take 8 f)) (bufio_Write (drop 8 f)) (s, fs) = (r1, (s1, fs1))"
    by (metis surj_pair)
  have st: "streamed f r1 (s, fs) (s1, fs1)" using bufio_two_streamed [OF w] by simp
  have "\<exists>sb. streamed f r (s, fs) (sb, fs') \<and> (r = Inr () \<longrightarrow> sg_buffer sb = [])"
  proof (cases r1)
    case (Inl e)
    then have "r = r1" "fs' = fs1"
      using run w Inr live
      by (auto simp: Segment_WriteRecord_def seg_live_def seg_stream_def Let_def io_then_app)
    with st Inl show ?thesis by auto
  next
    case (Inr u)
    define s2 where "s2 = s1\<lparr>sg_bytes := sg_bytes s + int (8 + length p)\<rparr>"
    have op: "\<not> sg_closed s2"
      using st live by (simp add: s2_def streamed_def same_but_buffer_def seg_live_def seg_stream_def)
    have "Segment_WriteRecord p (s, fs) = (Inr (), (s2, fs1))"
      using w Inr \<open>WriteRecord p m = Inr f\<close> live
      by (auto simp: Segment_WriteRecord_def seg_live_def seg_stream_def Let_def io_then_app s2_def)
    with run op have sync: "io_then bufio_Flush (io_snd fs_fsync) (s2, fs1) = (r, (s', fs'))"
      by (simp add: io_then_app Segment_Sync_def)
    obtain r3 s3 fs3 where fl: "bufio_Flush (s2, fs1) = (r3, (s3, fs3))" by (metis surj_pair)
    note fls = bufio_Flush_streamed [OF fl]
    from sync fl have "fs_files fs' = fs_files fs3" and r3: "r = Inr () \<longrightarrow> r3 = Inr ()" "isl r3 \<longrightarrow> r = r3"
      by (auto simp: io_then_app io_snd_def dest: fs_sync_files split: sum.splits prod.splits)
    moreover have "streamed [] r3 (s1, fs1) (s3\<lparr>sg_bytes := sg_bytes s1\<rparr>, fs3)"
      using fls by (auto simp: streamed_def same_but_buffer_def s2_def)
    from streamed_trans [OF _ this, of f "(s, fs)"] st Inr
    have "streamed f r3 (s, fs) (s3\<lparr>sg_bytes := sg_bytes s1\<rparr>, fs3)" by simp
    ultimately have "streamed f r (s, fs) (s3\<lparr>sg_bytes := sg_bytes s1\<rparr>, fs')"
      by (auto simp: streamed_def contents_def)
    with fls r3 show ?thesis by auto
  qed
  then obtain sb where sb: "streamed f r (s, fs) (sb, fs')" "r = Inr () \<longrightarrow> sg_buffer sb = []" by blast
  then obtain x where x: "contents fs' (sg_path s) = contents fs (sg_path s) @ x" "prefix x f"
    using live by (auto simp: streamed_def seg_live_def prefix_def)
  then have "x = take (length x) f" by (auto simp: prefix_def)
  with sb x fr live show ?thesis
    by (intro exI [of _ "length x"]) (auto simp: streamed_def seg_live_def seg_stream_def)
qed

lemma write_framed_segment:
  assumes "w_current w = Some s" and "wo_SyncMode (w_opts w) = SyncImmediate"
    and "write_framed seq gen payload (w, fs) = (r, (w', fs'))"
  shows "\<exists>r1 s'. io_then (Segment_WriteRecord (encodeSeqGenFrame seq gen payload)) Segment_Sync (s, fs) = (r1, (s', fs')) \<and>
           (isl r \<longleftrightarrow> isl r1) \<and> w_current w' = Some s'"
proof -
  let ?p = "encodeSeqGenFrame seq gen payload"
  obtain r1 s1 fs1 where w: "Segment_WriteRecord ?p (s, fs) = (r1, (s1, fs1))" by (metis surj_pair)
  obtain r2 s2 fs2 where sy: "Segment_Sync (s1, fs1) = (r2, (s2, fs2))" by (metis surj_pair)
  show ?thesis
    using assms w sy
    by (cases r1; cases r2)
      (auto simp: write_framed_def Let_def io_then_app ambiguous_def on_current_def failAmbiguousLocked_def
        note_replayable_def note_data_def split: option.splits)
qed

lemma set_map_filter: "set (List.map_filter f xs) = {y. \<exists>x \<in> set xs. f x = Some y}"
  by (induction xs) (auto simp: List.map_filter_simps split: option.splits)

lemma set_entries:
  "set (sealed_entries names) = {\<lparr>se_name = n, se_idx = i\<rparr> | n i. n \<in> set names \<and> is_sealed_name n \<and> parseSegmentIndex n = Some i}"
  "set (inprogress_entries names) =
     {\<lparr>se_name = n, se_idx = i\<rparr> | n i. n \<in> set names \<and> hasSuffix n inprogressSuffix \<and> parseSegmentIndex n = Some i}"
  by (auto simp: sealed_entries_def inprogress_entries_def set_map_filter entry_for_def)

lemma pickMaxByIndex_unique:
  assumes "set xs = {e}"
  shows "pickMaxByIndex xs = Some e"
proof (cases xs)
  case (Cons x ys)
  have "\<forall>y \<in> set ys. y = e \<Longrightarrow> foldl (\<lambda>m e. if se_idx m < se_idx e then e else m) e ys = e" for ys
    by (induction ys) auto
  with assms Cons show ?thesis by (auto simp: pickMaxByIndex_def)
qed (use assms in simp)

lemma total_bytes_loop_idle:
  assumes "fs_sched fs = []" and "\<forall>e \<in> set es. lookup_file fs (se_name e) \<noteq> None"
  shows "\<exists>n. total_bytes_loop es (w, fs) = (Inr (), (w\<lparr>w_totalBytes := n\<rparr>, fs))"
  using assms(2)
proof (induction es arbitrary: w)
  case Nil
  have "w = w\<lparr>w_totalBytes := w_totalBytes w\<rparr>" by simp
  then show ?case by (metis total_bytes_loop.simps(1))
next
  case (Cons e es)
  then obtain bs where "lookup_file fs (se_name e) = Some bs" by auto
  then have st: "fs_stat (se_name e) fs = (Inr (int (length bs)), fs)"
    by (rule fs_stat_idle [OF assms(1)])
  obtain n where "total_bytes_loop es (w\<lparr>w_totalBytes := w_totalBytes w + int (length bs)\<rparr>, fs) =
      (Inr (), (w\<lparr>w_totalBytes := n\<rparr>, fs))"
    using Cons.IH [of "w\<lparr>w_totalBytes := w_totalBytes w + int (length bs)\<rparr>"] Cons.prems by auto
  with st show ?case
    by (auto simp: io_bind_def io_then_def io_snd_def)
qed

lemma segmentHighSeqAndGen_files:
  "segmentHighSeqAndGen path m fs = (r, fs') \<Longrightarrow> fs_files fs' = fs_files fs \<and> fs_meta fs' = fs_meta fs"
  by (auto simp: segmentHighSeqAndGen_def io_bind_def fs_open_def fs_call_def dest!: fs_tick_files
      split: prod.splits sum.splits option.splits)

lemma note_keeps [simp]:
  "w_current (note_replayable g w) = w_current w" "w_current (note_data g q w) = w_current w"
  "w_maxRec (note_replayable g w) = w_maxRec w" "w_maxRec (note_data g q w) = w_maxRec w"
  "w_opts (note_replayable g w) = w_opts w" "w_opts (note_data g q w) = w_opts w"
  "w_fatalErr (note_replayable g w) = w_fatalErr w" "w_fatalErr (note_data g q w) = w_fatalErr w"
  "w_closed (note_replayable g w) = w_closed w" "w_closed (note_data g q w) = w_closed w"
  "w_ackPresent (note_replayable g w) = w_ackPresent w" "w_ackPresent (note_data g q w) = w_ackPresent w"
  "w_ackHighGen (note_replayable g w) = w_ackHighGen w" "w_ackHighGen (note_data g q w) = w_ackHighGen w"
  "w_ackHighSeq (note_replayable g w) = w_ackHighSeq w" "w_ackHighSeq (note_data g q w) = w_ackHighSeq w"
  by (auto simp: note_replayable_def note_data_def split: option.splits)

lemma seed_loop_keeps:
  "seed_loop es (w, fs) = (w', fs') \<Longrightarrow>
   w_current w' = w_current w \<and> w_maxRec w' = w_maxRec w \<and> w_opts w' = w_opts w \<and> w_closed w' = w_closed w \<and>
   w_fatalErr w' = w_fatalErr w \<and> fs_files fs' = fs_files fs"
proof (induction es arbitrary: w fs)
  case (Cons e es)
  obtain r fs1 where h: "segmentHighSeqAndGen (se_name e) (w_maxRec w) fs = (r, fs1)" by fastforce
  with Cons.prems segmentHighSeqAndGen_files [OF h] show ?case
    by (auto simp: Let_def dest!: Cons.IH split: sum.splits if_splits)
qed simp

lemma seg_live_files: "fs_files fs' = fs_files fs \<Longrightarrow> seg_live m s fs' ps = seg_live m s fs ps"
  by (simp add: seg_live_def seg_stream_def contents_def)

lemma recover_idle:
  assumes idle: "fs_sched fs = []" and name: "hasSuffix path inprogressSuffix" "parseSegmentIndex path = Some idx"
    and only: "\<forall>n. hasSuffix n inprogressSuffix \<and> lookup_file fs n \<noteq> None \<longrightarrow> n = path"
    and c: "lookup_file fs path = Some c" "ReadSegmentHeader c = (Inr h, rest)"
    and stop: "stops_scan (snd (read_records rest (w_maxRec w)))" and m: "max_ok (w_maxRec w)"
  shows "\<exists>w' fs' s ps. recover (w, fs) = (Inr (), (w', fs')) \<and> w_current w' = Some s \<and> sg_path s = path \<and>
           seg_live (w_maxRec w) s fs' ps \<and> ps = segment_records (w_maxRec w) c \<and>
           (\<forall>n. n \<noteq> path \<longrightarrow> lookup_file fs' n = lookup_file fs n)"
proof -
  let ?names = "map fst (fs_files fs)" and ?e = "\<lparr>se_name = path, se_idx = idx\<rparr>"
  let ?sealed = "sealed_entries ?names" and ?inp = "inprogress_entries ?names"
  define w1 where "w1 = w\<lparr>w_nextIndex := max_index ?sealed ?inp + 1\<rparr>"
  have names: "n \<in> set ?names \<longleftrightarrow> lookup_file fs n \<noteq> None" for n
    by (simp add: map_of_eq_None_iff image_iff)
  have "set ?inp = {?e}"
    using only name c(1) unfolding set_entries names by fastforce
  then have e: "pickMaxByIndex ?inp = Some ?e" by (rule pickMaxByIndex_unique)
  obtain w2 fs2 where rl: "recover_live ?sealed ?inp (w1, fs) = (Inr (), (w2, fs2))" and
    f2: "fs_sched fs2 = []" "map fst (fs_files fs2) = ?names"
    using recover_live_idle [OF idle e, of idx c h rest w1 ?sealed] name c stop m by (auto simp: w1_def)
  from recover_live_Inr [OF rl e] obtain s where
    s: "w_current w2 = Some s" "sg_path s = path" "seg_live (w_maxRec w) s fs2 (segment_records (w_maxRec w) c)"
       "\<forall>n. n \<noteq> path \<longrightarrow> lookup_file fs2 n = lookup_file fs n"
    using c(1) by (auto simp: w1_def contents_def)
  have there: "\<forall>x \<in> set ?sealed \<union> set ?inp. lookup_file fs2 (se_name x) \<noteq> None"
    unfolding set_entries using f2(2) by (auto simp: map_of_eq_None_iff simp flip: set_map)
  obtain n1 where t1: "total_bytes_loop ?sealed (w2, fs2) = (Inr (), (w2\<lparr>w_totalBytes := n1\<rparr>, fs2))"
    using total_bytes_loop_idle [OF f2(1), of ?sealed w2] there by auto
  obtain n2 where t2: "total_bytes_loop ?inp (w2\<lparr>w_totalBytes := n1\<rparr>, fs2) =
      (Inr (), (w2\<lparr>w_totalBytes := n1, w_totalBytes := n2\<rparr>, fs2))"
    using total_bytes_loop_idle [OF f2(1), of ?inp "w2\<lparr>w_totalBytes := n1\<rparr>"] there by auto
  obtain w3 fs3 where sd: "seed_loop (?sealed @ ?inp) (w2\<lparr>w_totalBytes := n1, w_totalBytes := n2\<rparr>, fs2) = (w3, fs3)"
    by fastforce
  have rd: "io_snd fs_readdir (w, fs) = (Inr ?names, (w, fs))"
    by (simp add: fs_readdir_def fs_call_idle [OF idle])
  have "recover (w, fs) = (Inr (), (w3, fs3))"
    unfolding recover_def io_bind_Inr_iff io_then_Inr_iff Let_def
    by (intro exI conjI, rule rd, unfold modify_wal_app, rule refl, unfold w1_def [symmetric], rule rl, rule t1,
        rule t2, simp only: sd)
  moreover note keeps = seed_loop_keeps [OF sd]
  moreover have "seg_live (w_maxRec w) s fs3 = seg_live (w_maxRec w) s fs2"
    using keeps by (intro ext seg_live_files) simp
  ultimately show ?thesis using s by auto
qed

text \<open>The state of the log between operations, as long as nothing has gone wrong.\<close>

definition wal_inv :: "wal \<times> fsys \<Rightarrow> bool" where
  "wal_inv ws =
     (let w = fst ws in
      max_ok (w_maxRec w) \<and> w_maxRec w = wo_SegmentSize (w_opts w) - int SegmentHeaderSize \<and>
      wo_SyncMode (w_opts w) = SyncImmediate \<and>
      (case w_current w of None \<Rightarrow> True | Some s \<Rightarrow> \<exists>ps. seg_live (w_maxRec w) s (snd ws) ps))"

lemma read_torn:
  assumes "max_ok m" and "\<forall>q \<in> set ps. fits m q" and "0 < k \<longrightarrow> fits m p"
  shows "\<exists>e. read_records (frames ps @ take k (record_frame p)) m =
            (if length (record_frame p) \<le> k then ps @ [p] else ps, e) \<and> stops_scan e"
proof -
  have nil: "fst (ReadRecord [] m) = Inl ErrEOF" using assms(1) by (auto simp: ReadRecord_def ReadFull_def)
  consider "k = 0" | "0 < k" "k < length (record_frame p)" | "0 < k" "length (record_frame p) \<le> k" by linarith
  then show ?thesis
  proof cases
    case 1
    then show ?thesis
      using read_records_frames [OF assms(1,2), of "[]"] read_records_stop [OF nil] by (simp add: stops_scan_def)
  next
    case 2
    then have "fst (ReadRecord (take k (record_frame p)) m) = Inl ErrUnexpectedEOF"
      using ReadRecord_torn [OF assms(1), of p k] assms(3) by simp
    from read_records_stop [OF this] 2 show ?thesis
      using read_records_frames [OF assms(1,2), of "take k (record_frame p)"] by (simp add: stops_scan_def)
  next
    case 3
    then have "\<forall>q \<in> set (ps @ [p]). fits m q" using assms by simp
    from read_records_frames [OF assms(1) this, of "[]"] 3 read_records_stop [OF nil] show ?thesis
      by (simp add: stops_scan_def)
  qed
qed

text \<open>C6: a crash during an append is atomic. Let the log write a record into its live segment while any
  system call may fail, a write after any number of bytes, and let the process restart on the files
  that leaves. Recovery succeeds, its live segment holds exactly the records from before or those and
  the new one, and it holds the new one whenever the append reported success; no other file changes.
\<close>

theorem append_crash_atomic:
  assumes "w_current w = Some s" and "seg_live (w_maxRec w) s fs ps" and "wal_inv (w, fs)"
    and only: "\<forall>n. hasSuffix n inprogressSuffix \<and> lookup_file fs n \<noteq> None \<longrightarrow> n = sg_path s"
    and run: "write_framed seq gen payload (w, fs) = (r, (w1, fs1))"
  shows "\<exists>w2 fs2 s2 qs. recover (new_wal (w_opts w), fs1\<lparr>fs_sched := []\<rparr>) = (Inr (), (w2, fs2)) \<and>
           w_current w2 = Some s2 \<and> sg_path s2 = sg_path s \<and> seg_live (w_maxRec w) s2 fs2 qs \<and>
           (qs = ps \<or> qs = ps @ [encodeSeqGenFrame seq gen payload]) \<and>
           (\<not> isl r \<longrightarrow> qs = ps @ [encodeSeqGenFrame seq gen payload]) \<and>
           (\<forall>n. n \<noteq> sg_path s \<longrightarrow> lookup_file fs2 n = lookup_file fs n)"
proof -
  let ?p = "encodeSeqGenFrame seq gen payload" and ?m = "w_maxRec w" and ?path = "sg_path s"
  let ?fs = "fs1\<lparr>fs_sched := []\<rparr>" and ?w = "new_wal (w_opts w)"
  have m: "max_ok ?m" "w_maxRec ?w = ?m" and sync: "wo_SyncMode (w_opts w) = SyncImmediate"
    using assms(3) by (auto simp: wal_inv_def Let_def new_wal_def)
  from write_framed_segment [OF assms(1) sync run] obtain r1 s' where
    seg: "io_then (Segment_WriteRecord ?p) Segment_Sync (s, fs) = (r1, (s', fs1))" and r1: "isl r \<longleftrightarrow> isl r1"
    by blast
  from torn_append [OF assms(2) seg] obtain k where k: "contents fs1 ?path = contents fs ?path @ take k (record_frame ?p)"
    "r1 = Inr () \<longrightarrow> length (record_frame ?p) \<le> k" "0 < k \<longrightarrow> fits ?m ?p" "lookup_file fs1 ?path \<noteq> None"
    "\<forall>n. n \<noteq> ?path \<longrightarrow> lookup_file fs1 n = lookup_file fs n" by blast
  from assms(2) obtain h where h: "ReadSegmentHeader (contents fs ?path) = (Inr h, frames ps)"
    and live: "hasSuffix ?path inprogressSuffix" "parseSegmentIndex ?path = Some (sg_index s)" "\<forall>q \<in> set ps. fits ?m q"
    by (auto simp: seg_live_def seg_stream_def)
  let ?c = "contents fs1 ?path" and ?rest = "frames ps @ take k (record_frame ?p)"
  have c: "lookup_file ?fs ?path = Some ?c" "ReadSegmentHeader ?c = (Inr h, ?rest)"
    using k(1,4) ReadSegmentHeader_append [OF h] by (auto simp: contents_def)
  from read_torn [OF m(1) live(3) k(3)] obtain e where
    rr: "read_records ?rest ?m = (if length (record_frame ?p) \<le> k then ps @ [?p] else ps, e)" "stops_scan e" by blast
  have "\<forall>n. hasSuffix n inprogressSuffix \<and> lookup_file ?fs n \<noteq> None \<longrightarrow> n = ?path"
    using only k(5) by auto
  from recover_idle [where w = ?w, OF _ live(1,2) this c] rr m obtain w2 fs2 s2 qs where
    "recover (?w, ?fs) = (Inr (), (w2, fs2))" "w_current w2 = Some s2" "sg_path s2 = ?path" "seg_live ?m s2 fs2 qs"
    "qs = segment_records ?m ?c" "\<forall>n. n \<noteq> ?path \<longrightarrow> lookup_file fs2 n = lookup_file ?fs n"
    by auto
  moreover have "segment_records ?m ?c = (if length (record_frame ?p) \<le> k then ps @ [?p] else ps)"
    using c(2) rr(1) by (simp add: segment_records_def)
  moreover have "\<not> isl r \<Longrightarrow> r1 = Inr ()" using r1 by (cases r1) auto
  ultimately show ?thesis
    using k(2,5) by (intro exI [of _ w2] exI [of _ fs2] exI [of _ s2] exI [of _ qs]) auto
qed

text \<open>A directory with one live segment of generation 3, and the log on it.\<close>

definition sample_options :: walOptions where
  "sample_options =
     \<lparr>wo_Dir = ''wal'', wo_SegmentSize = 200, wo_MaxTotalBytes = 1000, wo_SyncMode = SyncImmediate,
      wo_SessionID = [], wo_KeyFingerprint = [], wo_ContextDigest = []\<rparr>"

definition sample_path :: string where
  "sample_path = ''0000000001.seg.INPROGRESS''"

definition sample_header :: bytes where
  "sample_header = [0x57, 0x54, 0x50, 0x31, 0, 1, 0, 1, 0, 0, 0, 3, 0, 0, 0, 0]"

definition sample_fs :: "nat option list \<Rightarrow> fsys" where
  "sample_fs sched = \<lparr>fs_files = [(sample_path, sample_header)], fs_meta = None, fs_sched = sched\<rparr>"

definition sample_segment :: segment where
  "sample_segment =
     \<lparr>sg_index = 1, sg_gen = 3, sg_path = sample_path, sg_open = True, sg_buffer = [], sg_werr = False,
      sg_bytes = 16, sg_maxRecordBytes = 184, sg_closed = False\<rparr>"

definition sample_wal :: wal where
  "sample_wal = (new_wal sample_options)\<lparr>w_current := Some sample_segment, w_nextIndex := 2\<rparr>"

lemma sample_header_read: "ReadSegmentHeader sample_header = (Inr \<lparr>sh_Version = 1, sh_Flags = 1, sh_Generation = 3\<rparr>, [])"
  by code_simp

lemma sample_path_name: "sample_path = segmentName 1 @ inProgressSuffix"
  by (simp add: sample_path_def segmentName_def FormatUint.simps digit_char_def Let_def) code_simp

lemma sample_names: "hasSuffix sample_path inprogressSuffix" "parseSegmentIndex sample_path = Some 1"
  unfolding sample_path_name by (rule live_name)+

lemma sample_live: "seg_live 184 sample_segment (sample_fs sched) []"
  using sample_header_read sample_names
  by (simp add: seg_live_def seg_stream_def sample_segment_def sample_fs_def contents_def)
    (simp add: sample_header_def)

lemma sample_max: "w_maxRec sample_wal = 184" "w_opts sample_wal = sample_options" "w_current sample_wal = Some sample_segment"
  by (simp_all add: sample_wal_def new_wal_def sample_options_def SegmentHeaderSize_def)

lemma sample_inv: "wal_inv (sample_wal, sample_fs sched)"
  using sample_live [of sched]
  by (auto simp: wal_inv_def Let_def sample_max sample_options_def SegmentHeaderSize_def MaxFramedPayload_def)

text \<open>The write of a record fails after five bytes.\<close>

theorem append_crash_atomic_witness:
  "\<exists>w2 fs2 s2 qs.
     recover (new_wal sample_options, (snd (snd (write_framed 7 3 [1, 2] (sample_wal, sample_fs [Some 5]))))\<lparr>fs_sched := []\<rparr>) =
       (Inr (), (w2, fs2)) \<and>
     w_current w2 = Some s2 \<and> seg_live 184 s2 fs2 qs \<and> (qs = [] \<or> qs = [encodeSeqGenFrame 7 3 [1, 2]])"
proof -
  obtain r w1 fs1 where run: "write_framed 7 3 [1, 2] (sample_wal, sample_fs [Some 5]) = (r, (w1, fs1))"
    by (metis surj_pair)
  have "\<forall>n. hasSuffix n inprogressSuffix \<and> lookup_file (sample_fs [Some 5]) n \<noteq> None \<longrightarrow> n = sg_path sample_segment"
    by (simp add: sample_fs_def sample_segment_def)
  from append_crash_atomic [OF sample_max(3) _ sample_inv this run, of "[]"] sample_live run show ?thesis
    by (auto simp: sample_max)
qed

end
