(* ===== verification/Wal_Collect.thy ===== *)
theory Wal_Collect
  imports Wal_Crash
begin

text \<open>
  Garbage collection in the write-ahead log: what acknowledging and dropping segments may remove, for
  every schedule of failures, and that acknowledgements only move forward.
\<close>

section \<open>Steps that only remove sealed segments\<close>

text \<open>
  A step that changes the files only by removing sealed segments whose contents satisfy a predicate,
  and leaves the live segment and the settings of the log alone.
\<close>

definition removes :: "(bytes \<Rightarrow> bool) \<Rightarrow> wal \<times> fsys \<Rightarrow> wal \<times> fsys \<Rightarrow> bool" where
  "removes R ws ws' =
     (w_current (fst ws') = w_current (fst ws) \<and> w_opts (fst ws') = w_opts (fst ws) \<and>
      w_maxRec (fst ws') = w_maxRec (fst ws) \<and> w_closed (fst ws') = w_closed (fst ws) \<and>
      w_fatalErr (fst ws') = w_fatalErr (fst ws) \<and> w_ackPresent (fst ws') = w_ackPresent (fst ws) \<and>
      w_ackHighGen (fst ws') = w_ackHighGen (fst ws) \<and> w_ackHighSeq (fst ws') = w_ackHighSeq (fst ws) \<and>
      fs_meta (snd ws') = fs_meta (snd ws) \<and>
      (\<forall>n. lookup_file (snd ws') n = lookup_file (snd ws) n \<or>
           is_sealed_name n \<and> lookup_file (snd ws') n = None \<and>
           (\<exists>c. lookup_file (snd ws) n = Some c \<and> R c)))"

lemma removes_refl [simp]: "removes R ws ws"
  by (simp add: removes_def)

lemma removes_files:
  "fs_files fs' = fs_files fs \<and> fs_meta fs' = fs_meta fs \<Longrightarrow> removes R (w, fs) (w, fs')"
  by (simp add: removes_def)

lemma removes_trans:
  assumes "removes R ws1 ws2" and "removes R ws2 ws3"
  shows "removes R ws1 ws3"
  using assms unfolding removes_def by (auto; metis option.distinct(1))

lemma removes_mono: "removes R ws ws' \<Longrightarrow> (\<And>c. R c \<Longrightarrow> S c) \<Longrightarrow> removes S ws ws'"
  unfolding removes_def by blast

lemma fs_stat_files: "fs_stat n fs = (r, fs') \<Longrightarrow> fs_files fs' = fs_files fs \<and> fs_meta fs' = fs_meta fs"
  by (auto simp: fs_stat_def fs_call_def dest!: fs_tick_files split: prod.splits option.splits)

lemma fs_open_files: "fs_open n fs = (r, fs') \<Longrightarrow> fs_files fs' = fs_files fs \<and> fs_meta fs' = fs_meta fs"
  by (auto simp: fs_open_def fs_call_def dest!: fs_tick_files split: prod.splits option.splits)

lemma fs_readdir_files:
  "fs_readdir fs = (r, fs') \<Longrightarrow> fs_files fs' = fs_files fs \<and> fs_meta fs' = fs_meta fs \<and> (\<forall>names. r = Inr names \<longrightarrow> names = map fst (fs_files fs))"
  by (auto simp: fs_readdir_def fs_call_def dest!: fs_tick_files split: prod.splits option.splits)

lemma fs_remove_effect:
  assumes "fs_remove n fs = (r, fs')"
  shows "(\<forall>k. k \<noteq> n \<longrightarrow> lookup_file fs' k = lookup_file fs k) \<and>
         (lookup_file fs' n = lookup_file fs n \<or> lookup_file fs' n = None) \<and> fs_meta fs' = fs_meta fs \<and>
         (r = Inr () \<longrightarrow> lookup_file fs n \<noteq> None \<and> fs_files fs' = AList.delete n (fs_files fs))"
  using assms
  by (auto simp: fs_remove_def fs_call_def delete_conv' dest!: fs_tick_files split: prod.splits option.splits if_splits)

lemma remove_segment_removes:
  assumes "remove_segment name (w, fs) = (r, ws')" and "is_sealed_name name"
    and "\<And>c. lookup_file fs name = Some c \<Longrightarrow> R c"
  shows "removes R (w, fs) ws'"
proof -
  obtain st fs1 where st: "fs_stat name fs = (st, fs1)" by fastforce
  obtain r2 fs2 where rm: "fs_remove name fs1 = (r2, fs2)" by fastforce
  have ws': "snd ws' = fs2" "fst ws' = w \<or> (\<exists>n. fst ws' = w\<lparr>w_totalBytes := n\<rparr>)"
    using assms(1) st rm by (auto simp: remove_segment_def split: sum.splits)
  note f = fs_stat_files [OF st] fs_remove_effect [OF rm]
  have "lookup_file fs2 n = lookup_file fs n \<or>
      is_sealed_name n \<and> lookup_file fs2 n = None \<and> (\<exists>c. lookup_file fs n = Some c \<and> R c)" for n
    using f assms(2,3) by (cases "n = name"; cases "lookup_file fs n") auto
  with ws' f show ?thesis by (auto simp: removes_def)
qed

lemma surviving_gens_files:
  "fs_files (snd (surviving_gens names fs)) = fs_files fs \<and> fs_meta (snd (surviving_gens names fs)) = fs_meta fs"
proof (induction names arbitrary: fs)
  case (Cons name names)
  obtain r fs1 where op: "fs_open name fs = (r, fs1)" by fastforce
  show ?case
    using Cons [of fs] Cons [of fs1] op fs_open_files [OF op]
    by (auto simp: case_prod_beta split: sum.splits)
qed simp

lemma prune_removes: "removes R ws (prunePerGenMapsLocked ws)"
proof (cases ws)
  case (Pair w fs)
  obtain r fs1 where rd: "fs_readdir fs = (r, fs1)" by fastforce
  show ?thesis
  proof (cases r)
    case (Inl e)
    with Pair rd show ?thesis
      using fs_readdir_files [OF rd] by (simp add: prunePerGenMapsLocked_def removes_def)
  next
    case (Inr names)
    obtain gs fs2 where "surviving_gens names fs1 = (gs, fs2)" by fastforce
    with Pair rd Inr show ?thesis
      using fs_readdir_files [OF rd] surviving_gens_files [of names fs1]
      by (simp add: prunePerGenMapsLocked_def removes_def)
  qed
qed

section \<open>Acknowledged segments\<close>

text \<open>Every data record of the segment that a reader sees lies at or below the acknowledged position.\<close>

definition acked_segment :: "wal \<Rightarrow> bytes \<Rightarrow> bool" where
  "acked_segment w c =
     (case ReadSegmentHeader c of
        (Inl _, _) \<Rightarrow> False
      | (Inr h, rest) \<Rightarrow>
          w_ackPresent w \<and>
          list_all (\<lambda>p. isLossMarker p \<or>
              (case parseSeqGen p of
                 None \<Rightarrow> True
               | Some (q, _) \<Rightarrow> sh_Generation h < w_ackHighGen w \<or>
                                 sh_Generation h = w_ackHighGen w \<and> q \<le> w_ackHighSeq w))
            (fst (read_records rest (w_maxRec w))))"

lemma high_step_bounds:
  "foldl high_step (hi, u, a) ps = (hi', u', a') \<Longrightarrow>
   hi \<le> hi' \<and> (u \<longrightarrow> u') \<and>
   (\<forall>p \<in> set ps. \<not> isLossMarker p \<longrightarrow> (\<forall>q g. parseSeqGen p = Some (q, g) \<longrightarrow> q \<le> hi' \<and> u'))"
proof (induction ps arbitrary: hi u a)
  case (Cons p ps)
  obtain h1 u1 a1 where s: "high_step (hi, u, a) p = (h1, u1, a1)" by (metis surj_pair)
  have b: "hi \<le> h1" "u \<longrightarrow> u1" "\<not> isLossMarker p \<longrightarrow> (\<forall>q g. parseSeqGen p = Some (q, g) \<longrightarrow> q \<le> h1 \<and> u1)"
    using s by (auto simp: high_step_def split: if_splits option.splits)
  from Cons.IH [of h1 u1 a1] Cons.prems s
  have ih: "h1 \<le> hi' \<and> (u1 \<longrightarrow> u') \<and>
     (\<forall>p \<in> set ps. \<not> isLossMarker p \<longrightarrow> (\<forall>q g. parseSeqGen p = Some (q, g) \<longrightarrow> q \<le> hi' \<and> u'))" by simp
  with b have "hi \<le> hi'" "u \<longrightarrow> u'" by auto
  moreover from b ih have "\<not> isLossMarker p \<longrightarrow> (\<forall>q g. parseSeqGen p = Some (q, g) \<longrightarrow> q \<le> hi' \<and> u')"
    by (meson order_trans)
  ultimately show ?case using ih by auto
qed simp

lemma segmentHighSeqAndGen_acked:
  assumes "segmentHighSeqAndGen name (w_maxRec w) fs = (Inr (hi, hasUser, segGen, a), fs')"
    and "segmentFullyAckedLocked w segGen hi hasUser" and "lookup_file fs name = Some c"
  shows "acked_segment w c"
proof -
  obtain r fs1 where op: "fs_open name fs = (r, fs1)" by fastforce
  with assms(1) obtain c' where "r = Inr c'"
    by (cases r) (auto simp: segmentHighSeqAndGen_def io_bind_def)
  with op assms(3) fs_open_Inr [of name fs c' fs1] have r: "r = Inr c" by simp
  obtain hh rest where hh: "ReadSegmentHeader c = (hh, rest)" by fastforce
  with assms(1) op r obtain h' where h': "hh = Inr h'"
    by (cases hh) (auto simp: segmentHighSeqAndGen_def io_bind_def)
  obtain hi' u' a' where fo: "foldl high_step (0, False, False) (fst (read_records rest (w_maxRec w))) = (hi', u', a')"
    by (metis surj_pair)
  have h: "ReadSegmentHeader c = (Inr h', rest)" "segGen = sh_Generation h'"
    "foldl high_step (0, False, False) (fst (read_records rest (w_maxRec w))) = (hi, hasUser, a)"
    using assms(1) op r hh h' fo by (auto simp: segmentHighSeqAndGen_def io_bind_def)
  from high_step_bounds [OF h(3)] assms(2) h(1,2) show ?thesis
    by (auto simp: acked_segment_def segmentFullyAckedLocked_def list_all_iff split: option.splits if_splits)
qed

lemma acked_segment_cong:
  assumes "removes R (w, fs) (w', fs')"
  shows "acked_segment w' = acked_segment w"
proof -
  from assms have "w_ackPresent w' = w_ackPresent w" "w_ackHighGen w' = w_ackHighGen w"
    "w_ackHighSeq w' = w_ackHighSeq w" "w_maxRec w' = w_maxRec w"
    by (simp_all add: removes_def)
  then show ?thesis by (intro ext) (simp only: acked_segment_def)
qed

lemma acked_removal:
  assumes h: "segmentHighSeqAndGen name (w_maxRec w) fs = (Inr (hi, u, g, a), fs1)"
    and full: "segmentFullyAckedLocked w g hi u" and rm: "remove_segment name (w, fs1) = (r, ws')"
    and sealed: "is_sealed_name name"
  shows "removes (acked_segment w) (w, fs) ws'"
proof (rule removes_trans [OF removes_files [OF segmentHighSeqAndGen_files [OF h]]], rule remove_segment_removes [OF rm sealed])
  fix c assume "lookup_file fs1 name = Some c"
  then have "lookup_file fs name = Some c" using segmentHighSeqAndGen_files [OF h] by simp
  with segmentHighSeqAndGen_acked [OF h full] show "acked_segment w c" .
qed

lemma gc_acked_loop_removes:
  "gc_acked_loop es k (w, fs) = (r, ws') \<Longrightarrow> \<forall>e \<in> set es. is_sealed_name (se_name e) \<Longrightarrow>
   removes (acked_segment w) (w, fs) ws'"
proof (induction es arbitrary: k w fs)
  case (Cons e es)
  let ?n = "se_name e"
  obtain r1 fs1 where h: "segmentHighSeqAndGen ?n (w_maxRec w) fs = (r1, fs1)" by fastforce
  note f1 = segmentHighSeqAndGen_files [OF h]
  have step: "removes (acked_segment w) (w, fs) (w, fs1)" by (rule removes_files [OF f1])
  show ?case
  proof (cases r1)
    case (Inl e')
    with Cons.prems(1) h step show ?thesis by auto
  next
    case (Inr x)
    obtain hi u g a where x: "x = (hi, u, g, a)" by (metis surj_pair)
    obtain r2 w2 fs2 where rm: "remove_segment ?n (w, fs1) = (r2, (w2, fs2))" by (metis surj_pair)
    show ?thesis
    proof (cases "segmentFullyAckedLocked w g hi u")
      case False
      with Cons.prems(1) h Inr x step show ?thesis by auto
    next
      case True
      have two: "removes (acked_segment w) (w, fs) (w2, fs2)"
        using acked_removal [OF h [unfolded Inr x] True rm] Cons.prems(2) by simp
      show ?thesis
      proof (cases r2)
        case (Inl e')
        with Cons.prems(1) h Inr x rm True two show ?thesis by auto
      next
        case (Inr u')
        with Cons.prems(1) h \<open>r1 = Inr x\<close> x rm True
        have "gc_acked_loop es (Suc k) (w2, fs2) = (r, ws')" by auto
        from Cons.IH [OF this] Cons.prems(2) have "removes (acked_segment w2) (w2, fs2) ws'" by simp
        with removes_trans [OF two] acked_segment_cong [OF two] show ?thesis by simp
      qed
    qed
  qed
qed simp

lemma mark_acked_loop_removes:
  "mark_acked_loop es k (w, fs) = (r, ws') \<Longrightarrow> \<forall>e \<in> set es. is_sealed_name (se_name e) \<Longrightarrow>
   removes (acked_segment w) (w, fs) ws'"
proof (induction es arbitrary: k w fs)
  case (Cons e es)
  let ?n = "se_name e"
  obtain r1 fs1 where h: "segmentHighSeqAndGen ?n (w_maxRec w) fs = (r1, fs1)" by fastforce
  note f1 = segmentHighSeqAndGen_files [OF h]
  have step: "removes (acked_segment w) (w, fs) (w, fs1)" by (rule removes_files [OF f1])
  have on: "removes (acked_segment w) (w, fs) ws'"
    if "mark_acked_loop es k2 (w2, fs2) = (r, ws')" "removes (acked_segment w) (w, fs) (w2, fs2)" for k2 w2 fs2
    using Cons.IH [OF that(1)] Cons.prems(2) removes_trans [OF that(2)] acked_segment_cong [OF that(2)] by auto
  show ?case
  proof (cases r1)
    case (Inl e')
    with Cons.prems(1) h have "mark_acked_loop es k (w, fs1) = (r, ws')" by auto
    from on [OF this step] show ?thesis by simp
  next
    case (Inr x)
    obtain hi u g a where x: "x = (hi, u, g, a)" by (metis surj_pair)
    obtain r2 w2 fs2 where rm: "remove_segment ?n (w, fs1) = (r2, (w2, fs2))" by (metis surj_pair)
    show ?thesis
    proof (cases "segmentFullyAckedLocked w g hi u")
      case False
      with Cons.prems(1) h Inr x have "mark_acked_loop es k (w, fs1) = (r, ws')" by auto
      from on [OF this step] show ?thesis by simp
    next
      case True
      have two: "removes (acked_segment w) (w, fs) (w2, fs2)"
        using acked_removal [OF h [unfolded Inr x] True rm] Cons.prems(2) by simp
      from Cons.prems(1) h Inr x rm True obtain k2 where "mark_acked_loop es k2 (w2, fs2) = (r, ws')"
        by (cases r2) auto
      from on [OF this two] show ?thesis .
    qed
  qed
qed simp

lemma sealed_entries_sealed: "\<forall>e \<in> set (sealed_entries names). is_sealed_name (se_name e)"
  unfolding set_entries by auto

lemma syncDir_then_prune:
  assumes "io_then (io_snd syncDir) (\<lambda>ws. (Inr x, prunePerGenMapsLocked ws)) (w, fs) = (r, ws')"
  shows "removes R (w, fs) ws'"
proof -
  obtain r1 fs1 where sy: "syncDir fs = (r1, fs1)" by fastforce
  have "removes R (w, fs) (w, fs1)" using fs_sync_files(2) [OF sy] by (rule removes_files)
  from removes_trans [OF this prune_removes] this assms sy show ?thesis
    by (cases r1) (auto simp: io_then_app io_snd_def)
qed

lemma gcAckedLocked_removes:
  assumes "gcAckedLocked (w, fs) = (r, ws')"
  shows "removes (acked_segment w) (w, fs) ws'"
proof -
  obtain r1 fs1 where rd: "fs_readdir fs = (r1, fs1)" by fastforce
  have step: "removes (acked_segment w) (w, fs) (w, fs1)"
    using fs_readdir_files [OF rd] by (intro removes_files) simp
  show ?thesis
  proof (cases "w_ackPresent w \<and> (\<exists>names. r1 = Inr names \<and> sealed_entries names \<noteq> [])")
    case False
    then show ?thesis
      using assms rd step by (cases r1) (auto simp: gcAckedLocked_def io_bind_def io_snd_def split: if_splits)
  next
    case True
    then obtain names where names: "r1 = Inr names" "sealed_entries names \<noteq> []" by blast
    obtain r2 w2 fs2 where gc: "gc_acked_loop (sealed_entries names) 0 (w, fs1) = (r2, (w2, fs2))"
      by (metis surj_pair)
    note two = removes_trans [OF step gc_acked_loop_removes [OF gc sealed_entries_sealed]]
    from True assms rd names gc
    have "(r, ws') = (case r2 of Inl e \<Rightarrow> (Inl e, (w2, fs2))
       | Inr k \<Rightarrow> if 0 < k then io_then (io_snd syncDir) (\<lambda>ws. (Inr k, prunePerGenMapsLocked ws)) (w2, fs2)
                  else (Inr k, (w2, fs2)))"
      by (auto simp: gcAckedLocked_def io_bind_def io_snd_def split: sum.splits)
    with two show ?thesis
      by (auto intro: removes_trans [OF two] syncDir_then_prune [OF sym] split: sum.splits if_splits)
  qed
qed

lemma WriteMeta_effect:
  assumes "WriteMeta m fs = (r, fs')"
  shows "fs_files fs' = fs_files fs \<and> (r = Inr () \<longrightarrow> fs_meta fs' = Some (m\<lparr>mt_FormatVersion := 2\<rparr>))"
proof -
  have put: "fs_call (\<lambda>fs. (Inr (), fs\<lparr>fs_meta := Some n\<rparr>)) fs1 = (r1, fs2) \<Longrightarrow>
      fs_files fs2 = fs_files fs1 \<and> (r1 = Inr () \<longrightarrow> fs_meta fs2 = Some n)" for n r1 fs1 fs2
    by (auto simp: fs_call_def dest: fs_tick_files split: prod.splits option.splits)
  show ?thesis
    using assms unfolding WriteMeta_def
    by (auto simp: io_then_app dest!: fs_call_pure fs_sync_files put split: prod.splits sum.splits)
qed

section \<open>Acknowledging\<close>

definition pos_le :: "uint32 \<times> uint64 \<Rightarrow> uint32 \<times> uint64 \<Rightarrow> bool" where
  "pos_le a b = (fst a < fst b \<or> fst a = fst b \<and> snd a \<le> snd b)"

abbreviation ack_pos :: "wal \<Rightarrow> uint32 \<times> uint64" where
  "ack_pos w \<equiv> (w_ackHighGen w, w_ackHighSeq w)"

lemma set_ack_props:
  "w_ackPresent (set_ack gen seq w) \<and> pos_le (gen, seq) (ack_pos (set_ack gen seq w)) \<and>
   (w_ackPresent w \<longrightarrow> pos_le (ack_pos w) (ack_pos (set_ack gen seq w))) \<and>
   w_current (set_ack gen seq w) = w_current w \<and> w_opts (set_ack gen seq w) = w_opts w \<and>
   w_maxRec (set_ack gen seq w) = w_maxRec w \<and> w_closed (set_ack gen seq w) = w_closed w \<and>
   w_fatalErr (set_ack gen seq w) = w_fatalErr w"
  by (auto simp: set_ack_def ack_advances_def pos_le_def)

lemma MarkAcked_removes:
  assumes "MarkAcked gen seq (w, fs) = (r, ws')"
  shows "\<exists>fs1. fs_files fs1 = fs_files fs \<and>
    removes (acked_segment (set_ack gen seq w)) (set_ack gen seq w, fs1) ws' \<and>
    (fs_files (snd ws') = fs_files fs \<or>
     (\<exists>m. fs_meta fs1 = Some m \<and> mt_AckRecorded m \<and>
          (mt_AckHighWatermarkGen m, mt_AckHighWatermarkSeq m) = ack_pos (set_ack gen seq w)))"
proof -
  let ?w = "set_ack gen seq w"
  let ?m = "\<lparr>mt_FormatVersion = 0, mt_AckHighWatermarkSeq = w_ackHighSeq ?w,
     mt_AckHighWatermarkGen = w_ackHighGen ?w, mt_AckRecorded = True, mt_SessionID = wo_SessionID (w_opts ?w),
     mt_KeyFingerprint = wo_KeyFingerprint (w_opts ?w), mt_ContextDigest = wo_ContextDigest (w_opts ?w)\<rparr>"
  obtain r1 fs1 where wm: "WriteMeta ?m fs = (r1, fs1)" by (rule prod.exhaust)
  obtain r2 fs2 where rd: "fs_readdir fs1 = (r2, fs2)" by fastforce
  note f1 = WriteMeta_effect [OF wm] and f2 = fs_readdir_files [OF rd]
  show ?thesis
  proof (cases "r1 = Inr () \<and> (\<exists>names. r2 = Inr names)")
    case False
    then have "ws' = (?w, if isl r1 then fs1 else fs2)"
      using assms wm rd
      by (cases r1; cases r2) (auto simp: MarkAcked_def io_then_app io_bind_def io_snd_def)
    then show ?thesis
      using f1 f2 by (intro exI [of _ "if isl r1 then fs1 else fs2"]) simp
  next
    case True
    then obtain names where names: "r1 = Inr ()" "r2 = Inr names" by blast
    obtain b w3 fs3 where ml: "mark_acked_loop (sealed_entries names) False (?w, fs2) = (b, (w3, fs3))"
      by (metis surj_pair)
    have "removes (acked_segment ?w) (?w, fs2) (w3, fs3)"
      by (rule mark_acked_loop_removes [OF ml sealed_entries_sealed])
    moreover from assms wm rd names ml
    have "(r, ws') = (if b then io_then (io_snd syncDir) (\<lambda>ws. (Inr (), prunePerGenMapsLocked ws)) (w3, fs3)
       else (Inr (), (w3, fs3)))"
      by (cases b) (auto simp: MarkAcked_def io_then_app io_bind_def io_snd_def)
    ultimately have "removes (acked_segment ?w) (?w, fs2) ws'"
      by (auto intro: removes_trans syncDir_then_prune [OF sym] split: if_splits)
    with f1 f2 names show ?thesis by (intro exI [of _ fs2]) simp
  qed
qed

text \<open>C16: acknowledging never loses what was not acknowledged. Whatever system calls fail, \<open>MarkAcked\<close>
  leaves every file as it is or removes it, and it removes only sealed segments whose every data
  record lies at or below the acknowledged position; by then that position is in the metadata file.
  The position covers the one just acknowledged and never moves back, and the live segment stays.
\<close>

theorem mark_acked_keeps_unacked:
  assumes "MarkAcked gen seq (w, fs) = (r, (w', fs'))"
  shows "(\<forall>n. lookup_file fs' n = lookup_file fs n \<or>
           is_sealed_name n \<and> lookup_file fs' n = None \<and> (\<exists>c. lookup_file fs n = Some c \<and> acked_segment w' c)) \<and>
         ((\<exists>n. lookup_file fs' n \<noteq> lookup_file fs n) \<longrightarrow>
           (\<exists>m. fs_meta fs' = Some m \<and> mt_AckRecorded m \<and>
                (mt_AckHighWatermarkGen m, mt_AckHighWatermarkSeq m) = ack_pos w')) \<and>
         w_ackPresent w' \<and> pos_le (gen, seq) (ack_pos w') \<and> (w_ackPresent w \<longrightarrow> pos_le (ack_pos w) (ack_pos w')) \<and>
         w_current w' = w_current w"
proof -
  let ?w = "set_ack gen seq w"
  from MarkAcked_removes [OF assms] obtain fs1 where fs1: "fs_files fs1 = fs_files fs"
    and rm: "removes (acked_segment ?w) (?w, fs1) (w', fs')"
    and meta: "fs_files fs' = fs_files fs \<or> (\<exists>m. fs_meta fs1 = Some m \<and> mt_AckRecorded m \<and>
          (mt_AckHighWatermarkGen m, mt_AckHighWatermarkSeq m) = ack_pos ?w)" by auto
  have ack: "acked_segment w' = acked_segment ?w" by (rule acked_segment_cong [OF rm])
  have same: "ack_pos w' = ack_pos ?w" "w_ackPresent w' = w_ackPresent ?w" "w_current w' = w_current ?w"
      "fs_meta fs' = fs_meta fs1"
    using rm by (simp_all add: removes_def)
  have "lookup_file fs' n = lookup_file fs n \<or>
      is_sealed_name n \<and> lookup_file fs' n = None \<and> (\<exists>c. lookup_file fs n = Some c \<and> acked_segment w' c)" for n
    using rm fs1 by (auto simp: removes_def ack)
  moreover have "(\<exists>n. lookup_file fs' n \<noteq> lookup_file fs n) \<longrightarrow> (\<exists>m. fs_meta fs' = Some m \<and> mt_AckRecorded m \<and>
      (mt_AckHighWatermarkGen m, mt_AckHighWatermarkSeq m) = ack_pos w')"
    using meta by (auto simp: same)
  ultimately show ?thesis
    using set_ack_props [of gen seq w] same by simp
qed

text \<open>A sealed segment without records beside the live one, acknowledged on a working disk.\<close>

theorem mark_acked_keeps_unacked_witness:
  "let fs = \<lparr>fs_files = [(''0000000000.seg'', sample_header), (sample_path, sample_header)], fs_meta = None, fs_sched = []\<rparr>;
       ws = snd (MarkAcked 3 9 (sample_wal, fs))
   in lookup_file (snd ws) sample_path = Some sample_header \<and> pos_le (3, 9) (ack_pos (fst ws)) \<and>
      w_current (fst ws) = Some sample_segment"
proof -
  define fs where "fs = \<lparr>fs_files = [(''0000000000.seg'', sample_header), (sample_path, sample_header)], fs_meta = None, fs_sched = []\<rparr>"
  obtain r w' fs' where run: "MarkAcked 3 9 (sample_wal, fs) = (r, (w', fs'))" by (metis surj_pair)
  have "lookup_file fs sample_path = Some sample_header"
    by (simp add: fs_def sample_path_def)
  moreover note ack = mark_acked_keeps_unacked [OF run]
  from ack have "lookup_file fs' sample_path = lookup_file fs sample_path"
    using sample_names(1) by (elim conjE allE [of _ sample_path]) auto
  ultimately have
    "lookup_file fs' sample_path = Some sample_header \<and> pos_le (3, 9) (ack_pos w') \<and> w_current w' = w_current sample_wal"
    using ack by simp
  with run show ?thesis by (simp add: fs_def Let_def sample_max)
qed

end
