(* ===== verification/Wal_Append.thy ===== *)
theory Wal_Append
  imports Wal_Collect
begin

text \<open>
  Appending to the write-ahead log, for every schedule of failures: opening and rolling segments,
  reclaiming space with a loss marker for what was dropped, the classification of failures, and the
  invariant of the log over any history of operations.
\<close>

section \<open>Opening segments\<close>

lemma io_on_error_Inr: "io_on_error m c s = (Inr x, s') \<longleftrightarrow> m s = (Inr x, s')"
  by (auto simp: io_on_error_def split: prod.splits sum.splits)

lemma fs_create_excl_Inr:
  "fs_create_excl n fs = (Inr (), fs') \<Longrightarrow> lookup_file fs n = None \<and> fs_files fs' = AList.update n [] (fs_files fs)"
  by (auto simp: fs_create_excl_def fs_put_def elim!: fs_call_Inr split: if_splits)

lemma fs_write_Inr:
  "fs_write n bs fs = (Inr (), fs') \<Longrightarrow> lookup_file fs' n = Some (contents fs n @ bs) \<and>
     (\<forall>k. k \<noteq> n \<longrightarrow> lookup_file fs' k = lookup_file fs k)"
  using fs_write_effect [of n bs fs "Inr ()" fs'] by auto

lemma OpenSegment_Inr:
  assumes "OpenSegment idx \<lparr>sh_Version = SegmentVersion, sh_Flags = flags, sh_Generation = gen\<rparr> m fs = (Inr s, fs')"
  shows "seg_live m s fs' [] \<and> sg_gen s = gen \<and> lookup_file fs (sg_path s) = None \<and>
         (\<forall>n. n \<noteq> sg_path s \<longrightarrow> lookup_file fs' n = lookup_file fs n)"
proof -
  let ?hdr = "\<lparr>sh_Version = SegmentVersion, sh_Flags = flags, sh_Generation = gen\<rparr>"
  let ?path = "segmentName idx @ inProgressSuffix"
  from assms obtain bs fs1 fs2 fs3 where
    cr: "fs_create_excl ?path fs = (Inr (), fs1)" and hd: "WriteSegmentHeader ?hdr = Inr bs" and
    wr: "fs_write ?path bs fs1 = (Inr (), fs2)" and sy: "fs_fsync fs2 = (Inr (), fs3)" "syncDir fs3 = (Inr (), fs')" and
    s: "s = \<lparr>sg_index = idx, sg_gen = gen, sg_path = ?path, sg_open = True,
         sg_buffer = [], sg_werr = False, sg_bytes = int SegmentHeaderSize, sg_maxRecordBytes = m, sg_closed = False\<rparr>"
    by (auto simp: OpenSegment_def Let_def io_then_Inr_iff io_on_error_Inr split: option.splits sum.splits)
  note f1 = fs_create_excl_Inr [OF cr] and f2 = fs_write_Inr [OF wr]
  have f3: "fs_files fs' = fs_files fs2"
    using fs_sync_files(1) [OF sy(1)] fs_sync_files(2) [OF sy(2)] by simp
  have "contents fs1 ?path = []" using f1 by (simp add: contents_def update_conv')
  with f2 f3 have whole: "lookup_file fs' ?path = Some bs" by simp
  have "\<forall>n. n \<noteq> ?path \<longrightarrow> lookup_file fs' n = lookup_file fs n"
    using f1 f2 f3 by (simp add: update_conv')
  moreover have "ReadSegmentHeader bs = (Inr ?hdr, [])"
    using ReadSegmentHeader_Write [OF hd, of "[]"] by simp
  ultimately show ?thesis
    using whole f1 header_length [OF hd] live_name [of idx]
    by (simp add: s seg_live_def seg_stream_def contents_def)
qed

definition settings :: "wal \<Rightarrow> wal \<Rightarrow> bool" where
  "settings w w' =
     (w_opts w' = w_opts w \<and> w_maxRec w' = w_maxRec w \<and> w_closed w' = w_closed w \<and> w_fatalErr w' = w_fatalErr w \<and>
      w_ackPresent w' = w_ackPresent w \<and> w_ackHighGen w' = w_ackHighGen w \<and> w_ackHighSeq w' = w_ackHighSeq w)"

lemma open_current_Inr:
  assumes "open_current gen flags (w, fs) = (Inr (), (w', fs'))"
  shows "\<exists>s. w_current w' = Some s \<and> seg_live (w_maxRec w) s fs' [] \<and> sg_gen s = gen \<and> settings w w' \<and>
           lookup_file fs (sg_path s) = None \<and> (\<forall>n. n \<noteq> sg_path s \<longrightarrow> lookup_file fs' n = lookup_file fs n)"
proof -
  from assms obtain s where
    "OpenSegment (w_nextIndex w) \<lparr>sh_Version = SegmentVersion, sh_Flags = flags, sh_Generation = gen\<rparr> (w_maxRec w) fs
       = (Inr s, fs')" and "w' = w\<lparr>w_nextIndex := w_nextIndex w + 1, w_current := Some s\<rparr>"
    by (auto simp: open_current_def openNewSegmentLocked_def io_bind_Inr_iff Let_def)
  with OpenSegment_Inr [OF this(1)] show ?thesis by (simp add: settings_def)
qed

lemma on_current_write:
  assumes "w_current w = Some s" and "seg_live m s fs ps"
    and "on_current (Segment_WriteRecord p) (w, fs) = (Inr (), (w1, fs1))"
    and "on_current Segment_Sync (w1, fs1) = (Inr (), (w', fs'))"
  shows "\<exists>s'. w' = w\<lparr>w_current := Some s'\<rparr> \<and> seg_live m s' fs' (ps @ [p]) \<and> sg_gen s' = sg_gen s \<and>
           sg_path s' = sg_path s \<and> (\<forall>n. n \<noteq> sg_path s \<longrightarrow> lookup_file fs' n = lookup_file fs n)"
proof -
  from assms(1,3) obtain s1 where w1: "Segment_WriteRecord p (s, fs) = (Inr (), (s1, fs1))" "w1 = w\<lparr>w_current := Some s1\<rparr>"
    by (auto simp: on_current_def split: prod.splits)
  with assms(4) obtain s' where w': "Segment_Sync (s1, fs1) = (Inr (), (s', fs'))" "w' = w1\<lparr>w_current := Some s'\<rparr>"
    by (auto simp: on_current_def split: prod.splits)
  have "seg_stream m s fs ps" using assms(2) by (simp add: seg_live_def)
  note a = Segment_WriteRecord_stream [OF this w1(1)]
  note b = Segment_Sync_live [OF a [THEN conjunct1] w'(1)]
  from a b w1(2) w'(2) show ?thesis by (intro exI [of _ s']) simp
qed

lemma appendLossLocked_Inr:
  assumes "w_current w = Some s" and "seg_live m s fs ps" and "appendLossLocked loss (w, fs) = (Inr (), (w', fs'))"
  shows "\<exists>s'. w_current w' = Some s' \<and> seg_live m s' fs' (ps @ [encodeLossPayload loss]) \<and> sg_gen s' = sg_gen s \<and>
           sg_path s' = sg_path s \<and> settings w w' \<and> (\<forall>n. n \<noteq> sg_path s \<longrightarrow> lookup_file fs' n = lookup_file fs n)"
proof -
  from assms(3) obtain w1 fs1 w2 where
    "on_current (Segment_WriteRecord (encodeLossPayload loss)) (w, fs) = (Inr (), (w1, fs1))"
    "on_current Segment_Sync (w1, fs1) = (Inr (), (w2, fs'))"
    "w' = note_replayable (current_gen w2) (w2\<lparr>w_totalBytes := w_totalBytes w2 + int (8 + length (encodeLossPayload loss))\<rparr>)"
    by (auto simp: appendLossLocked_def Let_def io_then_Inr_iff)
  with on_current_write [OF assms(1,2) this(1,2)] show ?thesis
    by (auto simp: settings_def)
qed

section \<open>Keeping the invariant\<close>

text \<open>
  Steps as Hoare triples: from a state with the precondition a success gives the postcondition for
  its result, a failure the error condition.
\<close>

definition triple :: "('s \<Rightarrow> bool) \<Rightarrow> ('e, 's, 'a) result_io \<Rightarrow> ('a \<Rightarrow> 's \<Rightarrow> bool) \<Rightarrow> ('e \<Rightarrow> 's \<Rightarrow> bool) \<Rightarrow> bool" where
  "triple P m Q E = (\<forall>s. P s \<longrightarrow> (case m s of (Inr x, s') \<Rightarrow> Q x s' | (Inl e, s') \<Rightarrow> E e s'))"

lemma triple_bind:
  assumes "triple P m R E" and "\<And>x. triple (R x) (f x) Q E"
  shows "triple P (io_bind m f) Q E"
  unfolding triple_def
proof (intro allI impI)
  fix s assume "P s"
  obtain r s' where m: "m s = (r, s')" by fastforce
  with assms(1) \<open>P s\<close> have "case r of Inr x \<Rightarrow> R x s' | Inl e \<Rightarrow> E e s'"
    by (cases r) (auto simp: triple_def)
  with m assms(2) show "case io_bind m f s of (Inl e, s') \<Rightarrow> E e s' | (Inr x, s') \<Rightarrow> Q x s'"
    by (cases r) (auto simp: triple_def io_bind_def)
qed

lemma triple_then: "triple P m (\<lambda>_. R) E \<Longrightarrow> triple R k Q E \<Longrightarrow> triple P (io_then m k) Q E"
  unfolding io_then_def by (rule triple_bind)

lemma triple_if:
  assumes "triple (\<lambda>s. P s \<and> b s) m Q E" and "triple (\<lambda>s. P s \<and> \<not> b s) k Q E"
  shows "triple P (\<lambda>s. if b s then m s else k s) Q E"
  using assms unfolding triple_def by auto

lemma triple_done: "(\<And>s. P s \<Longrightarrow> Q x s) \<Longrightarrow> triple P (\<lambda>s. (Inr x, s)) Q E"
  by (simp add: triple_def)

lemma triple_pre: "triple P m Q E \<Longrightarrow> (\<And>s. P' s \<Longrightarrow> P s) \<Longrightarrow> triple P' m Q E"
  by (simp add: triple_def)

text \<open>A failed append that may have touched the disk has latched the log.\<close>

definition latched :: "appendError \<Rightarrow> wal \<times> fsys \<Rightarrow> bool" where
  "latched ae ws = (ae_Class ae = FailureAmbiguous \<and> w_fatalErr (fst ws) \<noteq> None)"

lemma triple_ambiguous:
  assumes "\<And>ws x ws'. P ws \<Longrightarrow> m ws = (Inr x, ws') \<Longrightarrow> Q x ws'"
  shows "triple P (ambiguous op m) Q latched"
  unfolding triple_def
proof (intro allI impI)
  fix ws assume "P ws"
  obtain r ws' where m: "m ws = (r, ws')" by (rule prod.exhaust)
  with assms [OF \<open>P ws\<close>] show "case ambiguous op m ws of (Inl e, s') \<Rightarrow> latched e s' | (Inr x, s') \<Rightarrow> Q x s'"
    by (cases r) (auto simp: ambiguous_def failAmbiguousLocked_def latched_def)
qed

text \<open>A log in service: its invariant holds, nothing has failed and it is not closed.\<close>

definition in_service :: "wal \<times> fsys \<Rightarrow> bool" where
  "in_service ws = (wal_inv ws \<and> w_fatalErr (fst ws) = None \<and> \<not> w_closed (fst ws))"

definition on_gen :: "uint32 \<Rightarrow> wal \<times> fsys \<Rightarrow> bool" where
  "on_gen gen ws = (\<exists>s. w_current (fst ws) = Some s \<and> sg_gen s = gen)"

lemma in_service_live:
  assumes "in_service (w, fs)" and "w_current w = Some s"
  obtains ps where "seg_live (w_maxRec w) s fs ps"
  using assms by (auto simp: in_service_def wal_inv_def Let_def)

lemma in_service_step:
  assumes "in_service (w, fs)" and "settings w w'"
    and "\<And>s. w_current w' = Some s \<Longrightarrow> \<exists>ps. seg_live (w_maxRec w) s fs' ps"
  shows "in_service (w', fs')"
  using assms by (auto simp: in_service_def wal_inv_def settings_def Let_def split: option.splits)

lemma seg_live_same:
  assumes "lookup_file fs' (sg_path s) = lookup_file fs (sg_path s)"
  shows "seg_live m s fs' ps = seg_live m s fs ps"
  using assms by (simp add: seg_live_def seg_stream_def contents_def)

lemma removes_in_service:
  assumes "removes R (w, fs) (w', fs')" and "in_service (w, fs)"
  shows "in_service (w', fs')"
proof (rule in_service_step [OF assms(2)])
  show "settings w w'" using assms(1) by (simp add: removes_def settings_def)
  fix s assume "w_current w' = Some s"
  then have cur: "w_current w = Some s" using assms(1) by (simp add: removes_def)
  from in_service_live [OF assms(2) cur] obtain ps where ps: "seg_live (w_maxRec w) s fs ps" .
  then have "hasSuffix (sg_path s) inprogressSuffix" by (simp add: seg_live_def seg_stream_def)
  then have "lookup_file fs' (sg_path s) = lookup_file fs (sg_path s)"
    using assms(1) unfolding removes_def by auto
  from seg_live_same [OF this] ps show "\<exists>ps. seg_live (w_maxRec w) s fs' ps" by auto
qed

lemma open_in_service:
  assumes "in_service (w, fs)" and "open_current gen flags (w, fs) = (Inr (), ws')"
  shows "in_service ws' \<and> on_gen gen ws'"
proof (cases ws')
  case (Pair w' fs')
  from open_current_Inr [OF assms(2) [unfolded Pair]] obtain s where
    s: "w_current w' = Some s" "seg_live (w_maxRec w) s fs' []" "sg_gen s = gen" "settings w w'" by blast
  have "in_service (w', fs')"
    using s by (intro in_service_step [OF assms(1)]) auto
  with s Pair show ?thesis by (auto simp: on_gen_def)
qed

lemma seal_in_service:
  assumes "in_service (w, fs)" and "sealCurrentLocked (w, fs) = (Inr (), ws')"
  shows "in_service ws' \<and> w_current (fst ws') = None"
proof -
  obtain w' fs' where ws': "ws' = (w', fs')" by fastforce
  have "settings w w'" "w_current w' = None"
    using assms(2) ws'
    by (auto simp: sealCurrentLocked_def on_current_def io_then_Inr_iff settings_def split: if_splits option.splits prod.splits)
  then show ?thesis
    using in_service_step [OF assms(1), of w' fs'] ws' by simp
qed

lemma loss_in_service:
  assumes "in_service (w, fs)" and "w_current w = Some s" and "appendLossLocked loss (w, fs) = (Inr (), ws')"
  shows "in_service ws' \<and> w_current (fst ws') \<noteq> None"
proof (cases ws')
  case (Pair w' fs')
  from in_service_live [OF assms(1,2)] obtain ps where ps: "seg_live (w_maxRec w) s fs ps" .
  from appendLossLocked_Inr [OF assms(2) ps assms(3) [unfolded Pair]] show ?thesis
    unfolding Pair by (auto intro!: in_service_step [OF assms(1)])
qed

section \<open>Dropping the oldest segment\<close>

text \<open>The loss marker that stands for a dropped segment.\<close>

definition overflow_loss :: "int \<Rightarrow> bytes \<Rightarrow> lossRecord" where
  "overflow_loss m c =
     (case dropped_range c m of (gen, rng) \<Rightarrow>
        \<lparr>lr_FromSequence = (case rng of None \<Rightarrow> 0 | Some (from, _) \<Rightarrow> from),
         lr_ToSequence = (case rng of None \<Rightarrow> 0 | Some (_, to) \<Rightarrow> to),
         lr_Generation = gen, lr_Reason = ''overflow''\<rparr>)"

definition sealed_count :: "fsys \<Rightarrow> nat" where
  "sealed_count fs = card {n. is_sealed_name n \<and> lookup_file fs n \<noteq> None}"

definition dropped_one :: "int \<Rightarrow> fsys \<Rightarrow> fsys \<Rightarrow> lossRecord \<Rightarrow> bool \<Rightarrow> bool" where
  "dropped_one m fs fs' loss hasUser =
     (\<exists>n c. is_sealed_name n \<and> lookup_file fs n = Some c \<and> lookup_file fs' n = None \<and>
            (\<forall>k. k \<noteq> n \<longrightarrow> lookup_file fs' k = lookup_file fs k) \<and>
            loss = overflow_loss m c \<and> hasUser = (snd (dropped_range c m) \<noteq> None) \<and>
            sealed_count fs' < sealed_count fs)"

lemma finite_files: "finite {n. Q n \<and> lookup_file fs n \<noteq> None}"
  by (rule finite_subset [OF _ finite_dom_map_of [of "fs_files fs"]]) auto

lemma sealed_count_le: "sealed_count fs \<le> length (fs_files fs)"
proof -
  have "{n. is_sealed_name n \<and> lookup_file fs n \<noteq> None} \<subseteq> fst ` set (fs_files fs)"
    by (force dest: map_of_SomeD)
  then have "sealed_count fs \<le> card (fst ` set (fs_files fs))"
    unfolding sealed_count_def by (intro card_mono) auto
  also have "\<dots> \<le> length (fs_files fs)" by (metis card_length length_map set_map)
  finally show ?thesis .
qed

lemma sealed_count_less:
  assumes "is_sealed_name n" and "lookup_file fs n \<noteq> None" and "lookup_file fs' n = None"
    and "\<forall>k. k \<noteq> n \<longrightarrow> lookup_file fs' k = lookup_file fs k"
  shows "sealed_count fs' < sealed_count fs"
proof -
  have "{n. is_sealed_name n \<and> lookup_file fs' n \<noteq> None} \<subset> {n. is_sealed_name n \<and> lookup_file fs n \<noteq> None}"
  proof (rule psubsetI)
    have "lookup_file fs k \<noteq> None" if "lookup_file fs' k \<noteq> None" for k
      using that assms(3,4) by (cases "k = n") auto
    then show "{n. is_sealed_name n \<and> lookup_file fs' n \<noteq> None} \<subseteq> {n. is_sealed_name n \<and> lookup_file fs n \<noteq> None}"
      by blast
  qed (use assms(1-3) in blast)
  then show ?thesis unfolding sealed_count_def by (intro psubset_card_mono finite_files)
qed

lemma sealed_count_same:
  assumes "hasSuffix n inprogressSuffix" and "\<forall>k. k \<noteq> n \<longrightarrow> lookup_file fs' k = lookup_file fs k"
  shows "sealed_count fs' = sealed_count fs"
proof -
  have "is_sealed_name k \<Longrightarrow> lookup_file fs' k = lookup_file fs k" for k
    using assms by (cases "k = n") auto
  then have "{n. is_sealed_name n \<and> lookup_file fs' n \<noteq> None} = {n. is_sealed_name n \<and> lookup_file fs n \<noteq> None}"
    by (intro Collect_cong conj_cong refl) simp
  then show ?thesis by (simp only: sealed_count_def)
qed

lemma remove_segment_Inr:
  assumes "remove_segment name (w, fs) = (Inr (), (w', fs'))"
  shows "lookup_file fs name \<noteq> None \<and> lookup_file fs' name = None \<and>
         (\<forall>k. k \<noteq> name \<longrightarrow> lookup_file fs' k = lookup_file fs k)"
proof -
  obtain st fs1 where st: "fs_stat name fs = (st, fs1)" by fastforce
  obtain r2 fs2 where rm: "fs_remove name fs1 = (r2, fs2)" by fastforce
  from assms st rm have "r2 = Inr ()" "fs' = fs2" by (auto simp: remove_segment_def split: sum.splits)
  with fs_stat_files [OF st] fs_remove_effect [OF rm] show ?thesis
    by (auto simp: delete_conv')
qed

lemma prune_files: "prunePerGenMapsLocked (w, fs) = (w', fs') \<Longrightarrow> fs_files fs' = fs_files fs"
  using fs_readdir_files [of fs] surviving_gens_files
  by (auto simp: prunePerGenMapsLocked_def split: prod.splits sum.splits)
    (metis snd_conv)+

lemma dropOldestLocked_spec:
  assumes "dropOldestLocked (w, fs) = (r, (w', fs'))"
  shows "removes (\<lambda>_. True) (w, fs) (w', fs') \<and>
         (\<forall>loss d u. r = Inr (loss, d, u) \<longrightarrow>
            (if d then dropped_one (w_maxRec w) fs fs' loss u
             else fs_files fs' = fs_files fs \<and> sealed_entries (map fst (fs_files fs)) = []))"
proof -
  let ?m = "w_maxRec w"
  obtain r1 fs1 where rd: "fs_readdir fs = (r1, fs1)" by fastforce
  note f1 = fs_readdir_files [OF rd]
  have s1: "removes (\<lambda>_. True) (w, fs) (w, fs1)" using f1 by (intro removes_files) simp
  show ?thesis
  proof (cases "\<exists>names e es. r1 = Inr names \<and> sealed_entries names = e # es")
    case False
    then show ?thesis
      using assms rd s1 f1
      by (cases r1; cases "sealed_entries (map fst (fs_files fs))")
        (auto simp: dropOldestLocked_def Let_def io_bind_def io_snd_def split: list.splits)
  next
    case True
    then obtain names e es where names: "r1 = Inr names" "sealed_entries names = e # es" by blast
    let ?n = "se_name e"
    have sealed: "is_sealed_name ?n" using sealed_entries_sealed [of names] names(2) by simp
    obtain r2 fs2 where op: "fs_open ?n fs1 = (r2, fs2)" by fastforce
    have s2: "removes (\<lambda>_. True) (w, fs) (w, fs2)"
      using removes_trans [OF s1 removes_files [OF fs_open_files [OF op]]] .
    show ?thesis
    proof (cases r2)
      case (Inl err)
      with assms rd names op s2 show ?thesis
        by (auto simp: dropOldestLocked_def Let_def io_bind_def io_snd_def)
    next
      case (Inr c)
      obtain g rng where dr: "dropped_range c ?m = (g, rng)" by fastforce
      obtain r3 w3 fs3 where rm: "remove_segment ?n (w, fs2) = (r3, (w3, fs3))" by (metis surj_pair)
      obtain r4 fs4 where sy: "syncDir fs3 = (r4, fs4)" by fastforce
      have s3: "removes (\<lambda>_. True) (w, fs) (w3, fs3)"
        using removes_trans [OF s2 remove_segment_removes [OF rm sealed]] by simp
      have s4: "removes (\<lambda>_. True) (w, fs) (w3, fs4)"
        using removes_trans [OF s3 removes_files [OF fs_sync_files(2) [OF sy]]] .
      have s5: "removes (\<lambda>_. True) (w, fs) (prunePerGenMapsLocked (w3, fs4))"
        by (rule removes_trans [OF s4 prune_removes])
      obtain w5 fs5 where pr: "prunePerGenMapsLocked (w3, fs4) = (w5, fs5)" by fastforce
      have out: "(r, (w', fs')) = (case r3 of Inl e \<Rightarrow> (Inl e, (w3, fs3)) | Inr _ \<Rightarrow>
          (case r4 of Inl e \<Rightarrow> (Inl e, (w3, fs4)) | Inr _ \<Rightarrow> (Inr (overflow_loss ?m c, True, rng \<noteq> None), (w5, fs5))))"
        using assms rd names op Inr dr rm sy pr
        by (cases r3; cases r4)
          (auto simp: dropOldestLocked_def Let_def io_bind_def io_then_app io_snd_def overflow_loss_def)
      have c: "lookup_file fs ?n = Some c" "fs_files fs2 = fs_files fs"
        using fs_open_Inr [of ?n fs1 c fs2] op Inr f1 by simp_all
      have "dropped_one ?m fs fs5 (overflow_loss ?m c) (rng \<noteq> None)" if "r3 = Inr ()"
      proof -
        have gone: "lookup_file fs5 ?n = None" "\<forall>k. k \<noteq> ?n \<longrightarrow> lookup_file fs5 k = lookup_file fs k"
          using remove_segment_Inr [OF rm [unfolded that]] c prune_files [OF pr] fs_sync_files(2) [OF sy] by auto
        with sealed_count_less [OF sealed _ gone] c(1) sealed dr show ?thesis
          unfolding dropped_one_def by (intro exI [of _ ?n] exI [of _ c]) auto
      qed
      with out s3 s4 s5 pr show ?thesis
        by (cases r3; cases r4) auto
    qed
  qed
qed

end
