(* ===== verification/Wal_Reclaim.thy ===== *)
theory Wal_Reclaim
  imports Wal_Append
begin

text \<open>
  Reclaiming space before an append: the loop that drops the oldest segments ends, it leaves the log
  within its budget or without sealed segments, and every segment it removes was acknowledged, held
  no data, or is accounted for by a loss marker in the live segment.
\<close>

definition live_payloads :: "wal \<times> fsys \<Rightarrow> bytes list" where
  "live_payloads ws =
     (case w_current (fst ws) of
        None \<Rightarrow> []
      | Some s \<Rightarrow> segment_records (w_maxRec (fst ws)) (contents (snd ws) (sg_path s)))"

text \<open>A removed segment is accounted for.\<close>

definition accounted :: "wal \<Rightarrow> bytes list \<Rightarrow> bytes \<Rightarrow> bool" where
  "accounted w live c =
     (acked_segment w c \<or> snd (dropped_range c (w_maxRec w)) = None \<or>
      encodeLossPayload (overflow_loss (w_maxRec w) c) \<in> set live)"

definition accounts :: "wal \<times> fsys \<Rightarrow> wal \<times> fsys \<Rightarrow> bool" where
  "accounts ws ws' =
     (settings (fst ws) (fst ws') \<and> set (live_payloads ws) \<subseteq> set (live_payloads ws') \<and>
      (\<forall>n. is_sealed_name n \<longrightarrow>
         lookup_file (snd ws') n = lookup_file (snd ws) n \<or>
         lookup_file (snd ws') n = None \<and>
         (\<exists>c. lookup_file (snd ws) n = Some c \<and> accounted (fst ws) (live_payloads ws') c)))"

lemma settings_refl [simp]: "settings w w"
  by (simp add: settings_def)

lemma settings_trans: "settings w1 w2 \<Longrightarrow> settings w2 w3 \<Longrightarrow> settings w1 w3"
  by (simp add: settings_def)

lemma removes_settings: "removes R (w, fs) (w', fs') \<Longrightarrow> settings w w'"
  by (simp add: removes_def settings_def)

lemma accounted_settings:
  assumes "settings w w'"
  shows "accounted w' = accounted w"
proof -
  from assms have "w_ackPresent w' = w_ackPresent w" "w_ackHighGen w' = w_ackHighGen w"
    "w_ackHighSeq w' = w_ackHighSeq w" "w_maxRec w' = w_maxRec w"
    by (simp_all add: settings_def)
  then show ?thesis by (intro ext) (simp only: accounted_def acked_segment_def)
qed

lemma accounted_mono: "accounted w live c \<Longrightarrow> set live \<subseteq> set live' \<Longrightarrow> accounted w live' c"
  by (auto simp: accounted_def)

lemma accounts_refl [simp]: "accounts ws ws"
  by (simp add: accounts_def)

lemma accounts_trans:
  assumes a: "accounts ws1 ws2" and b: "accounts ws2 ws3"
  shows "accounts ws1 ws3"
proof -
  have acc: "accounted (fst ws2) = accounted (fst ws1)"
    using a by (intro accounted_settings) (simp add: accounts_def)
  have sub: "set (live_payloads ws2) \<subseteq> set (live_payloads ws3)" using b by (simp add: accounts_def)
  have "lookup_file (snd ws3) n = lookup_file (snd ws1) n \<or> lookup_file (snd ws3) n = None \<and>
      (\<exists>c. lookup_file (snd ws1) n = Some c \<and> accounted (fst ws1) (live_payloads ws3) c)" if n: "is_sealed_name n" for n
  proof -
    consider "lookup_file (snd ws2) n = lookup_file (snd ws1) n"
      | c where "lookup_file (snd ws2) n = None" "lookup_file (snd ws1) n = Some c" "accounted (fst ws1) (live_payloads ws2) c"
      using a n by (auto simp: accounts_def)
    moreover have step: "lookup_file (snd ws3) n = lookup_file (snd ws2) n \<or> lookup_file (snd ws3) n = None \<and>
      (\<exists>c. lookup_file (snd ws2) n = Some c \<and> accounted (fst ws1) (live_payloads ws3) c)"
      using b n unfolding accounts_def acc by blast
    ultimately show ?thesis
    proof cases
      case 1
      with step show ?thesis by simp
    next
      case 2
      then have "lookup_file (snd ws3) n = None" using step by auto
      with 2 accounted_mono [OF 2(3) sub] show ?thesis by blast
    qed
  qed
  with a b show ?thesis by (auto simp: accounts_def intro: settings_trans)
qed

lemma live_payloads_eq:
  assumes "in_service (w, fs)" and "w_current w = Some s" and "seg_live (w_maxRec w) s fs ps"
  shows "live_payloads (w, fs) = ps"
  using assms live_records [OF assms(3)]
  by (simp add: live_payloads_def in_service_def wal_inv_def Let_def)

lemma live_payloads_removes:
  assumes "in_service (w, fs)" and "removes R (w, fs) (w', fs')"
  shows "live_payloads (w', fs') = live_payloads (w, fs)"
proof (cases "w_current w")
  case None
  then show ?thesis using assms(2) by (simp add: live_payloads_def removes_def)
next
  case (Some s)
  from in_service_live [OF assms(1) Some] obtain ps where "seg_live (w_maxRec w) s fs ps" .
  then have "hasSuffix (sg_path s) inprogressSuffix" by (simp add: seg_live_def seg_stream_def)
  then have "lookup_file fs' (sg_path s) = lookup_file fs (sg_path s)"
    using assms(2) unfolding removes_def by auto
  then show ?thesis using Some assms(2) by (simp add: live_payloads_def removes_def contents_def)
qed

lemma gc_accounts:
  assumes "in_service (w, fs)" and "removes (acked_segment w) (w, fs) (w', fs')"
  shows "accounts (w, fs) (w', fs')"
  using assms live_payloads_removes [OF assms] removes_settings [OF assms(2)]
  by (auto simp: accounts_def accounted_def removes_def)

text \<open>Steps that touch no sealed file.\<close>

definition sealed_same :: "fsys \<Rightarrow> fsys \<Rightarrow> bool" where
  "sealed_same fs fs' = (\<forall>n. is_sealed_name n \<longrightarrow> lookup_file fs' n = lookup_file fs n)"

lemma sealed_sameI:
  assumes "hasSuffix n inprogressSuffix" and "\<forall>k. k \<noteq> n \<longrightarrow> lookup_file fs' k = lookup_file fs k"
  shows "sealed_same fs fs'"
  unfolding sealed_same_def
proof (intro allI impI)
  fix k assume "is_sealed_name k"
  with assms show "lookup_file fs' k = lookup_file fs k" by (cases "k = n") auto
qed

lemma sealed_same_count: "sealed_same fs fs' \<Longrightarrow> sealed_count fs' = sealed_count fs"
  unfolding sealed_same_def sealed_count_def
  by (intro arg_cong [where f = card] Collect_cong conj_cong refl) simp

lemma open_step:
  assumes serv: "in_service (w, fs)" and "open_current gen flags (w, fs) = (Inr (), (w', fs'))"
  shows "in_service (w', fs') \<and> w_current w' \<noteq> None \<and> live_payloads (w', fs') = [] \<and> settings w w' \<and> sealed_same fs fs'"
proof -
  from open_current_Inr [OF assms(2)] obtain s where
    s: "w_current w' = Some s" "seg_live (w_maxRec w) s fs' []" "settings w w'"
       "\<forall>n. n \<noteq> sg_path s \<longrightarrow> lookup_file fs' n = lookup_file fs n" by blast
  have in': "in_service (w', fs')" using open_in_service [OF assms] by simp
  have "hasSuffix (sg_path s) inprogressSuffix" using s(2) by (simp add: seg_live_def seg_stream_def)
  from sealed_sameI [OF this s(4)] live_payloads_eq [OF in' s(1)] s in' show ?thesis
    by (simp add: settings_def)
qed

lemma loss_step:
  assumes serv: "in_service (w, fs)" and cur: "w_current w = Some s"
    and run: "appendLossLocked loss (w, fs) = (Inr (), (w', fs'))"
  shows "in_service (w', fs') \<and> live_payloads (w', fs') = live_payloads (w, fs) @ [encodeLossPayload loss] \<and>
         settings w w' \<and> sealed_same fs fs'"
proof -
  from in_service_live [OF serv cur] obtain ps where ps: "seg_live (w_maxRec w) s fs ps" .
  from appendLossLocked_Inr [OF cur ps run] obtain s' where
    s': "w_current w' = Some s'" "seg_live (w_maxRec w) s' fs' (ps @ [encodeLossPayload loss])"
        "settings w w'" "\<forall>n. n \<noteq> sg_path s \<longrightarrow> lookup_file fs' n = lookup_file fs n" by blast
  have in': "in_service (w', fs')" using loss_in_service [OF serv cur run] by simp
  have "hasSuffix (sg_path s) inprogressSuffix" using ps by (simp add: seg_live_def seg_stream_def)
  from sealed_sameI [OF this s'(4)] live_payloads_eq [OF in' s'(1)] live_payloads_eq [OF serv cur ps] s' in'
  show ?thesis by (simp add: settings_def)
qed

text \<open>Dropping one segment and, if it held data, recording the loss in the live segment.\<close>

lemma dropped_accounts:
  assumes one: "dropped_one (w_maxRec w) fs fs1 loss u" and "settings w w'" and "sealed_same fs1 fs'"
    and "set (live_payloads (w, fs)) \<subseteq> set (live_payloads (w', fs'))"
    and "u \<longrightarrow> encodeLossPayload loss \<in> set (live_payloads (w', fs'))"
  shows "accounts (w, fs) (w', fs') \<and> sealed_count fs' < sealed_count fs"
proof -
  from one obtain n c where n: "is_sealed_name n" "lookup_file fs n = Some c" "lookup_file fs1 n = None"
    "\<forall>k. k \<noteq> n \<longrightarrow> lookup_file fs1 k = lookup_file fs k" "loss = overflow_loss (w_maxRec w) c"
    "u = (snd (dropped_range c (w_maxRec w)) \<noteq> None)" "sealed_count fs1 < sealed_count fs"
    unfolding dropped_one_def by blast
  have acc: "accounted w (live_payloads (w', fs')) c" using n assms(5) by (auto simp: accounted_def)
  have "lookup_file fs' k = lookup_file fs k \<or> lookup_file fs' k = None \<and>
      (\<exists>c. lookup_file fs k = Some c \<and> accounted w (live_payloads (w', fs')) c)" if "is_sealed_name k" for k
    using that n assms(3) acc by (cases "k = n") (auto simp: sealed_same_def)
  moreover have "sealed_count fs' < sealed_count fs" using sealed_same_count [OF assms(3)] n(7) by simp
  ultimately show ?thesis using assms by (simp add: accounts_def)
qed

definition record_loss :: "uint32 \<Rightarrow> lossRecord \<Rightarrow> unit append_io" where
  "record_loss gen loss =
     io_then
       (\<lambda>ws. if w_current (fst ws) = None then ambiguous ''overflow-open'' (open_current gen FlagGenInit) ws
             else (Inr (), ws))
       (ambiguous ''overflow-loss'' (appendLossLocked loss))"

lemma io_then_assoc: "io_then (io_then a b) c = io_then a (io_then b c)"
  by (intro ext) (auto simp: io_then_app split: prod.splits sum.splits)

lemma overflow_loop_Suc:
  "overflow_loop (Suc n) gen ws =
     (if \<not> over_budget (fst ws) then (Inr (), ws)
      else io_bind (ambiguous ''overflow-gc'' dropOldestLocked) (\<lambda>(loss, dropped, hasUserRange).
             if \<not> dropped then io_return ()
             else if \<not> hasUserRange then overflow_loop n gen
             else io_then (record_loss gen loss) (overflow_loop n gen)) ws)"
  unfolding record_loss_def io_then_assoc by simp

lemma ambiguous_cases:
  assumes "ambiguous op m ws = (r, ws')"
  shows "(\<exists>e. r = Inl e \<and> latched e ws') \<or> (\<exists>x. r = Inr x \<and> m ws = (Inr x, ws'))"
  using assms
  by (auto simp: ambiguous_def failAmbiguousLocked_def latched_def split: prod.splits sum.splits if_splits)

lemma record_loss_step:
  assumes serv: "in_service (w, fs)" and run: "record_loss gen loss (w, fs) = (r, (w', fs'))"
  shows "(\<exists>e. r = Inl e \<and> latched e (w', fs')) \<or>
         (r = Inr () \<and> in_service (w', fs') \<and> settings w w' \<and> sealed_same fs fs' \<and>
          live_payloads (w', fs') = live_payloads (w, fs) @ [encodeLossPayload loss])"
proof (cases "w_current w")
  case None
  obtain r1 w1 fs1 where op: "ambiguous ''overflow-open'' (open_current gen FlagGenInit) (w, fs) = (r1, (w1, fs1))"
    by (metis surj_pair)
  have empty: "live_payloads (w, fs) = []" using None by (simp add: live_payloads_def)
  from ambiguous_cases [OF op] consider e where "r1 = Inl e" "latched e (w1, fs1)"
    | "r1 = Inr ()" "open_current gen FlagGenInit (w, fs) = (Inr (), (w1, fs1))" by auto
  then show ?thesis
  proof cases
    case 1
    with run None op show ?thesis by (auto simp: record_loss_def io_then_app)
  next
    case 2
    note o = open_step [OF serv 2(2)]
    then obtain s where s: "in_service (w1, fs1)" "w_current w1 = Some s" by auto
    from run None op 2(1) have "ambiguous ''overflow-loss'' (appendLossLocked loss) (w1, fs1) = (r, (w', fs'))"
      by (simp add: record_loss_def io_then_app)
    from ambiguous_cases [OF this] loss_step [OF s, of loss w' fs'] o empty show ?thesis
      by (auto simp: sealed_same_def intro: settings_trans)
  qed
next
  case (Some s)
  with run have "ambiguous ''overflow-loss'' (appendLossLocked loss) (w, fs) = (r, (w', fs'))"
    by (simp add: record_loss_def io_then_app)
  from ambiguous_cases [OF this] loss_step [OF serv Some, of loss w' fs'] show ?thesis by auto
qed

lemma overflow_round:
  assumes serv: "in_service (w, fs)" and over: "over_budget w"
  shows "(\<exists>e ws'. (\<forall>n. overflow_loop (Suc n) gen (w, fs) = (Inl e, ws')) \<and> latched e ws') \<or>
    (\<exists>w' fs'. (\<forall>n. overflow_loop (Suc n) gen (w, fs) = (Inr (), (w', fs'))) \<and> in_service (w', fs') \<and>
       accounts (w, fs) (w', fs') \<and> sealed_entries (map fst (fs_files fs')) = []) \<or>
    (\<exists>w' fs'. (\<forall>n. overflow_loop (Suc n) gen (w, fs) = overflow_loop n gen (w', fs')) \<and> in_service (w', fs') \<and>
       accounts (w, fs) (w', fs') \<and> sealed_count fs' < sealed_count fs)"
proof -
  obtain r1 w1 fs1 where dr: "ambiguous ''overflow-gc'' dropOldestLocked (w, fs) = (r1, (w1, fs1))"
    by (metis surj_pair)
  from ambiguous_cases [OF dr] consider (fail) e where "r1 = Inl e" "latched e (w1, fs1)"
    | (ok) loss d u where "r1 = Inr (loss, d, u)" "dropOldestLocked (w, fs) = (Inr (loss, d, u), (w1, fs1))"
    by auto
  then show ?thesis
  proof cases
    case fail
    with over dr show ?thesis by (auto simp: overflow_loop_Suc io_bind_def simp del: overflow_loop.simps)
  next
    case ok
    have rm: "removes (\<lambda>_. True) (w, fs) (w1, fs1)" and
      dd: "if d then dropped_one (w_maxRec w) fs fs1 loss u
           else fs_files fs1 = fs_files fs \<and> sealed_entries (map fst (fs_files fs)) = []"
      using dropOldestLocked_spec [OF ok(2)] by auto
    note serv1 = removes_in_service [OF rm serv] and set1 = removes_settings [OF rm]
      and live1 = live_payloads_removes [OF serv rm]
    have loop: "overflow_loop (Suc n) gen (w, fs) = (if \<not> d then (Inr (), (w1, fs1))
        else if \<not> u then overflow_loop n gen (w1, fs1)
        else io_then (record_loss gen loss) (overflow_loop n gen) (w1, fs1))" for n
      using over dr ok(1) by (simp add: overflow_loop_Suc io_bind_def del: overflow_loop.simps)
    consider "\<not> d" | "d" "\<not> u" | "d" "u" by blast
    then show ?thesis
    proof cases
      case 1
      then have "accounts (w, fs) (w1, fs1)" using dd set1 live1 by (simp add: accounts_def)
      with 1 dd serv1 loop show ?thesis by auto
    next
      case 2
      then have "accounts (w, fs) (w1, fs1) \<and> sealed_count fs1 < sealed_count fs"
        using dd set1 live1 by (intro dropped_accounts [of w fs fs1 loss u]) (auto simp: sealed_same_def)
      with 2 serv1 loop show ?thesis by auto
    next
      case 3
      obtain r2 w2 fs2 where rl: "record_loss gen loss (w1, fs1) = (r2, (w2, fs2))" by (metis surj_pair)
      from record_loss_step [OF serv1 rl] show ?thesis
      proof (elim disjE)
        assume "\<exists>e. r2 = Inl e \<and> latched e (w2, fs2)"
        with 3 loop rl show ?thesis by (auto simp: io_then_app)
      next
        assume a: "r2 = Inr () \<and> in_service (w2, fs2) \<and> settings w1 w2 \<and> sealed_same fs1 fs2 \<and>
          live_payloads (w2, fs2) = live_payloads (w1, fs1) @ [encodeLossPayload loss]"
        then have "accounts (w, fs) (w2, fs2) \<and> sealed_count fs2 < sealed_count fs"
          using dd 3 live1 settings_trans [OF set1] by (intro dropped_accounts [of w fs fs1 loss u]) auto
        with a 3 loop rl show ?thesis by (auto simp: io_then_app)
      qed
    qed
  qed
qed

declare overflow_loop.simps(2) [simp del]

lemma overflow_loop_spec:
  "in_service (w, fs) \<Longrightarrow> sealed_count fs < n \<Longrightarrow> overflow_loop n gen (w, fs) = (r, (w', fs')) \<Longrightarrow>
   (\<exists>e. r = Inl e \<and> latched e (w', fs')) \<or>
   (r = Inr () \<and> in_service (w', fs') \<and> accounts (w, fs) (w', fs') \<and>
    (\<not> over_budget w' \<or> sealed_entries (map fst (fs_files fs')) = []))"
proof (induction n arbitrary: w fs)
  case (Suc n)
  show ?case
  proof (cases "over_budget w")
    case False
    with Suc.prems show ?thesis by (auto simp: overflow_loop_Suc)
  next
    case True
    from overflow_round [OF Suc.prems(1) True, of gen] show ?thesis
    proof (elim disjE exE conjE)
      fix w1 fs1
      assume "\<forall>n. overflow_loop (Suc n) gen (w, fs) = overflow_loop n gen (w1, fs1)" "in_service (w1, fs1)"
        "accounts (w, fs) (w1, fs1)" "sealed_count fs1 < sealed_count fs"
      with Suc show ?thesis by (auto intro: accounts_trans)
    qed (use Suc.prems in auto)
  qed
qed simp

lemma overflow_fuel:
  "in_service (w, fs) \<Longrightarrow> sealed_count fs < n \<Longrightarrow> n \<le> k \<Longrightarrow> overflow_loop k gen (w, fs) = overflow_loop n gen (w, fs)"
proof (induction n arbitrary: w fs k)
  case (Suc n)
  then obtain k' where k: "k = Suc k'" "n \<le> k'" by (cases k) auto
  show ?case
  proof (cases "over_budget w")
    case False
    with k show ?thesis by (simp add: overflow_loop_Suc)
  next
    case True
    from overflow_round [OF Suc.prems(1) True, of gen] show ?thesis
    proof (elim disjE exE conjE)
      fix w1 fs1
      assume "\<forall>n. overflow_loop (Suc n) gen (w, fs) = overflow_loop n gen (w1, fs1)" "in_service (w1, fs1)"
        "sealed_count fs1 < sealed_count fs"
      with Suc.IH [of w1 fs1 k'] Suc.prems(2) k show ?thesis by simp
    qed (simp_all only: k)
  qed
qed simp

lemma reclaim_outcome:
  assumes "in_service (w, fs)" and "reclaim gen (w, fs) = (r, (w', fs'))"
  shows "(\<exists>e. r = Inl e \<and> latched e (w', fs')) \<or>
      (r = Inr () \<and> in_service (w', fs') \<and> accounts (w, fs) (w', fs') \<and>
       (\<not> over_budget w' \<or> sealed_entries (map fst (fs_files fs')) = []))"
proof (cases "over_budget w")
  case False
  with assms show ?thesis by (auto simp: reclaim_def)
next
  case True
  obtain r1 w1 fs1 where gc: "ambiguous ''overflow-gc-acked'' gcAckedLocked (w, fs) = (r1, (w1, fs1))"
    by (metis surj_pair)
  from ambiguous_cases [OF gc] consider e where "r1 = Inl e" "latched e (w1, fs1)"
    | x where "r1 = Inr x" "gcAckedLocked (w, fs) = (Inr x, (w1, fs1))" by auto
  then show ?thesis
  proof cases
    case 1
    with True gc assms(2) show ?thesis by (auto simp: reclaim_def io_then_app)
  next
    case 2
    note rm = gcAckedLocked_removes [OF 2(2)]
    from True gc assms(2) 2(1) have "overflow_loop (Suc (length (fs_files fs1))) gen (w1, fs1) = (r, (w', fs'))"
      by (simp add: reclaim_def io_then_app)
    from overflow_loop_spec [OF removes_in_service [OF rm assms(1)] _ this] sealed_count_le [of fs1]
      accounts_trans [OF gc_accounts [OF assms(1) rm]] show ?thesis by auto
  qed
qed



end
