(* ===== verification/Wal_Service.thy ===== *)
theory Wal_Service
  imports Wal_Reclaim
begin

text \<open>
  The write-ahead log over its whole life: a successful append has put its record into the live file
  and synced it, a failed one is clean and changed nothing or has latched the log, and every history of
  opening, appending, acknowledging, closing and restarting keeps the invariant of the log as long as
  it has not failed.
\<close>

section \<open>One append\<close>

lemma tripleD:
  assumes "triple P m Q E" and "P s" and "m s = (r, s')"
  shows "(\<exists>e. r = Inl e \<and> E e s') \<or> (\<exists>x. r = Inr x \<and> Q x s')"
  using assms by (cases r) (force simp: triple_def)+

lemma reclaim_triple: "triple in_service (reclaim gen) (\<lambda>_. in_service) latched"
  unfolding triple_def
proof (intro allI impI)
  fix ws assume serv: "in_service ws"
  obtain w fs r w' fs' where [simp]: "ws = (w, fs)" and run: "reclaim gen (w, fs) = (r, (w', fs'))"
    by (metis surj_pair)
  show "case reclaim gen ws of (Inl e, s') \<Rightarrow> latched e s' | (Inr x, s') \<Rightarrow> in_service s'"
    using reclaim_outcome [of w fs gen r w' fs'] serv run by auto
qed

definition ready :: "uint32 \<Rightarrow> wal \<times> fsys \<Rightarrow> bool" where
  "ready gen ws = (in_service ws \<and> on_gen gen ws)"

lemma roll_generation_triple:
  "triple in_service (roll_generation gen) (\<lambda>_ ws. in_service ws \<and> (w_current (fst ws) = None \<or> on_gen gen ws)) latched"
  unfolding roll_generation_def [abs_def]
proof (rule triple_if)
  show "triple (\<lambda>s. in_service s \<and> w_current (fst s) \<noteq> None \<and> current_gen (fst s) \<noteq> gen)
     (io_then (ambiguous ''seal-on-gen-roll'' sealCurrentLocked)
        (io_then (ambiguous ''open-on-gen-roll'' (open_current gen FlagGenInit)) (io_return True)))
     (\<lambda>_ ws. in_service ws \<and> (w_current (fst ws) = None \<or> on_gen gen ws)) latched"
    by (rule triple_then [where R = in_service], rule triple_ambiguous, force dest: seal_in_service,
        rule triple_then [where R = "\<lambda>ws. in_service ws \<and> on_gen gen ws"], rule triple_ambiguous,
        force dest: open_in_service, simp add: triple_def)
qed (auto simp: triple_def on_gen_def current_gen_def)

lemma open_first_triple:
  "triple (\<lambda>ws. in_service ws \<and> (w_current (fst ws) = None \<or> on_gen gen ws)) (open_first gen) (\<lambda>_. ready gen) latched"
  unfolding open_first_def [abs_def]
  by (rule triple_if, rule triple_ambiguous)
    (force simp: ready_def dest: open_in_service, auto simp: triple_def ready_def)

lemma roll_full_triple: "triple (ready gen) (roll_full gen payload) (\<lambda>_. ready gen) latched"
  unfolding roll_full_def [abs_def]
  by (rule triple_if, rule triple_then [where R = in_service], rule triple_ambiguous)
    (force simp: ready_def dest: seal_in_service, rule triple_ambiguous,
     force simp: ready_def dest: open_in_service, auto simp: triple_def)

text \<open>The record is the last one of the live file, which has nothing buffered.\<close>

definition recorded :: "uint32 \<Rightarrow> bytes \<Rightarrow> wal \<times> fsys \<Rightarrow> bool" where
  "recorded gen p ws =
     (case w_current (fst ws) of
        None \<Rightarrow> False
      | Some s \<Rightarrow>
          sg_gen s = gen \<and> sg_buffer s = [] \<and>
          (case rev (segment_records (w_maxRec (fst ws)) (contents (snd ws) (sg_path s))) of
             [] \<Rightarrow> False | q # _ \<Rightarrow> q = p))"

lemma live_recorded:
  assumes "in_service (w, fs)" and "w_current w = Some s" and "seg_live (w_maxRec w) s fs (ps @ [p])" and "sg_gen s = gen"
  shows "recorded gen p (w, fs)"
  using assms live_payloads_eq [OF assms(1-3)]
  by (simp add: recorded_def live_payloads_def seg_live_def)

lemma write_framed_triple:
  "triple (ready gen) (write_framed seq gen payload)
     (\<lambda>_ ws. in_service ws \<and> recorded gen (encodeSeqGenFrame seq gen payload) ws \<and>
             w_highSeq (fst ws) = seq \<and> w_highGen (fst ws) = gen) latched"
  unfolding triple_def
proof (intro allI impI)
  let ?p = "encodeSeqGenFrame seq gen payload"
  fix ws assume "ready gen ws"
  then obtain w fs s where ws: "ws = (w, fs)" and serv: "in_service (w, fs)" and cur: "w_current w = Some s" and
    gen: "sg_gen s = gen" by (cases ws) (auto simp: ready_def on_gen_def)
  from in_service_live [OF serv cur] obtain ps where ps: "seg_live (w_maxRec w) s fs ps" .
  have sync: "wo_SyncMode (w_opts w) = SyncImmediate"
    using serv by (simp add: in_service_def wal_inv_def Let_def)
  obtain r1 w1 fs1 where a: "ambiguous ''write-record'' (on_current (Segment_WriteRecord ?p)) (w, fs) = (r1, (w1, fs1))"
    by (metis surj_pair)
  obtain r2 w2 fs2 where b: "ambiguous ''sync'' (on_current Segment_Sync) (w1, fs1) = (r2, (w2, fs2))"
    by (metis surj_pair)
  show "case write_framed seq gen payload ws of (Inl e, s') \<Rightarrow> latched e s'
    | (Inr x, s') \<Rightarrow> in_service s' \<and> recorded gen ?p s' \<and> w_highSeq (fst s') = seq \<and> w_highGen (fst s') = gen"
  proof (cases r1)
    case (Inl e)
    with a ws ambiguous_cases [OF a] show ?thesis by (simp add: write_framed_def Let_def io_then_app)
  next
    case (Inr u)
    then have a': "on_current (Segment_WriteRecord ?p) (w, fs) = (Inr (), (w1, fs1))" using ambiguous_cases [OF a] by simp
    then have sync1: "wo_SyncMode (w_opts w1) = SyncImmediate"
      using sync by (auto simp: on_current_def split: option.splits prod.splits)
    show ?thesis
    proof (cases r2)
      case (Inl e)
      with a b ws Inr sync1 ambiguous_cases [OF b] show ?thesis by (simp add: write_framed_def Let_def io_then_app)
    next
      case (Inr u')
      then have b': "on_current Segment_Sync (w1, fs1) = (Inr (), (w2, fs2))" using ambiguous_cases [OF b] by simp
      from on_current_write [OF cur ps a' b'] obtain s' where s': "w2 = w\<lparr>w_current := Some s'\<rparr>"
        "seg_live (w_maxRec w) s' fs2 (ps @ [?p])" "sg_gen s' = sg_gen s" by blast
      define w3 where "w3 = (note_replayable gen (note_data gen seq (w2\<lparr>w_highSeq := seq, w_highGen := gen\<rparr>)))
          \<lparr>w_totalBytes := w_totalBytes w2 + int (8 + length ?p)\<rparr>"
      have w3: "settings w w3" "w_current w3 = Some s'" "w_highSeq w3 = seq" "w_highGen w3 = gen"
        using s'(1) by (auto simp: w3_def settings_def note_replayable_def note_data_def split: option.splits)
      then have serv3: "in_service (w3, fs2)"
        using s'(2) by (intro in_service_step [OF serv]) auto
      have "write_framed seq gen payload ws = (Inr (), (w3, fs2))"
        using a b ws Inr \<open>r1 = Inr u\<close> sync1 by (simp add: write_framed_def Let_def io_then_app w3_def)
      moreover have "recorded gen ?p (w3, fs2)"
        using live_recorded [OF serv3 w3(2), of ps ?p] s' w3(1) gen by (simp add: settings_def)
      ultimately show ?thesis using w3 serv3 by simp
    qed
  qed
qed

lemma append_body_triple:
  "triple in_service
     (io_then (reclaim gen) (io_bind (roll_generation gen) (\<lambda>rolled.
        io_then (open_first gen) (io_then (roll_full gen payload)
          (io_then (write_framed seq gen payload) (io_return rolled))))))
     (\<lambda>_ ws. in_service ws \<and> recorded gen (encodeSeqGenFrame seq gen payload) ws \<and>
             w_highSeq (fst ws) = seq \<and> w_highGen (fst ws) = gen) latched"
  by (rule triple_then [OF reclaim_triple], rule triple_bind [OF roll_generation_triple],
      rule triple_then [OF open_first_triple], rule triple_then [OF roll_full_triple],
      rule triple_then [OF write_framed_triple]) (simp add: triple_def)

lemma Append_cases:
  assumes serv: "in_service (w, fs)" and run: "Append None seq gen payload (w, fs) = (r, (w', fs'))"
  shows "(\<exists>e. r = Inl e \<and> IsClean (Some e) \<and> (w', fs') = (w, fs)) \<or> (\<exists>e. r = Inl e \<and> latched e (w', fs')) \<or>
         (\<exists>rolled. r = Inr rolled \<and> in_service (w', fs') \<and> recorded gen (encodeSeqGenFrame seq gen payload) (w', fs') \<and>
            w_highSeq w' = seq \<and> w_highGen w' = gen)"
proof (cases "wo_SegmentSize (w_opts w) - int SegmentHeaderSize < recordOverhead + int (length payload)")
  case True
  with serv run show ?thesis by (auto simp: Append_def in_service_def IsClean_def Let_def)
next
  case False
  let ?body = "io_then (reclaim gen) (io_bind (roll_generation gen) (\<lambda>rolled.
        io_then (open_first gen) (io_then (roll_full gen payload)
          (io_then (write_framed seq gen payload) (io_return rolled)))))"
  from False serv run have "?body (w, fs) = (r, (w', fs'))" by (auto simp: Append_def in_service_def Let_def)
  from tripleD [OF append_body_triple serv this] show ?thesis by auto
qed

section \<open>Other operations\<close>

lemma AppendLoss_cases:
  assumes serv: "in_service (w, fs)" and run: "AppendLoss loss (w, fs) = (r, ws')"
  shows "(\<exists>e. r = Inl e \<and> latched e ws') \<or> (r = Inr () \<and> in_service ws')"
proof -
  let ?p = "encodeLossPayload loss"
  have wr: "triple (\<lambda>ws. in_service ws \<and> w_current (fst ws) \<noteq> None)
     (io_then (ambiguous ''write-loss'' (on_current (Segment_WriteRecord ?p)))
        (io_then (ambiguous ''sync-loss'' (on_current Segment_Sync))
           (modify_wal (\<lambda>w. note_replayable (current_gen w) (w\<lparr>w_totalBytes := w_totalBytes w + int (8 + length ?p)\<rparr>)))))
     (\<lambda>_. in_service) latched" (is "triple _ ?m _ _")
    unfolding triple_def
  proof (intro allI impI)
    fix ws assume "in_service ws \<and> w_current (fst ws) \<noteq> None"
    then obtain w fs s where ws: "ws = (w, fs)" and serv: "in_service (w, fs)" and cur: "w_current w = Some s"
      by (cases ws) auto
    obtain r1 w1 fs1 where a: "ambiguous ''write-loss'' (on_current (Segment_WriteRecord ?p)) (w, fs) = (r1, (w1, fs1))"
      by (metis surj_pair)
    obtain r2 w2 fs2 where b: "ambiguous ''sync-loss'' (on_current Segment_Sync) (w1, fs1) = (r2, (w2, fs2))"
      by (metis surj_pair)
    show "case ?m ws of (Inl e, s') \<Rightarrow> latched e s' | (Inr x, s') \<Rightarrow> in_service s'"
    proof (cases "isl r1 \<or> isl r2")
      case True
      with a b ws ambiguous_cases [OF a] ambiguous_cases [OF b] show ?thesis
        by (cases r1; cases r2) (auto simp: io_then_app)
    next
      case False
      then have "on_current (Segment_WriteRecord ?p) (w, fs) = (Inr (), (w1, fs1))"
        "on_current Segment_Sync (w1, fs1) = (Inr (), (w2, fs2))" and r: "r1 = Inr ()" "r2 = Inr ()"
        using ambiguous_cases [OF a] ambiguous_cases [OF b] by auto
      then have "appendLossLocked loss (w, fs) = (Inr (), snd (?m (w, fs)))"
        using a b by (simp add: appendLossLocked_def Let_def io_then_app)
      with loss_in_service [OF serv cur] ws a b r show ?thesis by (auto simp: io_then_app)
    qed
  qed
  have "triple in_service
     (io_then (\<lambda>ws. if w_current (fst ws) = None
         then ambiguous ''open-loss-segment'' (open_current (lr_Generation loss) FlagGenInit) ws else (Inr (), ws)) ?m)
     (\<lambda>_. in_service) latched" (is "triple _ ?all _ _")
  proof (rule triple_then [OF triple_if wr])
    show "triple (\<lambda>s. in_service s \<and> w_current (fst s) = None)
       (ambiguous ''open-loss-segment'' (open_current (lr_Generation loss) FlagGenInit))
       (\<lambda>_ ws. in_service ws \<and> w_current (fst ws) \<noteq> None) latched"
      by (rule triple_ambiguous) (force simp: on_gen_def dest: open_in_service)
  qed (simp add: triple_def)
  moreover have "?all (w, fs) = (r, ws')"
    using serv run by (auto simp: AppendLoss_def in_service_def Let_def)
  ultimately show ?thesis using tripleD [of in_service ?all "\<lambda>_. in_service" latched "(w, fs)" r ws'] serv by auto
qed

lemma MarkAcked_in_service:
  assumes serv: "in_service (w, fs)" and run: "MarkAcked gen seq (w, fs) = (r, ws')"
  shows "in_service ws'"
proof -
  obtain w' fs' where ws': "ws' = (w', fs')" by fastforce
  from MarkAcked_removes [OF run] ws' obtain fs1 where fs1: "fs_files fs1 = fs_files fs"
    and rm: "removes (acked_segment (set_ack gen seq w)) (set_ack gen seq w, fs1) (w', fs')" by auto
  have "in_service (set_ack gen seq w, fs1)"
    using serv set_ack_props [of gen seq w] seg_live_files [OF fs1]
    by (auto simp: in_service_def wal_inv_def Let_def split: option.splits)
  from removes_in_service [OF rm this] ws' show ?thesis by simp
qed

section \<open>Opening\<close>

definition same_log :: "wal \<Rightarrow> wal \<Rightarrow> bool" where
  "same_log w w' =
     (w_opts w' = w_opts w \<and> w_maxRec w' = w_maxRec w \<and> w_closed w' = w_closed w \<and> w_fatalErr w' = w_fatalErr w)"

lemma open_meta_same:
  assumes "open_meta (w, fs) = (Inr (), (w', fs'))"
  shows "same_log w w' \<and> w_current w' = w_current w"
proof -
  obtain r1 fs1 where rm: "ReadMeta fs = (r1, fs1)" by fastforce
  show ?thesis
  proof (cases r1)
    case (Inl e)
    with assms rm show ?thesis
      by (cases e) (auto simp: open_meta_def Let_def same_log_def split: if_splits)
  next
    case (Inr m)
    with assms rm show ?thesis
      by (auto simp: open_meta_def Let_def same_log_def io_then_app split: option.splits if_splits)
  qed
qed

lemma total_bytes_loop_same:
  "total_bytes_loop es (w, fs) = (Inr (), (w', fs')) \<Longrightarrow>
   same_log w w' \<and> w_current w' = w_current w \<and> fs_files fs' = fs_files fs"
proof (induction es arbitrary: w fs)
  case (Cons e es)
  then obtain sz fs1 where st: "fs_stat (se_name e) fs = (Inr sz, fs1)" and
    "total_bytes_loop es (w\<lparr>w_totalBytes := w_totalBytes w + sz\<rparr>, fs1) = (Inr (), (w', fs'))"
    by (auto simp: io_bind_Inr_iff io_then_Inr_iff)
  from Cons.IH [OF this(2)] fs_stat_files [OF st] show ?case by (simp add: same_log_def)
qed (simp add: same_log_def)

lemma recover_live_same:
  assumes "recover_live sealed inProgress (w, fs) = (Inr (), (w', fs'))" and "w_current w = None"
  shows "same_log w w' \<and> (\<forall>s. w_current w' = Some s \<longrightarrow> (\<exists>ps. seg_live (w_maxRec w) s fs' ps))"
proof (cases "pickMaxByIndex inProgress")
  case (Some e)
  from recover_live_Inr [OF assms(1) Some]
  have "\<forall>s. w_current w' = Some s \<longrightarrow> (\<exists>ps. seg_live (w_maxRec w) s fs' ps)" by auto
  moreover from assms Some obtain n w1 fs1 where "scanForRecovery (se_name e) (w, fs) = (Inr n, (w1, fs1))"
    and "same_log w1 w'"
    by (auto simp: recover_live_def io_bind_Inr_iff io_then_Inr_iff same_log_def)
  with scanForRecovery_Inr have "same_log w w'" by (fastforce simp: same_log_def scan_keeps)
  ultimately show ?thesis by blast
next
  case None
  show ?thesis
  proof (cases "pickMaxByIndex sealed")
    case (Some e)
    with None assms obtain n where "scanForRecovery (se_name e) (w, fs) = (Inr n, (w', fs'))"
      by (auto simp: recover_live_def io_bind_Inr_iff io_then_Inr_iff)
    from scanForRecovery_Inr [OF this] assms(2) show ?thesis by (auto simp: same_log_def scan_keeps)
  next
    case None
    with \<open>pickMaxByIndex inProgress = None\<close> assms show ?thesis
      by (auto simp: recover_live_def same_log_def)
  qed
qed

lemma recover_same:
  assumes "recover (w, fs) = (Inr (), (w', fs'))" and "w_current w = None"
  shows "same_log w w' \<and> (\<forall>s. w_current w' = Some s \<longrightarrow> (\<exists>ps. seg_live (w_maxRec w) s fs' ps))"
proof -
  from assms(1) obtain sealed inp i fs1 w2 fs2 w3 fs3 w4 fs4 where
    rl: "recover_live sealed inp (w\<lparr>w_nextIndex := i\<rparr>, fs1) = (Inr (), (w2, fs2))" and
    t1: "total_bytes_loop sealed (w2, fs2) = (Inr (), (w3, fs3))" and
    t2: "total_bytes_loop inp (w3, fs3) = (Inr (), (w4, fs4))" and
    sd: "seed_loop (sealed @ inp) (w4, fs4) = (w', fs')"
    by (auto simp: recover_def io_bind_Inr_iff io_then_Inr_iff Let_def)
  have "w_current (w\<lparr>w_nextIndex := i\<rparr>) = None" using assms(2) by simp
  note a = recover_live_same [OF rl this] total_bytes_loop_same [OF t1] total_bytes_loop_same [OF t2] seed_loop_keeps [OF sd]
  then have "fs_files fs' = fs_files fs2" by simp
  from seg_live_files [OF this] a show ?thesis by (auto simp: same_log_def)
qed

lemma Wal_Open_in_service:
  assumes "Wal_Open opts fs = (Inr w, fs')"
  shows "in_service (w, fs') \<and> w_opts w = opts"
proof -
  from assms have checks: "wo_Dir opts \<noteq> []" "\<not> wo_SegmentSize opts \<le> int SegmentHeaderSize"
     "\<not> int MaxFramedPayload < wo_SegmentSize opts - int SegmentHeaderSize" "wo_SyncMode opts = SyncImmediate"
    by (auto simp: Wal_Open_def split: if_splits)
  with assms obtain fs1 w2 fs2 where
    om: "open_meta (new_wal opts, fs1) = (Inr (), (w2, fs2))" and rc: "recover (w2, fs2) = (Inr (), (w, fs'))"
    by (auto simp: Wal_Open_def io_then_Inr_iff split: sum.splits prod.splits)
  from open_meta_same [OF om] have w2: "same_log (new_wal opts) w2" "w_current w2 = None"
    by (auto simp: new_wal_def)
  from recover_same [OF rc w2(2)] w2(1) checks show ?thesis
    by (auto simp: in_service_def wal_inv_def same_log_def new_wal_def Let_def split: option.splits)
qed

section \<open>Histories\<close>

text \<open>
  Any history of one log: opening a directory, whatever it holds, and any operations with any results,
  with the disk free to change its behaviour between them. A restart after a crash is an opening.
\<close>

inductive wal_run :: "walOptions \<Rightarrow> wal \<times> fsys \<Rightarrow> bool" for opts where
  opened: "Wal_Open opts fs = (Inr w, fs') \<Longrightarrow> wal_run opts (w, fs')"
| appended: "wal_run opts ws \<Longrightarrow> Append injected seq gen payload ws = (r, ws') \<Longrightarrow> wal_run opts ws'"
| loss_appended: "wal_run opts ws \<Longrightarrow> AppendLoss loss ws = (r', ws') \<Longrightarrow> wal_run opts ws'"
| acked: "wal_run opts ws \<Longrightarrow> MarkAcked gen seq ws = (r'', ws') \<Longrightarrow> wal_run opts ws'"
| closed: "wal_run opts ws \<Longrightarrow> Wal_Close ws = (r'', ws') \<Longrightarrow> wal_run opts ws'"
| disk: "wal_run opts (w, fs) \<Longrightarrow> wal_run opts (w, fs\<lparr>fs_sched := sched\<rparr>)"

definition stopped :: "wal \<Rightarrow> bool" where
  "stopped w = (w_closed w \<or> w_fatalErr w \<noteq> None)"

lemma stopped_refuses:
  "stopped w \<Longrightarrow> \<exists>e. Append injected seq gen payload (w, fs) = (Inl e, (w, fs)) \<and> IsClean (Some e)"
  "stopped w \<Longrightarrow> \<exists>e. AppendLoss loss (w, fs) = (Inl e, (w, fs)) \<and> IsClean (Some e)"
  by (auto simp: stopped_def Append_def AppendLoss_def IsClean_def Let_def split: option.splits)

lemma stopped_MarkAcked:
  assumes "stopped w" and "MarkAcked gen seq (w, fs) = (r, (w', fs'))"
  shows "stopped w'"
proof -
  from MarkAcked_removes [OF assms(2)] obtain fs1 where
    "removes (acked_segment (set_ack gen seq w)) (set_ack gen seq w, fs1) (w', fs')" by auto
  from removes_settings [OF this] set_ack_props [of gen seq w] assms(1) show ?thesis
    by (auto simp: settings_def stopped_def)
qed

lemma stopped_Close:
  assumes "Wal_Close (w, fs) = (r, (w', fs'))"
  shows "stopped w'"
  using assms
  by (auto simp: Wal_Close_def io_then_app on_current_def stopped_def split: if_splits option.splits prod.splits sum.splits)

lemma in_service_disk: "in_service (w, fs\<lparr>fs_sched := sc\<rparr>) = in_service (w, fs)"
proof -
  have "seg_live m s (fs\<lparr>fs_sched := sc\<rparr>) = seg_live m s fs" for m s
    by (intro ext seg_live_files) simp
  then show ?thesis by (simp add: in_service_def wal_inv_def Let_def split: option.splits)
qed

lemma Append_injected:
  assumes "in_service (w, fs)" and "Append (Some ae) seq gen payload (w, fs) = (r, (w', fs'))"
  shows "stopped w' \<or> in_service (w', fs')"
  using assms by (auto simp: Append_def in_service_def stopped_def Let_def split: if_splits)

lemma wal_run_ok: "wal_run opts ws \<Longrightarrow> stopped (fst ws) \<or> in_service ws"
proof (induction rule: wal_run.induct)
  case (opened fs w fs')
  then show ?case using Wal_Open_in_service by auto
next
  case (appended ws injected seq gen payload r ws')
  obtain w fs w' fs' where ws: "ws = (w, fs)" "ws' = (w', fs')" by (metis surj_pair)
  show ?case
  proof (cases "stopped w")
    case True
    from stopped_refuses(1) [OF this, of injected seq gen payload fs] appended ws True show ?thesis by auto
  next
    case False
    then have serv: "in_service (w, fs)" using appended ws by simp
    show ?thesis
    proof (cases injected)
      case None
      with Append_cases [OF serv] appended(2) ws serv show ?thesis
        by (fastforce simp: latched_def stopped_def)
    next
      case (Some ae)
      with Append_injected [OF serv] appended(2) ws show ?thesis by auto
    qed
  qed
next
  case (loss_appended ws loss r' ws')
  obtain w fs where ws: "ws = (w, fs)" by fastforce
  show ?case
    using stopped_refuses(2) [of w loss fs] AppendLoss_cases [of w fs loss r' ws'] loss_appended ws
    by (auto simp: latched_def stopped_def)
next
  case (acked ws gen seq r'' ws')
  obtain w fs w' fs' where ws: "ws = (w, fs)" "ws' = (w', fs')" by (metis surj_pair)
  then show ?case
    using stopped_MarkAcked [of w gen seq fs r'' w' fs'] MarkAcked_in_service [of w fs gen seq r'' ws'] acked by auto
next
  case (closed ws r'' ws')
  obtain w fs w' fs' where "ws = (w, fs)" "ws' = (w', fs')" by (metis surj_pair)
  then show ?case using stopped_Close [of w fs r'' w' fs'] closed by auto
qed (simp add: in_service_disk)

text \<open>C3: an append does what it reports, in any history of the log and whatever system calls fail. If it
  succeeds, the record is the last one a reader finds in the live file of its generation, with nothing
  left buffered, and the watermarks are its position. If it fails cleanly, nothing at all has
  changed. If it fails ambiguously, the log is latched and refuses every later append with a clean
  error and no effect.
\<close>

theorem append_outcome:
  assumes "wal_run opts (w, fs)" and "Append None seq gen payload (w, fs) = (r, (w', fs'))"
  shows "(case r of
            Inr _ \<Rightarrow> in_service (w', fs') \<and> recorded gen (encodeSeqGenFrame seq gen payload) (w', fs') \<and>
                      HighWatermark w' = seq \<and> HighGeneration w' = gen
          | Inl e \<Rightarrow>
              IsClean (Some e) \<and> w' = w \<and> fs' = fs \<or>
              IsAmbiguous (Some e) \<and> w_fatalErr w' \<noteq> None \<and>
              (\<forall>injected seq2 gen2 payload2 fs2. \<exists>e2.
                 Append injected seq2 gen2 payload2 (w', fs2) = (Inl e2, (w', fs2)) \<and> IsClean (Some e2)))"
proof (cases "stopped w")
  case True
  from stopped_refuses(1) [OF this, of None seq gen payload fs] assms(2) show ?thesis by auto
next
  case False
  then have "in_service (w, fs)" using wal_run_ok [OF assms(1)] by simp
  from Append_cases [OF this assms(2)] show ?thesis
    using stopped_refuses(1) [of w']
    by (auto simp: latched_def stopped_def IsAmbiguous_def HighWatermark_def HighGeneration_def)
qed

text \<open>The first append to an empty directory, on a working disk.\<close>

theorem append_outcome_witness:
  "\<exists>w fs r w' fs'. wal_run sample_options (w, fs) \<and> Append None 7 3 [1, 2] (w, fs) = (r, (w', fs')) \<and>
     (case r of Inr _ \<Rightarrow> recorded 3 (encodeSeqGenFrame 7 3 [1, 2]) (w', fs') \<and> HighWatermark w' = 7
      | Inl e \<Rightarrow> IsClean (Some e) \<and> w' = w \<or> w_fatalErr w' \<noteq> None)"
proof -
  let ?fs = "\<lparr>fs_files = [], fs_meta = None, fs_sched = []\<rparr>"
  have "Wal_Open sample_options ?fs = (Inr (new_wal sample_options\<lparr>w_nextIndex := 1\<rparr>), ?fs)"
    by (simp add: Wal_Open_def sample_options_def SegmentHeaderSize_def MaxFramedPayload_def io_then_app io_bind_def
        io_snd_def fs_call_def fs_tick_def open_meta_def ReadMeta_def Let_def recover_def fs_readdir_def
        sealed_entries_def inprogress_entries_def List.map_filter_simps recover_live_def pickMaxByIndex_def
        max_index_def new_wal_def)
  then have hist: "wal_run sample_options (new_wal sample_options\<lparr>w_nextIndex := 1\<rparr>, ?fs)" by (rule wal_run.opened)
  obtain r w' fs' where run: "Append None 7 3 [1, 2] (new_wal sample_options\<lparr>w_nextIndex := 1\<rparr>, ?fs) = (r, (w', fs'))"
    by (metis surj_pair)
  show ?thesis
    using append_outcome [OF hist run] hist run
    by (intro exI [of _ "new_wal sample_options\<lparr>w_nextIndex := 1\<rparr>"] exI [of _ ?fs] exI [of _ r] exI [of _ w'] exI [of _ fs'])
      (auto split: sum.splits)
qed

end
