(* ===== verification/Shell_Parse.thy ===== *)
theory Shell_Parse
  imports Go_Strings
begin

text \<open>
  \<open>internal/shellparse/shellparse.go\<close>: how the policy pre-check looks inside an invocation
  \<open>sh -c "<script>"\<close>. A script that is a single external command, possibly behind environment
  assignments and transparent wrappers, is replaced by that command; a wrapper in a form the parser
  does not know is a bypass attempt; a script with other shell features is opaque; anything else
  falls back to the rule for the shell itself.

  The reasons put into deny hints are values of a datatype, one constructor per format string of
  the code, with the arguments of the format.
\<close>

section \<open>Character classes and tables\<close>

definition is_upper :: "char \<Rightarrow> bool" where
  "is_upper c = (let n = (of_char c :: nat) in 65 \<le> n \<and> n \<le> 90)"

definition is_lower :: "char \<Rightarrow> bool" where
  "is_lower c = (let n = (of_char c :: nat) in 97 \<le> n \<and> n \<le> 122)"

definition decimal_byte :: "char \<Rightarrow> bool" where
  "decimal_byte c = (let n = (of_char c :: nat) in 48 \<le> n \<and> n \<le> 57)"

definition blank :: "char \<Rightarrow> bool" where
  "blank c = (c = CHR 0x20 \<or> c = CHR 0x09)"

definition squote :: char where
  "squote = CHR 0x27"

definition double_quote :: char where
  "double_quote = CHR 0x22"

definition isUnquotedAllowedByte :: "char \<Rightarrow> bool" where
  "isUnquotedAllowedByte b =
     (is_upper b \<or> is_lower b \<or> decimal_byte b \<or>
      b = CHR ''_'' \<or> b = CHR ''.'' \<or> b = CHR ''/'' \<or> b = CHR ''-'')"

definition expansion_byte :: "char \<Rightarrow> bool" where
  "expansion_byte b = (b = CHR ''$'' \<or> b = CHR 0x60 \<or> b = CHR 0x5C)"

definition basenameLower :: "string \<Rightarrow> string" where
  "basenameLower s =
     TrimSuffix (ToLower (after_last (\<lambda>c. c = CHR ''/'' \<or> c = CHR 0x5C) s)) ''.real''"

definition isKnownShell :: "string \<Rightarrow> bool" where
  "isKnownShell base =
     (base \<in> {''sh'', ''bash'', ''dash'', ''ash'', ''mksh'', ''ksh'', ''zsh''})"

definition isTransparentWrapper :: "string \<Rightarrow> bool" where
  "isTransparentWrapper tok =
     (tok \<in> {''exec'', ''command'', ''nohup'', ''nice'', ''time'', ''env''})"

definition isShellBuiltin :: "string \<Rightarrow> bool" where
  "isShellBuiltin tok =
     (tok \<in> set [
        '':'', ''.'', ''break'', ''continue'', ''eval'', ''exec'', ''exit'', ''export'',
        ''readonly'', ''return'', ''set'', ''shift'', ''trap'', ''unset''] \<or>
      tok \<in> set [
        ''alias'', ''bg'', ''cd'', ''command'', ''fc'', ''fg'', ''getopts'', ''jobs'', ''kill'',
        ''newgrp'', ''read'', ''umask'', ''unalias'', ''wait'', ''echo'', ''printf'', ''pwd'',
        ''test'', ''['', ''true'', ''false''] \<or>
      tok \<in> set [
        ''bind'', ''builtin'', ''caller'', ''compgen'', ''compopt'', ''complete'', ''coproc'',
        ''declare'', ''dirs'', ''disown'', ''enable'', ''hash'', ''help'', ''history'', ''let'',
        ''local'', ''logout'', ''mapfile'', ''popd'', ''pushd'', ''readarray'', ''shopt'',
        ''source'', ''suspend'', ''times'', ''type'', ''typeset'', ''ulimit''] \<or>
      tok \<in> set [
        ''if'', ''then'', ''else'', ''elif'', ''fi'', ''case'', ''esac'', ''while'', ''do'',
        ''done'', ''for'', ''in'', ''function'', ''select'', ''time'', ''until'', ''{'', ''}'',
        ''!'', ''[['', '']]''])"

section \<open>Options of the shell\<close>

definition isSafeShellShortFlag :: "char \<Rightarrow> bool" where
  "isSafeShellShortFlag ch = (ch \<in> set ''eufx'' \<or> ch \<in> set ''livBHs'')"

text \<open>The scan of one option cluster: \<open>None\<close> at an unsafe flag, otherwise whether \<open>c\<close> occurs.\<close>

fun scan_cluster :: "string \<Rightarrow> bool option" where
  "scan_cluster [] = Some False"
| "scan_cluster (ch # cluster) =
     (if ch = CHR ''c'' then map_option (\<lambda>_. True) (scan_cluster cluster)
      else if isSafeShellShortFlag ch then scan_cluster cluster
      else None)"

text \<open>The index of the cluster with \<open>c\<close>; \<open>None\<close> stands for the pair \<open>(0, false)\<close>.\<close>

fun findShellCFlag_from :: "nat \<Rightarrow> string list \<Rightarrow> nat option" where
  "findShellCFlag_from i [] = None"
| "findShellCFlag_from i (arg # args) =
     (if length arg < 2 \<or> arg ! 0 \<noteq> CHR ''-'' then None
      else if arg ! 1 = CHR ''-'' then None
      else case scan_cluster (drop 1 arg) of
        None \<Rightarrow> None
      | Some hasC \<Rightarrow> if hasC then Some i else findShellCFlag_from (i + 1) args)"

definition findShellCFlag :: "string list \<Rightarrow> nat option" where
  "findShellCFlag shellArgs = findShellCFlag_from 0 shellArgs"

fun hasShellCWithUnsafeOptions :: "string list \<Rightarrow> bool" where
  "hasShellCWithUnsafeOptions [] = False"
| "hasShellCWithUnsafeOptions (arg # args) =
     (if arg = ''--'' then False
      else if length arg < 2 \<or> arg ! 0 \<noteq> CHR ''-'' then hasShellCWithUnsafeOptions args
      else if arg ! 1 = CHR ''-'' then hasShellCWithUnsafeOptions args
      else CHR ''c'' \<in> set (drop 1 arg) \<or> hasShellCWithUnsafeOptions args)"

section \<open>Environment assignments\<close>

definition isValidAssignName :: "string \<Rightarrow> bool" where
  "isValidAssignName name =
     (case name of [] \<Rightarrow> False
      | c # cs \<Rightarrow> (is_upper c \<or> is_lower c \<or> c = CHR ''_'') \<and>
          list_all (\<lambda>c. is_upper c \<or> is_lower c \<or> decimal_byte c \<or> c = CHR ''_'') cs)"

definition valueBytesAllowed :: "string \<Rightarrow> bool" where
  "valueBytesAllowed v = list_all isUnquotedAllowedByte v"

text \<open>
  One turn of the loop consumes a blank-delimited token with a byte \<open>=\<close> after a valid name. The
  result pairs the remainder with the flag \<open>dirty\<close>.
\<close>

function stripLeadingAssignments :: "string \<Rightarrow> string \<times> bool" where
  "stripLeadingAssignments remainder =
     (let rest = dropWhile blank remainder;
          tok = takeWhile (\<lambda>c. \<not> blank c) rest;
          name = takeWhile (\<lambda>c. c \<noteq> CHR ''='') tok;
          after = dropWhile (\<lambda>c. c \<noteq> CHR ''='') tok
      in if rest = [] then (remainder, False)
         else if after = [] \<or> name = [] then (remainder, False)
         else if \<not> isValidAssignName name then (remainder, False)
         else if \<not> valueBytesAllowed (tl after) then ([], True)
         else stripLeadingAssignments (drop (length tok) rest))"
  by pat_completeness auto
termination
proof (relation "measure length")
  fix remainder rest tok name after :: string
  assume *: "rest = dropWhile blank remainder" "tok = takeWhile (\<lambda>c. \<not> blank c) rest"
    "after = dropWhile (\<lambda>c. c \<noteq> CHR ''='') tok" "rest \<noteq> []" "\<not> (after = [] \<or> name = [])"
  then have "length tok > 0" "length rest > 0"
    by auto
  then have "length (drop (length tok) rest) < length rest"
    by simp
  moreover have "length rest \<le> length remainder"
    using * by (simp add: length_dropWhile_le)
  ultimately show "(drop (length tok) rest, remainder) \<in> measure length"
    by simp
qed simp

section \<open>The tokenizer\<close>

datatype tokState = stateOutside | stateUnquoted | stateSingleQuote | stateDoubleQuote

text \<open>
  The loop over the bytes with its variables \<open>state\<close>, \<open>cur\<close> and \<open>tokens\<close>; the result is the pair
  \<open>(tokens, opaque)\<close> the function returns.
\<close>

fun tokenize_loop :: "tokState \<Rightarrow> string \<Rightarrow> string list \<Rightarrow> string \<Rightarrow> string list \<times> bool" where
  "tokenize_loop stateOutside cur tokens [] = (tokens, False)"
| "tokenize_loop stateUnquoted cur tokens [] = (tokens @ [cur], False)"
| "tokenize_loop stateSingleQuote cur tokens [] = ([], True)"
| "tokenize_loop stateDoubleQuote cur tokens [] = ([], True)"
| "tokenize_loop stateOutside cur tokens (b # s) =
     (if blank b then tokenize_loop stateOutside cur tokens s
      else if b = squote then tokenize_loop stateSingleQuote cur tokens s
      else if b = double_quote then tokenize_loop stateDoubleQuote cur tokens s
      else if isUnquotedAllowedByte b then tokenize_loop stateUnquoted (cur @ [b]) tokens s
      else ([], True))"
| "tokenize_loop stateUnquoted cur tokens (b # s) =
     (if blank b then tokenize_loop stateOutside [] (tokens @ [cur]) s
      else if b = squote then tokenize_loop stateSingleQuote cur tokens s
      else if b = double_quote then tokenize_loop stateDoubleQuote cur tokens s
      else if isUnquotedAllowedByte b then tokenize_loop stateUnquoted (cur @ [b]) tokens s
      else ([], True))"
| "tokenize_loop stateSingleQuote cur tokens (b # s) =
     (if b = squote then tokenize_loop stateUnquoted cur tokens s
      else tokenize_loop stateSingleQuote (cur @ [b]) tokens s)"
| "tokenize_loop stateDoubleQuote cur tokens (b # s) =
     (if b = double_quote then tokenize_loop stateUnquoted cur tokens s
      else if expansion_byte b then ([], True)
      else tokenize_loop stateDoubleQuote (cur @ [b]) tokens s)"

definition tokenizeSimpleScript :: "string \<Rightarrow> string list \<times> bool" where
  "tokenizeSimpleScript script = tokenize_loop stateOutside [] [] script"

definition firstWord :: "string \<Rightarrow> string" where
  "firstWord s = takeWhile (\<lambda>c. \<not> blank c) (dropWhile blank s)"

section \<open>Transparent wrappers\<close>

definition isNumericIncrement :: "string \<Rightarrow> bool" where
  "isNumericIncrement s =
     (case s of [] \<Rightarrow> False
      | c # cs \<Rightarrow>
          if c = CHR ''+'' \<or> c = CHR ''-'' then cs \<noteq> [] \<and> list_all decimal_byte cs
          else list_all decimal_byte s)"

function stripWrappers :: "string list \<Rightarrow> string list \<times> bool" where
  "stripWrappers tokens =
     (if length tokens \<ge> 2 \<and> isTransparentWrapper (tokens ! 0) then
        let wrapper = tokens ! 0; next = tokens ! 1
        in if \<not> HasPrefix next ''-'' then stripWrappers (drop 1 tokens)
           else if wrapper = ''nice'' \<and> next = ''-n'' \<and> length tokens \<ge> 3 \<and>
                   isNumericIncrement (tokens ! 2) then stripWrappers (drop 3 tokens)
           else if wrapper = ''command'' \<and> (next = ''-v'' \<or> next = ''-V'') then (tokens, False)
           else ([], True)
      else (tokens, False))"
  by pat_completeness auto
termination
  by (relation "measure length") auto

declare stripLeadingAssignments.simps [simp del] stripWrappers.simps [simp del]

section \<open>Classification of an invocation\<close>

datatype parseStatus = statusFallback | statusOK | statusBypass | statusOpaque

definition parseSimpleShellC :: "string list \<Rightarrow> string \<times> string list \<times> parseStatus" where
  "parseSimpleShellC shellArgs =
     (case findShellCFlag shellArgs of
        None \<Rightarrow>
          if hasShellCWithUnsafeOptions shellArgs then ([], [], statusBypass)
          else ([], [], statusFallback)
      | Some cFlagIdx \<Rightarrow>
          if cFlagIdx + 1 \<ge> length shellArgs then ([], [], statusFallback)
          else
            let script = TrimSpace (shellArgs ! (cFlagIdx + 1))
            in if script = [] then ([], [], statusFallback)
               else case stripLeadingAssignments script of (script, dirty) \<Rightarrow>
                 if dirty then ([], [], statusBypass)
                 else
                   let script = TrimSpace script
                   in if script = [] then ([], [], statusFallback)
                      else case tokenizeSimpleScript script of (tokens, opaque) \<Rightarrow>
                        if opaque then
                          if isTransparentWrapper (firstWord script) then ([], [], statusBypass)
                          else ([], [], statusOpaque)
                        else if tokens = [] then ([], [], statusFallback)
                        else case stripWrappers tokens of (tokens, bypass) \<Rightarrow>
                          if bypass then ([], [], statusBypass)
                          else if tokens = [] then ([], [], statusFallback)
                          else if isShellBuiltin (tokens ! 0) then ([], [], statusFallback)
                          else (tokens ! 0, drop 1 tokens, statusOK))"

text \<open>\<open>None\<close> stands for \<open>("", nil, false)\<close>.\<close>

definition DerivePolicyTarget :: "string \<Rightarrow> string list \<Rightarrow> (string \<times> string list) option" where
  "DerivePolicyTarget command args =
     (if command = [] then None
      else if \<not> isKnownShell (basenameLower command) then None
      else case parseSimpleShellC args of (cmd, argv, status) \<Rightarrow>
        if status = statusOK then Some (cmd, argv) else None)"

definition IsShellCBypassAttempt :: "string \<Rightarrow> string list \<Rightarrow> bool" where
  "IsShellCBypassAttempt command args =
     (if command = [] then False
      else if \<not> isKnownShell (basenameLower command) then False
      else case parseSimpleShellC args of (_, _, status) \<Rightarrow> status = statusBypass)"

definition IsOpaqueShellC :: "string \<Rightarrow> string list \<Rightarrow> bool" where
  "IsOpaqueShellC command args =
     (if command = [] then False
      else if \<not> isKnownShell (basenameLower command) then False
      else case parseSimpleShellC args of (_, _, status) \<Rightarrow> status = statusOpaque)"

section \<open>Reasons for deny hints\<close>

datatype bypassReason =
    LongOption string | OptionTakesArgument string | PlusPrefixed string | UnsafeOption char
  | UnparsableInvocation | DirtyAssignment | WrapperForm string | WrapperFlag string string

text \<open>The scan of a cluster, returning the first unsafe flag or whether \<open>c\<close> was found.\<close>

fun cluster_reason :: "bool \<Rightarrow> string \<Rightarrow> char + bool" where
  "cluster_reason foundC [] = Inr foundC"
| "cluster_reason foundC (ch # cluster) =
     (if ch = CHR ''c'' then cluster_reason True cluster
      else if \<not> isSafeShellShortFlag ch then Inl ch
      else cluster_reason foundC cluster)"

text \<open>The loop over the options: an early return, or the final value of \<open>cFlagIdx\<close>.\<close>

fun option_reason :: "nat \<Rightarrow> string list \<Rightarrow> bypassReason + nat option" where
  "option_reason i [] = Inr None"
| "option_reason i (arg # args) =
     (if length arg < 2 \<or> (arg ! 0 \<noteq> CHR ''-'' \<and> arg ! 0 \<noteq> CHR ''+'') then Inr None
      else if arg ! 0 = CHR ''-'' \<and> arg ! 1 = CHR ''-'' then Inl (LongOption arg)
      else if arg = ''-o'' \<or> arg = ''+o'' \<or> arg = ''-O'' \<or> arg = ''+O'' then
        Inl (OptionTakesArgument arg)
      else if arg ! 0 = CHR ''+'' then Inl (PlusPrefixed arg)
      else case cluster_reason False (drop 1 arg) of
        Inl ch \<Rightarrow> Inl (UnsafeOption ch)
      | Inr foundC \<Rightarrow> if foundC then Inr (Some i) else option_reason (i + 1) args)"

function wrapper_reason :: "string list \<Rightarrow> bypassReason" where
  "wrapper_reason tokens =
     (if length tokens \<ge> 2 \<and> isTransparentWrapper (tokens ! 0) then
        let wrapper = tokens ! 0; next = tokens ! 1
        in if \<not> HasPrefix next ''-'' then wrapper_reason (drop 1 tokens)
           else if wrapper = ''nice'' \<and> next = ''-n'' \<and> length tokens \<ge> 3 \<and>
                   isNumericIncrement (tokens ! 2) then wrapper_reason (drop 3 tokens)
           else WrapperFlag wrapper next
      else UnparsableInvocation)"
  by pat_completeness auto
termination
  by (relation "measure length") auto

declare wrapper_reason.simps [simp del]

definition computeBypassReason :: "string list \<Rightarrow> bypassReason" where
  "computeBypassReason shellArgs =
     (case option_reason 0 shellArgs of
        Inl r \<Rightarrow> r
      | Inr None \<Rightarrow> UnparsableInvocation
      | Inr (Some cFlagIdx) \<Rightarrow>
          if cFlagIdx + 1 \<ge> length shellArgs then UnparsableInvocation
          else
            let script = TrimSpace (shellArgs ! (cFlagIdx + 1))
            in if snd (stripLeadingAssignments script) then DirtyAssignment
               else
                 let script = TrimSpace (fst (stripLeadingAssignments script))
                 in if script = [] then UnparsableInvocation
                    else case tokenizeSimpleScript script of (tokens, opaque) \<Rightarrow>
                      if opaque then
                        if isTransparentWrapper (firstWord script) then WrapperForm (firstWord script)
                        else UnparsableInvocation
                      else wrapper_reason tokens)"

definition BypassReason :: "string \<Rightarrow> string list \<Rightarrow> bypassReason option" where
  "BypassReason command args =
     (if command = [] then None
      else if \<not> isKnownShell (basenameLower command) then None
      else case parseSimpleShellC args of (_, _, status) \<Rightarrow>
        if status \<noteq> statusBypass then None else Some (computeBypassReason args))"

datatype opaqueReason =
    Metacharacter char | Redirect char | Subshell char | Glob char | Expansion
  | CommandSubstitution | Escape | AssignmentShape | Comment | Tilde | Brace char
  | HistoryExpansion | Newline | UnsafeByte char | UnterminatedQuote | UnparsableScript

definition describeOpaqueByte :: "char \<Rightarrow> opaqueReason" where
  "describeOpaqueByte b =
     (if b = CHR '';'' \<or> b = CHR ''|'' \<or> b = CHR ''&'' then Metacharacter b
      else if b = CHR ''>'' \<or> b = CHR ''<'' then Redirect b
      else if b = CHR ''('' \<or> b = CHR '')'' then Subshell b
      else if b = CHR ''*'' \<or> b = CHR ''?'' \<or> b = CHR ''['' then Glob b
      else if b = CHR ''$'' then Expansion
      else if b = CHR 0x60 then CommandSubstitution
      else if b = CHR 0x5C then Escape
      else if b = CHR ''='' then AssignmentShape
      else if b = CHR ''#'' then Comment
      else if b = CHR ''~'' then Tilde
      else if b = CHR ''{'' \<or> b = CHR ''}'' then Brace b
      else if b = CHR ''!'' then HistoryExpansion
      else if b = CHR 0x0A then Newline
      else UnsafeByte b)"

fun opaque_walk :: "tokState \<Rightarrow> string \<Rightarrow> opaqueReason" where
  "opaque_walk state [] =
     (if state = stateSingleQuote \<or> state = stateDoubleQuote then UnterminatedQuote
      else UnparsableScript)"
| "opaque_walk stateOutside (b # s) =
     (if blank b then opaque_walk stateOutside s
      else if b = squote then opaque_walk stateSingleQuote s
      else if b = double_quote then opaque_walk stateDoubleQuote s
      else if isUnquotedAllowedByte b then opaque_walk stateUnquoted s
      else describeOpaqueByte b)"
| "opaque_walk stateUnquoted (b # s) =
     (if blank b then opaque_walk stateOutside s
      else if b = squote then opaque_walk stateSingleQuote s
      else if b = double_quote then opaque_walk stateDoubleQuote s
      else if isUnquotedAllowedByte b then opaque_walk stateUnquoted s
      else describeOpaqueByte b)"
| "opaque_walk stateSingleQuote (b # s) =
     (if b = squote then opaque_walk stateUnquoted s else opaque_walk stateSingleQuote s)"
| "opaque_walk stateDoubleQuote (b # s) =
     (if b = double_quote then opaque_walk stateUnquoted s
      else if expansion_byte b then describeOpaqueByte b
      else opaque_walk stateDoubleQuote s)"

definition computeOpaqueReason :: "string list \<Rightarrow> opaqueReason" where
  "computeOpaqueReason shellArgs =
     (case findShellCFlag shellArgs of
        None \<Rightarrow> UnparsableScript
      | Some cFlagIdx \<Rightarrow>
          if cFlagIdx + 1 \<ge> length shellArgs then UnparsableScript
          else
            let script = TrimSpace (shellArgs ! (cFlagIdx + 1));
                script = TrimSpace (fst (stripLeadingAssignments script))
            in opaque_walk stateOutside script)"

definition OpaqueReason :: "string \<Rightarrow> string list \<Rightarrow> opaqueReason option" where
  "OpaqueReason command args =
     (if command = [] then None
      else if \<not> isKnownShell (basenameLower command) then None
      else case parseSimpleShellC args of (_, _, status) \<Rightarrow>
        if status \<noteq> statusOpaque then None else Some (computeOpaqueReason args))"

end
