(* ===== verification/Shell_Words.thy ===== *)
theory Shell_Words
  imports Shell_Parse
begin

text \<open>
  What the shell-script parser computes, stated independently of its loops: the words of a script
  by a grammar of quoted and unquoted spans, the environment assignments in front of a command, and
  the command behind a chain of wrappers. The tokenizer is shown to accept exactly the scripts of the
  grammar and \<open>DerivePolicyTarget\<close> to return exactly the command of the specification.
\<close>

section \<open>A grammar of scripts\<close>

text \<open>\<open>spans w v\<close>: the source text \<open>w\<close> of one word has the value \<open>v\<close> after quote removal.\<close>

inductive spans :: "string \<Rightarrow> string \<Rightarrow> bool" where
  spans_Nil: "spans [] []"
| spans_plain: "isUnquotedAllowedByte b \<Longrightarrow> spans w v \<Longrightarrow> spans (b # w) (b # v)"
| spans_single: "squote \<notin> set q \<Longrightarrow> spans w v \<Longrightarrow> spans (squote # q @ squote # w) (q @ v)"
| spans_double:
    "double_quote \<notin> set q \<Longrightarrow> \<forall>b \<in> set q. \<not> expansion_byte b \<Longrightarrow> spans w v \<Longrightarrow>
     spans (double_quote # q @ double_quote # w) (q @ v)"

text \<open>\<open>words s ws\<close>: the script \<open>s\<close> is a sequence of words separated by blanks.\<close>

inductive words :: "string \<Rightarrow> string list \<Rightarrow> bool" where
  words_Nil: "words [] []"
| words_blank: "blank b \<Longrightarrow> words s ws \<Longrightarrow> words (b # s) ws"
| words_word:
    "spans w v \<Longrightarrow> w \<noteq> [] \<Longrightarrow> s = [] \<or> blank (hd s) \<Longrightarrow> words s ws \<Longrightarrow> words (w @ s) (v # ws)"

section \<open>The command a shell invocation runs\<close>

text \<open>\<open>strips s r\<close>: the script \<open>s\<close> is a sequence of assignments followed by \<open>r\<close>.\<close>

inductive strips :: "string \<Rightarrow> string \<Rightarrow> bool" where
  strips_refl: "strips s s"
| strips_assign:
    "list_all blank bs \<Longrightarrow> isValidAssignName name \<Longrightarrow> valueBytesAllowed v \<Longrightarrow>
     s = [] \<or> blank (hd s) \<Longrightarrow> strips s r \<Longrightarrow> strips (bs @ name @ CHR ''='' # v @ s) r"

text \<open>\<open>runs ts r\<close>: the argument vector \<open>ts\<close>, a chain of wrappers, executes \<open>r\<close>.\<close>

inductive runs :: "string list \<Rightarrow> string list \<Rightarrow> bool" where
  runs_self: "runs ts ts"
| runs_wrapper:
    "isTransparentWrapper w \<Longrightarrow> \<not> HasPrefix n ''-'' \<Longrightarrow> runs (n # ts) r \<Longrightarrow> runs (w # n # ts) r"
| runs_nice: "isNumericIncrement k \<Longrightarrow> runs ts r \<Longrightarrow> runs (''nice'' # ''-n'' # k # ts) r"

text \<open>A cluster of audited flags, the flag \<open>c\<close> included.\<close>

definition safe_cluster :: "string \<Rightarrow> bool" where
  "safe_cluster arg \<longleftrightarrow>
     (\<exists>cs. arg = CHR ''-'' # cs \<and> cs \<noteq> [] \<and> (\<forall>ch \<in> set cs. ch = CHR ''c'' \<or> isSafeShellShortFlag ch))"

definition simple_command :: "string list \<Rightarrow> string \<Rightarrow> string list \<Rightarrow> bool" where
  "simple_command args c as \<longleftrightarrow>
     (\<exists>opts cl script rest r ws.
        args = opts @ cl # script # rest \<and>
        (\<forall>o' \<in> set opts. safe_cluster o' \<and> CHR ''c'' \<notin> set o') \<and>
        safe_cluster cl \<and> CHR ''c'' \<in> set cl \<and>
        strips (TrimSpace script) r \<and> words (TrimSpace r) ws \<and> runs ws (c # as)) \<and>
     \<not> isShellBuiltin c \<and> (isTransparentWrapper c \<longrightarrow> as = [])"

section \<open>The tokenizer implements the grammar\<close>

lemma quotes_distinct [simp]:
  "\<not> blank squote" "\<not> blank double_quote" "squote \<noteq> double_quote" "double_quote \<noteq> squote"
  "\<not> isUnquotedAllowedByte squote" "\<not> isUnquotedAllowedByte double_quote"
  by (simp_all add: blank_def squote_def double_quote_def isUnquotedAllowedByte_def is_upper_def
      is_lower_def decimal_byte_def)

lemma allowed_not_special:
  "isUnquotedAllowedByte b \<Longrightarrow> \<not> blank b \<and> b \<noteq> squote \<and> b \<noteq> double_quote"
  by (auto simp: blank_def squote_def double_quote_def isUnquotedAllowedByte_def is_upper_def
      is_lower_def decimal_byte_def)

lemma tokenize_single:
  "squote \<notin> set q \<Longrightarrow>
   tokenize_loop stateSingleQuote cur tokens (q @ squote # s) =
     tokenize_loop stateUnquoted (cur @ q) tokens s"
  by (induction q arbitrary: cur) auto

lemma tokenize_double:
  "double_quote \<notin> set q \<Longrightarrow> \<forall>b \<in> set q. \<not> expansion_byte b \<Longrightarrow>
   tokenize_loop stateDoubleQuote cur tokens (q @ double_quote # s) =
     tokenize_loop stateUnquoted (cur @ q) tokens s"
  by (induction q arbitrary: cur) auto

lemma tokenize_spans:
  "spans w v \<Longrightarrow>
   tokenize_loop stateUnquoted cur tokens (w @ s) = tokenize_loop stateUnquoted (cur @ v) tokens s"
  by (induction arbitrary: cur rule: spans.induct)
    (auto simp: tokenize_single tokenize_double dest: allowed_not_special)

lemma tokenize_first_span:
  assumes "spans w v" and "w \<noteq> []"
  shows "tokenize_loop stateOutside cur tokens (w @ s) = tokenize_loop stateUnquoted cur tokens (w @ s)"
  using assms by cases (auto dest: allowed_not_special)

lemma tokenize_words:
  "words s ws \<Longrightarrow> tokenize_loop stateOutside [] tokens s = (tokens @ ws, False)"
proof (induction arbitrary: tokens rule: words.induct)
  case (words_word w v s ws)
  then have "tokenize_loop stateOutside [] tokens (w @ s) = tokenize_loop stateUnquoted v tokens s"
    by (simp add: tokenize_first_span tokenize_spans)
  with words_word show ?case
    by (cases s) auto
qed auto

text \<open>What the rest of a script may be in each state of the tokenizer.\<close>

definition word_rest :: "string \<Rightarrow> string \<Rightarrow> string list \<Rightarrow> bool" where
  "word_rest cur s ws \<longleftrightarrow>
     (\<exists>w v s' us. s = w @ s' \<and> spans w v \<and> (s' = [] \<or> blank (hd s')) \<and> words s' us \<and>
        ws = (cur @ v) # us)"

fun rest_of :: "tokState \<Rightarrow> string \<Rightarrow> string \<Rightarrow> string list \<Rightarrow> bool" where
  "rest_of stateOutside cur s ws = words s ws"
| "rest_of stateUnquoted cur s ws = word_rest cur s ws"
| "rest_of stateSingleQuote cur s ws =
     (\<exists>q s'. s = q @ squote # s' \<and> squote \<notin> set q \<and> word_rest (cur @ q) s' ws)"
| "rest_of stateDoubleQuote cur s ws =
     (\<exists>q s'. s = q @ double_quote # s' \<and> double_quote \<notin> set q \<and> (\<forall>b \<in> set q. \<not> expansion_byte b) \<and>
        word_rest (cur @ q) s' ws)"

lemma word_rest_Nil: "word_rest cur [] [cur]"
  by (auto simp: word_rest_def intro!: exI spans_Nil words_Nil)

lemma word_rest_blank: "blank b \<Longrightarrow> words s ws \<Longrightarrow> word_rest cur (b # s) (cur # ws)"
  unfolding word_rest_def
  by (intro exI [of _ "[]"] exI [of _ "b # s"] exI [of _ ws]) (auto intro: spans_Nil words_blank)

lemma word_rest_plain:
  "isUnquotedAllowedByte b \<Longrightarrow> word_rest (cur @ [b]) s ws \<Longrightarrow> word_rest cur (b # s) ws"
  unfolding word_rest_def by (metis append_Cons append_Nil append_assoc spans_plain)

lemma word_rest_single:
  "squote \<notin> set q \<Longrightarrow> word_rest (cur @ q) s ws \<Longrightarrow> word_rest cur (squote # q @ squote # s) ws"
  unfolding word_rest_def
  by (elim exE conjE, rule exI [of _ "squote # q @ squote # w" for w], rule exI [of _ "q @ v" for v])
    (auto intro!: exI spans_single)

lemma word_rest_double:
  "double_quote \<notin> set q \<Longrightarrow> \<forall>b \<in> set q. \<not> expansion_byte b \<Longrightarrow> word_rest (cur @ q) s ws \<Longrightarrow>
   word_rest cur (double_quote # q @ double_quote # s) ws"
  unfolding word_rest_def
  by (elim exE conjE, rule exI [of _ "double_quote # q @ double_quote # w" for w], rule exI [of _ "q @ v" for v])
    (auto intro!: exI spans_double)

lemma rest_single_close: "word_rest cur s ws \<Longrightarrow> rest_of stateSingleQuote cur (squote # s) ws"
  by (simp, rule exI [of _ "[]"]) simp

lemma rest_double_close: "word_rest cur s ws \<Longrightarrow> rest_of stateDoubleQuote cur (double_quote # s) ws"
  by (simp, rule exI [of _ "[]"]) simp

lemma rest_single_more:
  "b \<noteq> squote \<Longrightarrow> rest_of stateSingleQuote (cur @ [b]) s ws \<Longrightarrow> rest_of stateSingleQuote cur (b # s) ws"
  by (simp, elim exE conjE, rule_tac x = "b # q" in exI) simp

lemma rest_double_more:
  "b \<noteq> double_quote \<Longrightarrow> \<not> expansion_byte b \<Longrightarrow> rest_of stateDoubleQuote (cur @ [b]) s ws \<Longrightarrow>
   rest_of stateDoubleQuote cur (b # s) ws"
  by (simp, elim exE conjE, rule_tac x = "b # q" in exI) simp

lemma words_of_rest:
  assumes "word_rest [] s ws" and "s \<noteq> []" and "\<not> blank (hd s)"
  shows "words s ws"
proof -
  from assms(1) obtain w v s' us where *: "s = w @ s'" "spans w v" "s' = [] \<or> blank (hd s')"
    "words s' us" "ws = v # us"
    by (auto simp: word_rest_def)
  with assms(2,3) have "w \<noteq> []" by auto
  with * show ?thesis by (auto intro: words_word)
qed

lemma tokenize_sound:
  assumes "tokenize_loop st cur tokens s = (ts, False)" and "st = stateOutside \<longrightarrow> cur = []"
  shows "\<exists>ws. rest_of st cur s ws \<and> ts = tokens @ ws"
  using assms
proof (induction st cur tokens s arbitrary: ts rule: tokenize_loop.induct)
  case (1 cur tokens)
  then show ?case by (auto intro: words_Nil)
next
  case (2 cur tokens)
  then show ?case by (auto intro: word_rest_Nil)
next
  case (5 cur tokens b s)
  have cur: "cur = []"
    using "5.prems" by simp
  show ?case
  proof (cases "blank b")
    case True
    with 5 show ?thesis by (auto intro: words_blank)
  next
    case False
    then have "\<exists>ws. word_rest [] (b # s) ws \<and> ts = tokens @ ws"
      using 5 cur
      by (auto split: if_splits intro!: word_rest_single word_rest_double
          intro: word_rest_plain [where cur = "[]", simplified])
    with False show ?thesis
      using words_of_rest [of "b # s"] by auto
  qed
next
  case (6 cur tokens b s)
  show ?case
  proof (cases "blank b")
    case True
    with 6 show ?thesis by (fastforce intro: word_rest_blank)
  next
    case False
    then show ?thesis
      using 6
      by (auto split: if_splits intro!: word_rest_single word_rest_double intro: word_rest_plain)
  qed
next
  case (7 cur tokens b s)
  show ?case
  proof (cases "b = squote")
    case True
    with 7 show ?thesis
      by (auto simp del: rest_of.simps(3) intro: rest_single_close)
  next
    case False
    with 7 show ?thesis
      by (auto simp del: rest_of.simps(3) intro: rest_single_more)
  qed
next
  case (8 cur tokens b s)
  show ?case
  proof (cases "b = double_quote")
    case True
    with 8 show ?thesis
      by (auto simp del: rest_of.simps(4) intro: rest_double_close)
  next
    case False
    with 8 show ?thesis
      by (auto simp del: rest_of.simps(4) intro: rest_double_more split: if_splits)
  qed
qed auto

lemma tokenize_iff: "tokenizeSimpleScript s = (ws, False) \<longleftrightarrow> words s ws"
  using tokenize_sound [of stateOutside "[]" "[]" s ws] tokenize_words [of s ws "[]"]
  by (auto simp: tokenizeSimpleScript_def)

section \<open>Options\<close>

lemma scan_cluster_Some:
  "scan_cluster cs = Some h \<longleftrightarrow>
     (\<forall>ch \<in> set cs. ch = CHR ''c'' \<or> isSafeShellShortFlag ch) \<and> h = (CHR ''c'' \<in> set cs)"
  by (induction cs arbitrary: h) auto

lemma dash_not_safe [simp]: "\<not> isSafeShellShortFlag CHR ''-''"
  by (simp add: isSafeShellShortFlag_def)

lemma scan_cluster_None:
  "scan_cluster cs = None \<longleftrightarrow> \<not> (\<forall>ch \<in> set cs. ch = CHR ''c'' \<or> isSafeShellShortFlag ch)"
  by (induction cs) auto

lemma safe_cluster_Cons:
  "safe_cluster (a # as) \<longleftrightarrow> a = CHR ''-'' \<and> as \<noteq> [] \<and> scan_cluster as \<noteq> None"
  by (simp add: safe_cluster_def scan_cluster_None)

lemma safe_cluster_iff:
  "safe_cluster arg \<longleftrightarrow>
     length arg \<ge> 2 \<and> arg ! 0 = CHR ''-'' \<and> arg ! 1 \<noteq> CHR ''-'' \<and> scan_cluster (drop 1 arg) \<noteq> None"
proof (cases arg)
  case (Cons a as)
  then show ?thesis
    by (cases as) (auto simp: safe_cluster_Cons)
qed (simp add: safe_cluster_def)

lemma scan_safe_cluster:
  assumes "safe_cluster arg"
  shows "scan_cluster (drop 1 arg) = Some (CHR ''c'' \<in> set arg)"
proof (cases arg)
  case Nil
  with assms show ?thesis by (simp add: safe_cluster_def)
next
  case (Cons a as)
  with assms obtain h where "a = CHR ''-''" "scan_cluster as = Some h"
    by (auto simp: safe_cluster_Cons)
  moreover from this(2) have "h = (CHR ''c'' \<in> set as)"
    unfolding scan_cluster_Some by blast
  ultimately show ?thesis by (simp add: Cons)
qed

lemma findShellCFlag_from_Cons:
  "findShellCFlag_from i (arg # args) =
     (if safe_cluster arg then
        if CHR ''c'' \<in> set arg then Some i else findShellCFlag_from (i + 1) args
      else None)"
proof (cases "safe_cluster arg")
  case True
  then show ?thesis
    using scan_safe_cluster [OF True] by (auto simp: safe_cluster_iff)
next
  case False
  then show ?thesis
    by (auto simp: safe_cluster_iff)
qed

definition leads_to_c :: "string list \<Rightarrow> string list \<Rightarrow> bool" where
  "leads_to_c opts args \<longleftrightarrow>
     (\<exists>cl rest. args = opts @ cl # rest \<and>
        (\<forall>o' \<in> set opts. safe_cluster o' \<and> CHR ''c'' \<notin> set o') \<and>
        safe_cluster cl \<and> CHR ''c'' \<in> set cl)"

lemma leads_to_c_Cons:
  "leads_to_c opts (arg # args) \<longleftrightarrow>
     safe_cluster arg \<and>
     (if CHR ''c'' \<in> set arg then opts = []
      else \<exists>opts'. opts = arg # opts' \<and> leads_to_c opts' args)"
  by (cases opts) (auto simp: leads_to_c_def)

lemma findShellCFlag_from_iff:
  "findShellCFlag_from i args = Some n \<longleftrightarrow> (\<exists>opts. leads_to_c opts args \<and> n = i + length opts)"
proof (induction args arbitrary: i)
  case Nil
  show ?case by (simp add: leads_to_c_def)
next
  case (Cons arg args)
  show ?case
  proof (cases "safe_cluster arg \<and> CHR ''c'' \<notin> set arg")
    case True
    then have "findShellCFlag_from i (arg # args) = findShellCFlag_from (Suc i) args"
      by (simp only: findShellCFlag_from_Cons) simp
    moreover have "leads_to_c opts (arg # args) \<longleftrightarrow> (\<exists>opts'. opts = arg # opts' \<and> leads_to_c opts' args)"
      for opts
      using True by (simp add: leads_to_c_Cons)
    ultimately show ?thesis
      using Cons.IH [of "Suc i"] by auto
  next
    case False
    then show ?thesis
      by (auto simp: findShellCFlag_from_Cons leads_to_c_Cons simp del: findShellCFlag_from.simps)
  qed
qed

end
