(* ===== verification/Shell_Derive.thy ===== *)
theory Shell_Derive
  imports Shell_Words
begin

text \<open>
  \<open>DerivePolicyTarget\<close> returns exactly the command of the specification in \<open>Shell_Words\<close>, and the
  reason given for an opaque script names the byte at which the script left the grammar.
\<close>

section \<open>Environment assignments\<close>

definition starts_assign :: "string \<Rightarrow> bool" where
  "starts_assign r \<longleftrightarrow>
     (\<exists>bs name rest. list_all blank bs \<and> isValidAssignName name \<and> r = bs @ name @ CHR ''='' # rest)"

lemma allowed_props:
  "isUnquotedAllowedByte b \<Longrightarrow> \<not> blank b" "isUnquotedAllowedByte b \<Longrightarrow> b \<noteq> CHR ''=''"
  by (auto simp: blank_def isUnquotedAllowedByte_def is_upper_def is_lower_def decimal_byte_def)

lemma eq_not_blank: "\<not> blank CHR ''=''"
  by (simp add: blank_def)

lemma valid_name_allowed:
  "isValidAssignName name \<Longrightarrow> name \<noteq> [] \<and> (\<forall>c \<in> set name. isUnquotedAllowedByte c)"
  by (cases name) (auto simp: isValidAssignName_def isUnquotedAllowedByte_def list_all_iff)

lemma dropWhile_after_blanks:
  "list_all blank bs \<Longrightarrow> s \<noteq> [] \<Longrightarrow> \<not> blank (hd s) \<Longrightarrow> dropWhile blank (bs @ s) = s"
  by (induction bs) (auto simp: dropWhile_eq_self_iff)

lemma takeWhile_until:
  "\<forall>c \<in> set w. P c \<Longrightarrow> s = [] \<or> \<not> P (hd s) \<Longrightarrow> takeWhile P (w @ s) = w"
  by (cases s) (auto simp: takeWhile_append2)

lemma strip_step:
  assumes bs: "list_all blank bs" and name: "isValidAssignName name"
    and v: "valueBytesAllowed v" and s: "s = [] \<or> blank (hd s)"
  shows "stripLeadingAssignments (bs @ name @ CHR ''='' # v @ s) = stripLeadingAssignments s"
proof -
  let ?tok = "name @ CHR ''='' # v"
  have n: "name \<noteq> []" "\<forall>c \<in> set name. isUnquotedAllowedByte c"
    using valid_name_allowed [OF name] by auto
  then have "hd name \<in> set name" by simp
  with n have "\<not> blank (hd name)"
    using allowed_props(1) by blast
  then have rest: "dropWhile blank (bs @ ?tok @ s) = ?tok @ s"
    using dropWhile_after_blanks [OF bs, of "?tok @ s"] n by simp
  have "\<forall>c \<in> set ?tok. \<not> blank c"
    using n(2) v allowed_props(1) eq_not_blank
    by (metis (no_types, lifting) Un_iff list_all_iff set_ConsD set_append valueBytesAllowed_def)
  then have tok: "takeWhile (\<lambda>c. \<not> blank c) (?tok @ s) = ?tok"
    using s by (intro takeWhile_until) auto
  have nm: "takeWhile (\<lambda>c. c \<noteq> CHR ''='') ?tok = name"
    "dropWhile (\<lambda>c. c \<noteq> CHR ''='') ?tok = CHR ''='' # v"
    using n allowed_props(2) by (auto simp: takeWhile_append2 dropWhile_append2)
  have "stripLeadingAssignments (bs @ ?tok @ s) = stripLeadingAssignments s"
    by (subst stripLeadingAssignments.simps) (simp only: rest tok nm Let_def, simp add: n name v)
  then show ?thesis by simp
qed

text \<open>The pieces the loop cuts a script into.\<close>

lemma script_pieces:
  assumes "rest = dropWhile blank s" and "tok = takeWhile (\<lambda>c. \<not> blank c) rest"
    and "name = takeWhile (\<lambda>c. c \<noteq> CHR ''='') tok" and "after = dropWhile (\<lambda>c. c \<noteq> CHR ''='') tok"
    and "after \<noteq> []"
  shows "s = takeWhile blank s @ name @ CHR ''='' # tl after @ drop (length tok) rest"
    and "drop (length tok) rest = [] \<or> blank (hd (drop (length tok) rest))"
    and "list_all blank (takeWhile blank s)"
proof -
  have a: "after = CHR ''='' # tl after"
    using assms(4,5) hd_dropWhile [of "\<lambda>c. c \<noteq> CHR ''=''" tok] list.collapse [of after] by simp
  have d: "drop (length tok) rest = dropWhile (\<lambda>c. \<not> blank c) rest"
    using assms(2) dropWhile_eq_drop by metis
  have r: "rest = tok @ drop (length tok) rest"
    using assms(2) d by simp
  have t: "tok = name @ CHR ''='' # tl after"
    using assms(3,4) a by simp
  have split: "rest = name @ CHR ''='' # tl after @ drop (length tok) rest"
    using r t by (metis append.assoc append_Cons)
  show "s = takeWhile blank s @ name @ CHR ''='' # tl after @ drop (length tok) rest"
    using takeWhile_dropWhile_id [of blank s] split assms(1) by metis
  show "drop (length tok) rest = [] \<or> blank (hd (drop (length tok) rest))"
    unfolding d using hd_dropWhile [of "\<lambda>c. \<not> blank c" rest] by blast
  show "list_all blank (takeWhile blank s)"
    by (auto simp: list_all_iff dest: set_takeWhileD)
qed

lemma strip_unfold:
  assumes "rest = dropWhile blank s" and "tok = takeWhile (\<lambda>c. \<not> blank c) rest"
    and "name = takeWhile (\<lambda>c. c \<noteq> CHR ''='') tok" and "after = dropWhile (\<lambda>c. c \<noteq> CHR ''='') tok"
  shows "stripLeadingAssignments s =
     (if rest = [] \<or> after = [] \<or> name = [] \<or> \<not> isValidAssignName name then (s, False)
      else if \<not> valueBytesAllowed (tl after) then ([], True)
      else stripLeadingAssignments (drop (length tok) rest))"
  unfolding stripLeadingAssignments.simps [of s] Let_def assms [symmetric] by simp

lemma strip_stop: "\<not> starts_assign s \<Longrightarrow> stripLeadingAssignments s = (s, False)"
  unfolding strip_unfold [OF refl refl refl refl, of s] starts_assign_def
  using script_pieces [OF refl refl refl refl, of s] by (metis (no_types, lifting))

lemma strip_complete: "strips s r \<Longrightarrow> \<not> starts_assign r \<Longrightarrow> stripLeadingAssignments s = (r, False)"
  by (induction rule: strips.induct) (simp_all add: strip_stop strip_step)

lemma strip_sound: "stripLeadingAssignments s = (r, False) \<Longrightarrow> strips s r"
proof (induction "length s" arbitrary: s rule: less_induct)
  case less
  define rest tok name after where
    defs: "rest = dropWhile blank s" "tok = takeWhile (\<lambda>c. \<not> blank c) rest"
      "name = takeWhile (\<lambda>c. c \<noteq> CHR ''='') tok" "after = dropWhile (\<lambda>c. c \<noteq> CHR ''='') tok"
  note unf = strip_unfold [OF defs]
  show ?case
  proof (cases "rest = [] \<or> after = [] \<or> name = [] \<or> \<not> isValidAssignName name")
    case True
    with unf less.prems show ?thesis by (auto intro: strips_refl)
  next
    case False
    then have v: "valueBytesAllowed (tl after)"
      and n: "stripLeadingAssignments (drop (length tok) rest) = (r, False)"
      using unf less.prems by (auto split: if_splits)
    have a: "after \<noteq> []" and valid: "isValidAssignName name"
      using False by auto
    note pieces = script_pieces [OF defs a]
    have "length (drop (length tok) rest) < length s"
      by (subst pieces(1)) simp
    then have "strips (drop (length tok) rest) r"
      using less.hyps n by blast
    then have "strips (takeWhile blank s @ name @ CHR ''='' # tl after @ drop (length tok) rest) r"
      using pieces(2,3) valid v by (intro strips_assign) auto
    then show ?thesis
      using pieces(1) by simp
  qed
qed

section \<open>Trimming in front of the tokenizer\<close>

lemma blank_space1: "blank a \<Longrightarrow> space1 a"
  by (auto simp: blank_def space1_def)

lemma trim_left_space1: "space1 a \<Longrightarrow> trim_left (a # s) = trim_left s"
  by (cases s; cases "tl s") auto

lemma trim_left_blanks: "list_all blank bs \<Longrightarrow> trim_left (bs @ s) = trim_left s"
  by (induction bs) (auto simp: blank_space1 trim_left_space1)

lemma allowed_solid:
  assumes "isUnquotedAllowedByte a"
  shows "\<not> space1 a" "\<not> space2 a b" "\<not> space3 a b c"
proof -
  have n: "45 \<le> (of_char a :: nat)" "(of_char a :: nat) \<le> 122"
    using assms by (auto simp: isUnquotedAllowedByte_def is_upper_def is_lower_def decimal_byte_def Let_def)
  then show "\<not> space1 a" "\<not> space2 a b" "\<not> space3 a b c"
    by (auto simp: space1_def space2_def space3_def Let_def)
qed

lemma trim_left_solid: "isUnquotedAllowedByte a \<Longrightarrow> trim_left (a # s) = a # s"
  by (cases s; cases "tl s") (auto simp: allowed_solid)

lemma eq_not_space:
  "\<not> space1 CHR ''=''" "\<not> space2 CHR ''='' b" "\<not> space2 a CHR ''=''"
  "\<not> space3 CHR ''='' b c" "\<not> space3 a CHR ''='' c" "\<not> space3 a b CHR ''=''"
  by (simp_all add: space1_def space2_def space3_def Let_def)

lemma keeps_after:
  "\<exists>p. t = p @ u \<and> e \<notin> set p \<Longrightarrow> e \<notin> set q \<Longrightarrow> \<exists>p. q @ t = p @ u \<and> e \<notin> set p"
  by (elim exE conjE, rule_tac x = "q @ p" in exI) simp

lemma trim_right_rev_keeps: "\<exists>p. s = p @ trim_right_rev s \<and> CHR ''='' \<notin> set p"
proof (induction s rule: trim_right_rev.induct)
  case (4 c b a s)
  consider "space1 c" | "\<not> space1 c" "space2 b c" | "\<not> space1 c" "\<not> space2 b c" "space3 a b c"
    | "\<not> space1 c" "\<not> space2 b c" "\<not> space3 a b c"
    by blast
  then show ?case
  proof cases
    case 1
    then have "CHR ''='' \<notin> set [c]" using eq_not_space by auto
    from keeps_after [OF "4.IH"(1) [OF 1] this] 1 show ?thesis by simp
  next
    case 2
    then have "CHR ''='' \<notin> set [c, b]" using eq_not_space by auto
    from keeps_after [OF "4.IH"(2) [OF 2] this] 2 show ?thesis by simp
  next
    case 3
    then have "CHR ''='' \<notin> set [c, b, a]" using eq_not_space by auto
    from keeps_after [OF "4.IH"(3) [OF 3] this] 3 show ?thesis by simp
  qed auto
qed (auto simp: eq_not_space)

lemma TrimSpace_assignment:
  assumes "list_all blank bs" and "isValidAssignName name"
  shows "\<exists>rest'. TrimSpace (bs @ name @ CHR ''='' # rest) = name @ CHR ''='' # rest'"
proof -
  obtain a nm where name: "name = a # nm" "isUnquotedAllowedByte a"
    using valid_name_allowed [OF assms(2)] by (cases name) auto
  have "trim_left (bs @ name @ CHR ''='' # rest) = name @ CHR ''='' # rest"
    using assms(1) name by (simp add: trim_left_blanks trim_left_solid)
  moreover obtain p where p: "rev rest @ CHR ''='' # rev name = p @ trim_right_rev (rev rest @ CHR ''='' # rev name)"
    "CHR ''='' \<notin> set p"
    using trim_right_rev_keeps by blast
  then have "\<exists>z. trim_right_rev (rev rest @ CHR ''='' # rev name) = z @ CHR ''='' # rev name"
    by (auto simp: append_eq_append_conv2 Cons_eq_append_conv)
  ultimately show ?thesis
    by (auto simp: TrimSpace_def)
qed

lemma words_no_assignment:
  assumes "isValidAssignName name"
  shows "\<not> words (name @ CHR ''='' # s) ws"
proof
  assume "words (name @ CHR ''='' # s) ws"
  then have ok: "tokenize_loop stateOutside [] [] (name @ CHR ''='' # s) = (ws, False)"
    by (simp add: tokenize_words)
  have "spans w w" if "\<forall>c \<in> set w. isUnquotedAllowedByte c" for w
    using that by (induction w) (auto intro: spans.intros)
  then have "spans name name" "name \<noteq> []"
    using valid_name_allowed [OF assms] by auto
  then have "tokenize_loop stateOutside [] [] (name @ CHR ''='' # s) =
      tokenize_loop stateUnquoted name [] (CHR ''='' # s)"
    by (simp add: tokenize_first_span tokenize_spans)
  also have "\<dots> = ([], True)"
    by (simp add: blank_def squote_def double_quote_def isUnquotedAllowedByte_def is_upper_def
        is_lower_def decimal_byte_def)
  finally show False
    using ok by simp
qed

lemma words_not_starts_assign: "words (TrimSpace r) ws \<Longrightarrow> \<not> starts_assign r"
  using TrimSpace_assignment words_no_assignment unfolding starts_assign_def by metis

section \<open>Wrappers\<close>

lemma stripWrappers_Cons2:
  "stripWrappers (w # n # ts) =
     (if isTransparentWrapper w then
        if \<not> HasPrefix n ''-'' then stripWrappers (n # ts)
        else if w = ''nice'' \<and> n = ''-n'' \<and> ts \<noteq> [] \<and> isNumericIncrement (hd ts) then stripWrappers (tl ts)
        else if w = ''command'' \<and> (n = ''-v'' \<or> n = ''-V'') then (w # n # ts, False)
        else ([], True)
      else (w # n # ts, False))"
  by (subst stripWrappers.simps) (cases ts; simp add: Let_def)

lemma stripWrappers_short [simp]: "stripWrappers [] = ([], False)" "stripWrappers [t] = ([t], False)"
  by (subst stripWrappers.simps, simp)+

lemma strip_wrappers_sound:
  "stripWrappers ts = (r, False) \<Longrightarrow>
   runs ts r \<and> (r \<noteq> [] \<longrightarrow> isTransparentWrapper (hd r) \<longrightarrow> tl r = [] \<or> isShellBuiltin (hd r))"
proof (induction "length ts" arbitrary: ts rule: less_induct)
  case less
  consider "ts = []" | t where "ts = [t]" | w n us where "ts = w # n # us"
    by (metis neq_Nil_conv)
  then show ?case
  proof cases
    case (3 w n us)
    have "isShellBuiltin ''command''"
      by (simp add: isShellBuiltin_def)
    moreover have "runs ts r" if "isNumericIncrement (hd us)" "us \<noteq> []" "w = ''nice''" "n = ''-n''"
      "runs (tl us) r"
      using that 3 by (cases us) (auto intro: runs_nice)
    ultimately show ?thesis
      using 3 less.prems less.hyps [of "n # us"] less.hyps [of "tl us"]
      by (auto simp: stripWrappers_Cons2 intro: runs_self runs_wrapper split: if_splits)
  qed (use less in \<open>auto intro: runs_self\<close>)
qed

lemma strip_wrappers_complete:
  "runs ts r \<Longrightarrow> r = c # as \<Longrightarrow> \<not> isShellBuiltin c \<Longrightarrow> isTransparentWrapper c \<longrightarrow> as = [] \<Longrightarrow>
   stripWrappers ts = (r, False)"
proof (induction rule: runs.induct)
  case (runs_self ts)
  then show ?case
    by (cases as) (auto simp: stripWrappers_Cons2)
next
  case (runs_nice k ts r)
  moreover have "isTransparentWrapper ''nice''" "HasPrefix ''-n'' ''-''"
    by (simp_all add: isTransparentWrapper_def HasPrefix_def)
  ultimately show ?case
    by (simp add: stripWrappers_Cons2)
qed (simp add: stripWrappers_Cons2)

section \<open>The derived command\<close>

lemma parse_ok_iff:
  "parseSimpleShellC args = (c, as, statusOK) \<longleftrightarrow>
     (\<exists>i script r ws.
        findShellCFlag args = Some i \<and> i + 1 < length args \<and> script = TrimSpace (args ! (i + 1)) \<and>
        script \<noteq> [] \<and> stripLeadingAssignments script = (r, False) \<and> TrimSpace r \<noteq> [] \<and>
        tokenizeSimpleScript (TrimSpace r) = (ws, False) \<and> ws \<noteq> [] \<and>
        stripWrappers ws = (c # as, False) \<and> \<not> isShellBuiltin c)"
  (is "?l = ?r")
proof
  show "?l \<Longrightarrow> ?r"
    unfolding parseSimpleShellC_def Let_def
    by (auto split: option.splits if_splits prod.splits simp: nth_Cons' neq_Nil_conv)
  show "?r \<Longrightarrow> ?l"
    unfolding parseSimpleShellC_def Let_def by auto
qed

lemma leads_to_script:
  "leads_to_c opts args \<and> length opts + 1 < length args \<and> script = args ! (length opts + 1) \<longleftrightarrow>
     (\<exists>cl rest. args = opts @ cl # script # rest \<and>
        (\<forall>o' \<in> set opts. safe_cluster o' \<and> CHR ''c'' \<notin> set o') \<and>
        safe_cluster cl \<and> CHR ''c'' \<in> set cl)" (is "?l = ?r")
proof
  assume ?l
  then obtain cl rest where *: "args = opts @ cl # rest"
    "\<forall>o' \<in> set opts. safe_cluster o' \<and> CHR ''c'' \<notin> set o'" "safe_cluster cl" "CHR ''c'' \<in> set cl"
    by (auto simp: leads_to_c_def)
  with \<open>?l\<close> have "rest \<noteq> []" "script = hd rest"
    by (auto simp: nth_append hd_conv_nth)
  with * show ?r
    by (metis list.collapse)
qed (auto simp: leads_to_c_def nth_append)

lemma derive_simple_command:
  "parseSimpleShellC args = (c, as, statusOK) \<longleftrightarrow> simple_command args c as" (is "?l = ?r")
proof
  assume ?l
  then obtain i r ws where *: "findShellCFlag args = Some i" "i + 1 < length args"
    "stripLeadingAssignments (TrimSpace (args ! (i + 1))) = (r, False)"
    "tokenizeSimpleScript (TrimSpace r) = (ws, False)"
    "stripWrappers ws = (c # as, False)" "\<not> isShellBuiltin c"
    unfolding parse_ok_iff by blast
  then obtain opts where "leads_to_c opts args" "i = length opts"
    by (auto simp: findShellCFlag_def findShellCFlag_from_iff)
  with *(2) have "\<exists>cl rest. args = opts @ cl # args ! (i + 1) # rest \<and>
        (\<forall>o' \<in> set opts. safe_cluster o' \<and> CHR ''c'' \<notin> set o') \<and>
        safe_cluster cl \<and> CHR ''c'' \<in> set cl"
    using leads_to_script by blast
  moreover have "strips (TrimSpace (args ! (i + 1))) r" "words (TrimSpace r) ws"
    using *(3,4) by (auto simp: strip_sound tokenize_iff)
  moreover have "runs ws (c # as)" "isTransparentWrapper c \<longrightarrow> as = []"
    using strip_wrappers_sound [OF *(5)] *(6) by auto
  ultimately show ?r
    unfolding simple_command_def using *(6) by blast
next
  assume ?r
  then obtain opts cl script rest r ws where *: "args = opts @ cl # script # rest"
    "\<forall>o' \<in> set opts. safe_cluster o' \<and> CHR ''c'' \<notin> set o'" "safe_cluster cl" "CHR ''c'' \<in> set cl"
    "strips (TrimSpace script) r" "words (TrimSpace r) ws" "runs ws (c # as)"
    "\<not> isShellBuiltin c" "isTransparentWrapper c \<longrightarrow> as = []"
    unfolding simple_command_def by blast
  have "leads_to_c opts args \<and> length opts + 1 < length args \<and> script = args ! (length opts + 1)"
    using leads_to_script *(1-4) by blast
  then have "findShellCFlag args = Some (length opts)" "length opts + 1 < length args"
    "script = args ! (length opts + 1)"
    by (auto simp: findShellCFlag_def findShellCFlag_from_iff)
  moreover have "stripLeadingAssignments (TrimSpace script) = (r, False)"
    using *(5) words_not_starts_assign [OF *(6)] by (rule strip_complete)
  moreover have w: "stripWrappers ws = (c # as, False)"
    using strip_wrappers_complete *(7-9) by blast
  then have "ws \<noteq> []" by auto
  moreover have "TrimSpace r \<noteq> []"
    using *(6) \<open>ws \<noteq> []\<close> by (auto elim: words.cases)
  moreover have "TrimSpace script \<noteq> []"
    using *(5) \<open>TrimSpace r \<noteq> []\<close> by (auto elim: strips.cases simp: TrimSpace_def)
  ultimately show ?l
    unfolding parse_ok_iff using *(6,8) w tokenize_iff by blast
qed

text \<open>C11: \<open>DerivePolicyTarget\<close> looks through a shell invocation exactly as far as the specification says:
  it returns a command and its arguments if and only if the program is a known shell, its options are
  clusters of audited flags ending in the one with \<open>c\<close>, and the script consists of clean environment
  assignments followed by words (unquoted safe bytes, single-quoted spans, double-quoted spans
  without expansions) that run that command behind transparent wrappers, the command being neither a
  builtin nor a wrapper with arguments left.
\<close>

theorem DerivePolicyTarget_iff:
  "DerivePolicyTarget command args = Some (c, as) \<longleftrightarrow>
     command \<noteq> [] \<and> isKnownShell (basenameLower command) \<and> simple_command args c as"
proof -
  obtain c' as' st where p: "parseSimpleShellC args = (c', as', st)"
    by (metis surj_pair)
  then have "simple_command args c as \<longleftrightarrow> c' = c \<and> as' = as \<and> st = statusOK"
    using derive_simple_command [of args c as] by auto
  then show ?thesis
    using p by (auto simp: DerivePolicyTarget_def)
qed

section \<open>The reason for an opaque script\<close>

text \<open>
  The state from which no continuation is accepted is reached at byte \<open>b\<close>: the part before it can
  still be completed to an acceptable script, the part up to and including it cannot.
\<close>

definition first_bad :: "(string \<Rightarrow> bool) \<Rightarrow> string \<Rightarrow> opaqueReason \<Rightarrow> bool" where
  "first_bad opaque s why \<longleftrightarrow>
     (why = UnterminatedQuote \<and> (\<exists>q. \<not> opaque (s @ [q]))) \<or>
     (\<exists>p b u. s = p @ b # u \<and> why = describeOpaqueByte b \<and>
        (\<exists>t. \<not> opaque (p @ t)) \<and> (\<forall>t. opaque (p @ b # t)))"

lemma first_bad_here:
  "(\<And>t. opaque (b # t)) \<Longrightarrow> \<not> opaque t \<Longrightarrow> first_bad opaque (b # s) (describeOpaqueByte b)"
  unfolding first_bad_def by (rule disjI2, rule exI [of _ "[]"]) auto

lemma first_bad_step:
  assumes "first_bad opaque' s why" and "\<And>t. opaque (b # t) = opaque' t"
  shows "first_bad opaque (b # s) why"
proof -
  from assms(1) consider q where "why = UnterminatedQuote" "\<not> opaque' (s @ [q])"
    | p c u t where "s = p @ c # u" "why = describeOpaqueByte c" "\<not> opaque' (p @ t)"
      "\<forall>t. opaque' (p @ c # t)"
    unfolding first_bad_def by blast
  then show ?thesis
  proof cases
    case (1 q)
    then show ?thesis
      unfolding first_bad_def by (metis append_Cons assms(2))
  next
    case (2 p c u t)
    then have "b # s = (b # p) @ c # u" "\<not> opaque ((b # p) @ t)" "\<forall>t. opaque ((b # p) @ c # t)"
      using assms(2) by auto
    with 2(2) show ?thesis
      unfolding first_bad_def by blast
  qed
qed

lemma opaque_walk_first_bad:
  "snd (tokenize_loop st cur tokens s) \<Longrightarrow>
   first_bad (\<lambda>t. snd (tokenize_loop st cur tokens t)) s (opaque_walk st s)"
proof (induction st cur tokens s rule: tokenize_loop.induct)
  case (3 cur tokens)
  then show ?case by (auto simp: first_bad_def)
next
  case (4 cur tokens)
  then show ?case by (auto simp: first_bad_def)
next
  case (5 cur tokens b s)
  then show ?case
    by (auto intro: first_bad_step first_bad_here [where t = "[]"] split: if_splits)
next
  case (6 cur tokens b s)
  then show ?case
    by (auto intro: first_bad_step first_bad_here [where t = "[]"] split: if_splits)
next
  case (7 cur tokens b s)
  then show ?case
    by (auto intro: first_bad_step split: if_splits)
next
  case (8 cur tokens b s)
  then show ?case
    by (auto intro: first_bad_step first_bad_here [where t = "[double_quote]"] split: if_splits)
qed auto

lemma parse_opaque:
  "parseSimpleShellC args = (c, as, statusOpaque) \<Longrightarrow>
   \<exists>i r. findShellCFlag args = Some i \<and> i + 1 < length args \<and>
     stripLeadingAssignments (TrimSpace (args ! (i + 1))) = (r, False) \<and>
     snd (tokenizeSimpleScript (TrimSpace r))"
  unfolding parseSimpleShellC_def Let_def
  by (auto split: option.splits if_splits prod.splits)

text \<open>The reason reported for an opaque script is the right one. When \<open>OpaqueReason\<close> describes a byte,
  it is the first byte of the script after which the tokenizer rejects every continuation, while the
  part before the byte can still be completed to an accepted script; when it reports an unterminated
  quote, one more byte makes the script acceptable. It never reports that the script is merely
  unparsable.
\<close>

theorem OpaqueReason_first_bad:
  assumes "OpaqueReason command args = Some why"
  shows "\<exists>i script. findShellCFlag args = Some i \<and>
     script = TrimSpace (fst (stripLeadingAssignments (TrimSpace (args ! (i + 1))))) \<and>
     first_bad (\<lambda>t. snd (tokenizeSimpleScript t)) script why"
proof -
  from assms obtain c as where "parseSimpleShellC args = (c, as, statusOpaque)"
    and why: "why = computeOpaqueReason args"
    by (auto simp: OpaqueReason_def split: if_splits prod.splits)
  then obtain i r where *: "findShellCFlag args = Some i" "i + 1 < length args"
    "stripLeadingAssignments (TrimSpace (args ! (i + 1))) = (r, False)"
    "snd (tokenizeSimpleScript (TrimSpace r))"
    using parse_opaque by blast
  then have "why = opaque_walk stateOutside (TrimSpace r)"
    by (simp add: why computeOpaqueReason_def)
  with * show ?thesis
    using opaque_walk_first_bad [of stateOutside "[]" "[]" "TrimSpace r"]
    by (simp add: tokenizeSimpleScript_def)
qed

theorem OpaqueReason_first_bad_witness:
  "OpaqueReason ''/bin/bash'' [''-lc'', ''A=1 ls /tmp; rm x''] = Some (Metacharacter CHR '';'') \<and>
   first_bad (\<lambda>t. snd (tokenizeSimpleScript t)) ''ls /tmp; rm x'' (Metacharacter CHR '';'')"
proof -
  have a: "OpaqueReason ''/bin/bash'' [''-lc'', ''A=1 ls /tmp; rm x''] = Some (Metacharacter CHR '';'')"
    "findShellCFlag [''-lc'', ''A=1 ls /tmp; rm x''] = Some 0"
    "TrimSpace (fst (stripLeadingAssignments (TrimSpace ''A=1 ls /tmp; rm x''))) = ''ls /tmp; rm x''"
    by code_simp+
  show ?thesis
    using OpaqueReason_first_bad [OF a(1)] a by simp
qed

end
