(* ===== verification/Go_Net.thy ===== *)
theory Go_Net
  imports Go_Strings
begin

text \<open>
  The parts of Go's \<open>net\<close> and \<open>path/filepath\<close> packages the policy engine calls: \<open>net.ParseIP\<close>,
  \<open>net.ParseCIDR\<close>, \<open>(*IPNet).Contains\<close>, \<open>net.SplitHostPort\<close>, \<open>net.JoinHostPort\<close>, and
  \<open>filepath.Base\<close>, \<open>filepath.Clean\<close>, \<open>filepath.Join\<close> with the separator \<open>/\<close>.

  A \<open>net.IP\<close> is its byte slice: \<open>ParseIP\<close> returns the 16-byte form, in which an IPv4 address has
  the prefix \<open>::ffff:0:0/96\<close>.
\<close>

unbundle bit_operations_syntax

type_synonym ip = bytes

record ipnet =
  net_IP :: ip
  net_Mask :: bytes

section \<open>Textual addresses\<close>

definition digit_value :: "char \<Rightarrow> nat option" where
  "digit_value c = (let n = (of_char c :: nat) in if 48 \<le> n \<and> n \<le> 57 then Some (n - 48) else None)"

definition hex_value :: "char \<Rightarrow> nat option" where
  "hex_value c =
     (let n = (of_char c :: nat)
      in if 48 \<le> n \<and> n \<le> 57 then Some (n - 48)
         else if 97 \<le> n \<and> n \<le> 102 then Some (n - 87)
         else if 65 \<le> n \<and> n \<le> 70 then Some (n - 55)
         else None)"

text \<open>
  One field of a dotted quad: digits without a leading zero, at most 255. The accumulator stops at
  the first value above 255, so its size is bounded.
\<close>

fun octet_from :: "nat \<Rightarrow> string \<Rightarrow> nat option" where
  "octet_from acc [] = Some acc"
| "octet_from acc (c # s) =
     (case digit_value c of
        None \<Rightarrow> None
      | Some d \<Rightarrow> if acc * 10 + d > 255 then None else octet_from (acc * 10 + d) s)"

definition octet :: "string \<Rightarrow> byte option" where
  "octet s =
     (if s = [] \<or> (length s > 1 \<and> hd s = CHR ''0'') then None
      else map_option of_nat (octet_from 0 s))"

definition parseIPv4 :: "string \<Rightarrow> bytes option" where
  "parseIPv4 s =
     (case split_on CHR ''.'' s of
        [a, b, c, d] \<Rightarrow>
          (case (octet a, octet b, octet c, octet d) of
             (Some w, Some x, Some y, Some z) \<Rightarrow> Some [w, x, y, z]
           | _ \<Rightarrow> None)
      | _ \<Rightarrow> None)"

definition v4InV6Prefix :: bytes where
  "v4InV6Prefix = [0, 0, 0, 0, 0, 0, 0, 0, 0, 0, 0xFF, 0xFF]"

text \<open>
  A leading run of hexadecimal digits with its value and the rest, \<open>None\<close> for a run of more than
  four digits. The first argument counts the digits that may still come.
\<close>

fun hex_run :: "nat \<Rightarrow> nat \<Rightarrow> string \<Rightarrow> (nat \<times> string) option" where
  "hex_run k acc [] = Some (acc, [])"
| "hex_run k acc (c # s) =
     (case hex_value c of
        None \<Rightarrow> Some (acc, c # s)
      | Some d \<Rightarrow> if k = 0 then None else hex_run (k - 1) (acc * 16 + d) s)"

text \<open>
  The loop of \<open>parseIPv6\<close> over the fields: the bytes so far, the position of the ellipsis if one was
  seen, and the rest of the text. At most eight turns are made, so the fuel 9 of the caller is enough.
\<close>

fun ipv6_fields :: "nat \<Rightarrow> bytes \<Rightarrow> nat option \<Rightarrow> string \<Rightarrow> (bytes \<times> nat option \<times> string) option" where
  "ipv6_fields 0 acc ell s = None"
| "ipv6_fields (Suc n) acc ell s =
     (if length acc \<ge> 16 then Some (acc, ell, s)
      else case s of [] \<Rightarrow> None
      | c0 # _ \<Rightarrow>
        if hex_value c0 = None then None
        else case hex_run 4 0 s of
          None \<Rightarrow> None
        | Some (v, rest) \<Rightarrow>
            if rest \<noteq> [] \<and> hd rest = CHR ''.'' then
              if ell = None \<and> length acc \<noteq> 12 then None
              else if length acc + 4 > 16 then None
              else (case parseIPv4 s of None \<Rightarrow> None | Some q \<Rightarrow> Some (acc @ q, ell, []))
            else
              let acc = acc @ [of_nat (v div 256), of_nat (v mod 256)]
              in case rest of
                   [] \<Rightarrow> Some (acc, ell, [])
                 | c # rest \<Rightarrow>
                     if c \<noteq> CHR '':'' \<or> rest = [] then None
                     else if hd rest = CHR '':'' then
                       if ell \<noteq> None then None
                       else if tl rest = [] then Some (acc, Some (length acc), [])
                       else ipv6_fields n acc (Some (length acc)) (tl rest)
                     else ipv6_fields n acc ell rest)"

definition parseIPv6 :: "string \<Rightarrow> bytes option" where
  "parseIPv6 s =
     (let start = (if take 2 s = ''::'' then
                     if drop 2 s = [] then Some ([], Some 0, [])
                     else ipv6_fields 9 [] (Some 0) (drop 2 s)
                   else ipv6_fields 9 [] None s)
      in case start of
           None \<Rightarrow> None
         | Some (acc, ell, rest) \<Rightarrow>
             if rest \<noteq> [] then None
             else if length acc < 16 then
               (case ell of None \<Rightarrow> None
                | Some e \<Rightarrow> Some (take e acc @ replicate (16 - length acc) 0 @ drop e acc))
             else if ell \<noteq> None then None else Some acc)"

datatype addr = Addr4 bytes | Addr6 bytes

text \<open>
  \<open>netip.ParseAddr\<close>, as the address and its zone, the empty string for none. \<open>ParseAddr\<close> is the
  address of a text without a zone, which is what the package \<open>net\<close> accepts.
\<close>

definition parseIPv6_zone :: "string \<Rightarrow> (bytes \<times> string) option" where
  "parseIPv6_zone s =
     (let a = takeWhile (\<lambda>c. c \<noteq> CHR ''%'') s; z = dropWhile (\<lambda>c. c \<noteq> CHR ''%'') s
      in if z \<noteq> [] \<and> tl z = [] then None
         else map_option (\<lambda>b. (b, tl z)) (parseIPv6 a))"

definition ParseAddr_zone :: "string \<Rightarrow> (addr \<times> string) option" where
  "ParseAddr_zone s =
     (case List.find (\<lambda>c. c = CHR ''.'' \<or> c = CHR '':'' \<or> c = CHR ''%'') s of
        None \<Rightarrow> None
      | Some c \<Rightarrow>
          if c = CHR ''.'' then map_option (\<lambda>q. (Addr4 q, [])) (parseIPv4 s)
          else if c = CHR '':'' then map_option (\<lambda>(b, z). (Addr6 b, z)) (parseIPv6_zone s)
          else None)"

definition ParseAddr :: "string \<Rightarrow> addr option" where
  "ParseAddr s =
     (case ParseAddr_zone s of
        None \<Rightarrow> None
      | Some (a, zone) \<Rightarrow> if zone = [] then Some a else None)"

fun As16 :: "addr \<Rightarrow> ip" where
  "As16 (Addr4 q) = v4InV6Prefix @ q"
| "As16 (Addr6 b) = b"

fun BitLen :: "addr \<Rightarrow> nat" where
  "BitLen (Addr4 q) = 32"
| "BitLen (Addr6 b) = 128"

definition ParseIP :: "string \<Rightarrow> ip option" where
  "ParseIP s = map_option As16 (ParseAddr s)"

section \<open>Networks\<close>

definition To4 :: "ip \<Rightarrow> ip option" where
  "To4 i =
     (if length i = 4 then Some i
      else if length i = 16 \<and> take 12 i = v4InV6Prefix then Some (drop 12 i)
      else None)"

text \<open>A byte whose upper \<open>n\<close> bits are set, and \<open>CIDRMask(ones, bits)\<close>.\<close>

definition mask_byte :: "nat \<Rightarrow> byte" where
  "mask_byte n = (if n \<ge> 8 then 0xFF else push_bit (8 - n) (mask n))"

definition CIDRMask :: "nat \<Rightarrow> nat \<Rightarrow> bytes" where
  "CIDRMask ones bits = map (\<lambda>i. mask_byte (ones - 8 * i)) [0..<bits div 8]"

definition mask_bytes :: "bytes \<Rightarrow> bytes \<Rightarrow> bytes" where
  "mask_bytes xs ms = map2 (AND) xs ms"

definition ip_Mask :: "ip \<Rightarrow> bytes \<Rightarrow> ip" where
  "ip_Mask i m =
     (if length m = 4 \<and> length i = 16 \<and> take 12 i = v4InV6Prefix then mask_bytes (drop 12 i) m
      else mask_bytes i m)"

text \<open>\<open>dtoi\<close>: a run of digits below \<open>0xFFFFFF\<close>; here the whole string must be the run.\<close>

fun dtoi_from :: "nat \<Rightarrow> string \<Rightarrow> nat option" where
  "dtoi_from acc [] = Some acc"
| "dtoi_from acc (c # s) =
     (case digit_value c of
        None \<Rightarrow> None
      | Some d \<Rightarrow> if acc * 10 + d \<ge> 0xFFFFFF then None else dtoi_from (acc * 10 + d) s)"

definition ParseCIDR :: "string \<Rightarrow> ipnet option" where
  "ParseCIDR s =
     (let addr = takeWhile (\<lambda>c. c \<noteq> CHR ''/'') s; rest = dropWhile (\<lambda>c. c \<noteq> CHR ''/'') s
      in if rest = [] then None
         else case ParseAddr addr of
           None \<Rightarrow> None
         | Some a \<Rightarrow>
             if tl rest = [] then None
             else case dtoi_from 0 (tl rest) of
               None \<Rightarrow> None
             | Some n \<Rightarrow>
                 if n > BitLen a then None
                 else let m = CIDRMask n (BitLen a)
                      in Some \<lparr>net_IP = ip_Mask (As16 a) m, net_Mask = m\<rparr>)"

definition networkNumberAndMask :: "ipnet \<Rightarrow> (ip \<times> bytes) option" where
  "networkNumberAndMask n =
     (case (case To4 (net_IP n) of Some i \<Rightarrow> Some i
            | None \<Rightarrow> if length (net_IP n) = 16 then Some (net_IP n) else None) of
        None \<Rightarrow> None
      | Some i \<Rightarrow>
          if length (net_Mask n) = 4 then
            if length i \<noteq> 4 then None else Some (i, net_Mask n)
          else if length (net_Mask n) = 16 then
            Some (i, if length i = 4 then drop 12 (net_Mask n) else net_Mask n)
          else None)"

definition Contains :: "ipnet \<Rightarrow> ip \<Rightarrow> bool" where
  "Contains n i =
     (let i = (case To4 i of Some x \<Rightarrow> x | None \<Rightarrow> i)
      in case networkNumberAndMask n of
           None \<Rightarrow> i = []
         | Some (nn, m) \<Rightarrow> length i = length nn \<and> mask_bytes nn m = mask_bytes i m)"

section \<open>Host and port\<close>

definition last_index :: "char \<Rightarrow> string \<Rightarrow> nat option" where
  "last_index c s =
     (if c \<in> set s then Some (length s - 1 - length (takeWhile (\<lambda>x. x \<noteq> c) (rev s))) else None)"

definition first_index :: "char \<Rightarrow> string \<Rightarrow> nat option" where
  "first_index c s = (if c \<in> set s then Some (length (takeWhile (\<lambda>x. x \<noteq> c) s)) else None)"

definition SplitHostPort :: "string \<Rightarrow> (string \<times> string) option" where
  "SplitHostPort hp =
     (case last_index CHR '':'' hp of
        None \<Rightarrow> None
      | Some i \<Rightarrow>
          if hd hp = CHR ''['' then
            (case first_index CHR '']'' hp of
               None \<Rightarrow> None
             | Some e \<Rightarrow>
                 if e + 1 \<noteq> i then None
                 else if CHR ''['' \<in> set (drop 1 hp) \<or> CHR '']'' \<in> set (drop (e + 1) hp) then None
                 else Some (drop 1 (take e hp), drop (i + 1) hp))
          else if CHR '':'' \<in> set (take i hp) then None
          else if CHR ''['' \<in> set hp \<or> CHR '']'' \<in> set hp then None
          else Some (take i hp, drop (i + 1) hp))"

definition JoinHostPort :: "string \<Rightarrow> string \<Rightarrow> string" where
  "JoinHostPort host port =
     (if CHR '':'' \<in> set host then ''['' @ host @ '']:'' @ port else host @ '':'' @ port)"

section \<open>Slash-separated paths\<close>

definition path_Base :: "string \<Rightarrow> string" where
  "path_Base p =
     (if p = [] then ''.''
      else
        let t = rev (dropWhile (\<lambda>c. c = CHR ''/'') (rev p))
        in if t = [] then ''/'' else after_last (\<lambda>c. c = CHR ''/'') t)"

text \<open>
  \<open>filepath.Clean\<close>: empty and \<open>.\<close> elements vanish, \<open>..\<close> removes the element before it, a leading
  \<open>..\<close> of a rooted path vanishes. The loop keeps the elements written so far, last one first.
\<close>

fun clean_elems :: "bool \<Rightarrow> string list \<Rightarrow> string list \<Rightarrow> string list" where
  "clean_elems rooted out [] = rev out"
| "clean_elems rooted out (p # ps) =
     (if p = [] \<or> p = ''.'' then clean_elems rooted out ps
      else if p = ''..'' then
        (case out of
           [] \<Rightarrow> clean_elems rooted (if rooted then [] else [''..'']) ps
         | q # qs \<Rightarrow>
             if q = ''..'' then clean_elems rooted (''..'' # out) ps
             else clean_elems rooted qs ps)
      else clean_elems rooted (p # out) ps)"

definition path_Clean :: "string \<Rightarrow> string" where
  "path_Clean p =
     (let rooted = (p \<noteq> [] \<and> hd p = CHR ''/'');
          body = join_with CHR ''/'' (clean_elems rooted [] (split_on CHR ''/'' p))
      in if rooted then CHR ''/'' # body else if body = [] then ''.'' else body)"

text \<open>\<open>filepath.Join(a, b)\<close>: leading empty elements are dropped, the result is cleaned.\<close>

definition path_Join :: "string \<Rightarrow> string \<Rightarrow> string" where
  "path_Join a b =
     (if a = [] \<and> b = [] then []
      else if a = [] then path_Clean b
      else path_Clean (a @ ''/'' @ b))"

end
