(* ===== verification/Policy_Lib.thy ===== *)
theory Policy_Lib
  imports Go_Net
begin

text \<open>
  What the policy engine takes from outside the repository, gathered in the record \<open>engineLib\<close>
  that the definitions using it take as their first argument: the glob matcher
  \<open>github.com/gobwas/glob\<close>, the regular expression engine, the resolver, the URL parser, the order
  \<open>sort.Slice\<close> leaves a slice in, and the process environment. A compiled pattern is represented by
  its source text and its separators.
\<close>

text \<open>The syntax trees \<open>syntax.Parse\<close> returns, as far as the pattern compiler looks at them.\<close>

datatype regexOp =
    OpStar | OpPlus | OpQuest | OpRepeat int | OpConcat | OpAlternate | OpCapture | OpOther

datatype regexTree = RegexNode regexOp "regexTree list"

type_synonym globPattern = "string \<times> char list"

record engineLib =
  lib_globCompiles :: "string \<Rightarrow> char list \<Rightarrow> bool"
  lib_globMatch :: "globPattern \<Rightarrow> string \<Rightarrow> bool"
  lib_regexCompiles :: "string \<Rightarrow> bool"
  lib_regexMatch :: "string \<Rightarrow> string \<Rightarrow> bool"
  lib_regexParse :: "string \<Rightarrow> regexTree option"
  lib_lookupIP :: "string \<Rightarrow> ip list"
  lib_urlParse :: "string \<Rightarrow> (string \<times> string) option"
  lib_getenv :: "string \<Rightarrow> string"
  lib_sortOrder :: "int list \<Rightarrow> nat list"

definition glob_Compile :: "engineLib \<Rightarrow> string \<Rightarrow> char list \<Rightarrow> globPattern option" where
  "glob_Compile lib pat seps = (if lib_globCompiles lib pat seps then Some (pat, seps) else None)"

definition glob_Match :: "engineLib \<Rightarrow> globPattern \<Rightarrow> string \<Rightarrow> bool" where
  "glob_Match lib g s = lib_globMatch lib g s"

section \<open>More of the standard library\<close>

definition upper_ascii :: "char \<Rightarrow> char" where
  "upper_ascii c = (let n = (of_char c :: nat) in if 97 \<le> n \<and> n \<le> 122 then char_of (n - 32) else c)"

text \<open>\<open>strings.ToUpper\<close> on ASCII; see \<^const>\<open>ToLower\<close>.\<close>

definition ToUpper :: "string \<Rightarrow> string" where
  "ToUpper s = map upper_ascii s"

text \<open>\<open>strings.Contains\<close>.\<close>

fun has_substring :: "string \<Rightarrow> string \<Rightarrow> bool" where
  "has_substring [] sub = (sub = [])"
| "has_substring (c # s) sub = (HasPrefix (c # s) sub \<or> has_substring s sub)"

text \<open>\<open>strings.Join\<close> with a one-byte separator is \<^const>\<open>join_with\<close>.\<close>

text \<open>
  \<open>strconv.Atoi\<close>: an optional sign and at least one digit, in the range of \<open>int64\<close>.
\<close>

fun digits_value :: "int \<Rightarrow> string \<Rightarrow> int option" where
  "digits_value acc [] = Some acc"
| "digits_value acc (c # s) =
     (case digit_value c of
        None \<Rightarrow> None
      | Some d \<Rightarrow> digits_value (acc * 10 + int d) s)"

definition Atoi :: "string \<Rightarrow> int option" where
  "Atoi s =
     (let neg = (s \<noteq> [] \<and> hd s = CHR ''-'');
          body = (if s \<noteq> [] \<and> (hd s = CHR ''-'' \<or> hd s = CHR ''+'') then tl s else s)
      in if body = [] then None
         else case digits_value 0 body of
           None \<Rightarrow> None
         | Some v \<Rightarrow>
             let v = (if neg then - v else v)
             in if - (2 ^ 63) \<le> v \<and> v < 2 ^ 63 then Some v else None)"

end
