(* ===== verification/Signal_Engine.thy ===== *)
theory Signal_Engine
  imports Policy_Lib
begin

text \<open>
  \<open>internal/signal\<close>: the policy for signals between processes. Signal names and groups
  (\<open>types.go\<close>), target specifications (\<open>target.go\<close>), the registry of the processes of a session
  (\<open>registry.go\<close>), rule compilation and evaluation (\<open>engine.go\<close>), and the handler that puts them
  together (\<open>handler.go\<close>). Signal numbers are those of Linux. A Go map from process ids is a HOL
  map; reading an absent key gives Go's zero value.
\<close>

section \<open>Signals (\<open>types.go\<close>)\<close>

definition signalNames :: "(string \<times> int) list" where
  "signalNames =
     [(''SIGHUP'', 1), (''SIGINT'', 2), (''SIGQUIT'', 3), (''SIGILL'', 4), (''SIGTRAP'', 5),
      (''SIGABRT'', 6), (''SIGBUS'', 7), (''SIGFPE'', 8), (''SIGKILL'', 9), (''SIGUSR1'', 10),
      (''SIGSEGV'', 11), (''SIGUSR2'', 12), (''SIGPIPE'', 13), (''SIGALRM'', 14), (''SIGTERM'', 15),
      (''SIGCHLD'', 17), (''SIGCONT'', 18), (''SIGSTOP'', 19), (''SIGTSTP'', 20), (''SIGTTIN'', 21),
      (''SIGTTOU'', 22), (''SIGURG'', 23), (''SIGXCPU'', 24), (''SIGXFSZ'', 25),
      (''SIGVTALRM'', 26), (''SIGPROF'', 27), (''SIGWINCH'', 28), (''SIGIO'', 29), (''SIGSYS'', 31)]"

definition AllSignals :: "int list" where
  "AllSignals = map (\<lambda>i. int i + 1) [0..<31]"

definition signalGroups :: "(string \<times> int list) list" where
  "signalGroups =
     [(''@fatal'', [9, 15, 3, 6]), (''@job'', [19, 18, 20, 21, 22]), (''@reload'', [1, 10, 12]),
      (''@ignore'', [17, 23, 28]), (''@all'', AllSignals)]"

datatype signalError =
    SignalOutOfRange int | UnknownSignal string | UnknownSignalGroup string
  | InvalidTargetType string | InvalidProcessPattern string | PidRangeNotPositive
  | PidRangeReversed int int

definition SignalFromString :: "string \<Rightarrow> signalError + int" where
  "SignalFromString s0 =
     (let s = TrimSpace (ToUpper s0)
      in case Atoi s of
           Some num \<Rightarrow> if num > 0 \<and> num < 64 then Inr num else Inl (SignalOutOfRange num)
         | None \<Rightarrow>
             (case map_of signalNames s of
                Some sig \<Rightarrow> Inr sig
              | None \<Rightarrow>
                  (case (if HasPrefix s ''SIG'' then None else map_of signalNames (''SIG'' @ s)) of
                     Some sig \<Rightarrow> Inr sig
                   | None \<Rightarrow> Inl (UnknownSignal s))))"

definition ExpandSignalGroup :: "string \<Rightarrow> signalError + int list" where
  "ExpandSignalGroup group0 =
     (let group = ToLower (TrimSpace group0)
      in case map_of signalGroups group of
           Some signals \<Rightarrow> Inr signals
         | None \<Rightarrow> Inl (UnknownSignalGroup group))"

definition IsSignalGroup :: "string \<Rightarrow> bool" where
  "IsSignalGroup s = HasPrefix (TrimSpace s) ''@''"

section \<open>Targets (\<open>target.go\<close>)\<close>

datatype targetType =
    TargetSelf | TargetChildren | TargetDescendants | TargetSiblings | TargetSession
  | TargetParent | TargetExternal | TargetSystem | TargetUser | TargetProcess | TargetPIDRange

record targetSpec =
  ts_Type :: string
  ts_Pattern :: string
  ts_Min :: int
  ts_Max :: int

record parsedTarget =
  pt_Type :: targetType
  pt_ProcessGlob :: "globPattern option"
  pt_PIDMin :: int
  pt_PIDMax :: int

definition validTargetTypes :: "(string \<times> targetType) list" where
  "validTargetTypes =
     [(''self'', TargetSelf), (''children'', TargetChildren), (''descendants'', TargetDescendants),
      (''siblings'', TargetSiblings), (''session'', TargetSession), (''parent'', TargetParent),
      (''external'', TargetExternal), (''system'', TargetSystem), (''user'', TargetUser),
      (''process'', TargetProcess), (''pid_range'', TargetPIDRange)]"

definition ParseTargetSpec :: "engineLib \<Rightarrow> targetSpec \<Rightarrow> signalError + parsedTarget" where
  "ParseTargetSpec lib spec =
     (case map_of validTargetTypes (ToLower (TrimSpace (ts_Type spec))) of
        None \<Rightarrow> Inl (InvalidTargetType (ts_Type spec))
      | Some targetType \<Rightarrow>
          bind_result
            (if targetType = TargetProcess \<and> ts_Pattern spec \<noteq> [] then
               (case glob_Compile lib (ts_Pattern spec) [] of
                  None \<Rightarrow> Inl (InvalidProcessPattern (ts_Pattern spec))
                | Some g \<Rightarrow> Inr (Some g))
             else Inr None)
            (\<lambda>g.
               if targetType = TargetPIDRange \<and> (ts_Min spec \<le> 0 \<or> ts_Max spec \<le> 0) then
                 Inl PidRangeNotPositive
               else if targetType = TargetPIDRange \<and> ts_Min spec > ts_Max spec then
                 Inl (PidRangeReversed (ts_Min spec) (ts_Max spec))
               else Inr \<lparr>pt_Type = targetType, pt_ProcessGlob = g, pt_PIDMin = ts_Min spec,
                         pt_PIDMax = ts_Max spec\<rparr>))"

record targetContext =
  tc_SourcePID :: int
  tc_TargetPID :: int
  tc_TargetCmd :: string
  tc_IsChild :: bool
  tc_IsDescendant :: bool
  tc_IsSibling :: bool
  tc_IsParent :: bool
  tc_InSession :: bool
  tc_SameUser :: bool

fun target_Matches :: "engineLib \<Rightarrow> parsedTarget \<Rightarrow> targetContext \<Rightarrow> bool" where
  "target_Matches lib t ctx =
     (case pt_Type t of
        TargetSelf \<Rightarrow> tc_TargetPID ctx = tc_SourcePID ctx
      | TargetChildren \<Rightarrow> tc_IsChild ctx
      | TargetDescendants \<Rightarrow> tc_IsDescendant ctx
      | TargetSiblings \<Rightarrow> tc_IsSibling ctx
      | TargetSession \<Rightarrow> tc_InSession ctx
      | TargetParent \<Rightarrow> tc_IsParent ctx
      | TargetExternal \<Rightarrow> \<not> tc_InSession ctx
      | TargetSystem \<Rightarrow> tc_TargetPID ctx = 1 \<or> tc_TargetPID ctx = 2
      | TargetUser \<Rightarrow> tc_SameUser ctx \<and> \<not> tc_InSession ctx
      | TargetProcess \<Rightarrow>
          (case pt_ProcessGlob t of None \<Rightarrow> False | Some g \<Rightarrow> glob_Match lib g (tc_TargetCmd ctx))
      | TargetPIDRange \<Rightarrow> pt_PIDMin t \<le> tc_TargetPID ctx \<and> tc_TargetPID ctx \<le> pt_PIDMax t)"

section \<open>Rules and evaluation (\<open>engine.go\<close>)\<close>

record signalRule =
  sr_Name :: string
  sr_Description :: string
  sr_Signals :: "string list"
  sr_Target :: targetSpec
  sr_Decision :: string
  sr_Fallback :: string
  sr_RedirectTo :: string
  sr_Message :: string

record signalDecision =
  sd_Action :: string
  sd_Rule :: string
  sd_Message :: string
  sd_RedirectSignal :: int
  sd_Fallback :: string

text \<open>The set of signals is kept without duplicates, so its length is the size of the Go map.\<close>

record compiledSignalRule =
  csr_rule :: signalRule
  csr_signals :: "int list"
  csr_target :: parsedTarget
  csr_redirect :: int

type_synonym signalEngine = "compiledSignalRule list"

definition expand_signal :: "string \<Rightarrow> signalError + int list" where
  "expand_signal sigSpec =
     (if IsSignalGroup sigSpec then ExpandSignalGroup sigSpec
      else bind_result (SignalFromString sigSpec) (\<lambda>sig. Inr [sig]))"

definition compile_signal_rule :: "engineLib \<Rightarrow> signalRule \<Rightarrow> signalError + compiledSignalRule" where
  "compile_signal_rule lib rule =
     bind_result (map_result expand_signal (sr_Signals rule)) (\<lambda>sigs.
     bind_result (ParseTargetSpec lib (sr_Target rule)) (\<lambda>target.
     bind_result
       (if sr_Decision rule = ''redirect'' \<and> sr_RedirectTo rule \<noteq> [] then
          SignalFromString (sr_RedirectTo rule)
        else Inr 0) (\<lambda>redirect.
     Inr \<lparr>csr_rule = rule, csr_signals = remdups (concat sigs), csr_target = target,
          csr_redirect = redirect\<rparr>)))"

definition signal_NewEngine :: "engineLib \<Rightarrow> signalRule list \<Rightarrow> signalError + signalEngine" where
  "signal_NewEngine lib rules = map_result (compile_signal_rule lib) rules"

definition rule_decision :: "compiledSignalRule \<Rightarrow> signalDecision" where
  "rule_decision r =
     \<lparr>sd_Action = sr_Decision (csr_rule r), sd_Rule = sr_Name (csr_rule r),
      sd_Message = sr_Message (csr_rule r), sd_RedirectSignal = csr_redirect r,
      sd_Fallback = sr_Fallback (csr_rule r)\<rparr>"

definition rule_exact :: "compiledSignalRule \<Rightarrow> int" where
  "rule_exact r = (if length (csr_signals r) = 1 then 1 else 0)"

definition rule_prefix :: "compiledSignalRule \<Rightarrow> int" where
  "rule_prefix r =
     1000 - int (length (csr_signals r)) +
     (case pt_Type (csr_target r) of
        TargetProcess \<Rightarrow> 20 | TargetPIDRange \<Rightarrow> 20
      | TargetSelf \<Rightarrow> 10 | TargetParent \<Rightarrow> 10 | TargetChildren \<Rightarrow> 10
      | _ \<Rightarrow> 0)"

text \<open>The loop of \<open>Check\<close> with its variables \<open>bestExact\<close>, \<open>bestPrefix\<close>, \<open>top\<close> and \<open>found\<close>.\<close>

fun check_loop :: "engineLib \<Rightarrow> int \<Rightarrow> targetContext \<Rightarrow> int \<Rightarrow> int \<Rightarrow> signalDecision list \<Rightarrow> bool \<Rightarrow>
    compiledSignalRule list \<Rightarrow> signalDecision list \<times> bool" where
  "check_loop lib sig ctx bestExact bestPrefix tops found [] = (tops, found)"
| "check_loop lib sig ctx bestExact bestPrefix tops found (rule # rules) =
     (if sig \<notin> set (csr_signals rule) then check_loop lib sig ctx bestExact bestPrefix tops found rules
      else if \<not> target_Matches lib (csr_target rule) ctx then
        check_loop lib sig ctx bestExact bestPrefix tops found rules
      else
        let dec = rule_decision rule; exact = rule_exact rule; prefix = rule_prefix rule
        in if \<not> found \<or> exact > bestExact \<or> (exact = bestExact \<and> prefix > bestPrefix) then
             check_loop lib sig ctx exact prefix [dec] True rules
           else if exact = bestExact \<and> prefix = bestPrefix then
             check_loop lib sig ctx bestExact bestPrefix (tops @ [dec]) found rules
           else check_loop lib sig ctx bestExact bestPrefix tops found rules)"

definition signal_Check :: "engineLib \<Rightarrow> signalEngine \<Rightarrow> int \<Rightarrow> targetContext \<Rightarrow> signalDecision" where
  "signal_Check lib e sig ctx =
     (case check_loop lib sig ctx (-1) (-1) [] False e of (tops, found) \<Rightarrow>
        if \<not> found then
          \<lparr>sd_Action = ''deny'', sd_Rule = [], sd_Message = ''no matching rule'',
           sd_RedirectSignal = 0, sd_Fallback = []\<rparr>
        else case List.find (\<lambda>d. sd_Action d = ''deny'') tops of
               Some d \<Rightarrow> d
             | None \<Rightarrow> tops ! 0)"

definition ApplyFallback :: "signalDecision \<Rightarrow> bool \<Rightarrow> signalDecision" where
  "ApplyFallback dec canBlock =
     (let needsBlock = (sd_Action dec = ''deny'' \<or> sd_Action dec = ''approve'' \<or>
                        sd_Action dec = ''redirect'' \<or> sd_Action dec = ''absorb'')
      in if canBlock then dec
         else if \<not> needsBlock then dec
         else if sd_Fallback dec \<noteq> [] then
           \<lparr>sd_Action = sd_Fallback dec, sd_Rule = sd_Rule dec,
            sd_Message = sd_Message dec @ '' (fallback applied)'',
            sd_RedirectSignal = sd_RedirectSignal dec, sd_Fallback = sd_Fallback dec\<rparr>
         else
           \<lparr>sd_Action = ''audit'', sd_Rule = sd_Rule dec,
            sd_Message = sd_Message dec @ '' (platform cannot enforce)'',
            sd_RedirectSignal = 0, sd_Fallback = sd_Fallback dec\<rparr>)"

section \<open>Processes of a session (\<open>registry.go\<close>)\<close>

record pidRegistry =
  reg_sessionID :: string
  reg_supervisorPID :: int
  reg_supervisorUID :: int
  reg_parents :: "int \<rightharpoonup> int"
  reg_commands :: "int \<rightharpoonup> string"
  reg_children :: "int \<rightharpoonup> int list"
  reg_uids :: "int \<rightharpoonup> int"

definition NewPIDRegistryWithUID :: "string \<Rightarrow> int \<Rightarrow> int \<Rightarrow> pidRegistry" where
  "NewPIDRegistryWithUID sessionID supervisorPID supervisorUID =
     \<lparr>reg_sessionID = sessionID, reg_supervisorPID = supervisorPID,
      reg_supervisorUID = supervisorUID, reg_parents = Map.empty, reg_commands = Map.empty,
      reg_children = Map.empty, reg_uids = Map.empty\<rparr>"

definition NewPIDRegistry :: "string \<Rightarrow> int \<Rightarrow> pidRegistry" where
  "NewPIDRegistry sessionID supervisorPID =
     \<lparr>reg_sessionID = sessionID, reg_supervisorPID = supervisorPID,
      reg_supervisorUID = -1, reg_parents = Map.empty, reg_commands = Map.empty,
      reg_children = Map.empty, reg_uids = Map.empty\<rparr>"

text \<open>Go's \<open>m[k]\<close> for a key that may be absent.\<close>

definition pid_at :: "(int \<rightharpoonup> int) \<Rightarrow> int \<Rightarrow> int" where
  "pid_at m k = (case m k of None \<Rightarrow> 0 | Some v \<Rightarrow> v)"

definition kids_at :: "(int \<rightharpoonup> int list) \<Rightarrow> int \<Rightarrow> int list" where
  "kids_at m k = (case m k of None \<Rightarrow> [] | Some v \<Rightarrow> v)"

definition add_process :: "int \<Rightarrow> int \<Rightarrow> string \<Rightarrow> pidRegistry \<Rightarrow> pidRegistry" where
  "add_process pid parentPID command r =
     r\<lparr>reg_parents := (reg_parents r)(pid \<mapsto> parentPID),
       reg_commands := (reg_commands r)(pid \<mapsto> command),
       reg_children := (reg_children r)(parentPID \<mapsto> kids_at (reg_children r) parentPID @ [pid])\<rparr>"

definition registry_Register :: "int \<Rightarrow> int \<Rightarrow> string \<Rightarrow> pidRegistry \<Rightarrow> pidRegistry" where
  "registry_Register pid parentPID command r =
     (let r' = add_process pid parentPID command r
      in if reg_supervisorUID r \<ge> 0 then r'\<lparr>reg_uids := (reg_uids r')(pid \<mapsto> reg_supervisorUID r)\<rparr>
         else r')"

definition RegisterWithUID :: "int \<Rightarrow> int \<Rightarrow> string \<Rightarrow> int \<Rightarrow> pidRegistry \<Rightarrow> pidRegistry" where
  "RegisterWithUID pid parentPID command uid r =
     (let r' = add_process pid parentPID command r
      in r'\<lparr>reg_uids := (reg_uids r')(pid \<mapsto> uid)\<rparr>)"

definition Unregister :: "int \<Rightarrow> pidRegistry \<Rightarrow> pidRegistry" where
  "Unregister pid r =
     (let parentPID = pid_at (reg_parents r) pid;
          kids = (case reg_children r parentPID of
                    Some children \<Rightarrow> (reg_children r)(parentPID \<mapsto> remove1 pid children)
                  | None \<Rightarrow> reg_children r)
      in r\<lparr>reg_parents := (reg_parents r)(pid := None),
           reg_commands := (reg_commands r)(pid := None),
           reg_uids := (reg_uids r)(pid := None),
           reg_children := kids(pid := None)\<rparr>)"

definition InSession :: "pidRegistry \<Rightarrow> int \<Rightarrow> bool" where
  "InSession r pid = (pid = reg_supervisorPID r \<or> reg_parents r pid \<noteq> None)"

text \<open>
  The walk up the parent links. It has no bound in the code, so not returning is the value
  \<^const>\<open>None\<close>.
\<close>

partial_function (option) isDescendantLocked :: "(int \<rightharpoonup> int) \<Rightarrow> int \<Rightarrow> int \<Rightarrow> bool option" where
  [code]: "isDescendantLocked parents ancestorPID current =
     (case parents current of
        None \<Rightarrow> Some False
      | Some parent \<Rightarrow>
          if parent = ancestorPID then Some True
          else isDescendantLocked parents ancestorPID parent)"

definition known_uid :: "pidRegistry \<Rightarrow> int \<Rightarrow> int option" where
  "known_uid r pid =
     (case reg_uids r pid of
        Some uid \<Rightarrow> Some uid
      | None \<Rightarrow>
          if pid = reg_supervisorPID r \<and> reg_supervisorUID r \<ge> 0 then Some (reg_supervisorUID r)
          else None)"

definition base_context :: "pidRegistry \<Rightarrow> int \<Rightarrow> int \<Rightarrow> targetContext" where
  "base_context r sourcePID targetPID =
     \<lparr>tc_SourcePID = sourcePID, tc_TargetPID = targetPID,
      tc_TargetCmd = (case reg_commands r targetPID of None \<Rightarrow> [] | Some c \<Rightarrow> c),
      tc_IsChild = False, tc_IsDescendant = False, tc_IsSibling = False, tc_IsParent = False,
      tc_InSession = InSession r targetPID,
      tc_SameUser =
        (case (known_uid r sourcePID, known_uid r targetPID) of
           (Some s, Some t) \<Rightarrow> s = t
         | _ \<Rightarrow> False)\<rparr>"

definition ClassifyTarget :: "pidRegistry \<Rightarrow> int \<Rightarrow> int \<Rightarrow> targetContext option" where
  "ClassifyTarget r sourcePID targetPID =
     (let ctx = base_context r sourcePID targetPID
      in if sourcePID = targetPID then Some ctx
         else if targetPID = reg_supervisorPID r then Some (ctx\<lparr>tc_IsParent := True\<rparr>)
         else if pid_at (reg_parents r) sourcePID = targetPID then Some (ctx\<lparr>tc_IsParent := True\<rparr>)
         else if pid_at (reg_parents r) targetPID = sourcePID then
           Some (ctx\<lparr>tc_IsChild := True, tc_IsDescendant := True\<rparr>)
         else case isDescendantLocked (reg_parents r) sourcePID targetPID of
           None \<Rightarrow> None
         | Some desc \<Rightarrow>
             if desc then Some (ctx\<lparr>tc_IsDescendant := True\<rparr>)
             else if pid_at (reg_parents r) sourcePID = pid_at (reg_parents r) targetPID \<and>
                     pid_at (reg_parents r) sourcePID \<noteq> 0 then
               Some (ctx\<lparr>tc_IsSibling := True\<rparr>)
             else Some ctx)"

section \<open>The handler (\<open>handler.go\<close>)\<close>

record signalContext =
  sc_PID :: int
  sc_TargetPID :: int
  sc_TargetTID :: int
  sc_Signal :: int
  sc_Syscall :: int

text \<open>
  The notification of the kernel: the calling process and the six 64-bit registers with the arguments
  of the system call (\<open>seccomp_linux.go\<close>). The system call numbers are those of amd64.
\<close>

record notifReq =
  nr_Pid :: uint32
  nr_Syscall :: int
  nr_Args :: "uint64 list"

definition SYS_KILL :: int where "SYS_KILL = 62"
definition SYS_RT_SIGQUEUEINFO :: int where "SYS_RT_SIGQUEUEINFO = 129"
definition SYS_TKILL :: int where "SYS_TKILL = 200"
definition SYS_TGKILL :: int where "SYS_TGKILL = 234"
definition SYS_RT_TGSIGQUEUEINFO :: int where "SYS_RT_TGSIGQUEUEINFO = 297"

definition ExtractSignalContext :: "notifReq \<Rightarrow> signalContext" where
  "ExtractSignalContext req =
     (let arg = (\<lambda>i. sint (nr_Args req ! i));
          ctx = \<lparr>sc_PID = uint (nr_Pid req), sc_TargetPID = 0, sc_TargetTID = 0, sc_Signal = 0,
                 sc_Syscall = nr_Syscall req\<rparr>
      in if nr_Syscall req = SYS_KILL then
           ctx\<lparr>sc_TargetPID := sint (ucast (nr_Args req ! 0) :: uint32), sc_Signal := arg 1\<rparr>
         else if nr_Syscall req = SYS_TGKILL then
           ctx\<lparr>sc_TargetPID := arg 0, sc_TargetTID := arg 1, sc_Signal := arg 2\<rparr>
         else if nr_Syscall req = SYS_TKILL then
           ctx\<lparr>sc_TargetTID := arg 0, sc_TargetPID := arg 0, sc_Signal := arg 1\<rparr>
         else if nr_Syscall req = SYS_RT_SIGQUEUEINFO then
           ctx\<lparr>sc_TargetPID := arg 0, sc_Signal := arg 1\<rparr>
         else if nr_Syscall req = SYS_RT_TGSIGQUEUEINFO then
           ctx\<lparr>sc_TargetPID := arg 0, sc_TargetTID := arg 1, sc_Signal := arg 2\<rparr>
         else ctx)"

definition IsProcessGroupSignal :: "signalContext \<Rightarrow> bool" where
  "IsProcessGroupSignal c = (sc_TargetPID c \<le> 0)"

definition ProcessGroupID :: "signalContext \<Rightarrow> int" where
  "ProcessGroupID c =
     (if sc_TargetPID c = 0 then sc_PID c
      else if sc_TargetPID c < 0 then - sc_TargetPID c
      else 0)"

definition handler_Evaluate ::
    "engineLib \<Rightarrow> signalEngine \<Rightarrow> pidRegistry \<Rightarrow> signalContext \<Rightarrow> signalDecision option" where
  "handler_Evaluate lib e r sigCtx =
     map_option (signal_Check lib e (sc_Signal sigCtx))
       (ClassifyTarget r (sc_PID sigCtx) (sc_TargetPID sigCtx))"

datatype signalEvent = EventSignalSent | EventSignalBlocked | EventSignalRedirected
  | EventSignalAbsorbed | EventSignalApproved

definition event_type :: "signalDecision \<Rightarrow> signalEvent" where
  "event_type d =
     (if sd_Action d = ''allow'' \<or> sd_Action d = ''audit'' then EventSignalSent
      else if sd_Action d = ''deny'' then EventSignalBlocked
      else if sd_Action d = ''redirect'' then EventSignalRedirected
      else if sd_Action d = ''absorb'' then EventSignalAbsorbed
      else if sd_Action d = ''approve'' then EventSignalApproved
      else EventSignalBlocked)"

text \<open>
  The data of the emitted event; the name of the signal and the time stamp, which are computed from
  the number and the clock when the event is written, are left out.
\<close>

record signalEventData =
  ev_type :: signalEvent
  ev_source_pid :: int
  ev_target_pid :: int
  ev_signal :: int
  ev_syscall :: int
  ev_decision :: string
  ev_rule :: string
  ev_message :: "string option"
  ev_redirect_to :: "int option"
  ev_original_action :: "string option"

definition handler_emitEvent ::
    "signalContext \<Rightarrow> signalDecision \<Rightarrow> signalDecision \<Rightarrow> signalEventData" where
  "handler_emitEvent sigCtx originalDec finalDec =
     \<lparr>ev_type = event_type finalDec, ev_source_pid = sc_PID sigCtx,
      ev_target_pid = sc_TargetPID sigCtx, ev_signal = sc_Signal sigCtx,
      ev_syscall = sc_Syscall sigCtx, ev_decision = sd_Action finalDec,
      ev_rule = sd_Rule finalDec,
      ev_message = (if sd_Message finalDec \<noteq> [] then Some (sd_Message finalDec) else None),
      ev_redirect_to =
        (if sd_Action finalDec = ''redirect'' then Some (sd_RedirectSignal finalDec) else None),
      ev_original_action =
        (if sd_Action originalDec \<noteq> sd_Action finalDec then Some (sd_Action originalDec) else None)\<rparr>"

text \<open>
  \<open>Handle\<close> returns the decision; the event list is empty when the handler has no emitter.
  \<open>canBlock\<close> is what \<open>CanBlockSignals\<close> reports of the platform.
\<close>

definition handler_Handle ::
    "engineLib \<Rightarrow> signalEngine \<Rightarrow> pidRegistry \<Rightarrow> bool \<Rightarrow> bool \<Rightarrow> signalContext \<Rightarrow>
     (signalDecision \<times> signalEventData list) option" where
  "handler_Handle lib e r hasEmitter canBlock sigCtx =
     map_option
       (\<lambda>dec. let finalDec = ApplyFallback dec canBlock
              in (finalDec, if hasEmitter then [handler_emitEvent sigCtx dec finalDec] else []))
       (handler_Evaluate lib e r sigCtx)"

section \<open>Answering a notification (\<open>seccomp_linux.go\<close>, \<open>internal/api/signal_handler_linux.go\<close>)\<close>

text \<open>
  \<open>Respond\<close> either lets the kernel execute the system call (the flag \<open>CONTINUE\<close>) or makes it fail
  with an error number.
\<close>

datatype notifResp = RespContinue | RespError int

definition filter_Respond :: "bool \<Rightarrow> int \<Rightarrow> notifResp" where
  "filter_Respond allow errno = (if allow then RespContinue else RespError (- errno))"

text \<open>One turn of the loop of \<open>serveSignalNotify\<close> after a notification was received.\<close>

definition serveSignalNotify ::
    "engineLib \<Rightarrow> signalEngine \<Rightarrow> pidRegistry \<Rightarrow> bool \<Rightarrow> bool \<Rightarrow> notifReq \<Rightarrow>
     (notifResp \<times> signalEventData list) option" where
  "serveSignalNotify lib e r hasEmitter canBlock req =
     map_option
       (\<lambda>(dec, evs).
          let allow = (sd_Action dec = ''allow'' \<or> sd_Action dec = ''audit'' \<or> sd_Action dec = ''absorb'');
              errno = (if allow then 0 else 1)
          in (filter_Respond allow errno, evs))
       (handler_Handle lib e r hasEmitter canBlock (ExtractSignalContext req))"

end
