(* ===== verification/Policy_Model.thy ===== *)
theory Policy_Model
  imports Signal_Engine Shell_Parse
begin

text \<open>
  The data of the core policy engine: the rules of a policy (\<open>internal/policy/model.go\<close>,
  \<open>rules.go\<close>, \<open>http_service.go\<close>), decisions (\<open>pkg/types/decision.go\<close>, \<open>engine.go\<close>), and the
  compiled rules of an engine (\<open>engine.go\<close>, \<open>http_service_compile.go\<close>).

  A Go map used as a set is the list of its elements. A duration is a number of nanoseconds.
\<close>

section \<open>Decisions\<close>

abbreviation DecisionAllow :: string where "DecisionAllow \<equiv> ''allow''"
abbreviation DecisionDeny :: string where "DecisionDeny \<equiv> ''deny''"
abbreviation DecisionApprove :: string where "DecisionApprove \<equiv> ''approve''"
abbreviation DecisionRedirect :: string where "DecisionRedirect \<equiv> ''redirect''"
abbreviation DecisionAudit :: string where "DecisionAudit \<equiv> ''audit''"
abbreviation DecisionSoftDelete :: string where "DecisionSoftDelete \<equiv> ''soft_delete''"

text \<open>
  A message is a sequence of parts: literal text, a quoted string, or a reason for refusing a script,
  with one constructor for each format string of the code.
\<close>

datatype messagePart = Txt string | Quoted string | WhyBypass bypassReason | WhyOpaque opaqueReason

type_synonym policyMessage = "messagePart list"

definition text_message :: "string \<Rightarrow> policyMessage" where
  "text_message s = (if s = [] then [] else [Txt s])"

datatype approvalMode = ApprovalModeShadow | ApprovalModeEnforced

record approvalInfo =
  ai_Required :: bool
  ai_Mode :: approvalMode

record redirectInfo =
  ri_Command :: string
  ri_Args :: "string list"
  ri_ArgsAppend :: "string list"
  ri_Environment :: "string \<rightharpoonup> string"
  ri_Reason :: policyMessage

record fileRedirectInfo =
  fri_OriginalPath :: string
  fri_RedirectPath :: string
  fri_Operation :: string
  fri_Reason :: string

record resolvedEnvPolicy =
  rep_Allow :: "string list"
  rep_Deny :: "string list"
  rep_MaxBytes :: int
  rep_MaxKeys :: int
  rep_BlockIteration :: bool

record torVerdict =
  tv_Vector :: string
  tv_Mode :: string
  tv_Decision :: string
  tv_Target :: string

record policyDecision =
  d_PolicyDecision :: string
  d_EffectiveDecision :: string
  d_Rule :: string
  d_Message :: policyMessage
  d_Approval :: "approvalInfo option"
  d_Redirect :: "redirectInfo option"
  d_FileRedirect :: "fileRedirectInfo option"
  d_EnvPolicy :: resolvedEnvPolicy
  d_ThreatFeed :: string
  d_ThreatMatch :: string
  d_ThreatAction :: string
  d_Tor :: "torVerdict option"

definition zero_env_policy :: resolvedEnvPolicy where
  "zero_env_policy =
     \<lparr>rep_Allow = [], rep_Deny = [], rep_MaxBytes = 0, rep_MaxKeys = 0, rep_BlockIteration = False\<rparr>"

text \<open>The composite literal \<open>Decision{PolicyDecision: p, EffectiveDecision: q, Rule: r, Message: m}\<close>.\<close>

definition mk_decision :: "string \<Rightarrow> string \<Rightarrow> string \<Rightarrow> policyMessage \<Rightarrow> policyDecision" where
  "mk_decision p q r m =
     \<lparr>d_PolicyDecision = p, d_EffectiveDecision = q, d_Rule = r, d_Message = m,
      d_Approval = None, d_Redirect = None, d_FileRedirect = None, d_EnvPolicy = zero_env_policy,
      d_ThreatFeed = [], d_ThreatMatch = [], d_ThreatAction = [], d_Tor = None\<rparr>"

section \<open>Rules\<close>

record contextConfig =
  ctx_MinDepth :: int
  ctx_MaxDepth :: int

record fileRule =
  fr_Name :: string
  fr_Description :: string
  fr_Paths :: "string list"
  fr_Operations :: "string list"
  fr_Decision :: string
  fr_Message :: string
  fr_Timeout :: int
  fr_RedirectTo :: string
  fr_PreserveTree :: bool

record networkRule =
  nwr_Name :: string
  nwr_Description :: string
  nwr_Domains :: "string list"
  nwr_Ports :: "int list"
  nwr_CIDRs :: "string list"
  nwr_Decision :: string
  nwr_Message :: string
  nwr_Timeout :: int

record commandRedirect =
  crd_Command :: string
  crd_Args :: "string list"
  crd_ArgsAppend :: "string list"
  crd_Environment :: "string \<rightharpoonup> string"

record commandRule =
  cmr_Name :: string
  cmr_Description :: string
  cmr_Commands :: "string list"
  cmr_ArgsPatterns :: "string list"
  cmr_Decision :: string
  cmr_Message :: string
  cmr_RedirectTo :: "commandRedirect option"
  cmr_Context :: contextConfig
  cmr_EnvAllow :: "string list"
  cmr_EnvDeny :: "string list"
  cmr_EnvMaxBytes :: int
  cmr_EnvMaxKeys :: int
  cmr_EnvBlockIteration :: "bool option"

record unixSocketRule =
  usr_Name :: string
  usr_Description :: string
  usr_Paths :: "string list"
  usr_Operations :: "string list"
  usr_Decision :: string
  usr_Message :: string
  usr_Timeout :: int

record registryRule =
  rgr_Name :: string
  rgr_Description :: string
  rgr_Paths :: "string list"
  rgr_Operations :: "string list"
  rgr_Decision :: string
  rgr_Message :: string
  rgr_Timeout :: int
  rgr_Priority :: int
  rgr_CacheTTL :: int
  rgr_Notify :: bool

record dnsRedirectRule =
  dns_Name :: string
  dns_Match :: string
  dns_ResolveTo :: string
  dns_Visibility :: string
  dns_OnFailure :: string

record connectTLS =
  tls_Mode :: string
  tls_SNI :: string

record connectRedirectRule =
  con_Name :: string
  con_Match :: string
  con_RedirectTo :: string
  con_RedirectToUnix :: string
  con_TLS :: "connectTLS option"
  con_Visibility :: string
  con_Message :: string
  con_OnFailure :: string

record envPolicy =
  ep_Allow :: "string list"
  ep_Deny :: "string list"
  ep_MaxBytes :: int
  ep_MaxKeys :: int
  ep_BlockIteration :: bool

text \<open>The target of a policy's signal rule has the fields of \<^typ>\<open>targetSpec\<close>.\<close>

record policySignalRule =
  psr_Name :: string
  psr_Description :: string
  psr_Signals :: "string list"
  psr_Target :: targetSpec
  psr_Decision :: string
  psr_Fallback :: string
  psr_RedirectTo :: string
  psr_Message :: string
  psr_Timeout :: int

record httpServiceRule =
  hsr_Name :: string
  hsr_Methods :: "string list"
  hsr_Paths :: "string list"
  hsr_Decision :: string
  hsr_Message :: string

record httpServiceSecret =
  hss_Ref :: string
  hss_Format :: string

record httpService =
  hs_Name :: string
  hs_Upstream :: string
  hs_ExposeAs :: string
  hs_Aliases :: "string list"
  hs_AllowDirect :: bool
  hs_Default :: string
  hs_Rules :: "httpServiceRule list"
  hs_Secret :: "httpServiceSecret option"

text \<open>The part of a policy the engine evaluates.\<close>

record policy =
  p_FileRules :: "fileRule list"
  p_NetworkRules :: "networkRule list"
  p_CommandRules :: "commandRule list"
  p_UnixRules :: "unixSocketRule list"
  p_RegistryRules :: "registryRule list"
  p_SignalRules :: "policySignalRule list"
  p_DnsRedirectRules :: "dnsRedirectRule list"
  p_ConnectRedirectRules :: "connectRedirectRule list"
  p_EnvPolicy :: envPolicy
  p_EnvInject :: "string \<rightharpoonup> string"
  p_HTTPServices :: "httpService list"

section \<open>Compiled rules\<close>

record compiledFileRule =
  cf_rule :: fileRule
  cf_globs :: "globPattern list"
  cf_ops :: "string list"
  cf_redirectTo :: string
  cf_preserveTree :: bool

record compiledNetworkRule =
  cn_rule :: networkRule
  cn_domainGlobs :: "globPattern list"
  cn_cidrs :: "ipnet list"
  cn_ports :: "int list"

record compiledCommandRule =
  cc_rule :: commandRule
  cc_basenames :: "string list"
  cc_basenameGlobs :: "globPattern list"
  cc_fullPaths :: "string list"
  cc_pathGlobs :: "globPattern list"
  cc_argsRegexes :: "string list"

record compiledUnixRule =
  cu_rule :: unixSocketRule
  cu_paths :: "globPattern list"
  cu_ops :: "string list"

record compiledRegistryRule =
  cg_rule :: registryRule
  cg_globs :: "globPattern list"
  cg_ops :: "string list"
  cg_priority :: int

record compiledHTTPServiceRule =
  ch_rule :: httpServiceRule
  ch_methods :: "string list"
  ch_paths :: "globPattern list"

record compiledHTTPService =
  cs_cfg :: httpService
  cs_rules :: "compiledHTTPServiceRule list"
  cs_envVar :: string
  cs_defaultDecision :: string
  cs_upstreamHost :: string

text \<open>
  The optional collaborators of an engine are interface values: functions of their methods'
  arguments, \<^const>\<open>None\<close> when there is no match.
\<close>

record threatCheckResult =
  tcr_FeedName :: string
  tcr_MatchedDomain :: string

record torChecker =
  tor_EvalExecve :: "string \<Rightarrow> string list \<Rightarrow> torVerdict option"
  tor_EvalConnect :: "ip option \<Rightarrow> int \<Rightarrow> torVerdict option"
  tor_EvalOnionName :: "string \<Rightarrow> torVerdict option"

text \<open>
  The engine. The compiled redirect rules keep their pattern; \<open>regexp.Compile\<close> errors were excluded
  by validation. \<open>en_policy\<close> is never \<open>nil\<close>: \<open>NewEngine\<close> dereferences its argument.
\<close>

record engine =
  en_policy :: policy
  en_enforceApprovals :: bool
  en_enforceRedirects :: bool
  en_fileRules :: "compiledFileRule list"
  en_networkRules :: "compiledNetworkRule list"
  en_commandRules :: "compiledCommandRule list"
  en_unixRules :: "compiledUnixRule list"
  en_registryRules :: "compiledRegistryRule list"
  en_hasRestrictiveCommandRule :: bool
  en_httpServices :: "string \<rightharpoonup> compiledHTTPService"
  en_httpServiceHosts :: "string \<rightharpoonup> compiledHTTPService"
  en_dnsRedirectRules :: "dnsRedirectRule list"
  en_connectRedirectRules :: "connectRedirectRule list"
  en_envAllow :: "globPattern list"
  en_envDeny :: "globPattern list"
  en_signalEngine :: "signalEngine option"
  en_threatStore :: "(string \<Rightarrow> threatCheckResult option) option"
  en_threatAction :: string
  en_torChecker :: "torChecker option"

section \<open>Depth contexts (\<open>rules.go\<close>)\<close>

definition DefaultContext :: contextConfig where
  "DefaultContext = \<lparr>ctx_MinDepth = 0, ctx_MaxDepth = -1\<rparr>"

definition MatchesDepth :: "contextConfig \<Rightarrow> int \<Rightarrow> bool" where
  "MatchesDepth c depth =
     (if depth < ctx_MinDepth c then False
      else if ctx_MaxDepth c \<ge> 0 \<and> depth > ctx_MaxDepth c then False
      else True)"

text \<open>The array form \<open>[direct, nested]\<close>; an unknown word is the error.\<close>

definition parseArray :: "contextConfig \<Rightarrow> string list \<Rightarrow> string + contextConfig" where
  "parseArray c arr =
     (case List.find (\<lambda>v. v \<noteq> ''direct'' \<and> v \<noteq> ''nested'') arr of
        Some v \<Rightarrow> Inl v
      | None \<Rightarrow>
          let hasDirect = ''direct'' \<in> set arr; hasNested = ''nested'' \<in> set arr
          in Inr (if hasDirect \<and> hasNested then \<lparr>ctx_MinDepth = 0, ctx_MaxDepth = -1\<rparr>
                  else if hasDirect then \<lparr>ctx_MinDepth = 0, ctx_MaxDepth = 0\<rparr>
                  else if hasNested then \<lparr>ctx_MinDepth = 1, ctx_MaxDepth = -1\<rparr>
                  else c))"

end
