(* ===== verification/Policy_Http.thy ===== *)
theory Policy_Http
  imports Policy_Model
begin

text \<open>
  HTTP services: host names (\<open>canonicalizeHost\<close>), validation (\<open>ValidateHTTPServices\<close> in
  \<open>http_service.go\<close>) and compilation (\<open>http_service_compile.go\<close>). The URL parser of the standard
  library is the parameter \<^const>\<open>lib_urlParse\<close>, giving the scheme and the host with its port. The
  checks of credentials against providers, which only read configuration, are not modelled.
\<close>

section \<open>Host names\<close>

definition colons :: "string \<Rightarrow> nat" where
  "colons s = length (filter (\<lambda>c. c = CHR '':'') s)"

definition canonicalizeHost :: "string \<Rightarrow> string option" where
  "canonicalizeHost s0 =
     (let s = TrimSpace s0
      in if s = [] then None
         else if HasPrefix s ''['' then
           (case first_index CHR '']'' s of
              None \<Rightarrow> None
            | Some e \<Rightarrow>
                let inner = drop 1 (take e s); rest = drop (e + 1) s
                in if rest \<noteq> [] \<and> \<not> HasPrefix rest '':'' then None
                   else case ParseAddr_zone inner of
                     Some (Addr6 _, _) \<Rightarrow> Some (ToLower inner)
                   | _ \<Rightarrow> None)
         else if colons s \<ge> 2 then None
         else
           let s = (case last_index CHR '':'' s of Some i \<Rightarrow> take i s | None \<Rightarrow> s);
               s = TrimSuffix (ToLower s) ''.''
           in if s = [] then None else Some s)"

section \<open>Validation\<close>

datatype httpError =
    NameRequired nat | BadName nat string | DuplicateName string | InvalidUpstream string string
  | UpstreamNotHTTPS string string | InvalidHost string string | DuplicateHost string string string
  | InvalidAlias string string | InvalidDefault string string | InvalidEnvVar string string
  | ReservedEnvVar string string | DuplicateEnvVar string string string
  | InvalidRuleDecision string nat string | RuleWithoutPath string nat | EmptyPath string nat
  | InvalidPathGlob string nat string | EmptyMethod string nat
  | ParseUpstream string | CompilePath string string string

definition ident_char :: "char \<Rightarrow> bool" where
  "ident_char c = (is_upper c \<or> is_lower c \<or> decimal_byte c \<or> c = CHR ''_'')"

text \<open>The regular expressions \<open>^[A-Za-z_][A-Za-z0-9_]*$\<close> and \<open>^[A-Za-z0-9._-]+$\<close>.\<close>

definition envVarNameRe :: "string \<Rightarrow> bool" where
  "envVarNameRe s = (s \<noteq> [] \<and> \<not> decimal_byte (hd s) \<and> list_all ident_char s)"

definition httpServiceNameRe :: "string \<Rightarrow> bool" where
  "httpServiceNameRe s =
     (s \<noteq> [] \<and> list_all (\<lambda>c. ident_char c \<or> c = CHR ''.'' \<or> c = CHR ''-'') s)"

definition reservedEnvVarNames :: "string list" where
  "reservedEnvVarNames = [''ANTHROPIC_BASE_URL'', ''OPENAI_BASE_URL'', ''AEP_CAW_SESSION_ID'']"

fun validate_paths :: "engineLib \<Rightarrow> string \<Rightarrow> nat \<Rightarrow> string list \<Rightarrow> httpError + unit" where
  "validate_paths lib svc idx [] = Inr ()"
| "validate_paths lib svc idx (pat # pats) =
     (if TrimSpace pat = [] then Inl (EmptyPath svc idx)
      else if glob_Compile lib pat ''/'' = None then Inl (InvalidPathGlob svc idx pat)
      else validate_paths lib svc idx pats)"

definition validateHTTPServiceRule :: "engineLib \<Rightarrow> string \<Rightarrow> nat \<Rightarrow> httpServiceRule \<Rightarrow> httpError + unit" where
  "validateHTTPServiceRule lib svc idx r =
     (if hsr_Decision r \<notin> {DecisionAllow, DecisionDeny, DecisionApprove, DecisionAudit} then
        Inl (InvalidRuleDecision svc idx (hsr_Decision r))
      else if hsr_Paths r = [] then Inl (RuleWithoutPath svc idx)
      else
        bind_result (validate_paths lib svc idx (hsr_Paths r)) (\<lambda>_.
          if list_ex (\<lambda>m. TrimSpace m = []) (hsr_Methods r) then Inl (EmptyMethod svc idx)
          else Inr ()))"

fun validate_rules :: "engineLib \<Rightarrow> string \<Rightarrow> nat \<Rightarrow> httpServiceRule list \<Rightarrow> httpError + unit" where
  "validate_rules lib svc j [] = Inr ()"
| "validate_rules lib svc j (r # rs) =
     bind_result (validateHTTPServiceRule lib svc j r) (\<lambda>_. validate_rules lib svc (j + 1) rs)"

text \<open>The hosts seen so far map to the service that claims them.\<close>

fun validate_aliases :: "string \<Rightarrow> (string \<rightharpoonup> string) \<Rightarrow> string list \<Rightarrow> httpError + (string \<rightharpoonup> string)" where
  "validate_aliases svc hostSeen [] = Inr hostSeen"
| "validate_aliases svc hostSeen (alias # aliases) =
     (case canonicalizeHost alias of
        None \<Rightarrow> Inl (InvalidAlias svc alias)
      | Some a \<Rightarrow>
          (case hostSeen a of
             Some other \<Rightarrow> Inl (DuplicateHost svc a other)
           | None \<Rightarrow> validate_aliases svc (hostSeen(a \<mapsto> svc)) aliases))"

definition effective_env_var :: "httpService \<Rightarrow> string" where
  "effective_env_var s =
     (if hs_ExposeAs s = [] then ToUpper (hs_Name s) @ ''_API_URL'' else hs_ExposeAs s)"

text \<open>One turn of the loop of \<open>ValidateHTTPServices\<close>, with the three maps it updates.\<close>

type_synonym seenMaps = "string list \<times> (string \<rightharpoonup> string) \<times> (string \<rightharpoonup> string)"

definition validate_service :: "engineLib \<Rightarrow> nat \<Rightarrow> httpService \<Rightarrow> seenMaps \<Rightarrow> httpError + seenMaps" where
  "validate_service lib i s seen =
     (case seen of (nameSeen, hostSeen, envVarSeen) \<Rightarrow>
        let name = hs_Name s
        in if TrimSpace name = [] then Inl (NameRequired i)
           else if \<not> httpServiceNameRe name then Inl (BadName i name)
           else if ToLower name \<in> set nameSeen then Inl (DuplicateName name)
           else case lib_urlParse lib (hs_Upstream s) of
             None \<Rightarrow> Inl (InvalidUpstream name (hs_Upstream s))
           | Some (scheme, uhost) \<Rightarrow>
               if uhost = [] then Inl (InvalidUpstream name (hs_Upstream s))
               else if scheme \<noteq> ''https'' then Inl (UpstreamNotHTTPS name scheme)
               else case canonicalizeHost uhost of
                 None \<Rightarrow> Inl (InvalidHost name uhost)
               | Some host \<Rightarrow>
                   (case hostSeen host of
                      Some other \<Rightarrow> Inl (DuplicateHost name host other)
                    | None \<Rightarrow>
                        bind_result (validate_aliases name (hostSeen(host \<mapsto> name)) (hs_Aliases s)) (\<lambda>hostSeen.
                        if hs_Default s \<notin> {[], DecisionAllow, DecisionDeny} then
                          Inl (InvalidDefault name (hs_Default s))
                        else if \<not> envVarNameRe (effective_env_var s) then
                          Inl (InvalidEnvVar name (effective_env_var s))
                        else
                          let key = ToUpper (effective_env_var s)
                          in if key \<in> set reservedEnvVarNames then
                               Inl (ReservedEnvVar name (effective_env_var s))
                             else case envVarSeen key of
                               Some other \<Rightarrow> Inl (DuplicateEnvVar name (effective_env_var s) other)
                             | None \<Rightarrow>
                                 bind_result (validate_rules lib name 0 (hs_Rules s)) (\<lambda>_.
                                   Inr (ToLower name # nameSeen, hostSeen, envVarSeen(key \<mapsto> name))))))"

fun validate_services :: "engineLib \<Rightarrow> nat \<Rightarrow> httpService list \<Rightarrow> seenMaps \<Rightarrow> httpError + seenMaps" where
  "validate_services lib i [] seen = Inr seen"
| "validate_services lib i (s # ss) seen =
     bind_result (validate_service lib i s seen) (validate_services lib (i + 1) ss)"

definition ValidateHTTPServices :: "engineLib \<Rightarrow> httpService list \<Rightarrow> httpError + unit" where
  "ValidateHTTPServices lib svcs =
     bind_result (validate_services lib 0 svcs ([], Map.empty, Map.empty)) (\<lambda>_. Inr ())"

section \<open>Compilation\<close>

text \<open>The set of methods is empty when the rule names none.\<close>

definition compile_http_rule :: "engineLib \<Rightarrow> string \<Rightarrow> httpServiceRule \<Rightarrow> httpError + compiledHTTPServiceRule" where
  "compile_http_rule lib svc r =
     bind_result
       (map_result
          (\<lambda>pat. case glob_Compile lib pat ''/'' of
             None \<Rightarrow> Inl (CompilePath svc (hsr_Name r) pat) | Some g \<Rightarrow> Inr g)
          (hsr_Paths r))
       (\<lambda>globs. Inr \<lparr>ch_rule = r, ch_methods = map (\<lambda>m. ToUpper (TrimSpace m)) (hsr_Methods r),
                     ch_paths = globs\<rparr>)"

definition compile_http_service :: "engineLib \<Rightarrow> httpService \<Rightarrow> httpError + compiledHTTPService" where
  "compile_http_service lib s =
     (case lib_urlParse lib (hs_Upstream s) of
        None \<Rightarrow> Inl (ParseUpstream (hs_Name s))
      | Some (scheme, uhost) \<Rightarrow>
          let defDec = (if hs_Default s \<noteq> [] then hs_Default s
                        else if hs_Rules s = [] \<and> hs_Secret s \<noteq> None then DecisionAllow
                        else DecisionDeny)
          in case canonicalizeHost uhost of
               None \<Rightarrow> Inl (InvalidHost (hs_Name s) uhost)
             | Some host \<Rightarrow>
                 bind_result (map_result (compile_http_rule lib (hs_Name s)) (hs_Rules s)) (\<lambda>rules.
                   Inr \<lparr>cs_cfg = s, cs_rules = rules, cs_envVar = effective_env_var s,
                        cs_defaultDecision = defDec, cs_upstreamHost = host\<rparr>))"

fun add_aliases :: "compiledHTTPService \<Rightarrow> string list \<Rightarrow> (string \<rightharpoonup> compiledHTTPService) \<Rightarrow>
    httpError + (string \<rightharpoonup> compiledHTTPService)" where
  "add_aliases cs [] byHost = Inr byHost"
| "add_aliases cs (alias # aliases) byHost =
     (case canonicalizeHost alias of
        None \<Rightarrow> Inl (InvalidAlias (hs_Name (cs_cfg cs)) alias)
      | Some a \<Rightarrow>
          (case byHost a of
             Some other \<Rightarrow> Inl (DuplicateHost (hs_Name (cs_cfg cs)) a (hs_Name (cs_cfg other)))
           | None \<Rightarrow> add_aliases cs aliases (byHost(a \<mapsto> cs))))"

type_synonym serviceMaps =
  "(string \<rightharpoonup> compiledHTTPService) \<times> (string \<rightharpoonup> compiledHTTPService)"

definition add_http_service :: "engineLib \<Rightarrow> httpService \<Rightarrow> serviceMaps \<Rightarrow> httpError + serviceMaps" where
  "add_http_service lib s maps =
     bind_result (compile_http_service lib s) (\<lambda>cs.
       case maps of (byName, byHost) \<Rightarrow>
         if byName (ToLower (hs_Name s)) \<noteq> None then Inl (DuplicateName (hs_Name s))
         else case byHost (cs_upstreamHost cs) of
           Some other \<Rightarrow>
             Inl (DuplicateHost (hs_Name s) (cs_upstreamHost cs) (hs_Name (cs_cfg other)))
         | None \<Rightarrow>
             bind_result (add_aliases cs (hs_Aliases s) (byHost(cs_upstreamHost cs \<mapsto> cs))) (\<lambda>byHost.
               Inr (byName(ToLower (hs_Name s) \<mapsto> cs), byHost)))"

fun add_http_services :: "engineLib \<Rightarrow> httpService list \<Rightarrow> serviceMaps \<Rightarrow> httpError + serviceMaps" where
  "add_http_services lib [] maps = Inr maps"
| "add_http_services lib (s # ss) maps =
     bind_result (add_http_service lib s maps) (add_http_services lib ss)"

definition compileHTTPServices :: "engineLib \<Rightarrow> httpService list \<Rightarrow> httpError + serviceMaps" where
  "compileHTTPServices lib svcs = add_http_services lib svcs (Map.empty, Map.empty)"

end
