(* ===== verification/Policy_Engine.thy ===== *)
theory Policy_Engine
  imports Policy_Http
begin

text \<open>
  \<open>internal/policy/engine.go\<close>, \<open>engine_signal.go\<close> and \<open>vars.go\<close>: building an engine from a policy,
  with and without expansion of variables, and the functions that turn the decision of a rule into
  a verdict.
\<close>

section \<open>Compilation (\<open>NewEngine\<close>)\<close>

datatype engineError =
    FileGlob string string | NetworkDomain string string | NetworkCIDR string string
  | ArgPattern string string | UnixGlob string string | RegistryGlob string string
  | EnvAllowPattern string | EnvDenyPattern string
  | SignalRules signalError | HTTPServices httpError

definition compile_glob_list :: "engineLib \<Rightarrow> char list \<Rightarrow> (string \<Rightarrow> engineError) \<Rightarrow> string list \<Rightarrow>
    engineError + globPattern list" where
  "compile_glob_list lib seps err pats =
     map_result (\<lambda>pat. case glob_Compile lib pat seps of None \<Rightarrow> Inl (err pat) | Some g \<Rightarrow> Inr g) pats"

definition compile_file_rule :: "engineLib \<Rightarrow> fileRule \<Rightarrow> engineError + compiledFileRule" where
  "compile_file_rule lib r =
     bind_result (compile_glob_list lib ''/'' (FileGlob (fr_Name r)) (fr_Paths r)) (\<lambda>globs.
       Inr \<lparr>cf_rule = r, cf_globs = globs, cf_ops = map ToLower (fr_Operations r),
            cf_redirectTo = fr_RedirectTo r, cf_preserveTree = fr_PreserveTree r\<rparr>)"

definition compile_network_rule :: "engineLib \<Rightarrow> networkRule \<Rightarrow> engineError + compiledNetworkRule" where
  "compile_network_rule lib r =
     bind_result
       (map_result
          (\<lambda>pat. case glob_Compile lib (ToLower pat) ''.'' of
             Some g \<Rightarrow> Inr g
           | None \<Rightarrow>
               (case glob_Compile lib (ToLower pat) [] of
                  Some g \<Rightarrow> Inr g
                | None \<Rightarrow> Inl (NetworkDomain (nwr_Name r) pat)))
          (nwr_Domains r)) (\<lambda>globs.
     bind_result
       (map_result
          (\<lambda>cidr. case ParseCIDR cidr of
             Some n \<Rightarrow> Inr n | None \<Rightarrow> Inl (NetworkCIDR (nwr_Name r) cidr))
          (nwr_CIDRs r)) (\<lambda>cidrs.
       Inr \<lparr>cn_rule = r, cn_domainGlobs = globs, cn_cidrs = cidrs, cn_ports = nwr_Ports r\<rparr>))"

text \<open>
  A command pattern is a literal path, a glob on paths, a literal base name or a glob on base names;
  a glob that does not compile is taken literally.
\<close>

definition glob_syntax :: "string \<Rightarrow> bool" where
  "glob_syntax c = (CHR ''*'' \<in> set c \<or> CHR ''?'' \<in> set c \<or> CHR ''['' \<in> set c)"

definition add_command :: "engineLib \<Rightarrow> compiledCommandRule \<Rightarrow> string \<Rightarrow> compiledCommandRule" where
  "add_command lib cr c0 =
     (let c = TrimSpace c0
      in if c = [] then cr
         else if CHR ''/'' \<in> set c then
           if glob_syntax c then
             (case glob_Compile lib c ''/'' of
                None \<Rightarrow> cr\<lparr>cc_fullPaths := cc_fullPaths cr @ [ToLower c]\<rparr>
              | Some g \<Rightarrow> cr\<lparr>cc_pathGlobs := cc_pathGlobs cr @ [g]\<rparr>)
           else cr\<lparr>cc_fullPaths := cc_fullPaths cr @ [ToLower c]\<rparr>
         else
           if glob_syntax c then
             (case glob_Compile lib c [] of
                None \<Rightarrow> cr\<lparr>cc_basenames := cc_basenames cr @ [ToLower c]\<rparr>
              | Some g \<Rightarrow> cr\<lparr>cc_basenameGlobs := cc_basenameGlobs cr @ [g]\<rparr>)
           else cr\<lparr>cc_basenames := cc_basenames cr @ [ToLower c]\<rparr>)"

definition compile_command_rule :: "engineLib \<Rightarrow> commandRule \<Rightarrow> engineError + compiledCommandRule" where
  "compile_command_rule lib r =
     (let cr = foldl (add_command lib)
                 \<lparr>cc_rule = r, cc_basenames = [], cc_basenameGlobs = [], cc_fullPaths = [],
                  cc_pathGlobs = [], cc_argsRegexes = []\<rparr> (cmr_Commands r)
      in bind_result
           (map_result (\<lambda>pat. if lib_regexCompiles lib pat then Inr pat
                              else Inl (ArgPattern (cmr_Name r) pat)) (cmr_ArgsPatterns r))
           (\<lambda>res. Inr (cr\<lparr>cc_argsRegexes := res\<rparr>)))"

definition restrictive :: "commandRule \<Rightarrow> bool" where
  "restrictive r =
     (ToLower (cmr_Decision r) \<in>
        {DecisionDeny, DecisionRedirect, DecisionSoftDelete, DecisionApprove, DecisionAudit})"

definition compile_unix_rule :: "engineLib \<Rightarrow> unixSocketRule \<Rightarrow> engineError + compiledUnixRule" where
  "compile_unix_rule lib r =
     bind_result
       (map_result
          (\<lambda>pat. case glob_Compile lib pat ''/'' of
             Some g \<Rightarrow> Inr g
           | None \<Rightarrow>
               (case glob_Compile lib pat [] of
                  Some g \<Rightarrow> Inr g | None \<Rightarrow> Inl (UnixGlob (usr_Name r) pat)))
          (usr_Paths r)) (\<lambda>globs.
       Inr \<lparr>cu_rule = r, cu_paths = globs, cu_ops = map ToLower (usr_Operations r)\<rparr>)"

text \<open>\<open>strings.ReplaceAll(pat, `\`, `\\`)\<close>.\<close>

definition escape_backslash :: "string \<Rightarrow> string" where
  "escape_backslash s = concat (map (\<lambda>c. if c = CHR 0x5C then [CHR 0x5C, CHR 0x5C] else [c]) s)"

definition compile_registry_rule :: "engineLib \<Rightarrow> registryRule \<Rightarrow> engineError + compiledRegistryRule" where
  "compile_registry_rule lib r =
     bind_result
       (map_result
          (\<lambda>pat. case glob_Compile lib (escape_backslash pat) [] of
             Some g \<Rightarrow> Inr g | None \<Rightarrow> Inl (RegistryGlob (rgr_Name r) pat))
          (rgr_Paths r)) (\<lambda>globs.
       Inr \<lparr>cg_rule = r, cg_globs = globs, cg_ops = map ToLower (rgr_Operations r),
            cg_priority = rgr_Priority r\<rparr>)"

text \<open>
  \<open>sort.Slice\<close> by descending priority. The order among rules of equal priority is not specified; the
  library is represented by the permutation it performs on a slice with the given priorities.
\<close>

definition sort_registry :: "engineLib \<Rightarrow> compiledRegistryRule list \<Rightarrow> compiledRegistryRule list" where
  "sort_registry lib rs = map (\<lambda>i. rs ! i) (lib_sortOrder lib (map cg_priority rs))"

definition compileSignalRules :: "engineLib \<Rightarrow> policySignalRule list \<Rightarrow> engineError + signalEngine option" where
  "compileSignalRules lib rules =
     (if rules = [] then Inr None
      else
        let sigRules = map (\<lambda>r. \<lparr>sr_Name = psr_Name r, sr_Description = psr_Description r,
              sr_Signals = psr_Signals r, sr_Target = psr_Target r, sr_Decision = psr_Decision r,
              sr_Fallback = psr_Fallback r, sr_RedirectTo = psr_RedirectTo r,
              sr_Message = psr_Message r\<rparr>) rules
        in case signal_NewEngine lib sigRules of
             Inl err \<Rightarrow> Inl (SignalRules err)
           | Inr e \<Rightarrow> Inr (Some e))"

definition NewEngine :: "engineLib \<Rightarrow> policy \<Rightarrow> bool \<Rightarrow> bool \<Rightarrow> engineError + engine" where
  "NewEngine lib p enforceApprovals enforceRedirects =
     bind_result (map_result (compile_file_rule lib) (p_FileRules p)) (\<lambda>files.
     bind_result (map_result (compile_network_rule lib) (p_NetworkRules p)) (\<lambda>nets.
     bind_result (map_result (compile_command_rule lib) (p_CommandRules p)) (\<lambda>cmds.
     bind_result (map_result (compile_unix_rule lib) (p_UnixRules p)) (\<lambda>unixes.
     bind_result (map_result (compile_registry_rule lib) (p_RegistryRules p)) (\<lambda>regs.
     bind_result (compile_glob_list lib [] EnvAllowPattern (ep_Allow (p_EnvPolicy p))) (\<lambda>envAllow.
     bind_result (compile_glob_list lib [] EnvDenyPattern (ep_Deny (p_EnvPolicy p))) (\<lambda>envDeny.
     bind_result (compileSignalRules lib (p_SignalRules p)) (\<lambda>sig.
     case compileHTTPServices lib (p_HTTPServices p) of
       Inl err \<Rightarrow> Inl (HTTPServices err)
     | Inr (byName, byHost) \<Rightarrow>
         Inr \<lparr>en_policy = p, en_enforceApprovals = enforceApprovals,
              en_enforceRedirects = enforceRedirects,
              en_fileRules = files, en_networkRules = nets, en_commandRules = cmds,
              en_unixRules = unixes, en_registryRules = sort_registry lib regs,
              en_hasRestrictiveCommandRule = list_ex (\<lambda>r. restrictive (cc_rule r)) cmds,
              en_httpServices = byName, en_httpServiceHosts = byHost,
              en_dnsRedirectRules = p_DnsRedirectRules p,
              en_connectRedirectRules = p_ConnectRedirectRules p,
              en_envAllow = envAllow, en_envDeny = envDeny, en_signalEngine = sig,
              en_threatStore = None, en_threatAction = [], en_torChecker = None\<rparr>))))))))"

definition SetThreatStore :: "(string \<Rightarrow> threatCheckResult option) option \<Rightarrow> string \<Rightarrow> engine \<Rightarrow> engine" where
  "SetThreatStore store action e =
     e\<lparr>en_threatStore := store,
       en_threatAction := (if action = DecisionDeny \<or> action = DecisionAudit then action else DecisionDeny)\<rparr>"

definition SetTorPolicy :: "torChecker option \<Rightarrow> engine \<Rightarrow> engine" where
  "SetTorPolicy tc e = e\<lparr>en_torChecker := tc\<rparr>"

section \<open>Expansion of variables (\<open>vars.go\<close>)\<close>

text \<open>
  A match of \<open>\$\{([a-zA-Z_][a-zA-Z0-9_]*)(?::-([^}]*))?\}\<close> at the front of a string: the variable, the
  fallback if there is one, and the rest. No byte of an identifier is \<open>:\<close> or \<open>}\<close>, so the greedy match
  is the only one.
\<close>

definition var_start :: "char \<Rightarrow> bool" where
  "var_start c = (is_upper c \<or> is_lower c \<or> c = CHR ''_'')"

definition match_var :: "string \<Rightarrow> (string \<times> string option \<times> string) option" where
  "match_var s =
     (if \<not> HasPrefix s ''${'' then None
      else
        let name = takeWhile ident_char (drop 2 s); rest = dropWhile ident_char (drop 2 s)
        in if name = [] \<or> \<not> var_start (hd name) then None
           else if HasPrefix rest ''}'' then Some (name, None, drop 1 rest)
           else if HasPrefix rest '':-'' then
             let fb = takeWhile (\<lambda>c. c \<noteq> CHR ''}'') (drop 2 rest);
                 after = dropWhile (\<lambda>c. c \<noteq> CHR ''}'') (drop 2 rest)
             in if after = [] then None else Some (name, Some fb, drop 1 after)
           else None)"

definition lookup_var :: "engineLib \<Rightarrow> (string \<rightharpoonup> string) \<Rightarrow> string \<Rightarrow> string option \<Rightarrow> string option" where
  "lookup_var lib vars name fallback =
     (case vars name of
        Some v \<Rightarrow> Some v
      | None \<Rightarrow> if lib_getenv lib name \<noteq> [] then Some (lib_getenv lib name) else fallback)"

lemma match_var_shorter: "match_var s = Some (n, f, r) \<Longrightarrow> length r < length s"
proof -
  assume m: "match_var s = Some (n, f, r)"
  have d: "length (dropWhile P xs) \<le> length xs" for P and xs :: string
    by (rule length_dropWhile_le)
  have len: "length s \<ge> 2"
    using m by (auto simp: match_var_def HasPrefix_def split: if_splits) (metis length_take min.absorb_iff1 numeral_2_eq_2 length_Cons list.size(3) min.cobounded1)
  let ?rest = "dropWhile ident_char (drop 2 s)"
  have "length r \<le> length ?rest"
    using m d [of "\<lambda>c. c \<noteq> CHR ''}''" "drop 2 ?rest"]
    by (auto simp: match_var_def Let_def split: if_splits)
  also have "\<dots> \<le> length s - 2"
    using d [of ident_char "drop 2 s"] by simp
  finally show ?thesis using len by linarith
qed

function expand_from :: "engineLib \<Rightarrow> (string \<rightharpoonup> string) \<Rightarrow> string \<Rightarrow> string + string" where
  "expand_from lib vars [] = Inr []"
| "expand_from lib vars (c # s) =
     (case match_var (c # s) of
        None \<Rightarrow> bind_result (expand_from lib vars s) (\<lambda>t. Inr (c # t))
      | Some (name, fallback, rest) \<Rightarrow>
          (case lookup_var lib vars name fallback of
             None \<Rightarrow> Inl name
           | Some v \<Rightarrow> bind_result (expand_from lib vars rest) (\<lambda>t. Inr (v @ t))))"
  by pat_completeness auto
termination
  by (relation "measure (\<lambda>(lib, vars, s). length s)") (auto dest: match_var_shorter)

text \<open>The error is the name of the first undefined variable.\<close>

definition ExpandVariables :: "engineLib \<Rightarrow> string \<Rightarrow> (string \<rightharpoonup> string) \<Rightarrow> string + string" where
  "ExpandVariables lib s vars = expand_from lib vars s"

definition expandPolicy :: "engineLib \<Rightarrow> policy \<Rightarrow> (string \<rightharpoonup> string) \<Rightarrow> string + policy" where
  "expandPolicy lib p vars =
     bind_result
       (map_result
          (\<lambda>r. bind_result (map_result (\<lambda>path. ExpandVariables lib path vars) (fr_Paths r))
                 (\<lambda>paths. Inr (r\<lparr>fr_Paths := paths\<rparr>)))
          (p_FileRules p)) (\<lambda>files.
     bind_result
       (map_result
          (\<lambda>r. bind_result (map_result (\<lambda>d. ExpandVariables lib d vars) (nwr_Domains r))
                 (\<lambda>domains. Inr (r\<lparr>nwr_Domains := domains\<rparr>)))
          (p_NetworkRules p)) (\<lambda>nets.
       Inr (p\<lparr>p_FileRules := files, p_NetworkRules := nets\<rparr>)))"

definition NewEngineWithVariables ::
    "engineLib \<Rightarrow> policy \<Rightarrow> bool \<Rightarrow> bool \<Rightarrow> (string \<rightharpoonup> string) \<Rightarrow> (string + engineError) + engine" where
  "NewEngineWithVariables lib p enforceApprovals enforceRedirects vars =
     (case expandPolicy lib p vars of
        Inl undef \<Rightarrow> Inl (Inl undef)
      | Inr expanded \<Rightarrow>
          (case NewEngine lib expanded enforceApprovals enforceRedirects of
             Inl err \<Rightarrow> Inl (Inr err)
           | Inr e \<Rightarrow> Inr e))"

section \<open>From a rule's decision to a verdict\<close>

definition toRedirectInfo :: "commandRedirect option \<Rightarrow> policyMessage \<Rightarrow> redirectInfo option" where
  "toRedirectInfo r msg =
     (case r of
        None \<Rightarrow> None
      | Some c \<Rightarrow>
          if TrimSpace (crd_Command c) = [] then None
          else Some \<lparr>ri_Command = crd_Command c, ri_Args = crd_Args c, ri_ArgsAppend = crd_ArgsAppend c,
                     ri_Environment = crd_Environment c, ri_Reason = msg\<rparr>)"

definition wrapDecision :: "engineLib \<Rightarrow> engine \<Rightarrow> string \<Rightarrow> string \<Rightarrow> policyMessage \<Rightarrow> commandRedirect option \<Rightarrow> policyDecision" where
  "wrapDecision lib e dec rule msg redirect =
     (let pd = ToLower dec
      in if pd = DecisionAllow then mk_decision pd pd rule msg
         else if pd = DecisionDeny then mk_decision pd pd rule msg
         else if pd = DecisionApprove then
           if en_enforceApprovals e then
             (mk_decision pd pd rule msg)
               \<lparr>d_Approval := Some \<lparr>ai_Required = True, ai_Mode = ApprovalModeEnforced\<rparr>\<rparr>
           else if lib_getenv lib ''AEP_CAW_APPROVE_SHADOW_ALLOW'' = ''1'' then
             (mk_decision pd DecisionAllow rule msg)
               \<lparr>d_Approval := Some \<lparr>ai_Required = True, ai_Mode = ApprovalModeShadow\<rparr>\<rparr>
           else
             (mk_decision pd DecisionDeny rule (msg @ [Txt '' (approvals disabled; deny fail-closed)'']))
               \<lparr>d_Approval := Some \<lparr>ai_Required = True, ai_Mode = ApprovalModeShadow\<rparr>\<rparr>
         else if pd = DecisionRedirect then
           (mk_decision pd (if en_enforceRedirects e then pd else DecisionAllow) rule msg)
             \<lparr>d_Redirect := toRedirectInfo redirect msg\<rparr>
         else if pd = DecisionAudit then mk_decision pd DecisionAllow rule msg
         else if pd = DecisionSoftDelete then mk_decision pd DecisionAllow rule msg
         else mk_decision DecisionDeny DecisionDeny ''invalid-policy-decision''
                [Txt ''invalid decision in policy''])"

definition matchOp :: "string list \<Rightarrow> string \<Rightarrow> bool" where
  "matchOp ops op = (if ops = [] then True else if ''*'' \<in> set ops then True else op \<in> set ops)"

definition decisionStrictness :: "string \<Rightarrow> nat" where
  "decisionStrictness d =
     (if d = DecisionDeny then 4
      else if d = DecisionRedirect \<or> d = DecisionSoftDelete then 3
      else if d = DecisionApprove then 2
      else if d = DecisionAudit then 1
      else 0)"

end
