(* ===== verification/Env_Policy.thy ===== *)
theory Env_Policy
  imports Policy_Model "HOL-Library.AList" "HOL-Library.List_Lexorder" "HOL-Library.Char_ord"
begin

text \<open>
  \<open>internal/policy/env_policy.go\<close>: the environment of a child process. \<open>MergeEnvPolicy\<close> combines
  the global policy with the rule that allowed the command, \<open>BuildEnv\<close> filters the variables and
  enforces the limits. Strings are ordered byte by byte, as \<open>sort.Strings\<close> does.
\<close>

section \<open>Merging and filtering\<close>

text \<open>The empty rule \<open>CommandRule{}\<close> is \<^const>\<open>None\<close>.\<close>

definition uniqStrings :: "string list \<Rightarrow> string list" where
  "uniqStrings xs = dedup_by id [] xs"

definition MergeEnvPolicy :: "envPolicy \<Rightarrow> commandRule option \<Rightarrow> resolvedEnvPolicy" where
  "MergeEnvPolicy global rule =
     (let allow = (case rule of Some r \<Rightarrow> if cmr_EnvAllow r \<noteq> [] then cmr_EnvAllow r else ep_Allow global
                              | None \<Rightarrow> ep_Allow global);
          deny = (case rule of Some r \<Rightarrow> if cmr_EnvDeny r \<noteq> [] then cmr_EnvDeny r else ep_Deny global
                             | None \<Rightarrow> ep_Deny global)
      in \<lparr>rep_Allow = uniqStrings allow, rep_Deny = uniqStrings deny,
          rep_MaxBytes =
            (case rule of Some r \<Rightarrow> if cmr_EnvMaxBytes r > 0 then cmr_EnvMaxBytes r else ep_MaxBytes global
                        | None \<Rightarrow> ep_MaxBytes global),
          rep_MaxKeys =
            (case rule of Some r \<Rightarrow> if cmr_EnvMaxKeys r > 0 then cmr_EnvMaxKeys r else ep_MaxKeys global
                        | None \<Rightarrow> ep_MaxKeys global),
          rep_BlockIteration =
            (case rule of
               Some r \<Rightarrow> (case cmr_EnvBlockIteration r of Some b \<Rightarrow> b | None \<Rightarrow> ep_BlockIteration global)
             | None \<Rightarrow> ep_BlockIteration global)\<rparr>)"

definition splitKV :: "string \<Rightarrow> (string \<times> string) option" where
  "splitKV kv =
     (case first_index CHR ''='' kv of
        None \<Rightarrow> None
      | Some idx \<Rightarrow> if idx = 0 then None else Some (take idx kv, drop (idx + 1) kv))"

definition compilePatterns :: "engineLib \<Rightarrow> string list \<Rightarrow> globPattern list" where
  "compilePatterns lib patterns = List.map_filter (\<lambda>p. glob_Compile lib p []) patterns"

definition matchesAnyPattern :: "engineLib \<Rightarrow> string \<Rightarrow> string list \<Rightarrow> globPattern list \<Rightarrow> bool" where
  "matchesAnyPattern lib name patterns compiledGlobs =
     (list_ex (\<lambda>p. p = name) patterns \<or> list_ex (\<lambda>g. glob_Match lib g name) compiledGlobs)"

definition isInternalVar :: "string \<Rightarrow> bool" where
  "isInternalVar name = HasPrefix name ''AEP_CAW_''"

definition defaultSecretDeny :: "string list" where
  "defaultSecretDeny =
     [''AWS_SECRET_ACCESS_KEY'', ''AWS_ACCESS_KEY_ID'', ''AWS_SESSION_TOKEN'', ''AWS_PROFILE'',
      ''GOOGLE_APPLICATION_CREDENTIALS'', ''GCP_SERVICE_ACCOUNT'',
      ''AZURE_CLIENT_SECRET'', ''AZURE_CLIENT_ID'', ''AZURE_TENANT_ID'', ''AZURE_SUBSCRIPTION_ID'',
      ''SSH_AUTH_SOCK'', ''SSH_AGENT_PID'', ''DOCKER_HOST'', ''DOCKER_TLS_VERIFY'',
      ''KUBECONFIG'', ''GITHUB_TOKEN'', ''GH_TOKEN'',
      ''LD_PRELOAD'', ''LD_LIBRARY_PATH'', ''LD_AUDIT'', ''LD_DEBUG'', ''LD_DEBUG_OUTPUT'',
      ''LD_DYNAMIC_WEAK'', ''LD_HWCAP_MASK'', ''LD_ORIGIN_PATH'', ''LD_PROFILE'',
      ''LD_PROFILE_OUTPUT'', ''LD_SHOW_AUXV'', ''LD_TRACE_LOADED_OBJECTS'',
      ''DYLD_INSERT_LIBRARIES'', ''DYLD_LIBRARY_PATH'', ''DYLD_FRAMEWORK_PATH'',
      ''DYLD_FALLBACK_LIBRARY_PATH'', ''DYLD_FALLBACK_FRAMEWORK_PATH'', ''DYLD_IMAGE_SUFFIX'',
      ''DYLD_PRINT_LIBRARIES'',
      ''PYTHONPATH'', ''PYTHONSTARTUP'', ''PYTHONHOME'', ''PYTHONUSERBASE'',
      ''RUBYLIB'', ''RUBYOPT'', ''PERL5LIB'', ''PERL5OPT'', ''PERLLIB'',
      ''NODE_PATH'', ''NODE_OPTIONS'',
      ''BASH_ENV'', ''ENV'', ''SHELLOPTS'', ''BASHOPTS'', ''CDPATH'', ''GLOBIGNORE'', ''MAILPATH'',
      ''PROMPT_COMMAND'', ''GIT_ASKPASS'', ''SSH_ASKPASS'', ''GIT_SSH_COMMAND'']"

definition env_denied :: "engineLib \<Rightarrow> resolvedEnvPolicy \<Rightarrow> string \<Rightarrow> bool" where
  "env_denied lib pol name =
     (if matchesAnyPattern lib name (rep_Deny pol) (compilePatterns lib (rep_Deny pol)) then True
      else rep_Allow pol = [] \<and> name \<in> set defaultSecretDeny)"

definition env_allowed :: "engineLib \<Rightarrow> resolvedEnvPolicy \<Rightarrow> string \<Rightarrow> bool" where
  "env_allowed lib pol name =
     (if env_denied lib pol name then False
      else if rep_Allow pol = [] then True
      else matchesAnyPattern lib name (rep_Allow pol) (compilePatterns lib (rep_Allow pol)))"

section \<open>Building the environment\<close>

text \<open>
  The map \<open>allowed\<close> is an association list with one entry for each key; \<open>addKeys\<close>, a Go map, is given
  as the list of its entries in the order of iteration.
\<close>

definition add_base :: "(string \<Rightarrow> bool) \<Rightarrow> (string \<times> string) list \<Rightarrow> string \<Rightarrow> (string \<times> string) list" where
  "add_base ok env kv =
     (case splitKV kv of
        None \<Rightarrow> env
      | Some (k, v) \<Rightarrow> if v = [] then env else if ok k then AList.update k v env else env)"

definition add_key :: "(string \<Rightarrow> bool) \<Rightarrow> (string \<times> string) list \<Rightarrow> string \<times> string \<Rightarrow> (string \<times> string) list" where
  "add_key ok env kv = (if ok (fst kv) then AList.update (fst kv) (snd kv) env else env)"

definition env_map :: "engineLib \<Rightarrow> resolvedEnvPolicy \<Rightarrow> string list \<Rightarrow> (string \<times> string) list \<Rightarrow>
    (string \<times> string) list" where
  "env_map lib pol baseEnv addKeys =
     foldl (add_key isInternalVar)
       (foldl (add_key (env_allowed lib pol)) (foldl (add_base (env_allowed lib pol)) [] baseEnv) addKeys)
       addKeys"

definition env_pair :: "string \<times> string \<Rightarrow> string" where
  "env_pair kv = fst kv @ ''='' @ snd kv"

definition env_bytes :: "string list \<Rightarrow> int" where
  "env_bytes pairs = sum_list (map (\<lambda>p. int (length p) + 1) pairs)"

datatype envError = MaxKeysExceeded int | MaxBytesExceeded int

definition BuildEnv :: "engineLib \<Rightarrow> resolvedEnvPolicy \<Rightarrow> string list \<Rightarrow> (string \<times> string) list \<Rightarrow>
    envError + string list" where
  "BuildEnv lib pol baseEnv addKeys =
     (let pairs = sort (map env_pair (env_map lib pol baseEnv addKeys))
      in if rep_MaxKeys pol > 0 \<and> int (length pairs) > rep_MaxKeys pol then
           Inl (MaxKeysExceeded (rep_MaxKeys pol))
         else if rep_MaxBytes pol > 0 \<and> env_bytes pairs > rep_MaxBytes pol then
           Inl (MaxBytesExceeded (rep_MaxBytes pol))
         else Inr pairs)"

definition ValidateEnvPolicy :: "envPolicy \<Rightarrow> bool" where
  "ValidateEnvPolicy p = (\<not> (ep_MaxBytes p < 0 \<or> ep_MaxKeys p < 0))"

section \<open>What the environment holds\<close>

text \<open>
  The last value of \<open>k\<close> in the base environment, empty values not counting, and the value the child
  sees: an added key wins over the base environment, and it is filtered unless it is internal.
\<close>

fun base_value :: "string \<Rightarrow> string list \<Rightarrow> string option" where
  "base_value k [] = None"
| "base_value k (kv # kvs) =
     (case base_value k kvs of
        Some v \<Rightarrow> Some v
      | None \<Rightarrow>
          (case splitKV kv of
             None \<Rightarrow> None
           | Some (k', v) \<Rightarrow> if k' = k \<and> v \<noteq> [] then Some v else None))"

definition env_value :: "engineLib \<Rightarrow> resolvedEnvPolicy \<Rightarrow> string list \<Rightarrow> (string \<times> string) list \<Rightarrow>
    string \<Rightarrow> string option" where
  "env_value lib pol baseEnv addKeys k =
     (case map_of addKeys k of
        Some v \<Rightarrow>
          if env_allowed lib pol k \<or> isInternalVar k then Some v else None
      | None \<Rightarrow> if env_allowed lib pol k then base_value k baseEnv else None)"

definition granted :: "engineLib \<Rightarrow> resolvedEnvPolicy \<Rightarrow> string list \<Rightarrow> (string \<times> string) list \<Rightarrow>
    (string \<times> string) set" where
  "granted lib pol baseEnv addKeys = {(k, v). env_value lib pol baseEnv addKeys k = Some v}"

definition env_pairs :: "engineLib \<Rightarrow> resolvedEnvPolicy \<Rightarrow> string list \<Rightarrow> (string \<times> string) list \<Rightarrow>
    string list" where
  "env_pairs lib pol baseEnv addKeys = sort (map env_pair (env_map lib pol baseEnv addKeys))"

definition plain_lib :: engineLib where
  "plain_lib =
     \<lparr>lib_globCompiles = (\<lambda>_ _. True), lib_globMatch = (\<lambda>g s. fst g = s \<or> fst g = ''*''),
      lib_regexCompiles = (\<lambda>_. True), lib_regexMatch = (\<lambda>re s. re = s),
      lib_regexParse = (\<lambda>re. Some (RegexNode OpOther [])), lib_lookupIP = (\<lambda>_. []), lib_urlParse = (\<lambda>s. Some (''https'', s)),
      lib_getenv = (\<lambda>_. []), lib_sortOrder = (\<lambda>ps. [0..<length ps])\<rparr>"

lemma map_of_add_base:
  "map_of (foldl (add_base ok) env kvs) k =
     (case (if ok k then base_value k kvs else None) of Some v \<Rightarrow> Some v | None \<Rightarrow> map_of env k)"
proof (induction kvs arbitrary: env)
  case (Cons kv kvs)
  show ?case
    by (simp add: Cons.IH) (auto simp: add_base_def update_conv' split: option.splits prod.splits)
qed simp

lemma map_of_add_key:
  assumes "distinct (map fst kvs)"
  shows "map_of (foldl (add_key ok) env kvs) k =
     (case (if ok k then map_of kvs k else None) of Some v \<Rightarrow> Some v | None \<Rightarrow> map_of env k)"
  using assms
proof (induction kvs arbitrary: env)
  case (Cons kv kvs)
  have "map_of kvs (fst kv) = None"
    using Cons.prems by (simp add: map_of_eq_None_iff)
  then show ?case
    using Cons by (auto simp: add_key_def update_conv' split: option.splits)
qed simp

lemma env_map_value:
  "distinct (map fst addKeys) \<Longrightarrow>
   map_of (env_map lib pol baseEnv addKeys) k = env_value lib pol baseEnv addKeys k"
  by (auto simp: env_map_def env_value_def map_of_add_key map_of_add_base split: option.splits)

lemma distinct_add_key: "distinct (map fst env) \<Longrightarrow> distinct (map fst (foldl (add_key ok) env kvs))"
  by (induction kvs arbitrary: env) (simp_all add: add_key_def distinct_update)

lemma distinct_add_base: "distinct (map fst env) \<Longrightarrow> distinct (map fst (foldl (add_base ok) env kvs))"
  by (induction kvs arbitrary: env)
    (simp_all add: add_base_def distinct_update split: option.splits prod.splits)

lemma distinct_env_map: "distinct (map fst (env_map lib pol baseEnv addKeys))"
  by (simp add: env_map_def distinct_add_key distinct_add_base)

lemma set_of_map_of: "distinct (map fst al) \<Longrightarrow> set al = {(k, v). map_of al k = Some v}"
  by (auto simp: map_of_eq_Some_iff)

text \<open>C18: \<open>BuildEnv\<close> computes exactly the environment the policy grants. When it succeeds the result is
  sorted, has one entry \<open>k=v\<close> for every variable with a value (an added key if it is allowed or
  internal, otherwise the last non-empty value of the base environment if it is allowed) and
  respects both limits; a denied variable can only be present as an internal variable the caller
  added. It fails exactly when a positive limit is exceeded, the limit on keys being checked first.
\<close>

theorem BuildEnv_exact:
  assumes keys: "distinct (map fst addKeys)"
  shows "set (env_pairs lib pol baseEnv addKeys) = env_pair ` granted lib pol baseEnv addKeys \<and>
     sorted (env_pairs lib pol baseEnv addKeys) \<and>
     length (env_pairs lib pol baseEnv addKeys) = card (fst ` granted lib pol baseEnv addKeys) \<and>
     (\<forall>(k, v) \<in> granted lib pol baseEnv addKeys.
        env_denied lib pol k \<longrightarrow> isInternalVar k \<and> (k, v) \<in> set addKeys) \<and>
     BuildEnv lib pol baseEnv addKeys =
       (if 0 < rep_MaxKeys pol \<and> rep_MaxKeys pol < int (card (fst ` granted lib pol baseEnv addKeys)) then
          Inl (MaxKeysExceeded (rep_MaxKeys pol))
        else if 0 < rep_MaxBytes pol \<and> rep_MaxBytes pol < env_bytes (env_pairs lib pol baseEnv addKeys) then
          Inl (MaxBytesExceeded (rep_MaxBytes pol))
        else Inr (env_pairs lib pol baseEnv addKeys))"
proof -
  let ?al = "env_map lib pol baseEnv addKeys"
  have g: "granted lib pol baseEnv addKeys = set ?al"
    unfolding granted_def set_of_map_of [OF distinct_env_map] env_map_value [OF keys] ..
  have "card (fst ` set ?al) = length ?al"
    using distinct_card [OF distinct_env_map [of lib pol baseEnv addKeys]] by simp
  then have len: "length (env_pairs lib pol baseEnv addKeys) = card (fst ` granted lib pol baseEnv addKeys)"
    by (simp add: env_pairs_def g)
  have "\<forall>(k, v) \<in> granted lib pol baseEnv addKeys.
      env_denied lib pol k \<longrightarrow> isInternalVar k \<and> (k, v) \<in> set addKeys"
    by (auto simp: granted_def env_value_def env_allowed_def split: option.splits if_splits
        dest: map_of_SomeD)
  moreover have "BuildEnv lib pol baseEnv addKeys =
       (if 0 < rep_MaxKeys pol \<and> rep_MaxKeys pol < int (card (fst ` granted lib pol baseEnv addKeys)) then
          Inl (MaxKeysExceeded (rep_MaxKeys pol))
        else if 0 < rep_MaxBytes pol \<and> rep_MaxBytes pol < env_bytes (env_pairs lib pol baseEnv addKeys) then
          Inl (MaxBytesExceeded (rep_MaxBytes pol))
        else Inr (env_pairs lib pol baseEnv addKeys))"
    unfolding BuildEnv_def Let_def len [symmetric] env_pairs_def by simp
  ultimately show ?thesis
    using len by (auto simp: env_pairs_def g)
qed

text \<open>
  A secret of the parent is dropped, an internal variable passes although everything is denied.
\<close>

theorem BuildEnv_exact_witness:
  "BuildEnv plain_lib zero_env_policy [''HOME=/root'', ''GITHUB_TOKEN=x'', ''EMPTY=''] [(''LANG'', ''C'')] =
     Inr [''HOME=/root'', ''LANG=C''] \<and>
   BuildEnv plain_lib (zero_env_policy\<lparr>rep_Deny := [''*''], rep_MaxKeys := 1\<rparr>) [''HOME=/root'']
     [(''AEP_CAW_IN'', ''1'')] = Inr [''AEP_CAW_IN=1''] \<and>
   env_pair ` granted plain_lib zero_env_policy [''HOME=/root'', ''GITHUB_TOKEN=x'', ''EMPTY=''] [(''LANG'', ''C'')] =
     {''HOME=/root'', ''LANG=C''}"
proof (intro conjI)
  have k: "distinct (map fst [(''LANG'', ''C'')])"
    by simp
  have p: "set (env_pairs plain_lib zero_env_policy [''HOME=/root'', ''GITHUB_TOKEN=x'', ''EMPTY=''] [(''LANG'', ''C'')]) =
      {''HOME=/root'', ''LANG=C''}"
    by code_simp
  show "env_pair ` granted plain_lib zero_env_policy [''HOME=/root'', ''GITHUB_TOKEN=x'', ''EMPTY=''] [(''LANG'', ''C'')] =
      {''HOME=/root'', ''LANG=C''}"
    using BuildEnv_exact [OF k, of plain_lib zero_env_policy "[''HOME=/root'', ''GITHUB_TOKEN=x'', ''EMPTY='']"] p
    by (elim conjE) simp
qed (code_simp+)

end
