(* ===== verification/Policy_Check.thy ===== *)
theory Policy_Check
  imports Policy_Engine Env_Policy Go_Utf8
begin

text \<open>
  The checks of \<open>internal/policy/engine.go\<close>, \<open>http_service_check.go\<close>, \<open>http_service_score.go\<close> and
  the path redirector of \<open>redirect.go\<close>. A loop over rules that returns at the first match is
  \<^const>\<open>List.find\<close>.
\<close>

section \<open>Commands\<close>

definition no_patterns :: "compiledCommandRule \<Rightarrow> bool" where
  "no_patterns r =
     (cc_basenames r = [] \<and> cc_basenameGlobs r = [] \<and> cc_fullPaths r = [] \<and> cc_pathGlobs r = [])"

definition args_match :: "engineLib \<Rightarrow> compiledCommandRule \<Rightarrow> string list \<Rightarrow> bool" where
  "args_match lib r args =
     (cc_argsRegexes r = [] \<or>
      list_ex (\<lambda>re. lib_regexMatch lib re (join_with CHR '' '' args)) (cc_argsRegexes r))"

definition command_matched :: "engineLib \<Rightarrow> compiledCommandRule \<Rightarrow> string \<Rightarrow> bool" where
  "command_matched lib r command =
     (let cmdLower = ToLower command;
          cmdBase = ToLower (path_Base command);
          cmdBaseNorm = TrimSuffix cmdBase ''.real''
      in no_patterns r \<or>
         cmdLower \<in> set (cc_fullPaths r) \<or>
         list_ex (\<lambda>g. glob_Match lib g cmdLower \<or> glob_Match lib g command) (cc_pathGlobs r) \<or>
         cmdBase \<in> set (cc_basenames r) \<or>
         (cmdBaseNorm \<noteq> cmdBase \<and> cmdBaseNorm \<in> set (cc_basenames r)) \<or>
         list_ex (\<lambda>g. glob_Match lib g cmdBase \<or> glob_Match lib g (path_Base command) \<or>
                      (cmdBaseNorm \<noteq> cmdBase \<and> glob_Match lib g cmdBaseNorm)) (cc_basenameGlobs r))"

definition command_rule_matches :: "engineLib \<Rightarrow> string \<Rightarrow> string list \<Rightarrow> compiledCommandRule \<Rightarrow> bool" where
  "command_rule_matches lib command args r =
     (MatchesDepth (cmr_Context (cc_rule r)) 0 \<and> command_matched lib r command \<and> args_match lib r args)"

definition command_decision :: "engineLib \<Rightarrow> engine \<Rightarrow> compiledCommandRule \<Rightarrow> policyDecision" where
  "command_decision lib e r =
     (wrapDecision lib e (cmr_Decision (cc_rule r)) (cmr_Name (cc_rule r))
        (text_message (cmr_Message (cc_rule r))) (cmr_RedirectTo (cc_rule r)))
       \<lparr>d_EnvPolicy := MergeEnvPolicy (p_EnvPolicy (en_policy e)) (Some (cc_rule r))\<rparr>"

definition matchCommandRules :: "engineLib \<Rightarrow> engine \<Rightarrow> string \<Rightarrow> string list \<Rightarrow> policyDecision \<times> bool" where
  "matchCommandRules lib e command args =
     (case List.find (command_rule_matches lib command args) (en_commandRules e) of
        Some r \<Rightarrow> (command_decision lib e r, True)
      | None \<Rightarrow>
          ((wrapDecision lib e DecisionDeny ''default-deny-commands'' [] None)
             \<lparr>d_EnvPolicy := MergeEnvPolicy (p_EnvPolicy (en_policy e)) None\<rparr>, False))"

datatype shellCOpaqueMode = ShellCOpaqueEnforce | ShellCOpaqueAllow | ShellCOpaqueDeny

definition ParseShellCOpaqueMode :: "string \<Rightarrow> shellCOpaqueMode" where
  "ParseShellCOpaqueMode s =
     (if s = ''allow'' then ShellCOpaqueAllow
      else if s = ''deny'' then ShellCOpaqueDeny
      else ShellCOpaqueEnforce)"

definition maxShellCDeriveDepth :: nat where
  "maxShellCDeriveDepth = 4"

text \<open>Replacing the result by a stricter decision; audit and approve keep the shell's environment policy.\<close>

definition keep_env :: "policyDecision \<Rightarrow> policyDecision \<Rightarrow> policyDecision" where
  "keep_env result dec =
     (if d_PolicyDecision dec = DecisionAudit \<or> d_PolicyDecision dec = DecisionApprove then
        dec\<lparr>d_EnvPolicy := d_EnvPolicy result\<rparr>
      else dec)"

definition stricter :: "policyDecision \<Rightarrow> policyDecision \<Rightarrow> bool" where
  "stricter dec result =
     (decisionStrictness (d_PolicyDecision dec) > decisionStrictness (d_PolicyDecision result))"

definition bypass_deny :: "engineLib \<Rightarrow> engine \<Rightarrow> string \<Rightarrow> string list \<Rightarrow> policyDecision" where
  "bypass_deny lib e cur curArgs =
     wrapDecision lib e DecisionDeny ''shellc-wrapper-bypass''
       (case BypassReason cur curArgs of
          Some reason \<Rightarrow> [Txt ''bypass attempt: '', WhyBypass reason]
        | None \<Rightarrow> [Txt ''bypass attempt via unparsable shell-c wrapper'']) None"

definition opaque_deny :: "engineLib \<Rightarrow> engine \<Rightarrow> string \<Rightarrow> string list \<Rightarrow> policyDecision" where
  "opaque_deny lib e cur curArgs =
     wrapDecision lib e DecisionDeny ''shellc-opaque-script''
       ((case OpaqueReason cur curArgs of
           Some reason \<Rightarrow> [Txt ''opaque shell script: contains '', WhyOpaque reason]
         | None \<Rightarrow> [Txt ''opaque shell script cannot be safely parsed for policy pre-check'']) @
        [Txt ''; set sandbox.seccomp.shellc.opaque=allow to run it without per-exec enforcement, or enable execve enforcement (seccomp.execve + unix_sockets, or ptrace) to run it under policy'']) None"

text \<open>The branch taken when the current invocation does not derive to a command.\<close>

definition underivable :: "engineLib \<Rightarrow> engine \<Rightarrow> bool \<Rightarrow> shellCOpaqueMode \<Rightarrow> string \<Rightarrow> string list \<Rightarrow> policyDecision \<Rightarrow> policyDecision" where
  "underivable lib e execveActive opaqueMode cur curArgs result =
     (if IsShellCBypassAttempt cur curArgs then
        let dec = bypass_deny lib e cur curArgs
        in if stricter dec result then keep_env result dec else result
      else if en_hasRestrictiveCommandRule e \<and> IsOpaqueShellC cur curArgs then
        (case opaqueMode of
           ShellCOpaqueAllow \<Rightarrow> result
         | _ \<Rightarrow>
             if opaqueMode = ShellCOpaqueDeny \<or> \<not> execveActive then
               let dec = opaque_deny lib e cur curArgs
               in if stricter dec result then dec else result
             else result)
      else result)"

text \<open>
  The derivation loop with the number of turns left; it returns the result and the invocation it
  ended at.
\<close>

fun derive_loop :: "engineLib \<Rightarrow> engine \<Rightarrow> bool \<Rightarrow> shellCOpaqueMode \<Rightarrow> nat \<Rightarrow> string \<Rightarrow> string list \<Rightarrow> policyDecision \<Rightarrow>
    policyDecision \<times> string \<times> string list" where
  "derive_loop lib e execveActive opaqueMode 0 cur curArgs result = (result, cur, curArgs)"
| "derive_loop lib e execveActive opaqueMode (Suc n) cur curArgs result =
     (case DerivePolicyTarget cur curArgs of
        None \<Rightarrow> (underivable lib e execveActive opaqueMode cur curArgs result, cur, curArgs)
      | Some (cur', curArgs') \<Rightarrow>
          (case matchCommandRules lib e cur' curArgs' of (dec, matched) \<Rightarrow>
             if \<not> matched then derive_loop lib e execveActive opaqueMode n cur' curArgs' result
             else if stricter dec result then
               derive_loop lib e execveActive opaqueMode n cur' curArgs' (keep_env result dec)
             else derive_loop lib e execveActive opaqueMode n cur' curArgs' result))"

definition checkCommand :: "engineLib \<Rightarrow> engine \<Rightarrow> string \<Rightarrow> string list \<Rightarrow> bool \<Rightarrow> shellCOpaqueMode \<Rightarrow> policyDecision" where
  "checkCommand lib e command args execveActive opaqueMode =
     (case derive_loop lib e execveActive opaqueMode maxShellCDeriveDepth command args
             (fst (matchCommandRules lib e command args)) of (result, cur, curArgs) \<Rightarrow>
        if DerivePolicyTarget cur curArgs \<noteq> None then
          let denyDec = wrapDecision lib e DecisionDeny ''shellc-depth-exceeded''
                          [Txt ''nested shell-c chain exceeded max derivation depth''] None
          in if stricter denyDec result then denyDec else result
        else result)"

definition CheckCommand :: "engineLib \<Rightarrow> engine \<Rightarrow> string \<Rightarrow> string list \<Rightarrow> policyDecision" where
  "CheckCommand lib e command args = checkCommand lib e command args False ShellCOpaqueEnforce"

definition CheckCommandWithExecve ::
    "engineLib \<Rightarrow> engine \<Rightarrow> string \<Rightarrow> string list \<Rightarrow> bool \<Rightarrow> shellCOpaqueMode \<Rightarrow> policyDecision" where
  "CheckCommandWithExecve lib e command args execveActive opaqueMode =
     checkCommand lib e command args execveActive opaqueMode"

text \<open>A deferred \<open>dec.Tor = &tv\<close>.\<close>

definition attach_tor :: "torVerdict option \<Rightarrow> policyDecision \<Rightarrow> policyDecision" where
  "attach_tor v dec = (case v of None \<Rightarrow> dec | Some tv \<Rightarrow> dec\<lparr>d_Tor := Some tv\<rparr>)"

definition tor_deny :: "engineLib \<Rightarrow> engine \<Rightarrow> torVerdict \<Rightarrow> policyDecision" where
  "tor_deny lib e v =
     (wrapDecision lib e DecisionDeny (''tor:'' @ tv_Vector v) [Txt ''blocked by Tor policy''] None)
       \<lparr>d_Tor := Some v\<rparr>"

definition execve_matched :: "engineLib \<Rightarrow> compiledCommandRule \<Rightarrow> string \<Rightarrow> bool" where
  "execve_matched lib r filename =
     (let cmdLower = ToLower filename;
          cmdBase = ToLower (path_Base filename)
      in no_patterns r \<or>
         cmdLower \<in> set (cc_fullPaths r) \<or>
         list_ex (\<lambda>g. glob_Match lib g cmdLower \<or> glob_Match lib g filename) (cc_pathGlobs r) \<or>
         cmdBase \<in> set (cc_basenames r) \<or>
         list_ex (\<lambda>g. glob_Match lib g cmdBase \<or> glob_Match lib g (path_Base filename)) (cc_basenameGlobs r))"

definition execve_rule_matches :: "engineLib \<Rightarrow> string \<Rightarrow> string list \<Rightarrow> int \<Rightarrow> compiledCommandRule \<Rightarrow> bool" where
  "execve_rule_matches lib filename argv depth r =
     (MatchesDepth (cmr_Context (cc_rule r)) depth \<and> execve_matched lib r filename \<and> args_match lib r argv)"

definition CheckExecve :: "engineLib \<Rightarrow> engine \<Rightarrow> string \<Rightarrow> string list \<Rightarrow> int \<Rightarrow> policyDecision" where
  "CheckExecve lib e filename argv depth =
     (let verdict = (case en_torChecker e of None \<Rightarrow> None | Some tc \<Rightarrow> tor_EvalExecve tc filename argv);
          rules =
            (case List.find (execve_rule_matches lib filename argv depth) (en_commandRules e) of
               Some r \<Rightarrow> command_decision lib e r
             | None \<Rightarrow>
                 (wrapDecision lib e DecisionDeny ''default-deny-execve'' [] None)
                   \<lparr>d_EnvPolicy := MergeEnvPolicy (p_EnvPolicy (en_policy e)) None\<rparr>)
      in case verdict of
           Some v \<Rightarrow>
             if tv_Decision v = DecisionDeny then
               (tor_deny lib e v)\<lparr>d_EnvPolicy := MergeEnvPolicy (p_EnvPolicy (en_policy e)) None\<rparr>
             else attach_tor (Some v) rules
         | None \<Rightarrow> rules)"

section \<open>Files and redirected paths\<close>

definition isReadOperation :: "string \<Rightarrow> bool" where
  "isReadOperation op =
     (op \<in> {''open'', ''read'', ''stat'', ''list'', ''readlink'', ''access''})"

definition redirect_path :: "string \<Rightarrow> string \<Rightarrow> bool \<Rightarrow> string" where
  "redirect_path originalPath targetBase preserveTree =
     (if preserveTree then path_Join targetBase originalPath
      else path_Join targetBase (path_Base originalPath))"

definition computeFileRedirect :: "string \<Rightarrow> string \<Rightarrow> string \<Rightarrow> bool \<Rightarrow> string \<Rightarrow> fileRedirectInfo" where
  "computeFileRedirect originalPath operation targetBase preserveTree msg =
     \<lparr>fri_OriginalPath = originalPath,
      fri_RedirectPath = redirect_path originalPath targetBase preserveTree,
      fri_Operation = operation, fri_Reason = msg\<rparr>"

definition file_rule_matches :: "engineLib \<Rightarrow> string \<Rightarrow> string \<Rightarrow> compiledFileRule \<Rightarrow> bool" where
  "file_rule_matches lib p operation r =
     (matchOp (cf_ops r) operation \<and> list_ex (\<lambda>g. glob_Match lib g p) (cf_globs r))"

definition CheckFile :: "engineLib \<Rightarrow> engine \<Rightarrow> string \<Rightarrow> string \<Rightarrow> policyDecision" where
  "CheckFile lib e p operation0 =
     (let operation = ToLower operation0
      in case List.find (file_rule_matches lib p operation) (en_fileRules e) of
           Some r \<Rightarrow>
             let dec = wrapDecision lib e (fr_Decision (cf_rule r)) (fr_Name (cf_rule r))
                         (text_message (fr_Message (cf_rule r))) None
             in if cf_redirectTo r \<noteq> [] \<and> d_PolicyDecision dec = DecisionRedirect then
                  dec\<lparr>d_FileRedirect := Some (computeFileRedirect p operation (cf_redirectTo r)
                        (cf_preserveTree r) (fr_Message (cf_rule r)))\<rparr>
                else dec
         | None \<Rightarrow>
             if isReadOperation operation \<and> lib_getenv lib ''AEP_CAW_DEFAULT_ALLOW_READS'' = ''1'' then
               wrapDecision lib e DecisionAllow ''default-allow-reads'' [] None
             else wrapDecision lib e DecisionDeny ''default-deny-files'' [] None)"

definition HasSoftDeleteFileRule :: "engine \<Rightarrow> bool" where
  "HasSoftDeleteFileRule e =
     list_ex (\<lambda>r. ToLower (fr_Decision (cf_rule r)) = DecisionSoftDelete) (en_fileRules e)"

record pathRedirectRule =
  prr_Name :: string
  prr_SourcePattern :: string
  prr_TargetBase :: string
  prr_Operations :: "string list"
  prr_PreserveTree :: bool

record compiledRedirectRule =
  crr_rule :: pathRedirectRule
  crr_glob :: globPattern
  crr_ops :: "string list"

definition NewPathRedirector :: "engineLib \<Rightarrow> pathRedirectRule list \<Rightarrow> string + compiledRedirectRule list" where
  "NewPathRedirector lib rules =
     map_result
       (\<lambda>r. case glob_Compile lib (prr_SourcePattern r) ''/'' of
          None \<Rightarrow> Inl (prr_SourcePattern r)
        | Some g \<Rightarrow> Inr \<lparr>crr_rule = r, crr_glob = g, crr_ops = map ToLower (prr_Operations r)\<rparr>)
       rules"

definition redirect_rule_matches :: "engineLib \<Rightarrow> string \<Rightarrow> string \<Rightarrow> compiledRedirectRule \<Rightarrow> bool" where
  "redirect_rule_matches lib path operation r =
     (matchOp (crr_ops r) operation \<and> glob_Match lib (crr_glob r) path)"

definition redirector_Redirect :: "engineLib \<Rightarrow> compiledRedirectRule list \<Rightarrow> string \<Rightarrow> string \<Rightarrow> string \<times> bool" where
  "redirector_Redirect lib rules path operation =
     (case List.find (redirect_rule_matches lib path (ToLower operation)) rules of
        Some r \<Rightarrow> (redirect_path path (prr_TargetBase (crr_rule r)) (prr_PreserveTree (crr_rule r)), True)
      | None \<Rightarrow> (path, False))"

definition RedirectWithInfo :: "engineLib \<Rightarrow> compiledRedirectRule list \<Rightarrow> string \<Rightarrow> string \<Rightarrow> fileRedirectInfo option" where
  "RedirectWithInfo lib rules path operation =
     map_option
       (\<lambda>r. computeFileRedirect path (ToLower operation) (prr_TargetBase (crr_rule r))
              (prr_PreserveTree (crr_rule r)) (prr_Name (crr_rule r)))
       (List.find (redirect_rule_matches lib path (ToLower operation)) rules)"

section \<open>Sockets and the registry\<close>

definition CheckUnixSocket :: "engineLib \<Rightarrow> engine \<Rightarrow> string \<Rightarrow> string \<Rightarrow> policyDecision" where
  "CheckUnixSocket lib e path operation0 =
     (let operation = ToLower (TrimSpace operation0)
      in case List.find (\<lambda>r. matchOp (cu_ops r) operation \<and>
                list_ex (\<lambda>g. glob_Match lib g path) (cu_paths r)) (en_unixRules e) of
           Some r \<Rightarrow>
             wrapDecision lib e (usr_Decision (cu_rule r)) (usr_Name (cu_rule r))
               (text_message (usr_Message (cu_rule r))) None
         | None \<Rightarrow> wrapDecision lib e DecisionDeny ''default-deny-unix'' [] None)"

definition registry_rule_matches :: "engineLib \<Rightarrow> string \<Rightarrow> string \<Rightarrow> compiledRegistryRule \<Rightarrow> bool" where
  "registry_rule_matches lib path operation r =
     (matchOp (cg_ops r) operation \<and>
      list_ex (\<lambda>g. glob_Match lib g path \<or> glob_Match lib g (ToUpper path)) (cg_globs r))"

definition CheckRegistry :: "engineLib \<Rightarrow> engine \<Rightarrow> string \<Rightarrow> string \<Rightarrow> policyDecision" where
  "CheckRegistry lib e path operation =
     (case List.find (registry_rule_matches lib path (ToLower operation)) (en_registryRules e) of
        Some r \<Rightarrow>
          wrapDecision lib e (rgr_Decision (cg_rule r)) (rgr_Name (cg_rule r))
            (text_message (rgr_Message (cg_rule r))) None
      | None \<Rightarrow> wrapDecision lib e DecisionDeny ''default-deny-registry'' [] None)"

section \<open>Environment variables (\<open>CheckEnv\<close>)\<close>

definition envPatternSpecificity :: "string \<Rightarrow> int" where
  "envPatternSpecificity pat =
     (if pat = [] then -1
      else if pat = ''*'' \<or> pat = ''**'' then 0
      else
        let wild = int (length (filter (\<lambda>c. c = CHR ''*'' \<or> c = CHR ''?'') pat));
            lit = int (length (filter (\<lambda>r. r \<noteq> 0x2A \<and> r \<noteq> 0x3F) (runes pat)))
        in if wild = 0 then 100000 + lit else 1000 + lit * 10 - wild)"

record envHit =
  eh_allow :: bool
  eh_matchedBy :: string
  eh_pattern :: string
  eh_spec :: int

record envDecision =
  ed_Allowed :: bool
  ed_MatchedBy :: string
  ed_Pattern :: string

definition env_hits :: "engineLib \<Rightarrow> bool \<Rightarrow> string \<Rightarrow> string list \<Rightarrow> globPattern list \<Rightarrow> string \<Rightarrow> envHit list" where
  "env_hits lib allow by pats globs name =
     map (\<lambda>(i, g). let pat = (if i < length pats then pats ! i else [])
                   in \<lparr>eh_allow = allow, eh_matchedBy = by, eh_pattern = pat,
                       eh_spec = envPatternSpecificity pat\<rparr>)
       (filter (\<lambda>(i, g). glob_Match lib g name) (enumerate 0 globs))"

definition looks_secret :: "string \<Rightarrow> bool" where
  "looks_secret name =
     (let upper = ToUpper name
      in has_substring upper ''TOKEN'' \<or> has_substring upper ''SECRET'' \<or>
         has_substring upper ''PASSWORD'' \<or> has_substring upper ''API_KEY'' \<or>
         has_substring upper ''APIKEY'' \<or> HasSuffix upper ''_KEY'')"

definition secret_hit :: "string \<Rightarrow> envHit" where
  "secret_hit name =
     \<lparr>eh_allow = False, eh_matchedBy = ''default-secret-deny'', eh_pattern = name,
      eh_spec = envPatternSpecificity name\<rparr>"

text \<open>The selection loop: a higher score wins, at an equal score a deny replaces an allow.\<close>

definition better_hit :: "envHit \<Rightarrow> envHit \<Rightarrow> envHit" where
  "better_hit best h =
     (if eh_spec h > eh_spec best then h
      else if eh_spec h = eh_spec best \<and> \<not> eh_allow h \<and> eh_allow best then h
      else best)"

definition all_env_hits :: "engineLib \<Rightarrow> engine \<Rightarrow> string \<Rightarrow> envHit list" where
  "all_env_hits lib e name =
     (let pol = p_EnvPolicy (en_policy e);
          hits = env_hits lib False ''deny'' (ep_Deny pol) (en_envDeny e) name @
                 env_hits lib True ''allow'' (ep_Allow pol) (en_envAllow e) name;
          hasExplicitDeny = list_ex (\<lambda>h. \<not> eh_allow h \<and> eh_matchedBy h = ''deny'') hits
      in if hasExplicitDeny then hits
         else hits @ (if looks_secret name then [secret_hit name] else []) @
              (if en_envAllow e = [] then
                 map secret_hit (filter (\<lambda>secret. name = secret) defaultSecretDeny)
               else []))"

definition CheckEnv :: "engineLib \<Rightarrow> engine \<Rightarrow> string \<Rightarrow> envDecision" where
  "CheckEnv lib e name =
     (case all_env_hits lib e name of
        [] \<Rightarrow>
          if en_envAllow e = [] then
            \<lparr>ed_Allowed = True, ed_MatchedBy = ''default-allow'', ed_Pattern = []\<rparr>
          else \<lparr>ed_Allowed = False, ed_MatchedBy = ''default-deny'', ed_Pattern = []\<rparr>
      | h # hs \<Rightarrow>
          let best = foldl better_hit h hs
          in \<lparr>ed_Allowed = eh_allow best, ed_MatchedBy = eh_matchedBy best, ed_Pattern = eh_pattern best\<rparr>)"

definition GetEnvInject :: "engine \<Rightarrow> string \<rightharpoonup> string" where
  "GetEnvInject e = p_EnvInject (en_policy e)"

section \<open>The network\<close>

definition network_rule_matches :: "engineLib \<Rightarrow> string \<Rightarrow> ip list \<Rightarrow> int \<Rightarrow> compiledNetworkRule \<Rightarrow> bool" where
  "network_rule_matches lib domain ips port r =
     ((cn_ports r = [] \<or> port \<in> set (cn_ports r)) \<and>
      (cn_domainGlobs r = [] \<or> list_ex (\<lambda>g. domain \<noteq> [] \<and> glob_Match lib g domain) (cn_domainGlobs r)) \<and>
      (cn_cidrs r = [] \<or> list_ex (\<lambda>i. list_ex (\<lambda>n. Contains n i) (cn_cidrs r)) ips))"

definition add_threat :: "string \<Rightarrow> threatCheckResult option \<Rightarrow> policyDecision \<Rightarrow> policyDecision" where
  "add_threat action t dec =
     (case t of
        None \<Rightarrow> dec
      | Some r \<Rightarrow> dec\<lparr>d_ThreatFeed := tcr_FeedName r, d_ThreatMatch := tcr_MatchedDomain r,
                       d_ThreatAction := action\<rparr>)"

text \<open>The threat-feed check and the rules, after the Tor checks, for a normalized domain.\<close>

definition network_rules :: "engineLib \<Rightarrow> engine \<Rightarrow> string \<Rightarrow> ip list \<Rightarrow> int \<Rightarrow> policyDecision" where
  "network_rules lib e domain ips port =
     (let threat = (case en_threatStore e of
                      None \<Rightarrow> None | Some check \<Rightarrow> if domain \<noteq> [] then check domain else None)
      in if threat \<noteq> None \<and> en_threatAction e = DecisionDeny then
           let feed = tcr_FeedName (the threat)
           in add_threat DecisionDeny threat
                (wrapDecision lib e DecisionDeny (''threat-feed:'' @ feed)
                   [Txt (''domain matched threat feed: '' @ feed @ '' (matched: '' @
                         tcr_MatchedDomain (the threat) @ '')'')] None)
         else add_threat DecisionAudit threat
           (case List.find (network_rule_matches lib domain ips port) (en_networkRules e) of
              Some r \<Rightarrow>
                wrapDecision lib e (nwr_Decision (cn_rule r)) (nwr_Name (cn_rule r))
                  (text_message (nwr_Message (cn_rule r))) None
            | None \<Rightarrow> wrapDecision lib e DecisionDeny ''default-deny-network'' [] None))"

definition CheckNetworkIP :: "engineLib \<Rightarrow> engine \<Rightarrow> string \<Rightarrow> ip option \<Rightarrow> int \<Rightarrow> policyDecision" where
  "CheckNetworkIP lib e domain0 ip port =
     (let verdict = (case en_torChecker e of None \<Rightarrow> None | Some tc \<Rightarrow> tor_EvalConnect tc ip port)
      in case verdict of
           Some v \<Rightarrow>
             if tv_Decision v = DecisionDeny then tor_deny lib e v
             else attach_tor (Some v)
               (let domain = ToLower (TrimSpace domain0);
                    ips = (case ip of Some i \<Rightarrow> [i]
                           | None \<Rightarrow> (case ParseIP domain of Some i \<Rightarrow> [i] | None \<Rightarrow> []))
                in network_rules lib e domain ips port)
         | None \<Rightarrow>
             let domain = ToLower (TrimSpace domain0);
                 ips = (case ip of Some i \<Rightarrow> [i]
                        | None \<Rightarrow> (case ParseIP domain of Some i \<Rightarrow> [i] | None \<Rightarrow> []))
             in network_rules lib e domain ips port)"

text \<open>
  \<open>CheckNetworkCtx\<close>. The resolver runs at most once, when the first rule with CIDRs is reached; as a
  function of the domain its result does not depend on when. The deferred assignments of the Tor
  verdict run in reverse order, so the verdict on the name is the one that stays.
\<close>

definition CheckNetworkCtx :: "engineLib \<Rightarrow> engine \<Rightarrow> string \<Rightarrow> int \<Rightarrow> policyDecision" where
  "CheckNetworkCtx lib e domain0 port =
     (let domain = ToLower (TrimSpace domain0);
          onion = (case en_torChecker e of None \<Rightarrow> None | Some tc \<Rightarrow> tor_EvalOnionName tc domain);
          connect = (case (en_torChecker e, ParseIP domain) of
                       (Some tc, Some i) \<Rightarrow> tor_EvalConnect tc (Some i) port
                     | _ \<Rightarrow> None);
          ips = (case ParseIP domain of
                   Some i \<Rightarrow> [i]
                 | None \<Rightarrow> if domain = [] then [] else lib_lookupIP lib domain)
      in case onion of
           Some v \<Rightarrow>
             if tv_Decision v = DecisionDeny then tor_deny lib e v
             else attach_tor (Some v)
               (case connect of
                  Some c \<Rightarrow>
                    if tv_Decision c = DecisionDeny then tor_deny lib e c
                    else attach_tor (Some c) (network_rules lib e domain ips port)
                | None \<Rightarrow> network_rules lib e domain ips port)
         | None \<Rightarrow>
             (case connect of
                Some c \<Rightarrow>
                  if tv_Decision c = DecisionDeny then tor_deny lib e c
                  else attach_tor (Some c) (network_rules lib e domain ips port)
              | None \<Rightarrow> network_rules lib e domain ips port))"

section \<open>Redirected names and connections\<close>

definition or_default :: "string \<Rightarrow> string \<Rightarrow> string" where
  "or_default s d = (if s = [] then d else s)"

record dnsRedirectResult =
  drr_Rule :: string
  drr_ResolveTo :: string
  drr_Visibility :: string
  drr_OnFailure :: string

text \<open>\<^const>\<open>None\<close> is a result with \<open>Matched: false\<close>.\<close>

definition EvaluateDnsRedirect :: "engineLib \<Rightarrow> engine \<Rightarrow> string \<Rightarrow> dnsRedirectResult option" where
  "EvaluateDnsRedirect lib e hostname0 =
     (let hostname = TrimSuffix (ToLower (TrimSpace hostname0)) ''.''
      in map_option
           (\<lambda>r. \<lparr>drr_Rule = dns_Name r, drr_ResolveTo = dns_ResolveTo r,
                 drr_Visibility = or_default (dns_Visibility r) ''audit_only'',
                 drr_OnFailure = or_default (dns_OnFailure r) ''fail_closed''\<rparr>)
           (List.find (\<lambda>r. lib_regexMatch lib (dns_Match r) hostname) (en_dnsRedirectRules e)))"

record connectRedirectResult =
  cor_Rule :: string
  cor_RedirectTo :: string
  cor_RedirectToUnix :: string
  cor_TLSMode :: string
  cor_SNI :: string
  cor_Visibility :: string
  cor_Message :: string
  cor_OnFailure :: string

definition normalize_host_port :: "string \<Rightarrow> string" where
  "normalize_host_port hostPort0 =
     (let hostPort = TrimSpace hostPort0
      in case SplitHostPort hostPort of
           Some (host, port) \<Rightarrow> JoinHostPort (TrimSuffix (ToLower host) ''.'') port
         | None \<Rightarrow> TrimSuffix (ToLower hostPort) ''.'')"

definition EvaluateConnectRedirect :: "engineLib \<Rightarrow> engine \<Rightarrow> string \<Rightarrow> connectRedirectResult option" where
  "EvaluateConnectRedirect lib e hostPort =
     map_option
       (\<lambda>r. \<lparr>cor_Rule = con_Name r, cor_RedirectTo = con_RedirectTo r,
             cor_RedirectToUnix = con_RedirectToUnix r,
             cor_TLSMode = (case con_TLS r of None \<Rightarrow> ''passthrough''
                            | Some t \<Rightarrow> or_default (tls_Mode t) ''passthrough''),
             cor_SNI = (case con_TLS r of None \<Rightarrow> [] | Some t \<Rightarrow> tls_SNI t),
             cor_Visibility = or_default (con_Visibility r) ''audit_only'',
             cor_Message = con_Message r,
             cor_OnFailure = or_default (con_OnFailure r) ''fail_closed''\<rparr>)
       (List.find (\<lambda>r. lib_regexMatch lib (con_Match r) (normalize_host_port hostPort))
          (en_connectRedirectRules e))"

section \<open>HTTP services (\<open>http_service_check.go\<close>, \<open>http_service_score.go\<close>)\<close>

record globScore =
  gs_literal :: nat
  gs_wild :: nat
  gs_prefix :: nat
  gs_segs :: nat

fun score_bytes :: "globScore \<Rightarrow> string \<Rightarrow> globScore" where
  "score_bytes s [] = s"
| "score_bytes s (c # cs) =
     score_bytes
       (if c = CHR ''*'' \<or> c = CHR ''?'' \<or> c = CHR ''['' \<or> c = CHR ''{'' then s\<lparr>gs_wild := gs_wild s + 1\<rparr>
        else if c = CHR ''/'' then s\<lparr>gs_segs := gs_segs s + 1\<rparr>
        else s\<lparr>gs_literal := gs_literal s + 1\<rparr>) cs"

definition scoreGlob :: "string \<Rightarrow> globScore" where
  "scoreGlob pat =
     (let s = \<lparr>gs_literal = 0, gs_wild = 0, gs_prefix = 0, gs_segs = 0\<rparr>
      in if pat = [] then s else score_bytes (s\<lparr>gs_segs := 1\<rparr>) pat)"

definition globScore_less :: "globScore \<Rightarrow> globScore \<Rightarrow> bool" where
  "globScore_less a b =
     (if gs_prefix a < gs_prefix b then True
      else if gs_prefix b < gs_prefix a then False
      else if gs_wild b < gs_wild a then True
      else if gs_wild a < gs_wild b then False
      else if gs_literal a < gs_literal b then True
      else if gs_literal b < gs_literal a then False
      else gs_segs a < gs_segs b)"

definition methodMatchesHTTPRule :: "compiledHTTPServiceRule \<Rightarrow> string \<Rightarrow> bool" where
  "methodMatchesHTTPRule r m =
     (if ch_methods r = [] then True
      else if ''*'' \<in> set (ch_methods r) then True
      else m \<in> set (ch_methods r))"

text \<open>The hits of one rule: one for each of its paths that matches.\<close>

definition http_hits :: "engineLib \<Rightarrow> engine \<Rightarrow> string \<Rightarrow> string \<Rightarrow> compiledHTTPServiceRule \<Rightarrow> (policyDecision \<times> globScore) list" where
  "http_hits lib e m matchPath r =
     (if \<not> methodMatchesHTTPRule r m then []
      else
        map (\<lambda>(i, g).
               let pat = (if i < length (hsr_Paths (ch_rule r)) then hsr_Paths (ch_rule r) ! i else matchPath);
                   s = scoreGlob pat;
                   s = (if ch_methods r \<noteq> [] \<and> ''*'' \<notin> set (ch_methods r) then s\<lparr>gs_prefix := gs_prefix s + 1\<rparr>
                        else s)
               in (wrapDecision lib e (hsr_Decision (ch_rule r)) (hsr_Name (ch_rule r))
                     (text_message (hsr_Message (ch_rule r))) None, s))
          (filter (\<lambda>(i, g). glob_Match lib g matchPath) (enumerate 0 (ch_paths r))))"

definition pickMostSpecific :: "(policyDecision \<times> globScore) list \<Rightarrow> policyDecision \<Rightarrow> policyDecision" where
  "pickMostSpecific hits fallback =
     (case hits of
        [] \<Rightarrow> fallback
      | h # hs \<Rightarrow> fst (foldl (\<lambda>best h. if globScore_less (snd best) (snd h) then h else best) h hs))"

definition CheckHTTPService :: "engineLib \<Rightarrow> engine \<Rightarrow> string \<Rightarrow> string \<Rightarrow> string \<Rightarrow> policyDecision" where
  "CheckHTTPService lib e service m0 reqPath0 =
     (case en_httpServices e (ToLower service) of
        None \<Rightarrow> wrapDecision lib e DecisionDeny [] [Txt ''unknown http_service''] None
      | Some cs \<Rightarrow>
          let reqPath = (if reqPath0 = [] then ''/'' else reqPath0)
          in if has_substring reqPath ''//'' then
               wrapDecision lib e DecisionDeny [] [Txt ''path traversal rejected''] None
             else if list_ex (\<lambda>seg. seg = ''.'' \<or> seg = ''..'')
                       (split_on CHR ''/'' (TrimPrefix reqPath ''/'')) then
               wrapDecision lib e DecisionDeny [] [Txt ''path traversal rejected''] None
             else
               let matchPath = (if length reqPath > 1 \<and> HasSuffix reqPath ''/'' then TrimSuffix reqPath ''/''
                                else reqPath);
                   hits = concat (map (http_hits lib e (ToUpper m0) matchPath) (cs_rules cs));
                   fallback = (if cs_defaultDecision cs = DecisionAllow then
                                 wrapDecision lib e DecisionAllow ''default'' [] None
                               else wrapDecision lib e DecisionDeny ''default'' [Txt ''no rule matched''] None)
               in if hits \<noteq> [] then pickMostSpecific hits fallback else fallback)"

text \<open>A bare IPv6 literal is put into brackets before the lookup.\<close>

definition host_lookup :: "engine \<Rightarrow> string \<Rightarrow> compiledHTTPService option" where
  "host_lookup e host0 =
     (let host = (if \<not> HasPrefix host0 ''['' \<and> colons host0 \<ge> 2 then ''['' @ host0 @ '']'' else host0)
      in case canonicalizeHost host of
           None \<Rightarrow> None
         | Some h \<Rightarrow> en_httpServiceHosts e h)"

definition DeclaredHTTPServiceHost :: "engine \<Rightarrow> string \<Rightarrow> (string \<times> string) option" where
  "DeclaredHTTPServiceHost e host =
     map_option (\<lambda>cs. (hs_Name (cs_cfg cs), cs_envVar cs)) (host_lookup e host)"

definition DeclaredHTTPServiceAllowsDirect :: "engine \<Rightarrow> string \<Rightarrow> bool" where
  "DeclaredHTTPServiceAllowsDirect e host =
     (case host_lookup e host of None \<Rightarrow> False | Some cs \<Rightarrow> hs_AllowDirect (cs_cfg cs))"

end
