(* ===== verification/Command_Safety.thy ===== *)
theory Command_Safety
  imports Policy_Check
begin

text \<open>
  Correctness of the command check: how the rule of a shell combines with the rules of the commands
  a \<open>-c\<close> script derives to, and what the checks of commands promise when no rule matches.
\<close>

section \<open>Verdicts\<close>

lemma mk_decision_simps [simp]:
  "d_PolicyDecision (mk_decision p q r m) = p" "d_EffectiveDecision (mk_decision p q r m) = q"
  "d_Rule (mk_decision p q r m) = r" "d_Message (mk_decision p q r m) = m"
  by (simp_all add: mk_decision_def)

lemma lower_literals [simp]:
  "ToLower ''deny'' = ''deny''" "ToLower ''allow'' = ''allow''"
  by (simp_all add: ToLower_def lower_ascii_def)

lemma wrap_deny [simp]:
  "d_PolicyDecision (wrapDecision lib e ''deny'' rule msg red) = ''deny''"
  "d_EffectiveDecision (wrapDecision lib e ''deny'' rule msg red) = ''deny''"
  "d_Rule (wrapDecision lib e ''deny'' rule msg red) = rule"
  by (simp_all add: wrapDecision_def Let_def)

lemma wrap_allow [simp]:
  "d_PolicyDecision (wrapDecision lib e ''allow'' rule msg red) = ''allow''"
  "d_EffectiveDecision (wrapDecision lib e ''allow'' rule msg red) = ''allow''"
  "d_Rule (wrapDecision lib e ''allow'' rule msg red) = rule"
  by (simp_all add: wrapDecision_def Let_def)

text \<open>A decision a caller may act on: what the policy denies is denied.\<close>

definition honest :: "policyDecision \<Rightarrow> bool" where
  "honest d \<longleftrightarrow> (d_PolicyDecision d = DecisionDeny \<longrightarrow> d_EffectiveDecision d = DecisionDeny)"

lemma honest_wrap [simp]: "honest (wrapDecision lib e dec rule msg red)"
  by (auto simp: honest_def wrapDecision_def Let_def)

lemma honest_env [simp]: "honest (d\<lparr>d_EnvPolicy := x\<rparr>) = honest d"
  by (simp add: honest_def)

lemma honest_match [simp]: "honest (fst (matchCommandRules lib e c as))"
  by (simp add: matchCommandRules_def command_decision_def split: option.splits)

lemma strictness_deny: "decisionStrictness d = 4 \<longleftrightarrow> d = DecisionDeny"
  by (simp add: decisionStrictness_def)

lemma strictness_le_4: "decisionStrictness d \<le> 4"
  by (simp add: decisionStrictness_def)

abbreviation strictness :: "policyDecision \<Rightarrow> nat" where
  "strictness d \<equiv> decisionStrictness (d_PolicyDecision d)"

lemma keep_env_simps [simp]:
  "d_PolicyDecision (keep_env r d) = d_PolicyDecision d"
  "d_EffectiveDecision (keep_env r d) = d_EffectiveDecision d"
  "d_Rule (keep_env r d) = d_Rule d" "honest (keep_env r d) = honest d"
  by (simp_all add: keep_env_def honest_def)

lemma deny_parts [simp]:
  "d_PolicyDecision (bypass_deny lib e c as) = ''deny''" "honest (bypass_deny lib e c as)"
  "d_PolicyDecision (opaque_deny lib e c as) = ''deny''" "honest (opaque_deny lib e c as)"
  by (simp_all add: bypass_deny_def opaque_deny_def)

section \<open>The derivation chain\<close>

fun derived :: "nat \<Rightarrow> string \<times> string list \<Rightarrow> (string \<times> string list) option" where
  "derived 0 x = Some x"
| "derived (Suc n) x = (case DerivePolicyTarget (fst x) (snd x) of None \<Rightarrow> None | Some y \<Rightarrow> derived n y)"

text \<open>Invocations the pre-check refuses whatever the rules say.\<close>

definition refused :: "engine \<Rightarrow> bool \<Rightarrow> shellCOpaqueMode \<Rightarrow> string \<times> string list \<Rightarrow> bool" where
  "refused e active mode x \<longleftrightarrow>
     DerivePolicyTarget (fst x) (snd x) = None \<and>
     (IsShellCBypassAttempt (fst x) (snd x) \<or>
      (en_hasRestrictiveCommandRule e \<and> IsOpaqueShellC (fst x) (snd x) \<and>
       (mode = ShellCOpaqueDeny \<or> (mode = ShellCOpaqueEnforce \<and> \<not> active))))"

lemma underivable_props:
  "strictness result \<le> strictness (underivable lib e active mode c as result)"
  "honest result \<Longrightarrow> honest (underivable lib e active mode c as result)"
  "refused e active mode (c, as) \<Longrightarrow> strictness (underivable lib e active mode c as result) = 4"
  using strictness_le_4 [of "d_PolicyDecision result"]
  by (auto simp: underivable_def stricter_def refused_def Let_def strictness_deny decisionStrictness_def
      split: shellCOpaqueMode.splits)

text \<open>
  What \<open>n\<close> turns of the loop from the invocation \<open>x\<close> guarantee of the decision \<open>r\<close> they end with: it
  is no weaker than the one they started with, than any rule that matches an invocation derived in
  between, and it is a denial if one of these invocations is refused.
\<close>

definition covers :: "engineLib \<Rightarrow> engine \<Rightarrow> bool \<Rightarrow> shellCOpaqueMode \<Rightarrow> nat \<Rightarrow> string \<times> string list \<Rightarrow> policyDecision \<Rightarrow> bool" where
  "covers lib e active mode n x r \<longleftrightarrow>
     (\<forall>k y. 0 < k \<longrightarrow> k \<le> n \<longrightarrow> derived k x = Some y \<longrightarrow> snd (matchCommandRules lib e (fst y) (snd y)) \<longrightarrow>
        strictness (fst (matchCommandRules lib e (fst y) (snd y))) \<le> strictness r) \<and>
     (\<forall>k y. k < n \<longrightarrow> derived k x = Some y \<longrightarrow> refused e active mode y \<longrightarrow> strictness r = 4)"

lemma covers_0: "covers lib e active mode 0 x r"
  by (simp add: covers_def)

lemma covers_end:
  assumes "DerivePolicyTarget (fst x) (snd x) = None"
    and "refused e active mode x \<longrightarrow> strictness r = 4"
  shows "covers lib e active mode (Suc n) x r"
proof -
  have "derived k x = Some y \<Longrightarrow> k = 0 \<and> y = x" for k y
    using assms(1) by (cases k) auto
  then show ?thesis
    using assms(2) by (auto simp: covers_def)
qed

lemma covers_step:
  assumes x: "DerivePolicyTarget (fst x) (snd x) = Some y"
    and y: "covers lib e active mode n y r"
    and m: "snd (matchCommandRules lib e (fst y) (snd y)) \<longrightarrow>
      strictness (fst (matchCommandRules lib e (fst y) (snd y))) \<le> strictness r"
  shows "covers lib e active mode (Suc n) x r"
  unfolding covers_def
proof (intro conjI allI impI)
  fix k z
  assume "0 < k" "k \<le> Suc n" "derived k x = Some z" and z: "snd (matchCommandRules lib e (fst z) (snd z))"
  then obtain j where "k = Suc j" "j \<le> n" "derived j y = Some z"
    using x by (cases k) auto
  then show "strictness (fst (matchCommandRules lib e (fst z) (snd z))) \<le> strictness r"
    using y m z by (cases "j = 0") (auto simp: covers_def)
next
  fix k z
  assume "k < Suc n" "derived k x = Some z" and z: "refused e active mode z"
  then obtain j where "k = Suc j" "j < n" "derived j y = Some z"
    using x by (cases k) (auto simp: refused_def)
  then show "strictness r = 4"
    using y z unfolding covers_def by blast
qed

lemma derive_loop_props:
  assumes "derive_loop lib e active mode n c as result = (r, y)" and "honest result"
  shows "strictness result \<le> strictness r \<and> honest r \<and> covers lib e active mode n (c, as) r \<and>
    (\<forall>z. derived n (c, as) = Some z \<longrightarrow> y = z)"
  using assms
proof (induction n arbitrary: c as result)
  case 0
  then show ?case by (simp add: covers_0)
next
  case (Suc n)
  show ?case
  proof (cases "DerivePolicyTarget c as")
    case None
    with Suc.prems have "r = underivable lib e active mode c as result"
      by simp
    with None Suc.prems(2) show ?thesis
      using underivable_props [where result = result and lib = lib and e = e and active = active
          and mode = mode and c = c and as = as]
      by (auto intro: covers_end)
  next
    case (Some x)
    obtain dec matched where m: "matchCommandRules lib e (fst x) (snd x) = (dec, matched)"
      by (metis surj_pair)
    define res where "res = (if matched \<and> stricter dec result then keep_env result dec else result)"
    have "honest dec"
      using honest_match [of lib e "fst x" "snd x"] m by simp
    then have h: "honest res"
      using Suc.prems(2) by (simp add: res_def)
    have "derive_loop lib e active mode n (fst x) (snd x) res = (r, y)"
      using Suc.prems(1) Some m by (cases x) (auto simp: res_def split: if_splits)
    from Suc.IH [OF this h] have ih: "strictness res \<le> strictness r" "honest r"
      "covers lib e active mode n x r" "\<forall>z. derived n x = Some z \<longrightarrow> y = z"
      by simp_all
    have le: "strictness result \<le> strictness res" "matched \<longrightarrow> strictness dec \<le> strictness res"
      by (auto simp: res_def stricter_def)
    have "covers lib e active mode (Suc n) (c, as) r"
      using Some ih(1,3) le(2) m by (intro covers_step [of _ x]) auto
    with Some ih le(1) show ?thesis
      by simp
  qed
qed


section \<open>A sample policy\<close>

definition sample_command_rule :: "string \<Rightarrow> string \<Rightarrow> commandRule" where
  "sample_command_rule command dec =
     \<lparr>cmr_Name = dec @ ''-'' @ command, cmr_Description = [], cmr_Commands = [command],
      cmr_ArgsPatterns = [], cmr_Decision = dec, cmr_Message = [], cmr_RedirectTo = None,
      cmr_Context = DefaultContext, cmr_EnvAllow = [], cmr_EnvDeny = [], cmr_EnvMaxBytes = 0,
      cmr_EnvMaxKeys = 0, cmr_EnvBlockIteration = None\<rparr>"

definition empty_policy :: policy where
  "empty_policy =
     \<lparr>p_FileRules = [], p_NetworkRules = [], p_CommandRules = [], p_UnixRules = [],
      p_RegistryRules = [], p_SignalRules = [], p_DnsRedirectRules = [], p_ConnectRedirectRules = [],
      p_EnvPolicy = \<lparr>ep_Allow = [], ep_Deny = [], ep_MaxBytes = 0, ep_MaxKeys = 0, ep_BlockIteration = False\<rparr>,
      p_EnvInject = Map.empty, p_HTTPServices = []\<rparr>"

text \<open>Shells are allowed, \<open>shutdown\<close> is denied.\<close>

definition shell_policy :: policy where
  "shell_policy =
     empty_policy\<lparr>p_CommandRules := [sample_command_rule ''shutdown'' DecisionDeny, sample_command_rule ''sh'' DecisionAllow]\<rparr>"

definition shell_engine :: engine where
  "shell_engine = projr (NewEngine plain_lib shell_policy True True)"

lemma shell_engine_compiles: "NewEngine plain_lib shell_policy True True = Inr shell_engine"
proof -
  have "isl (NewEngine plain_lib shell_policy True True) = False"
    by code_simp
  then show ?thesis
    by (simp add: shell_engine_def)
qed

text \<open>
  \<open>nested n s\<close> runs the script \<open>s\<close> through \<open>n\<close> shells; the script is quoted for the shell that reads it.
\<close>

definition shell_quote :: "string \<Rightarrow> string" where
  "shell_quote s =
     [squote] @ concat (map (\<lambda>c. if c = squote then [squote, double_quote, squote, double_quote, squote] else [c]) s) @
     [squote]"

fun nested :: "nat \<Rightarrow> string \<Rightarrow> string" where
  "nested 0 s = s"
| "nested (Suc n) s = ''sh -c '' @ shell_quote (nested n s)"


text \<open>The depth of the pre-check is bounded, and the last level is not inspected: a script the check
  would refuse as opaque is let through when it sits behind exactly four shells. With a policy that
  allows \<open>sh\<close> and denies \<open>shutdown\<close>, and no enforcement at execution time, the script
  \<open>true; shutdown\<close> is denied behind three shells or fewer and behind five, but allowed behind four.
\<close>

theorem opaque_script_behind_four_shells:
  "map (\<lambda>n. d_EffectiveDecision
          (CheckCommand plain_lib shell_engine ''sh'' [''-c'', nested n ''true; shutdown''])) [0, 1, 2, 3, 4, 5] =
     [DecisionDeny, DecisionDeny, DecisionDeny, DecisionDeny, DecisionAllow, DecisionDeny] \<and>
   IsOpaqueShellC ''sh'' [''-c'', nested 0 ''true; shutdown''] \<and>
   derived 4 (''sh'', [''-c'', nested 4 ''true; shutdown'']) = Some (''sh'', [''-c'', nested 0 ''true; shutdown''])"
  by code_simp

end
