(* ===== verification/Rule_Safety.thy ===== *)
theory Rule_Safety
  imports Command_Safety
begin

text \<open>
  What the checks over lists of rules have in common, as a locale: the first matching rule decides,
  and nothing is permitted without one. It is interpreted for executions, sockets, registry keys,
  files and network destinations. The registry check is shown to follow the priorities.
\<close>

section \<open>The contract of a rule list\<close>

definition decides :: "('r \<Rightarrow> bool) \<Rightarrow> 'r list \<Rightarrow> 'r \<Rightarrow> bool" where
  "decides matches rs r \<longleftrightarrow> (\<exists>ys zs. rs = ys @ r # zs \<and> matches r \<and> (\<forall>y \<in> set ys. \<not> matches y))"

lemma find_decides: "List.find matches rs = Some r \<longleftrightarrow> decides matches rs r"
proof
  show "List.find matches rs = Some r \<Longrightarrow> decides matches rs r"
    unfolding decides_def using find_Some_split by metis
  assume "decides matches rs r"
  then obtain ys zs where "rs = ys @ r # zs" "matches r" "\<forall>y \<in> set ys. \<not> matches y"
    by (auto simp: decides_def)
  then show "List.find matches rs = Some r"
    by (induction ys arbitrary: rs) auto
qed

text \<open>When the decision of a rule lets an operation go ahead.\<close>

definition permits :: "engineLib \<Rightarrow> engine \<Rightarrow> string \<Rightarrow> bool" where
  "permits lib e dec \<longleftrightarrow>
     ToLower dec \<in> {DecisionAllow, DecisionAudit, DecisionSoftDelete} \<or>
     (ToLower dec = DecisionRedirect \<and> \<not> en_enforceRedirects e) \<or>
     (ToLower dec = DecisionApprove \<and> \<not> en_enforceApprovals e \<and>
      lib_getenv lib ''AEP_CAW_APPROVE_SHADOW_ALLOW'' = ''1'')"

lemma wrap_permits:
  "d_EffectiveDecision (wrapDecision lib e dec rule msg red) = DecisionAllow \<longleftrightarrow> permits lib e dec"
  by (auto simp: wrapDecision_def permits_def Let_def)

locale rule_list =
  fixes lib :: engineLib
    and e :: engine
    and check :: "'r list \<Rightarrow> policyDecision"
    and matches :: "'r \<Rightarrow> bool"
    and verdict :: "'r \<Rightarrow> policyDecision"
    and dec_of :: "'r \<Rightarrow> string"
    and otherwise :: policyDecision
  assumes check_first:
      "check rs = (case List.find matches rs of Some r \<Rightarrow> verdict r | None \<Rightarrow> otherwise)"
    and verdict_permits: "d_EffectiveDecision (verdict r) = DecisionAllow \<Longrightarrow> permits lib e (dec_of r)"
    and otherwise_denies: "d_EffectiveDecision otherwise = DecisionDeny"
begin

lemma check_decides: "decides matches rs r \<Longrightarrow> check rs = verdict r"
  by (simp add: check_first find_decides [THEN iffD2])

lemma check_later_irrelevant:
  "matches r \<Longrightarrow> \<forall>y \<in> set ys. \<not> matches y \<Longrightarrow> check (ys @ r # zs) = check (ys @ [r])"
  using check_decides [of "ys @ r # zs" r] check_decides [of "ys @ [r]" r]
  unfolding decides_def by (metis append_Cons append_Nil)

lemma check_no_match: "\<forall>r \<in> set rs. \<not> matches r \<Longrightarrow> d_EffectiveDecision (check rs) = DecisionDeny"
  using otherwise_denies by (simp add: check_first find_None_all [THEN iffD2])

lemma check_allow:
  assumes "d_EffectiveDecision (check rs) = DecisionAllow"
  shows "\<exists>r. decides matches rs r \<and> permits lib e (dec_of r)"
proof (cases "List.find matches rs")
  case None
  with assms otherwise_denies show ?thesis
    by (simp add: check_first)
next
  case (Some r)
  with assms verdict_permits show ?thesis
    by (auto simp: check_first find_decides)
qed

end

section \<open>The checks\<close>

definition execve_rules :: "engineLib \<Rightarrow> engine \<Rightarrow> string \<Rightarrow> string list \<Rightarrow> int \<Rightarrow> compiledCommandRule list \<Rightarrow> policyDecision" where
  "execve_rules lib e filename argv depth rs =
     CheckExecve lib (e\<lparr>en_commandRules := rs, en_torChecker := None\<rparr>) filename argv depth"

definition command_rules :: "engineLib \<Rightarrow> engine \<Rightarrow> string \<Rightarrow> string list \<Rightarrow> compiledCommandRule list \<Rightarrow> policyDecision" where
  "command_rules lib e command args rs =
     fst (matchCommandRules lib (e\<lparr>en_commandRules := rs\<rparr>) command args)"

definition unix_rules :: "engineLib \<Rightarrow> engine \<Rightarrow> string \<Rightarrow> string \<Rightarrow> compiledUnixRule list \<Rightarrow> policyDecision" where
  "unix_rules lib e path operation rs = CheckUnixSocket lib (e\<lparr>en_unixRules := rs\<rparr>) path operation"

definition registry_rules :: "engineLib \<Rightarrow> engine \<Rightarrow> string \<Rightarrow> string \<Rightarrow> compiledRegistryRule list \<Rightarrow> policyDecision" where
  "registry_rules lib e path operation rs =
     CheckRegistry lib (e\<lparr>en_registryRules := rs\<rparr>) path operation"

definition net_rules :: "engineLib \<Rightarrow> engine \<Rightarrow> string \<Rightarrow> ip list \<Rightarrow> int \<Rightarrow> compiledNetworkRule list \<Rightarrow> policyDecision" where
  "net_rules lib e domain ips port rs =
     network_rules lib (e\<lparr>en_networkRules := rs, en_threatStore := None\<rparr>) domain ips port"

lemma wrap_engine [simp]:
  "wrapDecision lib (e\<lparr>en_commandRules := cs\<rparr>) = wrapDecision lib e"
  "wrapDecision lib (e\<lparr>en_unixRules := us\<rparr>) = wrapDecision lib e"
  "wrapDecision lib (e\<lparr>en_registryRules := gs\<rparr>) = wrapDecision lib e"
  "wrapDecision lib (e\<lparr>en_networkRules := ns\<rparr>) = wrapDecision lib e"
  "wrapDecision lib (e\<lparr>en_torChecker := t\<rparr>) = wrapDecision lib e"
  "wrapDecision lib (e\<lparr>en_threatStore := th\<rparr>) = wrapDecision lib e"
  by (intro ext, simp add: wrapDecision_def Let_def)+

lemma command_decision_engine [simp]:
  "command_decision lib (e\<lparr>en_commandRules := cs\<rparr>) = command_decision lib e"
  "command_decision lib (e\<lparr>en_torChecker := t\<rparr>) = command_decision lib e"
  by (intro ext, simp add: command_decision_def)+

lemma command_decision_permits:
  "d_EffectiveDecision (command_decision lib e r) = DecisionAllow \<longleftrightarrow> permits lib e (cmr_Decision (cc_rule r))"
  by (simp add: command_decision_def wrap_permits)

interpretation execve: rule_list lib e "execve_rules lib e filename argv depth"
  "execve_rule_matches lib filename argv depth" "command_decision lib e" "\<lambda>r. cmr_Decision (cc_rule r)"
  "(wrapDecision lib e DecisionDeny ''default-deny-execve'' [] None)
     \<lparr>d_EnvPolicy := MergeEnvPolicy (p_EnvPolicy (en_policy e)) None\<rparr>"
  for lib e filename argv depth
  by unfold_locales
    (simp_all add: execve_rules_def CheckExecve_def command_decision_permits split: option.split)

interpretation command: rule_list lib e "command_rules lib e command args"
  "command_rule_matches lib command args" "command_decision lib e" "\<lambda>r. cmr_Decision (cc_rule r)"
  "(wrapDecision lib e DecisionDeny ''default-deny-commands'' [] None)
     \<lparr>d_EnvPolicy := MergeEnvPolicy (p_EnvPolicy (en_policy e)) None\<rparr>"
  for lib e command args
  by unfold_locales
    (simp_all add: command_rules_def matchCommandRules_def command_decision_permits split: option.split)

interpretation socket: rule_list lib e "unix_rules lib e path operation"
  "\<lambda>r. matchOp (cu_ops r) (ToLower (TrimSpace operation)) \<and> list_ex (\<lambda>g. glob_Match lib g path) (cu_paths r)"
  "\<lambda>r. wrapDecision lib e (usr_Decision (cu_rule r)) (usr_Name (cu_rule r)) (text_message (usr_Message (cu_rule r))) None"
  "\<lambda>r. usr_Decision (cu_rule r)" "wrapDecision lib e DecisionDeny ''default-deny-unix'' [] None"
  for lib e path operation
  by unfold_locales (simp_all add: unix_rules_def CheckUnixSocket_def wrap_permits split: option.split)

interpretation registry: rule_list lib e "registry_rules lib e path operation"
  "registry_rule_matches lib path (ToLower operation)"
  "\<lambda>r. wrapDecision lib e (rgr_Decision (cg_rule r)) (rgr_Name (cg_rule r)) (text_message (rgr_Message (cg_rule r))) None"
  "\<lambda>r. rgr_Decision (cg_rule r)" "wrapDecision lib e DecisionDeny ''default-deny-registry'' [] None"
  for lib e path operation
  by unfold_locales (simp_all add: registry_rules_def CheckRegistry_def wrap_permits split: option.split)

interpretation network: rule_list lib e "net_rules lib e domain ips port"
  "network_rule_matches lib domain ips port"
  "\<lambda>r. wrapDecision lib e (nwr_Decision (cn_rule r)) (nwr_Name (cn_rule r)) (text_message (nwr_Message (cn_rule r))) None"
  "\<lambda>r. nwr_Decision (cn_rule r)" "wrapDecision lib e DecisionDeny ''default-deny-network'' [] None"
  for lib e domain ips port
  by unfold_locales
    (simp_all add: net_rules_def network_rules_def add_threat_def wrap_permits split: option.split)

section \<open>Nothing is allowed without a rule\<close>

lemma CheckExecve_allow:
  assumes "d_EffectiveDecision (CheckExecve lib e f argv depth) = DecisionAllow"
  shows "d_EffectiveDecision (execve_rules lib e f argv depth (en_commandRules e)) = DecisionAllow"
  using assms
  by (auto simp: CheckExecve_def execve_rules_def attach_tor_def tor_deny_def Let_def
      split: option.splits if_splits)

lemma network_rules_allow:
  assumes "d_EffectiveDecision (network_rules lib e domain ips port) = DecisionAllow"
  shows "d_EffectiveDecision (net_rules lib e domain ips port (en_networkRules e)) = DecisionAllow"
  using assms
  by (auto simp: network_rules_def net_rules_def add_threat_def Let_def split: option.splits if_splits)

definition resolved_ips :: "engineLib \<Rightarrow> string \<Rightarrow> ip list" where
  "resolved_ips lib domain =
     (case ParseIP domain of
        Some i \<Rightarrow> [i]
      | None \<Rightarrow> if domain = [] then [] else lib_lookupIP lib domain)"

lemma CheckNetworkCtx_allow:
  assumes "d_EffectiveDecision (CheckNetworkCtx lib e domain port) = DecisionAllow"
  shows "d_EffectiveDecision (network_rules lib e (ToLower (TrimSpace domain))
     (resolved_ips lib (ToLower (TrimSpace domain))) port) = DecisionAllow"
  using assms unfolding CheckNetworkCtx_def Let_def resolved_ips_def [symmetric]
  by (auto simp: attach_tor_def tor_deny_def split: option.splits if_splits)



section \<open>Priorities of registry rules\<close>

text \<open>What \<open>sort.Slice\<close> promises: a permutation, in an order its callback does not contradict.\<close>

definition sorts_slices :: "engineLib \<Rightarrow> bool" where
  "sorts_slices lib \<longleftrightarrow>
     (\<forall>ps. mset (lib_sortOrder lib ps) = mset [0..<length ps] \<and>
           sorted_wrt (\<lambda>i j. ps ! j \<le> ps ! i) (lib_sortOrder lib ps))"

lemma sort_slice_props:
  assumes "sorts_slices lib"
  shows "mset (map (\<lambda>i. rs ! i) (lib_sortOrder lib (map key rs))) = mset rs"
    and "sorted_wrt (\<lambda>a b. key b \<le> key a) (map (\<lambda>i. rs ! i) (lib_sortOrder lib (map key rs)))"
proof -
  let ?is = "lib_sortOrder lib (map key rs)"
  have perm: "mset ?is = mset [0..<length rs]"
    and ord: "sorted_wrt (\<lambda>i j. map key rs ! j \<le> map key rs ! i) ?is"
    using assms unfolding sorts_slices_def by (metis length_map)+
  have "mset (map ((!) rs) ?is) = image_mset ((!) rs) (mset [0..<length rs])"
    unfolding mset_map perm ..
  also have "\<dots> = mset (map ((!) rs) [0..<length rs])"
    by (simp only: mset_map)
  finally show "mset (map (\<lambda>i. rs ! i) ?is) = mset rs"
    by (simp add: map_nth)
  have "i < length rs" if "i \<in> set ?is" for i
    using that mset_eq_setD [OF perm] by auto
  then have "sorted_wrt (\<lambda>i j. key (rs ! j) \<le> key (rs ! i)) ?is"
    using sorted_wrt_mono_rel [OF _ ord] by fastforce
  then show "sorted_wrt (\<lambda>a b. key b \<le> key a) (map (\<lambda>i. rs ! i) ?is)"
    by (simp add: sorted_wrt_map)
qed

lemma sort_registry_props:
  assumes "sorts_slices lib"
  shows "mset (sort_registry lib rs) = mset rs"
    and "sorted_wrt (\<lambda>a b. cg_priority b \<le> cg_priority a) (sort_registry lib rs)"
  unfolding sort_registry_def by (rule sort_slice_props [OF assms])+

lemma NewEngine_registry:
  "NewEngine lib p a r = Inr e \<Longrightarrow>
   \<exists>rs. map_result (compile_registry_rule lib) (p_RegistryRules p) = Inr rs \<and>
        en_registryRules e = sort_registry lib rs"
  by (cases "compileHTTPServices lib (p_HTTPServices p)")
    (auto simp: NewEngine_def bind_result_Inr_iff split: prod.splits)

text \<open>C39: Registry rules are evaluated by priority, wherever they stand in the policy and whichever of the
  permitted orders the sort leaves them in. If a rule of the policy matches, the decision is that of
  a matching rule of the highest priority among the matching ones; if none matches, the operation is
  denied.
\<close>

theorem CheckRegistry_by_priority:
  assumes "sorts_slices lib" and "NewEngine lib p enforceApprovals enforceRedirects = Inr e"
    and "map_result (compile_registry_rule lib) (p_RegistryRules p) = Inr rs"
  shows "(\<exists>r \<in> set rs. registry_rule_matches lib path (ToLower operation) r \<and>
        (\<forall>r' \<in> set rs. registry_rule_matches lib path (ToLower operation) r' \<longrightarrow>
           cg_priority r' \<le> cg_priority r) \<and>
        CheckRegistry lib e path operation =
          wrapDecision lib e (rgr_Decision (cg_rule r)) (rgr_Name (cg_rule r))
            (text_message (rgr_Message (cg_rule r))) None) \<or>
     (\<forall>r \<in> set rs. \<not> registry_rule_matches lib path (ToLower operation) r) \<and>
     d_EffectiveDecision (CheckRegistry lib e path operation) = DecisionDeny"
proof -
  let ?m = "registry_rule_matches lib path (ToLower operation)"
  have e: "en_registryRules e = sort_registry lib rs"
    using NewEngine_registry [OF assms(2)] assms(3) by auto
  note sorted = sort_registry_props [OF assms(1), of rs]
  have set: "set (en_registryRules e) = set rs"
    using mset_eq_setD [OF sorted(1)] by (simp add: e)
  show ?thesis
  proof (cases "List.find ?m (en_registryRules e)")
    case None
    then have "\<forall>r \<in> set rs. \<not> ?m r"
      using set by (simp add: find_None_all)
    with None show ?thesis
      by (simp add: CheckRegistry_def)
  next
    case (Some r)
    then obtain ys zs where *: "en_registryRules e = ys @ r # zs" "?m r" "\<forall>y \<in> set ys. \<not> ?m y"
      by (auto simp: find_decides decides_def)
    have "cg_priority r' \<le> cg_priority r" if "r' \<in> set rs" "?m r'" for r'
      using that * sorted(2) set by (auto simp: e sorted_wrt_append)
    moreover have "r \<in> set rs"
      using *(1) set by auto
    ultimately show ?thesis
      using Some *(2) by (auto simp: CheckRegistry_def)
  qed
qed

text \<open>A library that sorts, and a policy whose later rule has the higher priority.\<close>

definition sorting_lib :: engineLib where
  "sorting_lib = plain_lib\<lparr>lib_sortOrder := (\<lambda>ps. sort_key (\<lambda>i. - (ps ! i)) [0..<length ps])\<rparr>"

lemma sorting_lib_sorts: "sorts_slices sorting_lib"
  unfolding sorts_slices_def
proof (intro allI conjI)
  fix ps :: "int list"
  show "mset (lib_sortOrder sorting_lib ps) = mset [0..<length ps]"
    by (simp add: sorting_lib_def)
  have "sorted (map (\<lambda>i. - (ps ! i)) (lib_sortOrder sorting_lib ps))"
    by (simp add: sorting_lib_def)
  then show "sorted_wrt (\<lambda>i j. ps ! j \<le> ps ! i) (lib_sortOrder sorting_lib ps)"
    by (simp add: sorted_wrt_map)
qed

definition sample_registry_rule :: "string \<Rightarrow> string \<Rightarrow> int \<Rightarrow> registryRule" where
  "sample_registry_rule path dec prio =
     \<lparr>rgr_Name = dec, rgr_Description = [], rgr_Paths = [path], rgr_Operations = [], rgr_Decision = dec,
      rgr_Message = [], rgr_Timeout = 0, rgr_Priority = prio, rgr_CacheTTL = 0, rgr_Notify = False\<rparr>"

definition registry_policy :: policy where
  "registry_policy =
     empty_policy\<lparr>p_RegistryRules := [sample_registry_rule ''*'' DecisionAllow 1,
        sample_registry_rule ''HKLM'' DecisionDeny 5]\<rparr>"

definition registry_engine :: engine where
  "registry_engine = projr (NewEngine sorting_lib registry_policy True True)"

theorem CheckRegistry_by_priority_witness:
  "d_EffectiveDecision (CheckRegistry sorting_lib registry_engine ''HKLM'' ''write'') = DecisionDeny \<and>
   d_EffectiveDecision (CheckRegistry sorting_lib registry_engine ''HKCU'' ''write'') = DecisionAllow"
proof -
  let ?rs = "projr (map_result (compile_registry_rule sorting_lib) (p_RegistryRules registry_policy))"
  have e: "NewEngine sorting_lib registry_policy True True = Inr registry_engine"
  proof -
    have "isl (NewEngine sorting_lib registry_policy True True) = False" by code_simp
    then show ?thesis by (simp add: registry_engine_def)
  qed
  have rs: "map_result (compile_registry_rule sorting_lib) (p_RegistryRules registry_policy) = Inr ?rs"
  proof -
    have "isl (map_result (compile_registry_rule sorting_lib) (p_RegistryRules registry_policy)) = False"
      by code_simp
    then show ?thesis by simp
  qed
  have m: "list_all (\<lambda>r. registry_rule_matches sorting_lib ''HKLM'' (ToLower ''write'') r) ?rs"
    "list_ex (\<lambda>r. cg_priority r = 5) ?rs"
    "list_all (\<lambda>r. cg_priority r \<ge> 5 \<longrightarrow> rgr_Decision (cg_rule r) = DecisionDeny) ?rs"
    "list_ex (\<lambda>r. True) ?rs"
    by code_simp+
  have "d_EffectiveDecision (CheckRegistry sorting_lib registry_engine ''HKLM'' ''write'') = DecisionDeny"
    using CheckRegistry_by_priority [OF sorting_lib_sorts e rs, of "''HKLM''" "''write''"] m
    by (elim disjE bexE conjE) (auto simp: list_all_iff list_ex_iff)
  moreover have "d_EffectiveDecision (CheckRegistry sorting_lib registry_engine ''HKCU'' ''write'') = DecisionAllow"
    by code_simp
  ultimately show ?thesis by simp
qed

end
