(* ===== verification/Http_Safety.thy ===== *)
theory Http_Safety
  imports Rule_Safety "HOL-Library.Product_Lexorder"
begin

text \<open>
  HTTP services: which of several matching rules decides a request, and that the hosts declared for a
  service lead back to it.
\<close>

section \<open>The most specific rule\<close>

text \<open>The order of the scores as an order of keys: a bonus first, then fewer wildcards, more literals, more segments.\<close>

definition score_key :: "globScore \<Rightarrow> nat \<times> int \<times> nat \<times> nat" where
  "score_key s = (gs_prefix s, - int (gs_wild s), gs_literal s, gs_segs s)"

lemma globScore_less_key: "globScore_less a b \<longleftrightarrow> score_key a < score_key b"
  by (auto simp: globScore_less_def score_key_def)

lemma pick_keep_best:
  "pickMostSpecific (h # hs) fallback = fst (keep_best (\<lambda>h. score_key (snd h)) h hs)"
  by (simp add: pickMostSpecific_def keep_best_def globScore_less_key)

definition request_path :: "string \<Rightarrow> string" where
  "request_path p = (if p = [] then ''/'' else p)"

definition traverses :: "string \<Rightarrow> bool" where
  "traverses p \<longleftrightarrow>
     has_substring p ''//'' \<or>
     (\<exists>seg \<in> set (split_on CHR ''/'' (TrimPrefix p ''/'')). seg = ''.'' \<or> seg = ''..'')"

definition match_path :: "string \<Rightarrow> string" where
  "match_path p = (if length p > 1 \<and> HasSuffix p ''/'' then TrimSuffix p ''/'' else p)"

definition candidates :: "engineLib \<Rightarrow> engine \<Rightarrow> compiledHTTPService \<Rightarrow> string \<Rightarrow> string \<Rightarrow> (policyDecision \<times> globScore) list" where
  "candidates lib e cs m p = concat (map (http_hits lib e (ToUpper m) (match_path p)) (cs_rules cs))"

lemma CheckHTTPService_unfold:
  "CheckHTTPService lib e service m p0 =
     (case en_httpServices e (ToLower service) of
        None \<Rightarrow> wrapDecision lib e DecisionDeny [] [Txt ''unknown http_service''] None
      | Some cs \<Rightarrow>
          if traverses (request_path p0) then
            wrapDecision lib e DecisionDeny [] [Txt ''path traversal rejected''] None
          else
            pickMostSpecific (candidates lib e cs m (request_path p0))
              (if cs_defaultDecision cs = DecisionAllow then wrapDecision lib e DecisionAllow ''default'' [] None
               else wrapDecision lib e DecisionDeny ''default'' [Txt ''no rule matched''] None))"
  unfolding CheckHTTPService_def Let_def request_path_def [symmetric] match_path_def [symmetric]
    candidates_def [symmetric]
  by (auto simp: traverses_def list_ex_iff pickMostSpecific_def split: option.split list.split)


section \<open>Samples\<close>

definition sample_http_rule :: "string \<Rightarrow> string list \<Rightarrow> string \<Rightarrow> httpServiceRule" where
  "sample_http_rule dec methods path =
     \<lparr>hsr_Name = dec, hsr_Methods = methods, hsr_Paths = [path], hsr_Decision = dec, hsr_Message = []\<rparr>"

definition sample_service :: "httpServiceRule list \<Rightarrow> httpService" where
  "sample_service rules =
     \<lparr>hs_Name = ''GitHub'', hs_Upstream = ''api.github.com:443'', hs_ExposeAs = [],
      hs_Aliases = [''GitHub.com.''], hs_AllowDirect = False, hs_Default = [], hs_Rules = rules,
      hs_Secret = None\<rparr>"

definition http_policy :: "httpServiceRule list \<Rightarrow> policy" where
  "http_policy rules = empty_policy\<lparr>p_HTTPServices := [sample_service rules]\<rparr>"

definition http_engine :: "httpServiceRule list \<Rightarrow> engine" where
  "http_engine rules = projr (NewEngine plain_lib (http_policy rules) True True)"

text \<open>A denied path, and everything allowed: for any method, and for reading only.\<close>

definition deny_admin :: httpServiceRule where
  "deny_admin = sample_http_rule DecisionDeny [] ''/admin/keys''"


text \<open>Naming methods outranks naming a path. A rule that denies one path to every method loses against
  a rule that allows everything to the method at hand, although its path is the more specific one; the
  same rules without the method decide the other way.
\<close>

theorem method_outranks_path:
  "d_EffectiveDecision (CheckHTTPService plain_lib
     (http_engine [sample_http_rule DecisionAllow [''GET''] ''*'', deny_admin]) ''github'' ''GET'' ''/admin/keys'') =
     DecisionAllow \<and>
   d_EffectiveDecision (CheckHTTPService plain_lib
     (http_engine [sample_http_rule DecisionAllow [] ''*'', deny_admin]) ''github'' ''GET'' ''/admin/keys'') =
     DecisionDeny \<and>
   d_EffectiveDecision (CheckHTTPService plain_lib
     (http_engine [deny_admin, sample_http_rule DecisionAllow [''GET''] ''*'']) ''github'' ''GET'' ''/admin/keys'') =
     DecisionAllow"
  by code_simp

section \<open>Declared hosts\<close>

lemma add_aliases_props:
  assumes "add_aliases cs aliases byHost = Inr byHost'"
  shows "byHost \<subseteq>\<^sub>m byHost'"
    and "\<forall>alias \<in> set aliases. \<exists>h. canonicalizeHost alias = Some h \<and> byHost' h = Some cs"
proof -
  have "byHost \<subseteq>\<^sub>m byHost' \<and>
      (\<forall>alias \<in> set aliases. \<exists>h. canonicalizeHost alias = Some h \<and> byHost' h = Some cs)"
    using assms
  proof (induction aliases arbitrary: byHost)
    case (Cons al als)
    then obtain h where h: "canonicalizeHost al = Some h" "byHost h = None"
      "add_aliases cs als (byHost(h \<mapsto> cs)) = Inr byHost'"
      by (auto split: option.splits)
    from Cons.IH [OF h(3)] have "byHost(h \<mapsto> cs) \<subseteq>\<^sub>m byHost'"
      "\<forall>alias \<in> set als. \<exists>h. canonicalizeHost alias = Some h \<and> byHost' h = Some cs"
      by blast+
    moreover have "byHost \<subseteq>\<^sub>m byHost(h \<mapsto> cs)"
      using h(2) by (auto simp: map_le_def)
    moreover have "byHost' h = Some cs"
      using calculation(1) by (auto simp: map_le_def)
    ultimately show ?case
      using h(1) map_le_trans by auto
  qed simp
  then show "byHost \<subseteq>\<^sub>m byHost'"
    "\<forall>alias \<in> set aliases. \<exists>h. canonicalizeHost alias = Some h \<and> byHost' h = Some cs"
    by auto
qed

text \<open>A service that can be found under its name, its host and its aliases.\<close>

definition registered :: "engineLib \<Rightarrow> serviceMaps \<Rightarrow> httpService \<Rightarrow> bool" where
  "registered lib maps s \<longleftrightarrow>
     (\<exists>cs. compile_http_service lib s = Inr cs \<and> fst maps (ToLower (hs_Name s)) = Some cs \<and>
        snd maps (cs_upstreamHost cs) = Some cs \<and>
        (\<forall>alias \<in> set (hs_Aliases s). \<exists>h. canonicalizeHost alias = Some h \<and> snd maps h = Some cs))"

lemma registered_mono:
  "registered lib maps s \<Longrightarrow> fst maps \<subseteq>\<^sub>m fst maps' \<Longrightarrow> snd maps \<subseteq>\<^sub>m snd maps' \<Longrightarrow> registered lib maps' s"
  unfolding registered_def map_le_def by (metis domI)

lemma add_http_service_props:
  assumes "add_http_service lib s maps = Inr maps'"
  shows "registered lib maps' s \<and> fst maps \<subseteq>\<^sub>m fst maps' \<and> snd maps \<subseteq>\<^sub>m snd maps'"
proof -
  obtain byName byHost where maps: "maps = (byName, byHost)"
    by (metis surj_pair)
  from assms obtain cs byHost' where *: "compile_http_service lib s = Inr cs"
    "byName (ToLower (hs_Name s)) = None" "byHost (cs_upstreamHost cs) = None"
    "add_aliases cs (hs_Aliases s) (byHost(cs_upstreamHost cs \<mapsto> cs)) = Inr byHost'"
    "maps' = (byName(ToLower (hs_Name s) \<mapsto> cs), byHost')"
    by (auto simp: add_http_service_def maps bind_result_Inr_iff split: option.splits if_splits)
  note ext = add_aliases_props [OF *(4)]
  have "byHost \<subseteq>\<^sub>m byHost(cs_upstreamHost cs \<mapsto> cs)"
    using *(3) by (auto simp: map_le_def)
  then have "byHost \<subseteq>\<^sub>m byHost'"
    using ext(1) map_le_trans by blast
  moreover have "byHost' (cs_upstreamHost cs) = Some cs"
    using ext(1) by (auto simp: map_le_def)
  moreover have "byName \<subseteq>\<^sub>m byName(ToLower (hs_Name s) \<mapsto> cs)"
    using *(2) by (auto simp: map_le_def)
  ultimately show ?thesis
    using * ext(2) by (auto simp: registered_def maps)
qed

lemma add_http_services_props:
  "add_http_services lib ss maps = Inr maps' \<Longrightarrow>
   (\<forall>s \<in> set ss. registered lib maps' s) \<and> fst maps \<subseteq>\<^sub>m fst maps' \<and> snd maps \<subseteq>\<^sub>m snd maps'"
proof (induction ss arbitrary: maps)
  case (Cons s ss)
  then obtain maps1 where 1: "add_http_service lib s maps = Inr maps1"
    "add_http_services lib ss maps1 = Inr maps'"
    by (auto simp: bind_result_Inr_iff)
  with Cons.IH [OF 1(2)] add_http_service_props [OF 1(1)] show ?case
    using registered_mono map_le_trans by (metis set_ConsD)
qed simp

lemma NewEngine_http:
  "NewEngine lib p a r = Inr e \<Longrightarrow>
   compileHTTPServices lib (p_HTTPServices p) = Inr (en_httpServices e, en_httpServiceHosts e)"
  by (cases "compileHTTPServices lib (p_HTTPServices p)")
    (auto simp: NewEngine_def bind_result_Inr_iff split: prod.splits)

lemma compile_http_service_simps:
  "compile_http_service lib s = Inr cs \<Longrightarrow> cs_cfg cs = s \<and> cs_envVar cs = effective_env_var s"
  by (auto simp: compile_http_service_def bind_result_Inr_iff Let_def split: option.splits)

text \<open>Every declared host leads back to its service. In an engine built from a policy, a host that has
  the canonical form of an alias of a service (letter case, a trailing dot and a port do not matter)
  is recognised as belonging to that service, with the environment variable the gateway exposes, and
  direct access is reported as the service declares it.
\<close>

theorem declared_host_roundtrip:
  assumes "NewEngine lib p enforceApprovals enforceRedirects = Inr e"
    and "s \<in> set (p_HTTPServices p)" and "alias \<in> set (hs_Aliases s)"
    and "canonicalizeHost host = canonicalizeHost alias" and "HasPrefix host ''['' \<or> colons host < 2"
  shows "DeclaredHTTPServiceHost e host = Some (hs_Name s, effective_env_var s) \<and>
     DeclaredHTTPServiceAllowsDirect e host = hs_AllowDirect s"
proof -
  have "add_http_services lib (p_HTTPServices p) (Map.empty, Map.empty) =
      Inr (en_httpServices e, en_httpServiceHosts e)"
    using NewEngine_http [OF assms(1)] by (simp add: compileHTTPServices_def)
  then have "registered lib (en_httpServices e, en_httpServiceHosts e) s"
    using add_http_services_props assms(2) by blast
  then obtain cs h where "compile_http_service lib s = Inr cs" "canonicalizeHost alias = Some h"
    "en_httpServiceHosts e h = Some cs"
    using assms(3) by (auto simp: registered_def)
  moreover from this(2) have "canonicalizeHost host = Some h"
    using assms(4) by simp
  ultimately have "host_lookup e host = Some cs" "cs_cfg cs = s" "cs_envVar cs = effective_env_var s"
    using assms(5) compile_http_service_simps by (auto simp: host_lookup_def)
  then show ?thesis
    by (simp add: DeclaredHTTPServiceHost_def DeclaredHTTPServiceAllowsDirect_def)
qed

theorem declared_host_roundtrip_witness:
  "DeclaredHTTPServiceHost (http_engine [deny_admin]) ''GITHUB.com:8443'' = Some (''GitHub'', ''GITHUB_API_URL'')"
proof -
  have "isl (NewEngine plain_lib (http_policy [deny_admin]) True True) = False"
    by code_simp
  then have e: "NewEngine plain_lib (http_policy [deny_admin]) True True = Inr (http_engine [deny_admin])"
    by (simp add: http_engine_def)
  have s: "sample_service [deny_admin] \<in> set (p_HTTPServices (http_policy [deny_admin]))"
    "''GitHub.com.'' \<in> set (hs_Aliases (sample_service [deny_admin]))"
    by (simp_all add: http_policy_def sample_service_def)
  have h: "canonicalizeHost ''GITHUB.com:8443'' = canonicalizeHost ''GitHub.com.''"
    "HasPrefix ''GITHUB.com:8443'' ''['' \<or> colons ''GITHUB.com:8443'' < 2"
    and n: "hs_Name (sample_service [deny_admin]) = ''GitHub''"
    "effective_env_var (sample_service [deny_admin]) = ''GITHUB_API_URL''"
    by code_simp+
  show ?thesis
    using declared_host_roundtrip [OF e s h] n by simp
qed

end
