(* ===== verification/Path_Safety.thy ===== *)
theory Path_Safety
  imports Policy_Check
begin

text \<open>
  Where a redirected file ends up: below the target directory of the rule, unless the path that is
  redirected has an element \<open>..\<close>.
\<close>

section \<open>Elements of paths\<close>

definition visible :: "string list \<Rightarrow> string list" where
  "visible ps = filter (\<lambda>p. p \<noteq> [] \<and> p \<noteq> ''.'') ps"

definition path_elems :: "string \<Rightarrow> string list" where
  "path_elems p = clean_elems (p \<noteq> [] \<and> hd p = CHR ''/'') [] (split_on CHR ''/'' p)"

lemma split_on_append: "split_on c (a @ c # b) = split_on c a @ split_on c b"
proof (induction a)
  case (Cons x a)
  then show ?case
    by (cases "split_on c a") auto
qed simp

lemma clean_elems_append:
  "clean_elems rooted out (xs @ ys) = clean_elems rooted (rev (clean_elems rooted out xs)) ys"
  by (induction rooted out xs rule: clean_elems.induct) (auto split: list.splits)

lemma clean_elems_no_dotdot:
  "''..'' \<notin> set ys \<Longrightarrow> clean_elems rooted out ys = rev out @ visible ys"
  by (induction ys arbitrary: out) (auto simp: visible_def)

lemma path_Clean_elems:
  "p \<noteq> [] \<Longrightarrow> hd p = CHR ''/'' \<Longrightarrow> path_Clean p = CHR ''/'' # join_with CHR ''/'' (path_elems p)"
  by (simp add: path_Clean_def path_elems_def)

lemma path_Join_below:
  assumes "base \<noteq> []" and "hd base = CHR ''/''" and "''..'' \<notin> set (split_on CHR ''/'' q)"
  shows "path_Join base q =
     CHR ''/'' # join_with CHR ''/'' (path_elems base @ visible (split_on CHR ''/'' q))"
proof -
  have "path_Join base q = path_Clean (base @ CHR ''/'' # q)"
    using assms(1) by (simp add: path_Join_def)
  also have "\<dots> = CHR ''/'' # join_with CHR ''/'' (path_elems (base @ CHR ''/'' # q))"
    using assms(1,2) by (intro path_Clean_elems) auto
  also have "path_elems (base @ CHR ''/'' # q) = path_elems base @ visible (split_on CHR ''/'' q)"
    using assms by (simp add: path_elems_def split_on_append clean_elems_append clean_elems_no_dotdot)
  finally show ?thesis .
qed

text \<open>The base name of a path is one of its elements, or a lone slash or dot.\<close>

lemma split_on_no_occurrence: "c \<notin> set s \<Longrightarrow> split_on c s = [s]"
  by (induction s) auto

lemma after_last_elem: "after_last (\<lambda>x. x = c) s = last (split_on c s)"
proof (induction s rule: rev_induct)
  case Nil
  then show ?case by (simp add: after_last_def)
next
  case (snoc x s)
  have "split_on c (s @ [x]) = (if x = c then split_on c s @ [[]]
      else butlast (split_on c s) @ [last (split_on c s) @ [x]])"
  proof (induction s)
    case (Cons y s)
    then show ?case
      by (cases "split_on c s") auto
  qed simp
  with snoc show ?case
    by (auto simp: after_last_def)
qed

lemma split_strip_trailing:
  "set (split_on c (rev (dropWhile (\<lambda>x. x = c) (rev p)))) \<subseteq> set (split_on c p)"
proof (induction p rule: rev_induct)
  case (snoc x p)
  show ?case
  proof (cases "x = c")
    case True
    then have "split_on c (p @ [x]) = split_on c p @ [[]]"
      using split_on_append [of c p "[]"] by simp
    with True snoc show ?thesis by auto
  qed simp
qed simp

lemma path_Base_elem:
  "path_Base p \<in> set (split_on CHR ''/'' p) \<or> path_Base p = ''/'' \<or> path_Base p = ''.''"
proof -
  let ?t = "rev (dropWhile (\<lambda>c. c = CHR ''/'') (rev p))"
  have "last (split_on CHR ''/'' ?t) \<in> set (split_on CHR ''/'' p)"
    using split_strip_trailing [of "CHR ''/''" p] last_in_set [of "split_on CHR ''/'' ?t"] by auto
  then show ?thesis
    by (simp add: path_Base_def Let_def after_last_elem)
qed

lemma path_Base_no_dotdot:
  assumes "''..'' \<notin> set (split_on CHR ''/'' p)"
  shows "''..'' \<notin> set (split_on CHR ''/'' (path_Base p))"
proof -
  consider "path_Base p \<in> set (split_on CHR ''/'' p)" | "path_Base p = ''/''" | "path_Base p = ''.''"
    using path_Base_elem by blast
  then show ?thesis
  proof cases
    case 1
    then have "split_on CHR ''/'' (path_Base p) = [path_Base p]"
      by (intro split_on_no_occurrence split_on_no_sep)
    with 1 assms show ?thesis by auto
  qed simp_all
qed



end
