(* ===== verification/Process_Pattern.thy ===== *)
theory Process_Pattern
  imports Policy_Lib
begin

text \<open>
  \<open>internal/policy/pattern\<close>: the patterns that name processes. A pattern is a literal, a glob, a
  regular expression (\<open>re:\<close>) or a reference to a class of patterns (\<open>@\<close>); the class registry keeps
  compiled pattern sets in a cache. The numbers of the complexity check are 64-bit integers.
\<close>

section \<open>Compilation (\<open>pattern.go\<close>)\<close>

datatype procPattern = PatternLiteral string | PatternGlob globPattern | PatternRegex string | PatternClass string

record compileOptions =
  opt_MaxRegexComplexity :: int
  opt_CaseInsensitive :: bool

definition DefaultCompileOptions :: compileOptions where
  "DefaultCompileOptions = \<lparr>opt_MaxRegexComplexity = 1000, opt_CaseInsensitive = False\<rparr>"

datatype patternError =
    EmptyPattern | EmptyRegex | RegexParseFailed | RegexTooComplex int int | InvalidRegex
  | EmptyClassName | InvalidGlob | NoResolver string | UnknownClass string

definition wrap64 :: "int \<Rightarrow> int" where
  "wrap64 i = sint (word_of_int i :: 64 word)"

text \<open>Division by ten truncates towards zero.\<close>

definition tenth :: "int \<Rightarrow> int" where
  "tenth i = (if i < 0 then - ((- i) div 10) else i div 10)"

fun calculateComplexity :: "regexTree \<Rightarrow> int" where
  "calculateComplexity (RegexNode rop subs) =
     (let total = wrap64 (sum_list (map calculateComplexity subs))
      in case rop of
           OpStar \<Rightarrow> if total > 1 then wrap64 (total * 100) else wrap64 (total + 10)
         | OpPlus \<Rightarrow> if total > 1 then wrap64 (total * 100) else wrap64 (total + 10)
         | OpQuest \<Rightarrow> wrap64 (total + 2)
         | OpRepeat m \<Rightarrow> tenth (wrap64 (total * (if m < 0 then 100 else m)))
         | OpConcat \<Rightarrow> total
         | OpAlternate \<Rightarrow> wrap64 (total * 2)
         | OpCapture \<Rightarrow> wrap64 (total + 1)
         | OpOther \<Rightarrow> 1)"

definition checkRegexComplexity :: "engineLib \<Rightarrow> string \<Rightarrow> int \<Rightarrow> patternError + unit" where
  "checkRegexComplexity lib pat maxComplexity0 =
     (let maxComplexity = (if maxComplexity0 = 0 then 1000 else maxComplexity0)
      in case lib_regexParse lib pat of
           None \<Rightarrow> Inl RegexParseFailed
         | Some re \<Rightarrow>
             if calculateComplexity re > maxComplexity then
               Inl (RegexTooComplex (calculateComplexity re) maxComplexity)
             else Inr ())"

definition isGlobPattern :: "string \<Rightarrow> bool" where
  "isGlobPattern s = list_ex (\<lambda>c. c \<in> set ''*?['') s"

definition compileRegex :: "engineLib \<Rightarrow> string \<Rightarrow> compileOptions \<Rightarrow> patternError + procPattern" where
  "compileRegex lib s opts =
     (let regexStr = TrimPrefix s ''re:''
      in if regexStr = [] then Inl EmptyRegex
         else
           bind_result (checkRegexComplexity lib regexStr (opt_MaxRegexComplexity opts)) (\<lambda>_.
             let re = (if opt_CaseInsensitive opts then ''(?i)'' else []) @ regexStr
             in if lib_regexCompiles lib re then Inr (PatternRegex re) else Inl InvalidRegex))"

definition compileClass :: "string \<Rightarrow> patternError + procPattern" where
  "compileClass s =
     (let className = TrimPrefix s ''@''
      in if className = [] then Inl EmptyClassName else Inr (PatternClass className))"

definition compileGlob :: "engineLib \<Rightarrow> string \<Rightarrow> compileOptions \<Rightarrow> patternError + procPattern" where
  "compileGlob lib s opts =
     (case glob_Compile lib (if opt_CaseInsensitive opts then ToLower s else s) [] of
        None \<Rightarrow> Inl InvalidGlob
      | Some g \<Rightarrow> Inr (PatternGlob g))"

definition CompileWithOptions :: "engineLib \<Rightarrow> string \<Rightarrow> compileOptions \<Rightarrow> patternError + procPattern" where
  "CompileWithOptions lib s opts =
     (if s = [] then Inl EmptyPattern
      else if HasPrefix s ''re:'' then compileRegex lib s opts
      else if HasPrefix s ''@'' then compileClass s
      else if isGlobPattern s then compileGlob lib s opts
      else Inr (PatternLiteral s))"

definition pattern_Compile :: "engineLib \<Rightarrow> string \<Rightarrow> patternError + procPattern" where
  "pattern_Compile lib s = CompileWithOptions lib s DefaultCompileOptions"

section \<open>Matching\<close>

text \<open>\<open>Match\<close>: matching without a resolver, which fails on a class.\<close>

definition pattern_Match :: "engineLib \<Rightarrow> procPattern \<Rightarrow> string \<Rightarrow> bool" where
  "pattern_Match lib p s =
     (case p of
        PatternLiteral l \<Rightarrow> s = l
      | PatternGlob g \<Rightarrow> glob_Match lib g s
      | PatternRegex re \<Rightarrow> lib_regexMatch lib re s
      | PatternClass c \<Rightarrow> False)"

text \<open>The patterns of a class are matched without a resolver, so classes do not nest.\<close>

definition MatchWithResolver ::
    "engineLib \<Rightarrow> procPattern \<Rightarrow> string \<Rightarrow> (string \<Rightarrow> patternError + string list) option \<Rightarrow> patternError + bool" where
  "MatchWithResolver lib p s resolver =
     (case p of
        PatternClass c \<Rightarrow>
          (case resolver of
             None \<Rightarrow> Inl (NoResolver c)
           | Some f \<Rightarrow>
               bind_result (f c) (\<lambda>patterns.
                 Inr (list_ex (\<lambda>q. case pattern_Compile lib q of
                                     Inl _ \<Rightarrow> False
                                   | Inr sub \<Rightarrow> pattern_Match lib sub s) patterns)))
      | _ \<Rightarrow> Inr (pattern_Match lib p s))"

definition NewPatternSet :: "engineLib \<Rightarrow> string list \<Rightarrow> patternError + procPattern list" where
  "NewPatternSet lib patterns = map_result (pattern_Compile lib) patterns"

definition MatchAny :: "engineLib \<Rightarrow> procPattern list \<Rightarrow> string \<Rightarrow> bool" where
  "MatchAny lib ps s = list_ex (\<lambda>p. pattern_Match lib p s) ps"

fun MatchAnyWithResolver ::
    "engineLib \<Rightarrow> procPattern list \<Rightarrow> string \<Rightarrow> (string \<Rightarrow> patternError + string list) option \<Rightarrow> patternError + bool" where
  "MatchAnyWithResolver lib [] s resolver = Inr False"
| "MatchAnyWithResolver lib (p # ps) s resolver =
     bind_result (MatchWithResolver lib p s resolver) (\<lambda>b.
       if b then Inr True else MatchAnyWithResolver lib ps s resolver)"

section \<open>The class registry (\<open>builtin.go\<close>)\<close>

definition BuiltinClasses :: "(string \<times> string list) list" where
  "BuiltinClasses =
     [
      (''shell'',
       [''bash'', ''zsh'', ''fish'', ''sh'', ''dash'', ''ksh'', ''tcsh'', ''csh'', ''pwsh'',
        ''powershell'', ''nu'', ''nushell'', ''xonsh'', ''elvish'']),
      (''editor'',
       [''Cursor'', ''cursor'', ''Code'', ''code'', ''code-oss'', ''codium'', ''Atom'', ''atom'',
        ''Zed'', ''zed'', ''vim'', ''nvim'', ''neovim'', ''emacs'', ''emacsclient'', ''nano'', ''pico'',
        ''micro'', ''helix'', ''hx'', ''kakoune'', ''kak'', ''idea'', ''idea64'', ''intellij*'',
        ''goland'', ''goland64'', ''pycharm'', ''pycharm64'', ''webstorm'', ''webstorm64'', ''clion'',
        ''clion64'', ''rustrover'', ''rider'', ''rider64'', ''eclipse'', ''sublime_text'', ''subl'',
        ''TextMate'', ''notepad++'', ''gedit'', ''kate'', ''geany'', ''mousepad'']),
      (''agent'',
       [''claude-agent'', ''claude'', ''aider'', ''aider-chat'', ''copilot'', ''github-copilot'',
        ''cody'', ''continue'', ''cursor-agent'', ''windsurf'', ''tabnine'', ''kite'', ''sourcegraph'']),
      (''build'',
       [''npm'', ''npx'', ''yarn'', ''pnpm'', ''bun'', ''pip'', ''pip3'', ''poetry'', ''pdm'', ''uv'',
        ''hatch'', ''pipx'', ''cargo'', ''rustc'', ''go'', ''mvn'', ''maven'', ''gradle'', ''gradlew'',
        ''sbt'', ''ant'', ''make'', ''cmake'', ''ninja'', ''meson'', ''bazel'', ''gcc'', ''g++'',
        ''clang'', ''clang++'', ''gem'', ''bundle'', ''bundler'', ''rake'', ''composer'', ''dotnet'',
        ''nuget'', ''msbuild'', ''just'', ''task'', ''earthly'']),
      (''language-server'',
       [''*-language-server'', ''*-lsp'', ''tsserver'', ''typescript-language-server'',
        ''vscode-eslint-language-server'', ''vscode-json-language-server'',
        ''vscode-css-language-server'', ''vscode-html-language-server'', ''biome'', ''gopls'',
        ''rust-analyzer'', ''rls'', ''pylsp'', ''pyright'', ''python-language-server'',
        ''jedi-language-server'', ''ruff-lsp'', ''basedpyright'', ''clangd'', ''ccls'', ''solargraph'',
        ''ruby-lsp'', ''phpactor'', ''intelephense'', ''jdtls'', ''java-language-server'',
        ''lua-language-server'', ''luals'', ''yaml-language-server'', ''bash-language-server'',
        ''docker-langserver'', ''terraform-ls'', ''marksman'']),
      (''runtime'',
       [''node'', ''nodejs'', ''deno'', ''bun'', ''python'', ''python3'', ''python2'', ''pypy'',
        ''pypy3'', ''ruby'', ''irb'', ''php'', ''java'', ''kotlin'', ''scala'', ''groovy'', ''dotnet'',
        ''lua'', ''luajit'', ''perl'', ''R'', ''Rscript'', ''julia'', ''elixir'', ''iex'', ''erl'',
        ''erlang'']),
      (''test'',
       [''jest'', ''mocha'', ''vitest'', ''playwright'', ''cypress'', ''pytest'', ''python -m pytest'',
        ''nose'', ''unittest'', ''go test'', ''cargo test'', ''rspec'', ''minitest'', ''junit'',
        ''testng'', ''ctest'']),
      (''formatter'',
       [''prettier'', ''eslint'', ''biome'', ''black'', ''ruff'', ''isort'', ''autopep8'', ''yapf'',
        ''flake8'', ''pylint'', ''mypy'', ''gofmt'', ''goimports'', ''golangci-lint'', ''rustfmt'',
        ''clippy'', ''rubocop'', ''pre-commit'']),
      (''vcs'',
       [''git'', ''gh'', ''hub'', ''hg'', ''mercurial'', ''svn'', ''subversion'']),
      (''container'',
       [''docker'', ''podman'', ''containerd'', ''runc'', ''crun'', ''kubectl'', ''k9s'', ''helm'',
        ''docker-compose'', ''docker compose''])]"

record classRegistry =
  reg_classes :: "string \<rightharpoonup> string list"
  reg_compiled :: "string \<rightharpoonup> procPattern list"

definition NewClassRegistry :: classRegistry where
  "NewClassRegistry = \<lparr>reg_classes = map_of BuiltinClasses, reg_compiled = Map.empty\<rparr>"

definition registry_Get :: "classRegistry \<Rightarrow> string \<Rightarrow> patternError + string list" where
  "registry_Get r name = (case reg_classes r name of None \<Rightarrow> Inl (UnknownClass name) | Some ps \<Rightarrow> Inr ps)"

definition registry_Set :: "string \<Rightarrow> string list \<Rightarrow> classRegistry \<Rightarrow> classRegistry" where
  "registry_Set name patterns r =
     r\<lparr>reg_classes := (reg_classes r)(name \<mapsto> patterns), reg_compiled := (reg_compiled r)(name := None)\<rparr>"

definition registry_Extend :: "string \<Rightarrow> string list \<Rightarrow> classRegistry \<Rightarrow> classRegistry" where
  "registry_Extend name patterns r =
     (let existing = (case reg_classes r name of None \<Rightarrow> [] | Some ps \<Rightarrow> ps)
      in r\<lparr>reg_classes := (reg_classes r)(name \<mapsto> existing @ patterns),
           reg_compiled := (reg_compiled r)(name := None)\<rparr>)"

definition registry_Delete :: "string \<Rightarrow> classRegistry \<Rightarrow> classRegistry" where
  "registry_Delete name r =
     r\<lparr>reg_classes := (reg_classes r)(name := None), reg_compiled := (reg_compiled r)(name := None)\<rparr>"

definition registry_Matches ::
    "engineLib \<Rightarrow> string \<Rightarrow> string \<Rightarrow> classRegistry \<Rightarrow> (patternError + bool) \<times> classRegistry" where
  "registry_Matches lib name input r =
     (case reg_compiled r name of
        Some ps \<Rightarrow> (Inr (MatchAny lib ps input), r)
      | None \<Rightarrow>
          (case reg_classes r name of
             None \<Rightarrow> (Inl (UnknownClass name), r)
           | Some patterns \<Rightarrow>
               (case NewPatternSet lib patterns of
                  Inl err \<Rightarrow> (Inl err, r)
                | Inr ps \<Rightarrow>
                    (Inr (MatchAny lib ps input),
                     r\<lparr>reg_compiled := (reg_compiled r)(name \<mapsto> ps)\<rparr>))))"

definition IsBuiltinClass :: "string \<Rightarrow> bool" where
  "IsBuiltinClass name = (map_of BuiltinClasses (TrimPrefix name ''@'') \<noteq> None)"

end
