(* ===== verification/Taint_Cache.thy ===== *)
theory Taint_Cache
  imports Process_Pattern "HOL-Library.AList"
begin

text \<open>
  \<open>internal/policy/ancestry\<close>: which processes descend from an AI tool. The taint cache
  (\<open>taint.go\<close>) follows spawned and exited processes, \<open>integration.go\<close> feeds it, \<open>snapshot.go\<close> and
  \<open>snapshot_linux.go\<close> detect reused process ids, and the classifier (\<open>classifier.go\<close>) sorts
  process names into classes and counts how often a class repeats in a chain.

  The clock is an argument, in nanoseconds. What the kernel reports of a process is a parameter.
\<close>

section \<open>Classes and taints (\<open>taint.go\<close>)\<close>

datatype processClass =
    ClassUnknown | ClassShell | ClassEditor | ClassAgent | ClassBuildTool | ClassLanguageServer
  | ClassLanguageRuntime

fun ProcessClass_String :: "processClass \<Rightarrow> string" where
  "ProcessClass_String ClassShell = ''shell''"
| "ProcessClass_String ClassEditor = ''editor''"
| "ProcessClass_String ClassAgent = ''agent''"
| "ProcessClass_String ClassBuildTool = ''build_tool''"
| "ProcessClass_String ClassLanguageServer = ''language_server''"
| "ProcessClass_String ClassLanguageRuntime = ''language_runtime''"
| "ProcessClass_String ClassUnknown = ''unknown''"

definition ParseProcessClass :: "string \<Rightarrow> processClass" where
  "ParseProcessClass s =
     (if s = ''shell'' then ClassShell
      else if s = ''editor'' then ClassEditor
      else if s = ''agent'' then ClassAgent
      else if s = ''build_tool'' then ClassBuildTool
      else if s = ''language_server'' then ClassLanguageServer
      else if s = ''language_runtime'' then ClassLanguageRuntime
      else ClassUnknown)"

record processSnapshot =
  snap_Comm :: string
  snap_ExePath :: string
  snap_Cmdline :: "string list"
  snap_StartTime :: "64 word"

record processTaint =
  tn_SourcePID :: int
  tn_SourceName :: string
  tn_ContextName :: string
  tn_IsAgent :: bool
  tn_Via :: "string list"
  tn_ViaClasses :: "processClass list"
  tn_Depth :: int
  tn_InheritedAt :: int
  tn_SourceSnapshot :: processSnapshot

record processInfo =
  inf_PID :: int
  inf_PPID :: int
  inf_Comm :: string
  inf_ExePath :: string
  inf_Cmdline :: "string list"
  inf_StartTime :: "64 word"

text \<open>The callbacks are represented by whether they are set; the events are the calls made to them.\<close>

record taintCache =
  tch_taints :: "int \<rightharpoonup> processTaint"
  tch_ttl :: int
  tch_maxDepth :: int
  tch_onTaintCreated :: bool
  tch_onTaintPropagated :: bool
  tch_onTaintRemoved :: bool
  tch_matchesTaintSource :: "(processInfo \<Rightarrow> string option) option"
  tch_classifyProcess :: "(string \<Rightarrow> processClass) option"

datatype taintEvent = TaintCreated int processTaint | TaintPropagated int processTaint | TaintRemoved int

definition NewTaintCache :: "int \<Rightarrow> int \<Rightarrow> taintCache" where
  "NewTaintCache ttl maxDepth =
     \<lparr>tch_taints = Map.empty, tch_ttl = ttl, tch_maxDepth = maxDepth, tch_onTaintCreated = False,
      tch_onTaintPropagated = False, tch_onTaintRemoved = False, tch_matchesTaintSource = None,
      tch_classifyProcess = None\<rparr>"

definition SetMatchesTaintSource :: "(processInfo \<Rightarrow> string option) option \<Rightarrow> taintCache \<Rightarrow> taintCache" where
  "SetMatchesTaintSource fn c = c\<lparr>tch_matchesTaintSource := fn\<rparr>"

definition SetClassifyProcess :: "(string \<Rightarrow> processClass) option \<Rightarrow> taintCache \<Rightarrow> taintCache" where
  "SetClassifyProcess fn c = c\<lparr>tch_classifyProcess := fn\<rparr>"

text \<open>A copy of the taint is the taint itself.\<close>

definition IsTainted :: "taintCache \<Rightarrow> int \<Rightarrow> processTaint option" where
  "IsTainted c pid = tch_taints c pid"

definition child_taint :: "taintCache \<Rightarrow> int \<Rightarrow> processTaint \<Rightarrow> processInfo \<Rightarrow> processTaint" where
  "child_taint c now parentTaint info =
     (let cls = (case tch_classifyProcess c of None \<Rightarrow> ClassUnknown | Some f \<Rightarrow> f (inf_Comm info))
      in \<lparr>tn_SourcePID = tn_SourcePID parentTaint, tn_SourceName = tn_SourceName parentTaint,
          tn_ContextName = tn_ContextName parentTaint, tn_IsAgent = tn_IsAgent parentTaint,
          tn_Via = tn_Via parentTaint @ [inf_Comm info],
          tn_ViaClasses = tn_ViaClasses parentTaint @ [cls],
          tn_Depth = tn_Depth parentTaint + 1, tn_InheritedAt = now,
          tn_SourceSnapshot = tn_SourceSnapshot parentTaint\<rparr>)"

definition source_taint :: "int \<Rightarrow> int \<Rightarrow> processInfo \<Rightarrow> string \<Rightarrow> processTaint" where
  "source_taint now pid info contextName =
     \<lparr>tn_SourcePID = pid, tn_SourceName = inf_Comm info, tn_ContextName = contextName,
      tn_IsAgent = False, tn_Via = [], tn_ViaClasses = [], tn_Depth = 0, tn_InheritedAt = now,
      tn_SourceSnapshot =
        \<lparr>snap_Comm = inf_Comm info, snap_ExePath = inf_ExePath info, snap_Cmdline = inf_Cmdline info,
         snap_StartTime = inf_StartTime info\<rparr>\<rparr>"

definition OnSpawn :: "int \<Rightarrow> int \<Rightarrow> int \<Rightarrow> processInfo \<Rightarrow> taintCache \<Rightarrow> taintCache \<times> taintEvent list" where
  "OnSpawn now pid ppid info c =
     (case tch_taints c ppid of
        Some parentTaint \<Rightarrow>
          if tch_maxDepth c > 0 \<and> tn_Depth parentTaint \<ge> tch_maxDepth c then (c, [])
          else
            let t = child_taint c now parentTaint info
            in (c\<lparr>tch_taints := (tch_taints c)(pid \<mapsto> t)\<rparr>,
                if tch_onTaintPropagated c then [TaintPropagated pid t] else [])
      | None \<Rightarrow>
          (case tch_matchesTaintSource c of
             None \<Rightarrow> (c, [])
           | Some matches \<Rightarrow>
               (case matches info of
                  None \<Rightarrow> (c, [])
                | Some contextName \<Rightarrow>
                    let t = source_taint now pid info contextName
                    in (c\<lparr>tch_taints := (tch_taints c)(pid \<mapsto> t)\<rparr>,
                        if tch_onTaintCreated c then [TaintCreated pid t] else []))))"

definition OnExit :: "int \<Rightarrow> taintCache \<Rightarrow> taintCache \<times> taintEvent list" where
  "OnExit pid c =
     (c\<lparr>tch_taints := (tch_taints c)(pid := None)\<rparr>,
      if tch_taints c pid \<noteq> None \<and> tch_onTaintRemoved c then [TaintRemoved pid] else [])"

definition MarkAsAgent :: "int \<Rightarrow> taintCache \<Rightarrow> taintCache \<times> bool" where
  "MarkAsAgent pid c =
     (case tch_taints c pid of
        Some t \<Rightarrow> (c\<lparr>tch_taints := (tch_taints c)(pid \<mapsto> t\<lparr>tn_IsAgent := True\<rparr>)\<rparr>, True)
      | None \<Rightarrow> (c, False))"

text \<open>
  \<open>cleanup\<close> visits the entries in no particular order, so the calls of the callback are given as a set.
\<close>

definition expired :: "int \<Rightarrow> taintCache \<Rightarrow> int \<Rightarrow> bool" where
  "expired now c pid =
     (case tch_taints c pid of None \<Rightarrow> False | Some t \<Rightarrow> now - tn_InheritedAt t > tch_ttl c)"

definition taint_cleanup :: "int \<Rightarrow> taintCache \<Rightarrow> taintCache \<times> taintEvent set" where
  "taint_cleanup now c =
     (c\<lparr>tch_taints := (\<lambda>pid. if expired now c pid then None else tch_taints c pid)\<rparr>,
      {TaintRemoved pid |pid. expired now c pid \<and> tch_onTaintRemoved c})"

definition taint_Clear :: "taintCache \<Rightarrow> taintCache" where
  "taint_Clear c = c\<lparr>tch_taints := Map.empty\<rparr>"

section \<open>Events of the process tree (\<open>integration.go\<close>)\<close>

record processNode =
  node_PID :: int
  node_PPID :: int
  node_Command :: string
  node_Args :: "string list"

definition spawn_info :: "(int \<Rightarrow> processInfo option) option \<Rightarrow> processNode \<Rightarrow> processInfo" where
  "spawn_info infoProvider node =
     (let minimal = \<lparr>inf_PID = node_PID node, inf_PPID = node_PPID node, inf_Comm = node_Command node,
            inf_ExePath = [], inf_Cmdline = [], inf_StartTime = 0\<rparr>;
          info = (case infoProvider of
                    None \<Rightarrow> minimal
                  | Some f \<Rightarrow>
                      (case f (node_PID node) of
                         None \<Rightarrow> minimal
                       | Some enriched \<Rightarrow>
                           enriched\<lparr>inf_PID := node_PID node, inf_PPID := node_PPID node\<rparr>));
          info = (if inf_Comm info = [] \<and> node_Command node \<noteq> [] then info\<lparr>inf_Comm := node_Command node\<rparr>
                  else info)
      in if inf_Cmdline info = [] \<and> node_Args node \<noteq> [] then
           info\<lparr>inf_Cmdline := node_Command node # node_Args node\<rparr>
         else info)"

definition handleSpawn ::
    "(int \<Rightarrow> processInfo option) option \<Rightarrow> int \<Rightarrow> processNode option \<Rightarrow> taintCache \<Rightarrow> taintCache \<times> taintEvent list" where
  "handleSpawn infoProvider now node c =
     (case node of
        None \<Rightarrow> (c, [])
      | Some n \<Rightarrow> OnSpawn now (node_PID n) (node_PPID n) (spawn_info infoProvider n) c)"

definition handleExit :: "processNode option \<Rightarrow> taintCache \<Rightarrow> taintCache \<times> taintEvent list" where
  "handleExit node c = (case node of None \<Rightarrow> (c, []) | Some n \<Rightarrow> OnExit (node_PID n) c)"

section \<open>Reused process ids (\<open>snapshot.go\<close>, \<open>snapshot_linux.go\<close>)\<close>

text \<open>
  \<open>strings.Fields\<close>: the maximal runs of bytes outside white space. The first bytes of the white
  space of several bytes are never inside another rune, so the loop may go byte by byte.
\<close>

definition emit_field :: "string \<Rightarrow> string list" where
  "emit_field cur = (if cur = [] then [] else [cur])"

fun fields_loop :: "string \<Rightarrow> string \<Rightarrow> string list" where
  "fields_loop cur [] = emit_field cur"
| "fields_loop cur [a] = (if space1 a then emit_field cur else emit_field (cur @ [a]))"
| "fields_loop cur [a, b] =
     (if space1 a then emit_field cur @ fields_loop [] [b]
      else if space2 a b then emit_field cur
      else fields_loop (cur @ [a]) [b])"
| "fields_loop cur (a # b # c # s) =
     (if space1 a then emit_field cur @ fields_loop [] (b # c # s)
      else if space2 a b then emit_field cur @ fields_loop [] (c # s)
      else if space3 a b c then emit_field cur @ fields_loop [] s
      else fields_loop (cur @ [a]) (b # c # s))"

definition Fields :: "string \<Rightarrow> string list" where
  "Fields s = fields_loop [] s"

text \<open>\<open>strconv.ParseUint(s, 10, 64)\<close>.\<close>

definition ParseUint64 :: "string \<Rightarrow> uint64 option" where
  "ParseUint64 s =
     (if s = [] then None
      else case digits_value 0 s of
        None \<Rightarrow> None
      | Some v \<Rightarrow> if v < 2 ^ 64 then Some (word_of_int v) else None)"

datatype statError = NoClosingParen | NotEnoughFields | BadStartTime

definition parseStartTimeFromStat :: "string \<Rightarrow> statError + uint64" where
  "parseStartTimeFromStat stat =
     (let rest = after_last (\<lambda>c. c = CHR '')'') stat
      in if CHR '')'' \<notin> set stat \<or> length rest \<le> 1 then Inl NoClosingParen
         else
           let fields = Fields (drop 1 rest)
           in if length fields < 20 then Inl NotEnoughFields
              else case ParseUint64 (fields ! 19) of
                None \<Rightarrow> Inl BadStartTime
              | Some t \<Rightarrow> Inr t)"

datatype validationResult = ValidationValid | ValidationMissing | ValidationPIDMismatch | ValidationError

text \<open>\<open>capture\<close> is what the kernel tells about a process id, \<^const>\<open>None\<close> an error.\<close>

definition ValidateSnapshot :: "(int \<Rightarrow> processSnapshot option) \<Rightarrow> int \<Rightarrow> processSnapshot option \<Rightarrow> bool" where
  "ValidateSnapshot capture pid snapshot =
     (case snapshot of
        None \<Rightarrow> False
      | Some old \<Rightarrow>
          (case capture pid of None \<Rightarrow> True | Some current \<Rightarrow> snap_StartTime current = snap_StartTime old))"

definition ValidateSnapshotDetailed ::
    "(int \<Rightarrow> processSnapshot option) \<Rightarrow> int \<Rightarrow> processSnapshot option \<Rightarrow> validationResult" where
  "ValidateSnapshotDetailed capture pid snapshot =
     (case snapshot of
        None \<Rightarrow> ValidationMissing
      | Some old \<Rightarrow>
          (case capture pid of
             None \<Rightarrow> ValidationValid
           | Some current \<Rightarrow>
               if snap_StartTime current = snap_StartTime old then ValidationValid
               else ValidationPIDMismatch))"

section \<open>Classification (\<open>classifier.go\<close>)\<close>

text \<open>The custom rules, a Go map, are the list of its entries in the order of iteration.\<close>

record classifier =
  cl_registry :: classRegistry
  cl_customRules :: "(string \<times> processClass) list"

definition NewClassifierWithRegistry :: "classRegistry \<Rightarrow> classifier" where
  "NewClassifierWithRegistry r = \<lparr>cl_registry = r, cl_customRules = []\<rparr>"

definition NewClassifier :: classifier where
  "NewClassifier = \<lparr>cl_registry = NewClassRegistry, cl_customRules = []\<rparr>"

definition AddCustomRule :: "string \<Rightarrow> processClass \<Rightarrow> classifier \<Rightarrow> classifier" where
  "AddCustomRule commPattern cls c = c\<lparr>cl_customRules := AList.update commPattern cls (cl_customRules c)\<rparr>"

definition RemoveCustomRule :: "string \<Rightarrow> classifier \<Rightarrow> classifier" where
  "RemoveCustomRule commPattern c = c\<lparr>cl_customRules := AList.delete commPattern (cl_customRules c)\<rparr>"

definition custom_rule_matches :: "engineLib \<Rightarrow> string \<Rightarrow> string \<times> processClass \<Rightarrow> bool" where
  "custom_rule_matches lib comm rule =
     (\<not> IsBuiltinClass (fst rule) \<and>
      (case pattern_Compile lib (fst rule) of Inl _ \<Rightarrow> False | Inr p \<Rightarrow> pattern_Match lib p comm))"

definition class_order :: "(string \<times> processClass) list" where
  "class_order =
     [(''shell'', ClassShell), (''editor'', ClassEditor), (''agent'', ClassAgent),
      (''build'', ClassBuildTool), (''language-server'', ClassLanguageServer),
      (''runtime'', ClassLanguageRuntime)]"

text \<open>The built-in classes in order; each test may fill the cache of the registry.\<close>

fun first_class :: "engineLib \<Rightarrow> string \<Rightarrow> (string \<times> processClass) list \<Rightarrow> classRegistry \<Rightarrow>
    processClass \<times> classRegistry" where
  "first_class lib comm [] r = (ClassUnknown, r)"
| "first_class lib comm ((name, cls) # rest) r =
     (case registry_Matches lib name comm r of (res, r') \<Rightarrow>
        if res = Inr True then (cls, r') else first_class lib comm rest r')"

definition Classify :: "engineLib \<Rightarrow> string \<Rightarrow> classifier \<Rightarrow> processClass \<times> classifier" where
  "Classify lib comm c =
     (case map_of (cl_customRules c) comm of
        Some cls \<Rightarrow> (cls, c)
      | None \<Rightarrow>
          (case List.find (custom_rule_matches lib comm) (cl_customRules c) of
             Some rule \<Rightarrow> (snd rule, c)
           | None \<Rightarrow>
               (case first_class lib comm class_order (cl_registry c) of (cls, r) \<Rightarrow>
                  (cls, c\<lparr>cl_registry := r\<rparr>))))"

fun ClassifyChain :: "engineLib \<Rightarrow> string list \<Rightarrow> classifier \<Rightarrow> processClass list \<times> classifier" where
  "ClassifyChain lib [] c = ([], c)"
| "ClassifyChain lib (comm # via) c =
     (case Classify lib comm c of (cls, c') \<Rightarrow>
        case ClassifyChain lib via c' of (classes, c'') \<Rightarrow> (cls # classes, c''))"

section \<open>Analysis of a chain\<close>

record chainAnalysis =
  ca_Via :: "string list"
  ca_ViaClasses :: "processClass list"
  ca_HasShell :: bool
  ca_HasEditor :: bool
  ca_HasAgent :: bool
  ca_HasLanguageServer :: bool
  ca_ConsecutiveShells :: int
  ca_ShellLaundering :: bool
  ca_FirstShellIndex :: int
  ca_FirstEditorIndex :: int
  ca_FirstAgentIndex :: int

definition empty_analysis :: "string list \<Rightarrow> processClass list \<Rightarrow> chainAnalysis" where
  "empty_analysis via classes =
     \<lparr>ca_Via = via, ca_ViaClasses = classes, ca_HasShell = False, ca_HasEditor = False,
      ca_HasAgent = False, ca_HasLanguageServer = False, ca_ConsecutiveShells = 0,
      ca_ShellLaundering = False, ca_FirstShellIndex = -1, ca_FirstEditorIndex = -1,
      ca_FirstAgentIndex = -1\<rparr>"

text \<open>The loop with the variables \<open>consecutiveShells\<close>, \<open>maxConsecutiveShells\<close> and \<open>i\<close>.\<close>

fun analyze_loop :: "int \<Rightarrow> int \<Rightarrow> int \<Rightarrow> chainAnalysis \<Rightarrow> processClass list \<Rightarrow> chainAnalysis \<times> int" where
  "analyze_loop i cur best a [] = (a, best)"
| "analyze_loop i cur best a (cls # classes) =
     (case cls of
        ClassShell \<Rightarrow>
          analyze_loop (i + 1) (cur + 1) (if cur + 1 > best then cur + 1 else best)
            (a\<lparr>ca_HasShell := True,
               ca_FirstShellIndex := (if ca_FirstShellIndex a = -1 then i else ca_FirstShellIndex a)\<rparr>) classes
      | ClassEditor \<Rightarrow>
          analyze_loop (i + 1) 0 best
            (a\<lparr>ca_HasEditor := True,
               ca_FirstEditorIndex := (if ca_FirstEditorIndex a = -1 then i else ca_FirstEditorIndex a)\<rparr>) classes
      | ClassAgent \<Rightarrow>
          analyze_loop (i + 1) 0 best
            (a\<lparr>ca_HasAgent := True,
               ca_FirstAgentIndex := (if ca_FirstAgentIndex a = -1 then i else ca_FirstAgentIndex a)\<rparr>) classes
      | ClassLanguageServer \<Rightarrow> analyze_loop (i + 1) 0 best (a\<lparr>ca_HasLanguageServer := True\<rparr>) classes
      | _ \<Rightarrow> analyze_loop (i + 1) 0 best a classes)"

definition AnalyzeChain :: "string list \<Rightarrow> processClass list \<Rightarrow> chainAnalysis" where
  "AnalyzeChain via viaClasses =
     (case analyze_loop 0 0 0 (empty_analysis via viaClasses) viaClasses of (a, best) \<Rightarrow>
        a\<lparr>ca_ConsecutiveShells := best, ca_ShellLaundering := best \<ge> 3\<rparr>)"

definition AnalyzeTaint :: "processTaint option \<Rightarrow> chainAnalysis" where
  "AnalyzeTaint taint =
     (case taint of
        None \<Rightarrow> empty_analysis [] []
      | Some t \<Rightarrow> AnalyzeChain (tn_Via t) (tn_ViaClasses t))"

definition IsLikelyUserTerminal :: "processTaint option \<Rightarrow> bool" where
  "IsLikelyUserTerminal taint =
     (case taint of
        None \<Rightarrow> False
      | Some t \<Rightarrow>
          if tn_Depth t \<noteq> 1 \<or> length (tn_ViaClasses t) \<noteq> 1 then False
          else tn_ViaClasses t ! 0 = ClassShell)"

definition IsLikelyEditorFeature :: "processTaint option \<Rightarrow> bool" where
  "IsLikelyEditorFeature taint =
     (case taint of
        None \<Rightarrow> False
      | Some t \<Rightarrow> list_ex (\<lambda>cls. cls = ClassLanguageServer \<or> cls = ClassBuildTool) (tn_ViaClasses t))"

text \<open>The counting loop shared by \<open>CountConsecutive\<close> and \<open>CountConsecutiveComm\<close>.\<close>

fun count_loop :: "('a \<Rightarrow> bool) \<Rightarrow> int \<Rightarrow> int \<Rightarrow> 'a list \<Rightarrow> int" where
  "count_loop P maxCount currentCount [] = maxCount"
| "count_loop P maxCount currentCount (x # xs) =
     (if P x then
        count_loop P (if currentCount + 1 > maxCount then currentCount + 1 else maxCount) (currentCount + 1) xs
      else count_loop P maxCount 0 xs)"

definition CountConsecutive :: "processClass list \<Rightarrow> processClass \<Rightarrow> int" where
  "CountConsecutive classes target = count_loop (\<lambda>c. c = target) 0 0 classes"

definition CountConsecutiveComm :: "string list \<Rightarrow> string list \<Rightarrow> int" where
  "CountConsecutiveComm via patterns =
     count_loop (\<lambda>comm. list_ex (\<lambda>p. comm = p \<or> has_substring comm p) patterns) 0 0 via"

end
