(* ===== verification/Chain_Rules.thy ===== *)
theory Chain_Rules
  imports Taint_Cache
begin

text \<open>
  \<open>internal/policy/ancestry/chain.go\<close>: conditions on the chain of processes between an AI tool and the
  current process, and the rules built from them. Pointers that may be nil are options; a nil
  condition holds.
\<close>

section \<open>Conditions\<close>

record consecutiveMatch =
  cm_Value :: string
  cm_CountGE :: int
  cm_CountLE :: int

record leafCondition =
  lc_ViaIndex :: "int option"
  lc_ViaIndexValue :: string
  lc_ViaContains :: "string list"
  lc_ViaNotContains :: "string list"
  lc_ViaMatches :: "string list"
  lc_ClassContains :: "string list"
  lc_ClassNotContains :: "string list"
  lc_ConsecutiveClass :: "consecutiveMatch option"
  lc_ConsecutiveComm :: "consecutiveMatch option"
  lc_DepthEQ :: "int option"
  lc_DepthGT :: "int option"
  lc_DepthLT :: "int option"
  lc_DepthGE :: "int option"
  lc_DepthLE :: "int option"
  lc_IsTainted :: "bool option"
  lc_IsAgent :: "bool option"
  lc_EnvContains :: "string list"
  lc_ArgsContain :: "string list"
  lc_CommMatches :: "string list"
  lc_PathMatches :: "string list"
  lc_SourceName :: "string list"
  lc_SourceContext :: "string list"

text \<open>The fields \<open>Or\<close>, \<open>And\<close> and \<open>Not\<close> next to the other ones.\<close>

datatype chainCondition =
  ChainCondition (cond_leaf: leafCondition) (cond_Or: "chainCondition option list")
    (cond_And: "chainCondition option list") (cond_Not: "chainCondition option")

record executionContext =
  xc_Comm :: string
  xc_Args :: "string list"
  xc_ExePath :: string
  xc_Env :: "(string \<times> string) list option"

section \<open>Evaluation\<close>

text \<open>\<open>match, _ := compiled.MatchWithResolver(v, e.registry.GetResolver())\<close>.\<close>

definition resolved_match :: "engineLib \<Rightarrow> classRegistry \<Rightarrow> procPattern \<Rightarrow> string \<Rightarrow> bool" where
  "resolved_match lib reg p v =
     (case MatchWithResolver lib p v (Some (registry_Get reg)) of Inl _ \<Rightarrow> False | Inr b \<Rightarrow> b)"

definition checkViaIndex :: "engineLib \<Rightarrow> classRegistry \<Rightarrow> processTaint option \<Rightarrow> int \<Rightarrow> string \<Rightarrow> bool" where
  "checkViaIndex lib reg taint index val =
     (case taint of
        None \<Rightarrow> False
      | Some t \<Rightarrow>
          if index < 0 \<or> index \<ge> int (length (tn_Via t)) then False
          else case pattern_Compile lib val of
            Inl _ \<Rightarrow> tn_Via t ! nat index = val
          | Inr p \<Rightarrow> resolved_match lib reg p (tn_Via t ! nat index))"

definition checkViaContains :: "engineLib \<Rightarrow> classRegistry \<Rightarrow> processTaint option \<Rightarrow> string list \<Rightarrow> bool" where
  "checkViaContains lib reg taint patterns =
     (case taint of
        None \<Rightarrow> False
      | Some t \<Rightarrow>
          list_ex (\<lambda>p. case pattern_Compile lib p of
                         Inl _ \<Rightarrow> list_ex (\<lambda>v. v = p) (tn_Via t)
                       | Inr compiled \<Rightarrow> list_ex (resolved_match lib reg compiled) (tn_Via t)) patterns)"

definition checkViaMatches :: "engineLib \<Rightarrow> classRegistry \<Rightarrow> processTaint option \<Rightarrow> string list \<Rightarrow> bool" where
  "checkViaMatches lib reg taint patterns =
     (case taint of
        None \<Rightarrow> False
      | Some t \<Rightarrow>
          list_ex (\<lambda>p. case pattern_Compile lib p of
                         Inl _ \<Rightarrow> False
                       | Inr compiled \<Rightarrow> list_ex (resolved_match lib reg compiled) (tn_Via t)) patterns)"

definition checkClassContains :: "processTaint option \<Rightarrow> string list \<Rightarrow> bool" where
  "checkClassContains taint classNames =
     (case taint of
        None \<Rightarrow> False
      | Some t \<Rightarrow>
          list_ex (\<lambda>className.
             let targetClass = ParseProcessClass className
             in \<not> (targetClass = ClassUnknown \<and> className \<noteq> ''unknown'') \<and>
                list_ex (\<lambda>c. c = targetClass) (tn_ViaClasses t)) classNames)"

definition count_in_range :: "consecutiveMatch \<Rightarrow> int \<Rightarrow> bool" where
  "count_in_range m n =
     (if cm_CountGE m > 0 \<and> n < cm_CountGE m then False
      else if cm_CountLE m > 0 \<and> n > cm_CountLE m then False
      else True)"

definition checkConsecutiveClass :: "processTaint option \<Rightarrow> consecutiveMatch \<Rightarrow> bool" where
  "checkConsecutiveClass taint m =
     (case taint of
        None \<Rightarrow> False
      | Some t \<Rightarrow> count_in_range m (CountConsecutive (tn_ViaClasses t) (ParseProcessClass (cm_Value m))))"

definition checkConsecutiveComm :: "processTaint option \<Rightarrow> consecutiveMatch \<Rightarrow> bool" where
  "checkConsecutiveComm taint m =
     (case taint of
        None \<Rightarrow> False
      | Some t \<Rightarrow> count_in_range m (CountConsecutiveComm (tn_Via t) [cm_Value m]))"

definition checkDepth :: "processTaint option \<Rightarrow> leafCondition \<Rightarrow> bool" where
  "checkDepth taint cond =
     (let depth = (case taint of None \<Rightarrow> 0 | Some t \<Rightarrow> tn_Depth t);
          ok = (\<lambda>bound P. case bound of None \<Rightarrow> True | Some n \<Rightarrow> P depth n)
      in ok (lc_DepthEQ cond) (=) \<and> ok (lc_DepthGT cond) (>) \<and> ok (lc_DepthLT cond) (<) \<and>
         ok (lc_DepthGE cond) (\<ge>) \<and> ok (lc_DepthLE cond) (\<le>))"

definition checkEnvContains :: "engineLib \<Rightarrow> classRegistry \<Rightarrow> executionContext \<Rightarrow> string list \<Rightarrow> bool" where
  "checkEnvContains lib reg ctx patterns =
     (case xc_Env ctx of
        None \<Rightarrow> False
      | Some env \<Rightarrow>
          list_ex (\<lambda>p. case pattern_Compile lib p of
             Inl _ \<Rightarrow> list_ex (\<lambda>(k, v). k = p \<or> v = p \<or> has_substring (k @ ''='' @ v) p) env
           | Inr compiled \<Rightarrow>
               list_ex (\<lambda>(k, v). resolved_match lib reg compiled k \<or> resolved_match lib reg compiled v) env)
            patterns)"

definition checkArgsContain :: "engineLib \<Rightarrow> classRegistry \<Rightarrow> executionContext \<Rightarrow> string list \<Rightarrow> bool" where
  "checkArgsContain lib reg ctx patterns =
     list_ex (\<lambda>p. case pattern_Compile lib p of
        Inl _ \<Rightarrow> list_ex (\<lambda>arg. arg = p \<or> has_substring arg p) (xc_Args ctx)
      | Inr compiled \<Rightarrow> list_ex (resolved_match lib reg compiled) (xc_Args ctx)) patterns"

definition checkPatternMatches :: "engineLib \<Rightarrow> classRegistry \<Rightarrow> string \<Rightarrow> string list \<Rightarrow> bool" where
  "checkPatternMatches lib reg val patterns =
     (if val = [] then False
      else list_ex (\<lambda>p. case pattern_Compile lib p of
             Inl _ \<Rightarrow> val = p
           | Inr compiled \<Rightarrow> resolved_match lib reg compiled val) patterns)"

definition checkSourceName :: "engineLib \<Rightarrow> classRegistry \<Rightarrow> processTaint option \<Rightarrow> string list \<Rightarrow> bool" where
  "checkSourceName lib reg taint patterns =
     (case taint of None \<Rightarrow> False | Some t \<Rightarrow> checkPatternMatches lib reg (tn_SourceName t) patterns)"

definition checkSourceContext :: "engineLib \<Rightarrow> classRegistry \<Rightarrow> processTaint option \<Rightarrow> string list \<Rightarrow> bool" where
  "checkSourceContext lib reg taint patterns =
     (case taint of None \<Rightarrow> False | Some t \<Rightarrow> checkPatternMatches lib reg (tn_ContextName t) patterns)"

definition evaluateLeafConditions ::
    "engineLib \<Rightarrow> classRegistry \<Rightarrow> leafCondition \<Rightarrow> processTaint option \<Rightarrow> executionContext option \<Rightarrow> bool" where
  "evaluateLeafConditions lib reg cond taint ctx =
     ((case lc_ViaIndex cond of
         Some i \<Rightarrow> lc_ViaIndexValue cond = [] \<or> checkViaIndex lib reg taint i (lc_ViaIndexValue cond)
       | None \<Rightarrow> True) \<and>
      (lc_ViaContains cond = [] \<or> checkViaContains lib reg taint (lc_ViaContains cond)) \<and>
      (lc_ViaNotContains cond = [] \<or> \<not> checkViaContains lib reg taint (lc_ViaNotContains cond)) \<and>
      (lc_ViaMatches cond = [] \<or> checkViaMatches lib reg taint (lc_ViaMatches cond)) \<and>
      (lc_ClassContains cond = [] \<or> checkClassContains taint (lc_ClassContains cond)) \<and>
      (lc_ClassNotContains cond = [] \<or> \<not> checkClassContains taint (lc_ClassNotContains cond)) \<and>
      (case lc_ConsecutiveClass cond of None \<Rightarrow> True | Some m \<Rightarrow> checkConsecutiveClass taint m) \<and>
      (case lc_ConsecutiveComm cond of None \<Rightarrow> True | Some m \<Rightarrow> checkConsecutiveComm taint m) \<and>
      checkDepth taint cond \<and>
      (case lc_IsTainted cond of None \<Rightarrow> True | Some b \<Rightarrow> b = (taint \<noteq> None)) \<and>
      (case lc_IsAgent cond of
         None \<Rightarrow> True
       | Some b \<Rightarrow> b = (case taint of None \<Rightarrow> False | Some t \<Rightarrow> tn_IsAgent t)) \<and>
      (case ctx of
         None \<Rightarrow> True
       | Some x \<Rightarrow>
           (lc_EnvContains cond = [] \<or> checkEnvContains lib reg x (lc_EnvContains cond)) \<and>
           (lc_ArgsContain cond = [] \<or> checkArgsContain lib reg x (lc_ArgsContain cond)) \<and>
           (lc_CommMatches cond = [] \<or> checkPatternMatches lib reg (xc_Comm x) (lc_CommMatches cond)) \<and>
           (lc_PathMatches cond = [] \<or> checkPatternMatches lib reg (xc_ExePath x) (lc_PathMatches cond))) \<and>
      (lc_SourceName cond = [] \<or> checkSourceName lib reg taint (lc_SourceName cond)) \<and>
      (lc_SourceContext cond = [] \<or> checkSourceContext lib reg taint (lc_SourceContext cond)))"

lemma size_member_option:
  "Some c \<in> set cs \<Longrightarrow> size c < Suc (size_list (size_option size) cs)"
  by (induction cs) auto

text \<open>The logical fields are looked at first, each one hiding everything after it.\<close>

function evaluate_condition ::
    "engineLib \<Rightarrow> classRegistry \<Rightarrow> processTaint option \<Rightarrow> executionContext option \<Rightarrow> chainCondition \<Rightarrow> bool" where
  "evaluate_condition lib reg taint ctx (ChainCondition leaf ors ands nt) =
     (if ors \<noteq> [] then
        list_ex (\<lambda>sub. case sub of None \<Rightarrow> True | Some c \<Rightarrow> evaluate_condition lib reg taint ctx c) ors
      else if ands \<noteq> [] then
        list_all (\<lambda>sub. case sub of None \<Rightarrow> True | Some c \<Rightarrow> evaluate_condition lib reg taint ctx c) ands
      else case nt of
        Some c \<Rightarrow> \<not> evaluate_condition lib reg taint ctx c
      | None \<Rightarrow> evaluateLeafConditions lib reg leaf taint ctx)"
  by pat_completeness auto

termination
  by (relation "measure (\<lambda>(lib, reg, taint, ctx, c). size c)")
    (auto dest!: size_member_option)

definition condition_Evaluate ::
    "engineLib \<Rightarrow> classRegistry \<Rightarrow> chainCondition option \<Rightarrow> processTaint option \<Rightarrow> executionContext option \<Rightarrow> bool" where
  "condition_Evaluate lib reg cond taint ctx =
     (case cond of None \<Rightarrow> True | Some c \<Rightarrow> evaluate_condition lib reg taint ctx c)"

section \<open>Rules\<close>

abbreviation ActionAllowNormalPolicy :: string where "ActionAllowNormalPolicy \<equiv> ''allow_normal_policy''"
abbreviation ActionApplyContextPolicy :: string where "ActionApplyContextPolicy \<equiv> ''apply_context_policy''"
abbreviation ActionDeny :: string where "ActionDeny \<equiv> ''deny''"
abbreviation ActionApprove :: string where "ActionApprove \<equiv> ''approve''"
abbreviation ActionMarkAsAgent :: string where "ActionMarkAsAgent \<equiv> ''mark_as_agent''"
abbreviation ActionAllow :: string where "ActionAllow \<equiv> ''allow''"

record chainRule =
  chr_Name :: string
  chr_Priority :: int
  chr_Condition :: "chainCondition option"
  chr_Action :: string
  chr_Message :: string
  chr_Continue :: bool

text \<open>\<open>sort.Slice\<close> by descending priority; see \<open>lib_sortOrder\<close>.\<close>

definition sort_rules :: "engineLib \<Rightarrow> chainRule list \<Rightarrow> chainRule list" where
  "sort_rules lib rs = map (\<lambda>i. rs ! i) (lib_sortOrder lib (map chr_Priority rs))"

definition SetRules :: "engineLib \<Rightarrow> chainRule list \<Rightarrow> chainRule list" where
  "SetRules lib rules = sort_rules lib rules"

definition AddRule :: "engineLib \<Rightarrow> chainRule \<Rightarrow> chainRule list \<Rightarrow> chainRule list" where
  "AddRule lib rule rules = sort_rules lib (rules @ [rule])"

definition better_rule :: "chainRule \<Rightarrow> chainRule \<Rightarrow> chainRule" where
  "better_rule best rule =
     (if chr_Priority rule > chr_Priority best then rule
      else if chr_Priority rule = chr_Priority best \<and> chr_Action rule = ActionDeny then rule
      else best)"

text \<open>The rules of an evaluator are the argument; its registry is that of the built-in classes.\<close>

definition rule_applies :: "engineLib \<Rightarrow> processTaint option \<Rightarrow> executionContext option \<Rightarrow> chainRule \<Rightarrow> bool" where
  "rule_applies lib taint ctx rule = condition_Evaluate lib NewClassRegistry (chr_Condition rule) taint ctx"

definition chain_Evaluate ::
    "engineLib \<Rightarrow> chainRule list \<Rightarrow> processTaint option \<Rightarrow> executionContext option \<Rightarrow> chainRule option" where
  "chain_Evaluate lib rules taint ctx =
     (case filter (rule_applies lib taint ctx) rules of
        [] \<Rightarrow> None
      | r # rs \<Rightarrow> Some (foldl better_rule r rs))"

fun EvaluateAll ::
    "engineLib \<Rightarrow> chainRule list \<Rightarrow> processTaint option \<Rightarrow> executionContext option \<Rightarrow> chainRule list" where
  "EvaluateAll lib [] taint ctx = []"
| "EvaluateAll lib (rule # rules) taint ctx =
     (if rule_applies lib taint ctx rule then
        if \<not> chr_Continue rule then [rule] else rule # EvaluateAll lib rules taint ctx
      else EvaluateAll lib rules taint ctx)"

text \<open>The loop of \<open>EvaluateWithContinue\<close> with its variables \<open>matches\<close> and \<open>finalAction\<close>.\<close>

fun continue_loop :: "engineLib \<Rightarrow> processTaint option \<Rightarrow> executionContext option \<Rightarrow> chainRule list \<Rightarrow> string \<Rightarrow>
    chainRule list \<Rightarrow> chainRule list \<times> string" where
  "continue_loop lib taint ctx matched finalAction [] = (matched, finalAction)"
| "continue_loop lib taint ctx matched finalAction (rule # rules) =
     (if rule_applies lib taint ctx rule then
        if \<not> chr_Continue rule then (matched @ [rule], chr_Action rule)
        else continue_loop lib taint ctx (matched @ [rule]) (chr_Action rule) rules
      else continue_loop lib taint ctx matched finalAction rules)"

definition EvaluateWithContinue ::
    "engineLib \<Rightarrow> chainRule list \<Rightarrow> processTaint option \<Rightarrow> executionContext option \<Rightarrow> chainRule list \<times> string" where
  "EvaluateWithContinue lib rules taint ctx = continue_loop lib taint ctx [] [] rules"

end
