(* ===== verification/Context_Engine.thy ===== *)
theory Context_Engine
  imports Policy_Check Chain_Rules
begin

text \<open>
  \<open>internal/policy/context_eval.go\<close>: the command check for processes that descend from an AI tool. A
  process context has chain rules, lists of allowed and denied commands, filters on arguments and
  command rules of its own. \<open>ChainConditionConfig\<close> and \<open>ChainRuleConfig\<close> have the fields of
  \<open>ChainCondition\<close> and \<open>ChainRule\<close>, so that the conversion copies them.

  Maps of the configuration are lists of their entries in the order of iteration. Of a process
  context the fields the engine reads are modelled.
\<close>

section \<open>Configuration (\<open>model.go\<close>)\<close>

record commandOverrideConfig =
  ov_ArgsAllow :: "string list"
  ov_ArgsDeny :: "string list"
  ov_Default :: string

record racePolicyConfig =
  race_OnMissingParent :: string
  race_OnPIDMismatch :: string
  race_OnValidationError :: string
  race_LogRaceConditions :: bool

record processContext =
  px_ChainRules :: "chainRule list"
  px_CommandRules :: "commandRule list"
  px_AllowedCommands :: "string list"
  px_DeniedCommands :: "string list"
  px_RequireApproval :: "string list"
  px_CommandOverrides :: "(string \<times> commandOverrideConfig) list"
  px_DefaultDecision :: string
  px_RacePolicy :: "racePolicyConfig option"

section \<open>Compilation\<close>

record compiledOverride =
  co_argsAllow :: "globPattern list"
  co_argsDeny :: "globPattern list"
  co_defDecision :: string

record compiledContext =
  cx_config :: processContext
  cx_chainEvaluator :: "chainRule list option"
  cx_allowedCmds :: "globPattern list"
  cx_deniedCmds :: "globPattern list"
  cx_requireApproval :: "globPattern list"
  cx_overrides :: "string \<rightharpoonup> compiledOverride"

datatype contextError =
    AllowedCommand string | DeniedCommand string | ApprovalCommand string
  | OverrideArgsAllow string string | OverrideArgsDeny string string

definition compile_patterns ::
    "engineLib \<Rightarrow> (string \<Rightarrow> contextError) \<Rightarrow> string list \<Rightarrow> contextError + globPattern list" where
  "compile_patterns lib err pats =
     map_result (\<lambda>p. case glob_Compile lib p [] of None \<Rightarrow> Inl (err p) | Some g \<Rightarrow> Inr g) pats"

definition compile_override ::
    "engineLib \<Rightarrow> string \<times> commandOverrideConfig \<Rightarrow> contextError + (string \<times> compiledOverride)" where
  "compile_override lib entry =
     (case entry of (cmd, ov) \<Rightarrow>
        bind_result (compile_patterns lib (OverrideArgsAllow cmd) (ov_ArgsAllow ov)) (\<lambda>allow.
        bind_result (compile_patterns lib (OverrideArgsDeny cmd) (ov_ArgsDeny ov)) (\<lambda>deny.
          Inr (ToLower cmd, \<lparr>co_argsAllow = allow, co_argsDeny = deny, co_defDecision = ov_Default ov\<rparr>))))"

text \<open>A later entry with the same key replaces an earlier one.\<close>

definition compileContext :: "engineLib \<Rightarrow> processContext \<Rightarrow> contextError + compiledContext" where
  "compileContext lib ctx =
     (let chain = (if px_ChainRules ctx = [] then None else Some (SetRules lib (px_ChainRules ctx)))
      in bind_result (compile_patterns lib AllowedCommand (px_AllowedCommands ctx)) (\<lambda>allowed.
         bind_result (compile_patterns lib DeniedCommand (px_DeniedCommands ctx)) (\<lambda>denied.
         bind_result (compile_patterns lib ApprovalCommand (px_RequireApproval ctx)) (\<lambda>approval.
         bind_result (map_result (compile_override lib) (px_CommandOverrides ctx)) (\<lambda>overrides.
           Inr \<lparr>cx_config = ctx, cx_chainEvaluator = chain, cx_allowedCmds = allowed,
                cx_deniedCmds = denied, cx_requireApproval = approval,
                cx_overrides = map_of (rev overrides)\<rparr>)))))"

record contextEngine =
  ce_Engine :: engine
  ce_taintCache :: taintCache
  ce_contexts :: "string \<rightharpoonup> compiledContext"

datatype newContextError = BaseEngine engineError | CompileContext string contextError

definition NewContextEngine ::
    "engineLib \<Rightarrow> policy \<Rightarrow> (string \<times> processContext) list \<Rightarrow> bool \<Rightarrow> bool \<Rightarrow> taintCache \<Rightarrow>
     newContextError + contextEngine" where
  "NewContextEngine lib p processContexts enforceApprovals enforceRedirects cache =
     (case NewEngine lib p enforceApprovals enforceRedirects of
        Inl err \<Rightarrow> Inl (BaseEngine err)
      | Inr base \<Rightarrow>
          bind_result
            (map_result (\<lambda>(name, ctx). case compileContext lib ctx of
                Inl err \<Rightarrow> Inl (CompileContext name err)
              | Inr c \<Rightarrow> Inr (name, c)) processContexts)
            (\<lambda>contexts. Inr \<lparr>ce_Engine = base, ce_taintCache = cache, ce_contexts = map_of contexts\<rparr>))"

definition findContext :: "contextEngine \<Rightarrow> string \<Rightarrow> compiledContext option" where
  "findContext ce name = (if name = [] then None else ce_contexts ce name)"

section \<open>Evaluation within a context\<close>

definition override_hit :: "engineLib \<Rightarrow> globPattern \<Rightarrow> string list \<Rightarrow> bool" where
  "override_hit lib g args = (glob_Match lib g (join_with CHR '' '' args) \<or> list_ex (glob_Match lib g) args)"

text \<open>
  The message of a denial names the whole argument string or the argument that matched.
\<close>

definition args_deny_message :: "engineLib \<Rightarrow> globPattern \<Rightarrow> string \<Rightarrow> string list \<Rightarrow> policyMessage" where
  "args_deny_message lib g command args =
     (if glob_Match lib g (join_with CHR '' '' args) then
        [Txt (''argument pattern denied for '' @ path_Base command)]
      else case List.find (glob_Match lib g) args of
        Some arg \<Rightarrow> [Txt ''argument '', Quoted arg, Txt ('' denied for '' @ path_Base command)]
      | None \<Rightarrow> [])"

definition evaluateOverride ::
    "engineLib \<Rightarrow> engine \<Rightarrow> compiledOverride \<Rightarrow> string \<Rightarrow> string list \<Rightarrow> policyDecision option" where
  "evaluateOverride lib e ov command args =
     (case List.find (\<lambda>g. override_hit lib g args) (co_argsDeny ov) of
        Some g \<Rightarrow> Some (mk_decision DecisionDeny DecisionDeny ''context:override:args_deny''
                          (args_deny_message lib g command args))
      | None \<Rightarrow>
          if list_ex (\<lambda>g. override_hit lib g args) (co_argsAllow ov) then
            Some (mk_decision DecisionAllow DecisionAllow ''context:override:args_allow'' [])
          else
            let def = ToLower (co_defDecision ov)
            in if def = DecisionAllow then
                 Some (mk_decision DecisionAllow DecisionAllow ''context:override:default'' [])
               else if def = DecisionDeny then
                 Some (mk_decision DecisionDeny DecisionDeny ''context:override:default'' [])
               else if def = DecisionApprove then
                 Some (wrapDecision lib e DecisionApprove ''context:override:default'' [] None)
               else None)"

definition command_hit :: "engineLib \<Rightarrow> string \<Rightarrow> string list \<Rightarrow> globPattern \<Rightarrow> bool" where
  "command_hit lib command args g =
     (let cmdBase = ToLower (path_Base command);
          fullCmd = (if args = [] then cmdBase else cmdBase @ '' '' @ join_with CHR '' '' args)
      in glob_Match lib g cmdBase \<or> glob_Match lib g (ToLower command) \<or> glob_Match lib g (ToLower fullCmd))"

text \<open>The temporary policy \<open>Policy{Version: 1, Name: "context", CommandRules: rules}\<close>.\<close>

definition rules_policy :: "commandRule list \<Rightarrow> policy" where
  "rules_policy rules =
     \<lparr>p_FileRules = [], p_NetworkRules = [], p_CommandRules = rules, p_UnixRules = [],
      p_RegistryRules = [], p_SignalRules = [], p_DnsRedirectRules = [], p_ConnectRedirectRules = [],
      p_EnvPolicy = \<lparr>ep_Allow = [], ep_Deny = [], ep_MaxBytes = 0, ep_MaxKeys = 0,
                     ep_BlockIteration = False\<rparr>,
      p_EnvInject = Map.empty, p_HTTPServices = []\<rparr>"

definition context_default :: "engineLib \<Rightarrow> engine \<Rightarrow> string \<Rightarrow> policyDecision" where
  "context_default lib e def =
     (if ToLower def = DecisionAllow then mk_decision DecisionAllow DecisionAllow ''context:default'' []
      else if ToLower def = DecisionApprove then wrapDecision lib e DecisionApprove ''context:default'' [] None
      else mk_decision DecisionDeny DecisionDeny ''context:default''
             [Txt ''command not allowed in this context''])"

text \<open>Step 5: the decision of the context's own command rules, unless it is the default denial.\<close>

definition context_rules :: "engineLib \<Rightarrow> engine \<Rightarrow> commandRule list \<Rightarrow> string \<Rightarrow> string list \<Rightarrow> policyDecision option" where
  "context_rules lib e rules command args =
     (if rules = [] then None
      else case NewEngine lib (rules_policy rules) (en_enforceApprovals e) (en_enforceRedirects e) of
        Inl _ \<Rightarrow> None
      | Inr temp \<Rightarrow>
          let dec = CheckCommand lib temp command args
          in if d_Rule dec \<noteq> ''default-deny-commands'' then Some dec else None)"

definition evaluateContextPolicy ::
    "engineLib \<Rightarrow> engine \<Rightarrow> compiledContext \<Rightarrow> string \<Rightarrow> string list \<Rightarrow> policyDecision" where
  "evaluateContextPolicy lib e pctx command args =
     (let cmdBase = ToLower (path_Base command)
      in if list_ex (command_hit lib command args) (cx_deniedCmds pctx) then
           mk_decision DecisionDeny DecisionDeny ''context:denied_commands''
             [Txt ''command '', Quoted cmdBase, Txt '' denied in this context'']
         else case (case cx_overrides pctx cmdBase of
                      None \<Rightarrow> None | Some ov \<Rightarrow> evaluateOverride lib e ov command args) of
           Some dec \<Rightarrow> dec
         | None \<Rightarrow>
             if list_ex (command_hit lib command args) (cx_requireApproval pctx) then
               wrapDecision lib e DecisionApprove ''context:require_approval'' [] None
             else if list_ex (command_hit lib command args) (cx_allowedCmds pctx) then
               mk_decision DecisionAllow DecisionAllow ''context:allowed_commands'' []
             else case context_rules lib e (px_CommandRules (cx_config pctx)) command args of
               Some dec \<Rightarrow> dec
             | None \<Rightarrow> context_default lib e (px_DefaultDecision (cx_config pctx)))"

section \<open>The check\<close>

definition validateTaint :: "(int \<Rightarrow> processSnapshot option) \<Rightarrow> processTaint \<Rightarrow> validationResult" where
  "validateTaint capture taint =
     (if snap_StartTime (tn_SourceSnapshot taint) \<noteq> 0 then
        ValidateSnapshotDetailed capture (tn_SourcePID taint) (Some (tn_SourceSnapshot taint))
      else ValidationValid)"

definition race_action :: "racePolicyConfig \<Rightarrow> validationResult \<Rightarrow> string \<times> string" where
  "race_action pol res =
     (case res of
        ValidationMissing \<Rightarrow> (race_OnMissingParent pol, ''parent process data unavailable'')
      | ValidationPIDMismatch \<Rightarrow> (race_OnPIDMismatch pol, ''PID was reused by a different process'')
      | ValidationError \<Rightarrow> (race_OnValidationError pol, ''error validating process ancestry'')
      | _ \<Rightarrow> (''deny'', ''unknown validation failure''))"

definition handleRaceCondition ::
    "engineLib \<Rightarrow> contextEngine \<Rightarrow> validationResult \<Rightarrow> processTaint \<Rightarrow> string \<Rightarrow> string list \<Rightarrow> policyDecision" where
  "handleRaceCondition lib ce res taint command args =
     (case findContext ce (tn_ContextName taint) of
        None \<Rightarrow> CheckCommand lib (ce_Engine ce) command args
      | Some pctx \<Rightarrow>
          (case px_RacePolicy (cx_config pctx) of
             None \<Rightarrow> mk_decision DecisionDeny DecisionDeny ''race-condition'' [Txt ''taint validation failed'']
           | Some pol \<Rightarrow>
               (case race_action pol res of (action0, msg) \<Rightarrow>
                  let action = ToLower (if action0 = [] then ''deny'' else action0)
                  in if action = ''allow'' then CheckCommand lib (ce_Engine ce) command args
                     else if action = ''approve'' then
                       (mk_decision DecisionApprove DecisionApprove ''race-condition'' [Txt msg])
                         \<lparr>d_Approval := Some \<lparr>ai_Required = True, ai_Mode = ApprovalModeEnforced\<rparr>\<rparr>
                     else mk_decision DecisionDeny DecisionDeny ''race-condition'' [Txt msg])))"

text \<open>
  Steps 4 and 5: the chain rules, with the effect of marking the process as an agent. The result is the
  decision of the rules, if they make one, and the cache.
\<close>

definition execution_context :: "string \<Rightarrow> string list \<Rightarrow> executionContext" where
  "execution_context command args =
     \<lparr>xc_Comm = path_Base command, xc_Args = args, xc_ExePath = command, xc_Env = None\<rparr>"

definition chain_outcome ::
    "engineLib \<Rightarrow> chainRule list \<Rightarrow> int \<Rightarrow> processTaint \<Rightarrow> executionContext \<Rightarrow> taintCache \<Rightarrow>
     chainRule list \<times> string \<times> taintCache" where
  "chain_outcome lib rules pid taint x cache =
     (case EvaluateWithContinue lib rules (Some taint) (Some x) of (matched, finalAction) \<Rightarrow>
        let marks = list_ex (\<lambda>r. chr_Action r = ActionMarkAsAgent) matched;
            cache = (if marks then fst (MarkAsAgent pid cache) else cache);
            taint = (if marks then taint\<lparr>tn_IsAgent := True\<rparr> else taint)
        in if tn_IsAgent taint then
             case EvaluateWithContinue lib rules (Some taint) (Some x) of (matched, finalAction) \<Rightarrow>
               (matched, finalAction, cache)
           else (matched, finalAction, cache))"

definition chain_decision ::
    "engineLib \<Rightarrow> engine \<Rightarrow> chainRule list \<Rightarrow> string \<Rightarrow> string \<Rightarrow> string list \<Rightarrow> policyDecision option" where
  "chain_decision lib e matched finalAction command args =
     (let rule = ''chain:'' @ chr_Name (last matched); msg = text_message (chr_Message (last matched))
      in if finalAction = ActionAllowNormalPolicy then Some (CheckCommand lib e command args)
         else if finalAction = ActionDeny then Some (mk_decision DecisionDeny DecisionDeny rule msg)
         else if finalAction = ActionApprove then Some (wrapDecision lib e DecisionApprove rule msg None)
         else if finalAction = ActionAllow then Some (mk_decision DecisionAllow DecisionAllow rule msg)
         else None)"

definition CheckCommandWithContext ::
    "engineLib \<Rightarrow> (int \<Rightarrow> processSnapshot option) \<Rightarrow> contextEngine \<Rightarrow> int \<Rightarrow> string \<Rightarrow> string list \<Rightarrow>
     policyDecision \<times> contextEngine" where
  "CheckCommandWithContext lib capture ce pid command args =
     (case IsTainted (ce_taintCache ce) pid of
        None \<Rightarrow> (CheckCommand lib (ce_Engine ce) command args, ce)
      | Some taint \<Rightarrow>
          if validateTaint capture taint \<noteq> ValidationValid then
            (handleRaceCondition lib ce (validateTaint capture taint) taint command args, ce)
          else case findContext ce (tn_ContextName taint) of
            None \<Rightarrow> (CheckCommand lib (ce_Engine ce) command args, ce)
          | Some pctx \<Rightarrow>
              (case cx_chainEvaluator pctx of
                 None \<Rightarrow> (evaluateContextPolicy lib (ce_Engine ce) pctx command args, ce)
               | Some rules \<Rightarrow>
                   (case chain_outcome lib rules pid taint (execution_context command args)
                           (ce_taintCache ce) of (matched, finalAction, cache) \<Rightarrow>
                      let ce' = ce\<lparr>ce_taintCache := cache\<rparr>
                      in case chain_decision lib (ce_Engine ce) matched finalAction command args of
                           Some dec \<Rightarrow> (dec, ce')
                         | None \<Rightarrow> (evaluateContextPolicy lib (ce_Engine ce) pctx command args, ce'))))"

end
