(* ===== verification/Taint_Safety.thy ===== *)
theory Taint_Safety
  imports Context_Engine
begin

text \<open>
  What the taint cache knows about the tree of processes: over any history of spawned and exited
  processes a taint is the trace of a real descent from an AI tool, and without limits on
  depth and age no descendant is missed. Together with the context engine this confines descendants.
\<close>

section \<open>Histories\<close>

text \<open>
  The tree records for every process that was ever spawned its parent and what was known of it. A
  process id is used once, and the parent of a new process has not exited. Entries are cleaned up by age
  only if the cache has a time to live.
\<close>

type_synonym processTree = "int \<rightharpoonup> int \<times> processInfo"

inductive tracked :: "taintCache \<Rightarrow> processTree \<Rightarrow> int set \<Rightarrow> taintCache \<Rightarrow> bool" for c0 where
  tracked_start: "tch_taints c0 = Map.empty \<Longrightarrow> tracked c0 Map.empty {} c0"
| tracked_spawn:
    "tracked c0 tree live c \<Longrightarrow> tree pid = None \<Longrightarrow> pid \<noteq> ppid \<Longrightarrow>
     (\<And>p q i. tree p = Some (q, i) \<Longrightarrow> q \<noteq> pid) \<Longrightarrow> ppid \<in> live \<or> tree ppid = None \<Longrightarrow>
     tracked c0 (tree(pid \<mapsto> (ppid, info))) (insert pid live) (fst (OnSpawn now pid ppid info c))"
| tracked_exit: "tracked c0 tree live c \<Longrightarrow> tracked c0 tree (live - {pid}) (fst (OnExit pid c))"
| tracked_mark: "tracked c0 tree live c \<Longrightarrow> tracked c0 tree live (fst (MarkAsAgent pid c))"
| tracked_cleanup: "tracked c0 tree live c \<Longrightarrow> tch_ttl c0 > 0 \<Longrightarrow> tracked c0 tree live (fst (taint_cleanup now c))"

text \<open>The settings under which a taint is kept as long as its process lives: no limit on depth or age.\<close>

definition keeps_all :: "taintCache \<Rightarrow> bool" where
  "keeps_all c = (tch_maxDepth c \<le> 0 \<and> tch_ttl c \<le> 0)"

text \<open>\<open>lineage tree s p names\<close>: \<open>p\<close> descends from \<open>s\<close>, with these names on the way.\<close>

inductive lineage :: "processTree \<Rightarrow> int \<Rightarrow> int \<Rightarrow> string list \<Rightarrow> bool" for tree where
  lineage_self: "tree s = Some e \<Longrightarrow> lineage tree s s []"
| lineage_child: "lineage tree s q names \<Longrightarrow> tree p = Some (q, i) \<Longrightarrow> lineage tree s p (names @ [inf_Comm i])"

definition source_context :: "taintCache \<Rightarrow> processTree \<Rightarrow> int \<Rightarrow> string option" where
  "source_context c tree s =
     (case (tch_matchesTaintSource c, tree s) of
        (Some matches, Some (q, i)) \<Rightarrow> matches i
      | _ \<Rightarrow> None)"

lemma lineage_known: "lineage tree s p names \<Longrightarrow> tree p \<noteq> None \<and> tree s \<noteq> None"
  by (induction rule: lineage.induct) auto

text \<open>A new process does not change the lineage of the processes that exist.\<close>

lemma lineage_extend_old:
  assumes "tree pid = None" and "\<And>p q i. tree p = Some (q, i) \<Longrightarrow> q \<noteq> pid" and "p \<noteq> pid"
  shows "lineage (tree(pid \<mapsto> e)) s p names \<longleftrightarrow> lineage tree s p names"
proof
  assume "lineage (tree(pid \<mapsto> e)) s p names"
  then show "lineage tree s p names"
    using assms(3)
  proof (induction rule: lineage.induct)
    case (lineage_self s e')
    then show ?case by (auto intro: lineage.lineage_self)
  next
    case (lineage_child s q names p i)
    then have "tree p = Some (q, i)" by simp
    with lineage_child assms(2) show ?case
      by (blast intro: lineage.lineage_child)
  qed
next
  assume "lineage tree s p names"
  then show "lineage (tree(pid \<mapsto> e)) s p names"
  proof (induction rule: lineage.induct)
    case (lineage_self s e')
    then have "s \<noteq> pid" using assms(1) by auto
    with lineage_self show ?case by (intro lineage.lineage_self [of _ _ e']) simp
  next
    case (lineage_child s q names p i)
    then have "p \<noteq> pid" using assms(1) by auto
    with lineage_child show ?case by (intro lineage.lineage_child [of _ _ q]) auto
  qed
qed

lemma lineage_extend_new:
  assumes "tree pid = None" and "\<And>p q i. tree p = Some (q, i) \<Longrightarrow> q \<noteq> pid" and "pid \<noteq> ppid"
  shows "lineage (tree(pid \<mapsto> (ppid, info))) s pid names \<longleftrightarrow>
     s = pid \<and> names = [] \<or> (\<exists>ns. lineage tree s ppid ns \<and> names = ns @ [inf_Comm info])"
proof
  assume "lineage (tree(pid \<mapsto> (ppid, info))) s pid names"
  then show "s = pid \<and> names = [] \<or> (\<exists>ns. lineage tree s ppid ns \<and> names = ns @ [inf_Comm info])"
    using lineage_extend_old [of tree pid ppid] assms
    by (cases rule: lineage.cases) auto
next
  assume "s = pid \<and> names = [] \<or> (\<exists>ns. lineage tree s ppid ns \<and> names = ns @ [inf_Comm info])"
  then show "lineage (tree(pid \<mapsto> (ppid, info))) s pid names"
    using lineage_extend_old [of tree pid ppid] assms
    by (auto intro: lineage_self lineage_child [where q = ppid])
qed

section \<open>The cache and the tree\<close>

text \<open>
  A taint is the trace of a descent from a source: names, classes, depth and context are right, and the
  name and the start time are those of the source.
\<close>

definition genuine :: "taintCache \<Rightarrow> processTree \<Rightarrow> int \<Rightarrow> processTaint \<Rightarrow> bool" where
  "genuine c tree pid t \<longleftrightarrow>
     lineage tree (tn_SourcePID t) pid (tn_Via t) \<and>
     source_context c tree (tn_SourcePID t) = Some (tn_ContextName t) \<and>
     tn_Depth t = int (length (tn_Via t)) \<and>
     (tch_maxDepth c > 0 \<longrightarrow> tn_Depth t \<le> tch_maxDepth c) \<and>
     (\<exists>q i. tree (tn_SourcePID t) = Some (q, i) \<and> tn_SourceName t = inf_Comm i \<and>
        snap_StartTime (tn_SourceSnapshot t) = inf_StartTime i) \<and>
     tn_ViaClasses t =
       map (\<lambda>n. case tch_classifyProcess c of None \<Rightarrow> ClassUnknown | Some f \<Rightarrow> f n) (tn_Via t)"

text \<open>
  The taint of a process below several sources belongs to the topmost one: all other ones descend from
  it.
\<close>

definition topmost :: "taintCache \<Rightarrow> processTree \<Rightarrow> int \<Rightarrow> processTaint \<Rightarrow> bool" where
  "topmost c tree pid t \<longleftrightarrow>
     (\<forall>s names. source_context c tree s \<noteq> None \<and> lineage tree s pid names \<longrightarrow>
        (\<exists>ns. lineage tree (tn_SourcePID t) s ns))"

lemma tracked_settings:
  "tracked c0 tree live c \<Longrightarrow>
     tch_matchesTaintSource c = tch_matchesTaintSource c0 \<and> tch_maxDepth c = tch_maxDepth c0 \<and>
     tch_classifyProcess c = tch_classifyProcess c0"
  by (induction rule: tracked.induct)
    (auto simp: OnSpawn_def OnExit_def MarkAsAgent_def taint_cleanup_def Let_def split: option.splits)

lemma source_context_cong:
  "tch_matchesTaintSource c = tch_matchesTaintSource c' \<Longrightarrow> source_context c tree s = source_context c' tree s"
  by (simp add: source_context_def)

lemma genuine_cong:
  "tch_matchesTaintSource c = tch_matchesTaintSource c' \<Longrightarrow> tch_maxDepth c = tch_maxDepth c' \<Longrightarrow>
   tch_classifyProcess c = tch_classifyProcess c' \<Longrightarrow> genuine c tree p t = genuine c' tree p t"
  by (simp add: genuine_def source_context_def)

lemma source_context_extend:
  "tree pid = None \<Longrightarrow> s \<noteq> pid \<Longrightarrow> source_context c (tree(pid \<mapsto> e)) s = source_context c tree s"
  by (simp add: source_context_def)

lemma genuine_known: "genuine c tree p t \<Longrightarrow> tree p \<noteq> None \<and> tree (tn_SourcePID t) \<noteq> None"
  by (auto simp: genuine_def dest: lineage_known)

lemma genuine_extend:
  assumes "tree pid = None" and "\<And>p q i. tree p = Some (q, i) \<Longrightarrow> q \<noteq> pid" and "genuine c tree p t"
  shows "genuine c (tree(pid \<mapsto> e)) p t"
proof -
  have "p \<noteq> pid" "tn_SourcePID t \<noteq> pid"
    using genuine_known [OF assms(3)] assms(1) by auto
  then show ?thesis
    using assms lineage_extend_old [of tree pid p] source_context_extend [of tree pid]
    by (auto simp: genuine_def)
qed

lemma genuine_child:
  assumes "tree pid = None" and "\<And>p q i. tree p = Some (q, i) \<Longrightarrow> q \<noteq> pid" and "pid \<noteq> ppid"
    and "genuine c tree ppid t" and "\<not> (tch_maxDepth c > 0 \<and> tn_Depth t \<ge> tch_maxDepth c)"
  shows "genuine c (tree(pid \<mapsto> (ppid, info))) pid (child_taint c now t info)"
proof -
  have "tn_SourcePID t \<noteq> pid"
    using genuine_known [OF assms(4)] assms(1) by auto
  then show ?thesis
    using assms lineage_extend_new [of tree pid ppid info] source_context_extend [of tree pid]
    by (auto simp: genuine_def child_taint_def Let_def)
qed

lemma genuine_source:
  assumes "tch_matchesTaintSource c = Some matches" and "matches info = Some ctx"
  shows "genuine c (tree(pid \<mapsto> (ppid, info))) pid (source_taint now pid info ctx)"
  using assms by (auto simp: genuine_def source_taint_def source_context_def intro: lineage_self)

lemma tracked_genuine:
  "tracked c0 tree live c \<Longrightarrow> tch_taints c p = Some t \<Longrightarrow> p \<in> live \<and> genuine c0 tree p t"
proof (induction arbitrary: p t rule: tracked.induct)
  case tracked_start
  then show ?case by simp
next
  case (tracked_spawn tree live c pid ppid info now)
  note set = tracked_settings [OF tracked_spawn.hyps(1)]
  have old: "q \<in> insert pid live \<and> genuine c0 (tree(pid \<mapsto> (ppid, info))) q u"
    if "tch_taints c q = Some u" for q u
    using tracked_spawn.IH [OF that] genuine_extend [of tree pid c0 q u] tracked_spawn.hyps(2,4) by blast
  show ?case
  proof (cases "tch_taints c ppid")
    case (Some u)
    have gen: "genuine c0 tree ppid u"
      using tracked_spawn.IH [OF Some] by blast
    have child: "child_taint c now u info = child_taint c0 now u info"
      using set by (simp add: child_taint_def)
    show ?thesis
    proof (cases "tch_maxDepth c > 0 \<and> tn_Depth u \<ge> tch_maxDepth c")
      case True
      then have "tch_taints c p = Some t"
        using tracked_spawn.prems Some by (simp add: OnSpawn_def)
      then show ?thesis by (rule old)
    next
      case False
      then have "genuine c0 (tree(pid \<mapsto> (ppid, info))) pid (child_taint c0 now u info)"
        using genuine_child [of tree pid ppid c0 u info now] tracked_spawn.hyps(2-4) gen set by auto
      moreover have "p = pid \<and> t = child_taint c0 now u info \<or> tch_taints c p = Some t"
        using tracked_spawn.prems Some False child
        by (auto simp: OnSpawn_def Let_def split: if_splits)
      ultimately show ?thesis
        using old by blast
    qed
  next
    case None
    then have "p = pid \<and> (\<exists>matches ctx. tch_matchesTaintSource c0 = Some matches \<and> matches info = Some ctx \<and>
          t = source_taint now pid info ctx) \<or> tch_taints c p = Some t"
      using tracked_spawn.prems set
      by (auto simp: OnSpawn_def Let_def split: option.splits if_splits)
    then show ?thesis
      using old genuine_source [of c0 _ info _ tree pid ppid now] by blast
  qed
next
  case (tracked_exit tree live c pid)
  then show ?case by (auto simp: OnExit_def split: if_splits)
next
  case (tracked_mark tree live c pid)
  then show ?case by (fastforce simp: MarkAsAgent_def genuine_def split: option.splits if_splits)
next
  case (tracked_cleanup tree live c now)
  then show ?case by (auto simp: taint_cleanup_def split: if_splits)
qed

text \<open>Without limits on depth and age every living descendant of a source is tainted.\<close>

lemma tracked_complete:
  "tracked c0 tree live c \<Longrightarrow> keeps_all c0 \<Longrightarrow> p \<in> live \<Longrightarrow>
   source_context c0 tree s \<noteq> None \<Longrightarrow> lineage tree s p names \<Longrightarrow> tch_taints c p \<noteq> None"
proof (induction arbitrary: p s names rule: tracked.induct)
  case tracked_start
  then show ?case by simp
next
  case (tracked_spawn tree live c pid ppid info now)
  note set = tracked_settings [OF tracked_spawn.hyps(1)]
  note fresh = tracked_spawn.hyps(2,4)
  have keep: "tch_taints c q \<noteq> None \<Longrightarrow> tch_taints (fst (OnSpawn now pid ppid info c)) q \<noteq> None" for q
    by (auto simp: OnSpawn_def Let_def split: option.splits)
  show ?case
  proof (cases "p = pid")
    case False
    then have "lineage tree s p names"
      using tracked_spawn.prems(4) lineage_extend_old [of tree pid p] fresh by blast
    moreover have "s \<noteq> pid"
      using lineage_known [OF calculation] fresh(1) by auto
    ultimately have "tch_taints c p \<noteq> None"
      using tracked_spawn.IH [of p s names] tracked_spawn.prems False source_context_extend [of tree pid s] fresh(1)
      by (auto simp del: fun_upd_apply)
    then show ?thesis by (rule keep)
  next
    case True
    show ?thesis
    proof (cases "tch_taints c ppid")
      case (Some u)
      then show ?thesis
        using True set tracked_spawn.prems(1) by (auto simp: OnSpawn_def keeps_all_def Let_def)
    next
      case None
      have "\<not> lineage tree s ppid ns" for ns
      proof
        assume l: "lineage tree s ppid ns"
        then have "s \<noteq> pid" "ppid \<in> live"
          using lineage_known [OF l] fresh(1) tracked_spawn.hyps(5) by auto
        then show False
          using tracked_spawn.IH [of ppid s ns] tracked_spawn.prems(1,3) l None fresh(1)
            source_context_extend [of tree pid s] by (auto simp del: fun_upd_apply)
      qed
      then have "s = pid"
        using tracked_spawn.prems(4) True lineage_extend_new [of tree pid ppid info] fresh tracked_spawn.hyps(3)
        by blast
      then show ?thesis
        using tracked_spawn.prems(3) None set True
        by (auto simp: OnSpawn_def Let_def source_context_def split: option.splits)
    qed
  qed
next
  case (tracked_exit tree live c pid)
  then show ?case by (auto simp: OnExit_def)
next
  case (tracked_mark tree live c pid)
  then show ?case by (fastforce simp: MarkAsAgent_def split: option.splits)
next
  case (tracked_cleanup tree live c now)
  then show ?case by (simp add: keeps_all_def)
qed

lemma topmost_extend:
  assumes "tree pid = None" and "\<And>p q i. tree p = Some (q, i) \<Longrightarrow> q \<noteq> pid"
    and "tree p \<noteq> None" and "topmost c tree p t"
  shows "topmost c (tree(pid \<mapsto> e)) p t"
  unfolding topmost_def
proof (intro allI impI)
  fix s names
  assume s: "source_context c (tree(pid \<mapsto> e)) s \<noteq> None \<and> lineage (tree(pid \<mapsto> e)) s p names"
  have "p \<noteq> pid" using assms(1,3) by auto
  then have l: "lineage tree s p names"
    using s lineage_extend_old [of tree pid p] assms(1,2) by blast
  then have "s \<noteq> pid"
    using lineage_known [OF l] assms(1) by auto
  then show "\<exists>ns. lineage (tree(pid \<mapsto> e)) (tn_SourcePID t) s ns"
    using s l assms(4) lineage_extend_old [of tree pid s] assms(1,2) source_context_extend [of tree pid s]
    unfolding topmost_def by metis
qed

lemma topmost_child:
  assumes "tree pid = None" and "\<And>p q i. tree p = Some (q, i) \<Longrightarrow> q \<noteq> pid" and "pid \<noteq> ppid"
    and "topmost c tree ppid t" and "genuine c tree ppid t" and "tn_SourcePID u = tn_SourcePID t"
  shows "topmost c (tree(pid \<mapsto> (ppid, info))) pid u"
  unfolding topmost_def
proof (intro allI impI)
  fix s names
  let ?tree = "tree(pid \<mapsto> (ppid, info))"
  assume s: "source_context c ?tree s \<noteq> None \<and> lineage ?tree s pid names"
  show "\<exists>ns. lineage ?tree (tn_SourcePID u) s ns"
  proof (cases "s = pid")
    case True
    then show ?thesis
      using assms(5,6) lineage_extend_new [of tree pid ppid info] assms(1-3)
      unfolding genuine_def by metis
  next
    case False
    then obtain ns where l: "lineage tree s ppid ns"
      using s lineage_extend_new [of tree pid ppid info] assms(1-3) by blast
    then show ?thesis
      using s False assms lineage_extend_old [of tree pid s] source_context_extend [of tree pid s]
      unfolding topmost_def by metis
  qed
qed

lemma topmost_source:
  assumes "tree pid = None" and "\<And>p q i. tree p = Some (q, i) \<Longrightarrow> q \<noteq> pid" and "pid \<noteq> ppid"
    and "\<And>s ns. lineage tree s ppid ns \<Longrightarrow> source_context c tree s = None"
  shows "topmost c (tree(pid \<mapsto> (ppid, info))) pid (source_taint now pid info ctx)"
  unfolding topmost_def
proof (intro allI impI)
  fix s names
  let ?tree = "tree(pid \<mapsto> (ppid, info))"
  assume s: "source_context c ?tree s \<noteq> None \<and> lineage ?tree s pid names"
  have "s = pid"
  proof (rule ccontr)
    assume "s \<noteq> pid"
    then show False
      using s lineage_extend_new [of tree pid ppid info] assms source_context_extend [of tree pid s] by metis
  qed
  moreover have "lineage ?tree pid pid []"
    by (rule lineage_self [of _ _ "(ppid, info)"]) simp
  ultimately show "\<exists>ns. lineage ?tree (tn_SourcePID (source_taint now pid info ctx)) s ns"
    by (auto simp: source_taint_def)
qed

lemma tracked_topmost:
  "tracked c0 tree live c \<Longrightarrow> keeps_all c0 \<Longrightarrow> tch_taints c p = Some t \<Longrightarrow> topmost c0 tree p t"
proof (induction arbitrary: p t rule: tracked.induct)
  case tracked_start
  then show ?case by simp
next
  case (tracked_spawn tree live c pid ppid info now)
  note set = tracked_settings [OF tracked_spawn.hyps(1)]
  note fresh = tracked_spawn.hyps(2,4)
  have old: "topmost c0 (tree(pid \<mapsto> (ppid, info))) q u" if "tch_taints c q = Some u" for q u
    using topmost_extend [of tree pid q c0 u] fresh tracked_spawn.IH [of q u] tracked_spawn.prems(1) that
      genuine_known [of c0 tree q u] tracked_genuine [OF tracked_spawn.hyps(1) that] by blast
  show ?case
  proof (cases "tch_taints c ppid")
    case (Some u)
    have "topmost c0 (tree(pid \<mapsto> (ppid, info))) pid (child_taint c now u info)"
      using topmost_child [of tree pid ppid c0 u "child_taint c now u info" info] fresh
        tracked_spawn.hyps(3) tracked_spawn.IH [OF tracked_spawn.prems(1) Some]
        tracked_genuine [OF tracked_spawn.hyps(1) Some] by (simp add: child_taint_def Let_def)
    moreover have "p = pid \<and> t = child_taint c now u info \<or> tch_taints c p = Some t"
      using tracked_spawn.prems(2) Some by (auto simp: OnSpawn_def Let_def split: if_splits)
    ultimately show ?thesis
      using old by blast
  next
    case None
    have "source_context c0 tree s = None" if l: "lineage tree s ppid ns" for s ns
      using tracked_complete [OF tracked_spawn.hyps(1) tracked_spawn.prems(1), of ppid s ns] None l
        lineage_known [OF l] tracked_spawn.hyps(5) by (cases "source_context c0 tree s") auto
    then have "topmost c0 (tree(pid \<mapsto> (ppid, info))) pid (source_taint now pid info ctx)" for ctx
      using topmost_source [of tree pid ppid c0 info now ctx] fresh tracked_spawn.hyps(3) by blast
    moreover have "p = pid \<and> (\<exists>ctx. t = source_taint now pid info ctx) \<or> tch_taints c p = Some t"
      using tracked_spawn.prems(2) None by (auto simp: OnSpawn_def Let_def split: option.splits if_splits)
    ultimately show ?thesis
      using old by blast
  qed
next
  case (tracked_exit tree live c pid)
  then show ?case by (auto simp: OnExit_def split: if_splits)
next
  case (tracked_mark tree live c pid)
  then show ?case by (fastforce simp: MarkAsAgent_def topmost_def split: option.splits if_splits)
next
  case (tracked_cleanup tree live c now)
  then show ?case by (simp add: keeps_all_def)
qed

section \<open>A sample history\<close>

text \<open>An editor starts a shell, the shell starts a tool, and the editor exits.\<close>

definition sample_info :: "int \<Rightarrow> int \<Rightarrow> string \<Rightarrow> processInfo" where
  "sample_info pid ppid comm =
     \<lparr>inf_PID = pid, inf_PPID = ppid, inf_Comm = comm, inf_ExePath = [], inf_Cmdline = [], inf_StartTime = 7\<rparr>"

definition sample_cache :: taintCache where
  "sample_cache =
     SetMatchesTaintSource (Some (\<lambda>i. if inf_Comm i = ''cursor'' then Some ''ide'' else None)) (NewTaintCache 0 0)"

definition sample_spawn :: "int \<Rightarrow> int \<Rightarrow> string \<Rightarrow> taintCache \<Rightarrow> taintCache" where
  "sample_spawn pid ppid comm c = fst (OnSpawn 0 pid ppid (sample_info pid ppid comm) c)"

definition sample_end :: taintCache where
  "sample_end =
     fst (OnExit 10 (sample_spawn 30 20 ''curl'' (sample_spawn 20 10 ''bash'' (sample_spawn 10 1 ''cursor'' sample_cache))))"

definition sample_tree :: processTree where
  "sample_tree =
     [10 \<mapsto> (1, sample_info 10 1 ''cursor''), 20 \<mapsto> (10, sample_info 20 10 ''bash''),
      30 \<mapsto> (20, sample_info 30 20 ''curl'')]"

lemma sample_step:
  assumes "tracked c0 tree live c" and "tree pid = None" and "pid \<noteq> ppid"
    and "\<forall>p q i. tree p = Some (q, i) \<longrightarrow> q \<noteq> pid" and "ppid \<in> live \<or> tree ppid = None"
  shows "tracked c0 (tree(pid \<mapsto> (ppid, sample_info pid ppid comm))) (insert pid live) (sample_spawn pid ppid comm c)"
  unfolding sample_spawn_def by (rule tracked_spawn) (use assms in blast)+

lemma sample_history: "tracked sample_cache sample_tree {20, 30} sample_end"
proof -
  have "tracked sample_cache Map.empty {} sample_cache"
    by (rule tracked_start) (simp add: sample_cache_def SetMatchesTaintSource_def NewTaintCache_def)
  then have "tracked sample_cache [10 \<mapsto> (1, sample_info 10 1 ''cursor'')] {10} (sample_spawn 10 1 ''cursor'' sample_cache)"
    by (rule sample_step) auto
  then have "tracked sample_cache
      [10 \<mapsto> (1, sample_info 10 1 ''cursor''), 20 \<mapsto> (10, sample_info 20 10 ''bash'')] {20, 10}
      (sample_spawn 20 10 ''bash'' (sample_spawn 10 1 ''cursor'' sample_cache))"
    by (rule sample_step) (auto split: if_splits)
  then have "tracked sample_cache sample_tree {30, 20, 10}
      (sample_spawn 30 20 ''curl'' (sample_spawn 20 10 ''bash'' (sample_spawn 10 1 ''cursor'' sample_cache)))"
    unfolding sample_tree_def by (rule sample_step) (auto split: if_splits)
  from tracked_exit [OF this, of 10] show ?thesis
    by (simp add: sample_end_def insert_commute)
qed

lemmas sample_defs =
  sample_end_def sample_spawn_def sample_cache_def sample_info_def SetMatchesTaintSource_def
  NewTaintCache_def OnSpawn_def OnExit_def child_taint_def source_taint_def IsTainted_def

lemma sample_lineage: "lineage sample_tree 10 30 [''bash'', ''curl'']" "source_context sample_cache sample_tree 10 = Some ''ide''"
    "\<forall>r ns. source_context sample_cache sample_tree r \<noteq> None \<and> lineage sample_tree r 10 ns \<longrightarrow> r = 10"
proof -
  have l: "lineage sample_tree 10 10 []"
    by (rule lineage_self [of _ _ "(1, sample_info 10 1 ''cursor'')"]) (simp add: sample_tree_def)
  have "lineage sample_tree 10 20 ([] @ [inf_Comm (sample_info 20 10 ''bash'')])"
    by (rule lineage_child [OF l]) (simp add: sample_tree_def)
  then have "lineage sample_tree 10 30 (([] @ [inf_Comm (sample_info 20 10 ''bash'')]) @ [inf_Comm (sample_info 30 20 ''curl'')])"
    by (rule lineage_child) (simp add: sample_tree_def)
  then show "lineage sample_tree 10 30 [''bash'', ''curl'']"
    by (simp add: sample_info_def)
  show "source_context sample_cache sample_tree 10 = Some ''ide''"
    by (simp add: source_context_def sample_tree_def sample_cache_def SetMatchesTaintSource_def sample_info_def)
  show "\<forall>r ns. source_context sample_cache sample_tree r \<noteq> None \<and> lineage sample_tree r 10 ns \<longrightarrow> r = 10"
    by (auto simp: source_context_def sample_tree_def sample_cache_def SetMatchesTaintSource_def sample_info_def
        split: if_splits)
qed

section \<open>Taints are ancestry\<close>

text \<open>C8: in any history of spawned and exited processes a taint belongs to a living process and is the
  trace of its descent from a process that matched a taint source. Without limits on depth and age the
  converse holds: a living process is tainted exactly when it or one of its ancestors matched, even
  when that ancestor has exited, and the taint names the topmost of them.
\<close>

theorem taint_tracks_ancestry:
  assumes "tracked c0 tree live c"
  shows "(\<forall>p t. IsTainted c p = Some t \<longrightarrow> p \<in> live \<and> genuine c0 tree p t) \<and>
     (keeps_all c0 \<longrightarrow>
        (\<forall>p \<in> live. IsTainted c p \<noteq> None \<longleftrightarrow>
           (\<exists>s names. source_context c0 tree s \<noteq> None \<and> lineage tree s p names)) \<and>
        (\<forall>p t. IsTainted c p = Some t \<longrightarrow> topmost c0 tree p t))"
proof -
  have gen: "p \<in> live \<and> genuine c0 tree p t" if "tch_taints c p = Some t" for p t
    using tracked_genuine [OF assms that] .
  have "\<exists>s names. source_context c0 tree s \<noteq> None \<and> lineage tree s p names" if known: "tch_taints c p \<noteq> None" for p
  proof -
    obtain t where "tch_taints c p = Some t" using known by blast
    then show ?thesis using gen unfolding genuine_def by blast
  qed
  then show ?thesis
    using gen tracked_complete [OF assms] tracked_topmost [OF assms] unfolding IsTainted_def by blast
qed

theorem taint_tracks_ancestry_witness:
  "IsTainted sample_end 10 = None \<and> map_option tn_Via (IsTainted sample_end 30) = Some [''bash'', ''curl''] \<and>
   (\<exists>t. IsTainted sample_end 30 = Some t \<and> lineage sample_tree 10 30 (tn_Via t) \<and> topmost sample_cache sample_tree 30 t)"
proof -
  have 1: "IsTainted sample_end 10 = None" "map_option tn_Via (IsTainted sample_end 30) = Some [''bash'', ''curl'']"
    "\<And>t. IsTainted sample_end 30 = Some t \<Longrightarrow> tn_SourcePID t = 10" "keeps_all sample_cache"
    by (auto simp: sample_defs keeps_all_def)
  then obtain t where "IsTainted sample_end 30 = Some t" "tn_SourcePID t = 10"
    by auto
  then show ?thesis
    using 1 taint_tracks_ancestry [OF sample_history] unfolding genuine_def by metis
qed

section \<open>Descendants are confined\<close>

lemma tracked_context:
  assumes "tracked c0 tree live c" and "keeps_all c0" and "p \<in> live"
    and "source_context c0 tree s = Some name" and "lineage tree s p names"
    and "\<And>r ns. source_context c0 tree r \<noteq> None \<Longrightarrow> lineage tree r s ns \<Longrightarrow> r = s"
  obtains t q i where "IsTainted c p = Some t" and "tn_SourcePID t = s" and "tn_ContextName t = name"
    and "tree s = Some (q, i)" and "snap_StartTime (tn_SourceSnapshot t) = inf_StartTime i"
proof -
  obtain t where t: "tch_taints c p = Some t"
    using tracked_complete [OF assms(1-3) _ assms(5)] assms(4) by auto
  have g: "genuine c0 tree p t"
    using tracked_genuine [OF assms(1) t] by blast
  obtain ns where "lineage tree (tn_SourcePID t) s ns"
    using tracked_topmost [OF assms(1,2) t] assms(4,5) unfolding topmost_def by fastforce
  then have "tn_SourcePID t = s"
    using assms(6) g unfolding genuine_def by blast
  then show thesis
    using that t g assms(4) unfolding genuine_def IsTainted_def by force
qed

lemma continue_loop_action:
  "continue_loop lib taint ctx matched act rules = (ms, final) \<Longrightarrow> final \<in> insert act (chr_Action ` set rules)"
  by (induction rules arbitrary: matched act) (auto split: if_splits)

lemma chain_outcome_action:
  "chain_outcome lib rules pid taint x cache = (ms, final, cache') \<Longrightarrow> final \<in> insert [] (chr_Action ` set rules)"
  by (auto simp: chain_outcome_def EvaluateWithContinue_def Let_def
      dest!: continue_loop_action split: prod.splits if_splits)


definition ide_context :: processContext where
  "ide_context =
     \<lparr>px_ChainRules = [\<lparr>chr_Name = ''mark'', chr_Priority = 1, chr_Condition = None, chr_Action = ActionMarkAsAgent,
                        chr_Message = [], chr_Continue = True\<rparr>],
      px_CommandRules = [], px_AllowedCommands = [''*''], px_DeniedCommands = [''curl''], px_RequireApproval = [],
      px_CommandOverrides = [], px_DefaultDecision = [], px_RacePolicy = None\<rparr>"

definition ide_engine :: contextEngine where
  "ide_engine =
     \<lparr>ce_Engine = projr (NewEngine plain_lib (rules_policy []) True True), ce_taintCache = sample_end,
      ce_contexts = [''ide'' \<mapsto> projr (compileContext plain_lib ide_context)]\<rparr>"


text \<open>
  The lists of a context see the command as it was started: behind a shell that the context allows, a denied
  command is allowed.
\<close>

lemma denied_command_behind_shell:
  "d_EffectiveDecision (evaluateContextPolicy plain_lib (ce_Engine ide_engine)
     (projr (compileContext plain_lib ide_context)) ''sh'' [''-c'', ''curl x'']) = DecisionAllow"
  by code_simp

end
