(* ===== verification/Chain_Safety.thy ===== *)
theory Chain_Safety
  imports Context_Engine Rule_Safety Go_Bytes "HOL-Library.Sublist"
begin

text \<open>
  The parts of \<open>internal/policy/ancestry\<close> and \<open>internal/policy/pattern\<close> against what they are to
  compute: runs of shells in a chain, the start time of a process, classes of patterns with their
  cache, the choice among chain rules, and the bound on the complexity of regular expressions.
\<close>

section \<open>Runs in a chain\<close>

lemma prefix_replicate:
  "prefix (replicate k t) xs \<longleftrightarrow> k \<le> length (takeWhile (\<lambda>x. x = t) xs)"
proof (induction xs arbitrary: k)
  case (Cons x xs)
  then show ?case by (cases k) auto
qed simp

text \<open>The loop counts the run it is in and the longest run so far.\<close>

lemma count_loop_run:
  "0 \<le> c \<Longrightarrow> c \<le> m \<Longrightarrow>
   int k \<le> count_loop (\<lambda>x. x = t) m c xs \<longleftrightarrow>
     int k \<le> m \<or> int k \<le> c + int (length (takeWhile (\<lambda>x. x = t) xs)) \<or> sublist (replicate k t) xs"
proof (induction xs arbitrary: m c)
  case (Cons x xs)
  then show ?case by (auto simp: sublist_Cons_right prefix_replicate)
qed auto

lemma CountConsecutive_ge: "int k \<le> CountConsecutive classes t \<longleftrightarrow> sublist (replicate k t) classes"
  unfolding CountConsecutive_def
  by (subst count_loop_run) (auto simp: prefix_replicate [symmetric] intro: prefix_imp_sublist)

lemma count_loop_nonneg: "0 \<le> m \<Longrightarrow> 0 \<le> c \<Longrightarrow> 0 \<le> count_loop P m c xs"
  by (induction xs arbitrary: m c) auto

lemma analyze_loop_best:
  "snd (analyze_loop i cur best a xs) = count_loop (\<lambda>x. x = ClassShell) best cur xs"
  by (induction xs arbitrary: i cur best a) (auto split: processClass.splits)

definition class_index :: "processClass \<Rightarrow> processClass list \<Rightarrow> int" where
  "class_index t classes = (if t \<in> set classes then int (length (takeWhile (\<lambda>c. c \<noteq> t) classes)) else -1)"

lemma analyze_loop_flags:
  "ca_HasShell (fst (analyze_loop i cur best a xs)) \<longleftrightarrow> ca_HasShell a \<or> ClassShell \<in> set xs"
  "ca_HasEditor (fst (analyze_loop i cur best a xs)) \<longleftrightarrow> ca_HasEditor a \<or> ClassEditor \<in> set xs"
  "ca_HasAgent (fst (analyze_loop i cur best a xs)) \<longleftrightarrow> ca_HasAgent a \<or> ClassAgent \<in> set xs"
  "ca_HasLanguageServer (fst (analyze_loop i cur best a xs)) \<longleftrightarrow>
     ca_HasLanguageServer a \<or> ClassLanguageServer \<in> set xs"
  by (induction xs arbitrary: i cur best a) (auto split: processClass.splits)

lemma analyze_loop_first:
  "0 \<le> i \<Longrightarrow> ca_FirstShellIndex (fst (analyze_loop i cur best a xs)) =
     (if ca_FirstShellIndex a = -1 \<and> ClassShell \<in> set xs then i + class_index ClassShell xs else ca_FirstShellIndex a)"
  "0 \<le> i \<Longrightarrow> ca_FirstEditorIndex (fst (analyze_loop i cur best a xs)) =
     (if ca_FirstEditorIndex a = -1 \<and> ClassEditor \<in> set xs then i + class_index ClassEditor xs else ca_FirstEditorIndex a)"
  "0 \<le> i \<Longrightarrow> ca_FirstAgentIndex (fst (analyze_loop i cur best a xs)) =
     (if ca_FirstAgentIndex a = -1 \<and> ClassAgent \<in> set xs then i + class_index ClassAgent xs else ca_FirstAgentIndex a)"
  by (induction xs arbitrary: i cur best a) (auto simp: class_index_def split: processClass.splits)

text \<open>C21: the analysis of a chain finds the longest run of shells: the count is \<open>n\<close> exactly when \<open>n\<close> but not
  \<open>n + 1\<close> shells follow each other somewhere, it agrees with \<open>CountConsecutive\<close>, and the flag for laundering
  is set exactly when three shells follow each other. The other fields tell which classes occur and
  where first.
\<close>

theorem AnalyzeChain_exact:
  "let a = AnalyzeChain via classes in
     (\<forall>n. ca_ConsecutiveShells a = int n \<longleftrightarrow>
        sublist (replicate n ClassShell) classes \<and> \<not> sublist (replicate (Suc n) ClassShell) classes) \<and>
     ca_ConsecutiveShells a = CountConsecutive classes ClassShell \<and>
     (ca_ShellLaundering a \<longleftrightarrow> sublist [ClassShell, ClassShell, ClassShell] classes) \<and>
     (ca_HasShell a, ca_HasEditor a, ca_HasAgent a, ca_HasLanguageServer a) =
       (ClassShell \<in> set classes, ClassEditor \<in> set classes, ClassAgent \<in> set classes,
        ClassLanguageServer \<in> set classes) \<and>
     (ca_FirstShellIndex a, ca_FirstEditorIndex a, ca_FirstAgentIndex a) =
       (class_index ClassShell classes, class_index ClassEditor classes, class_index ClassAgent classes)"
proof -
  let ?n = "CountConsecutive classes ClassShell" and ?a = "AnalyzeChain via classes"
  have count: "ca_ConsecutiveShells ?a = ?n" "ca_ShellLaundering ?a \<longleftrightarrow> 3 \<le> ?n"
    using analyze_loop_best [of 0 0 0 "empty_analysis via classes" classes]
    by (auto simp: AnalyzeChain_def CountConsecutive_def split: prod.splits)
  have "?n = int n \<longleftrightarrow> int n \<le> ?n \<and> \<not> int (Suc n) \<le> ?n" for n
    by auto
  moreover have "3 \<le> ?n \<longleftrightarrow> sublist [ClassShell, ClassShell, ClassShell] classes"
    using CountConsecutive_ge [of 3 classes ClassShell] by (simp add: numeral_3_eq_3)
  moreover have "(ca_HasShell ?a, ca_HasEditor ?a, ca_HasAgent ?a, ca_HasLanguageServer ?a) =
       (ClassShell \<in> set classes, ClassEditor \<in> set classes, ClassAgent \<in> set classes,
        ClassLanguageServer \<in> set classes)"
    using analyze_loop_flags [of 0 0 0 "empty_analysis via classes" classes]
    by (auto simp: AnalyzeChain_def empty_analysis_def split: prod.splits)
  moreover have "(ca_FirstShellIndex ?a, ca_FirstEditorIndex ?a, ca_FirstAgentIndex ?a) =
       (class_index ClassShell classes, class_index ClassEditor classes, class_index ClassAgent classes)"
    using analyze_loop_first [of 0 0 0 "empty_analysis via classes" classes]
    by (auto simp: AnalyzeChain_def empty_analysis_def class_index_def split: prod.splits if_splits)
  ultimately show ?thesis
    unfolding Let_def count CountConsecutive_ge by blast
qed

section \<open>Start times\<close>

text \<open>A field of the file \<open>stat\<close>: bytes of ASCII outside white space.\<close>

definition stat_field :: "string \<Rightarrow> bool" where
  "stat_field f = (f \<noteq> [] \<and> list_all (\<lambda>c. (of_char c :: nat) < 128 \<and> \<not> space1 c \<and> c \<noteq> CHR '')'') f)"

lemma ascii_space [simp]: "(of_char a :: nat) < 128 \<Longrightarrow> \<not> space2 a b \<and> \<not> space3 a b c"
  by (auto simp: space2_def space3_def)

lemma space1_blank [simp]: "space1 CHR '' ''"
  by (simp add: space1_def)

text \<open>Over ASCII the loop goes byte by byte.\<close>

lemma fields_loop_ascii:
  "(of_char a :: nat) < 128 \<Longrightarrow>
   fields_loop cur (a # s) = (if space1 a then emit_field cur @ fields_loop [] s else fields_loop (cur @ [a]) s)"
  by (cases s; cases "tl s") (auto simp: emit_field_def)

lemma fields_loop_word:
  "list_all (\<lambda>c. (of_char c :: nat) < 128 \<and> \<not> space1 c) f \<Longrightarrow> fields_loop cur (f @ s) = fields_loop (cur @ f) s"
  by (induction f arbitrary: cur) (auto simp: fields_loop_ascii)

lemma stat_field_word:
  "stat_field f \<Longrightarrow> list_all (\<lambda>c. (of_char c :: nat) < 128 \<and> \<not> space1 c) f" "stat_field f \<Longrightarrow> f \<noteq> []"
  by (auto simp: stat_field_def list_all_iff)

lemma Fields_join: "\<forall>f \<in> set fs. stat_field f \<Longrightarrow> Fields (join_with CHR '' '' fs @ [CHR 0x0A]) = fs"
  unfolding Fields_def
proof (induction fs)
  case Nil
  then show ?case by (simp add: space1_def emit_field_def)
next
  case (Cons f fs)
  then have f: "list_all (\<lambda>c. (of_char c :: nat) < 128 \<and> \<not> space1 c) f" "f \<noteq> []"
    using stat_field_word [of f] by auto
  show ?case
  proof (cases fs)
    case Nil
    then show ?thesis
      using f fields_loop_word [OF f(1), of "[]"] by (simp add: space1_def emit_field_def)
  next
    case (Cons g gs)
    then show ?thesis
      using f fields_loop_word [OF f(1), of "[]"] Cons.IH Cons.prems by (simp add: fields_loop_ascii emit_field_def)
  qed
qed

lemma join_no_paren: "\<forall>f \<in> set fs. stat_field f \<Longrightarrow> CHR '')'' \<notin> set (join_with CHR '' '' fs)"
  by (induction fs rule: induct_list012) (auto simp: stat_field_def list_all_iff)

lemma digits_value_decimal:
  "\<forall>c \<in> set s. is_digit c \<Longrightarrow> digits_value (int n) s = Some (int (foldl (\<lambda>n c. 10 * n + digit_val c) n s))"
proof (induction s arbitrary: n)
  case (Cons c s)
  then show ?case
    using Cons.IH [of "10 * n + digit_val c"]
    by (simp add: digit_value_def is_digit_def digit_val_def Let_def algebra_simps)
qed simp

lemma ParseUint64_Format: "ParseUint64 (FormatUint (unat t)) = Some (t :: 64 word)"
proof -
  have "digits_value 0 (FormatUint (unat t)) = Some (uint t)"
    using digits_value_decimal [of "FormatUint (unat t)" 0] FormatUint_digits
      decimal_val_FormatUint [of "unat t"] by (simp add: decimal_val_def)
  then show ?thesis
    using uint_bounded [of t] by (simp add: ParseUint64_def)
qed

text \<open>C23: the start time of a process is read correctly whatever the name of the process is: a name with
  blanks, parentheses or a forged list of fields does not change which field is read. The fields after
  the name are ASCII words without a closing parenthesis, the twentieth is a decimal number, and the
  file ends in a line feed.
\<close>

theorem start_time_unforgeable:
  assumes "\<forall>f \<in> set fs. stat_field f" and "20 \<le> length fs" and "fs ! 19 = FormatUint (unat t)"
  shows "parseStartTimeFromStat (pid @ '' ('' @ comm @ '') '' @ join_with CHR '' '' fs @ [CHR 0x0A]) = Inr t"
proof -
  let ?s = "join_with CHR '' '' fs @ [CHR 0x0A]"
  have "after_last (\<lambda>c. c = CHR '')'') (pid @ '' ('' @ comm @ '') '' @ ?s) = CHR '' '' # ?s"
    using join_no_paren [OF assms(1)]
    by (auto simp: after_last_def takeWhile_append takeWhile_eq_all_conv [THEN iffD2])
  moreover have "?s \<noteq> []"
    by simp
  ultimately show ?thesis
    using Fields_join [OF assms(1)] assms(2,3) ParseUint64_Format [of t]
    by (simp add: parseStartTimeFromStat_def Let_def del: append_is_Nil_conv)
qed

theorem start_time_unforgeable_witness:
  "parseStartTimeFromStat
     (''7'' @ '' ('' @ ''x) S 1 1 1 1 1 1 1 1 1 1 1 1 1 1 1 1 1 1 99 y'' @ '') '' @
      join_with CHR '' '' (''S'' # replicate 18 ''0'' @ [''4711'']) @ [CHR 0x0A]) = Inr 4711"
proof (rule start_time_unforgeable)
  show "\<forall>f \<in> set (''S'' # replicate 18 ''0'' @ [''4711'']). stat_field f"
    by (auto simp: stat_field_def space1_def)
  have "FormatUint 4711 = ''4711''"
    by (simp add: FormatUint.simps digit_char_def char_of_def bit_0)
  then show "(''S'' # replicate 18 ''0'' @ [''4711'']) ! 19 = FormatUint (unat (4711 :: 64 word))"
    by (simp add: nth_append)
qed simp

section \<open>The choice among chain rules\<close>

lemma better_rule_fold:
  assumes "sorted_wrt (\<lambda>a b. chr_Priority b \<le> chr_Priority a) (r # rs)"
  shows "foldl better_rule r rs \<in> set (r # rs) \<and> chr_Priority (foldl better_rule r rs) = chr_Priority r \<and>
     (chr_Action (foldl better_rule r rs) = ActionDeny \<longleftrightarrow>
        (\<exists>r' \<in> set (r # rs). chr_Priority r' = chr_Priority r \<and> chr_Action r' = ActionDeny))"
  using assms
proof (induction rs arbitrary: r)
  case (Cons s rs)
  let ?b = "better_rule r s"
  have b: "?b \<in> {r, s}" "chr_Priority ?b = chr_Priority r"
      "chr_Action ?b = ActionDeny \<longleftrightarrow>
         (\<exists>r' \<in> {r, s}. chr_Priority r' = chr_Priority r \<and> chr_Action r' = ActionDeny)"
    using Cons.prems by (auto simp: better_rule_def)
  have "sorted_wrt (\<lambda>a b. chr_Priority b \<le> chr_Priority a) (?b # rs)"
    using Cons.prems b(2) by auto
  from Cons.IH [OF this] show ?case
    using b by auto
qed auto

lemma continue_loop_first:
  "\<forall>r \<in> set rules. \<not> chr_Continue r \<Longrightarrow>
   continue_loop lib taint ctx matched act rules =
     (case filter (rule_applies lib taint ctx) rules of
        [] \<Rightarrow> (matched, act)
      | r # _ \<Rightarrow> (matched @ [r], chr_Action r))"
  by (induction rules) auto

lemma sort_rules_props:
  assumes "sorts_slices lib"
  shows "set (sort_rules lib rs) = set rs"
    and "sorted_wrt (\<lambda>a b. chr_Priority b \<le> chr_Priority a) (filter P (sort_rules lib rs))"
  unfolding sort_rules_def
  by (rule mset_eq_setD, rule sort_slice_props [OF assms])
    (rule sorted_wrt_filter, rule sort_slice_props [OF assms])

definition applicable ::
    "engineLib \<Rightarrow> chainRule list \<Rightarrow> processTaint option \<Rightarrow> executionContext option \<Rightarrow> chainRule set" where
  "applicable lib rs taint ctx = {r \<in> set rs. rule_applies lib taint ctx r}"

text \<open>C24: among the chain rules that apply, the rule \<open>Evaluate\<close> returns has the highest priority, and it denies
  exactly when an applicable rule of that priority denies, whatever order the sort leaves equal
  priorities in. Without rules that continue, \<open>EvaluateWithContinue\<close>, which the context engine uses, also
  returns a single applicable rule of the highest priority.
\<close>

theorem chain_rules_by_priority:
  assumes "sorts_slices lib"
  shows "(case chain_Evaluate lib (SetRules lib rs) taint ctx of
       None \<Rightarrow> applicable lib rs taint ctx = {}
     | Some r \<Rightarrow> r \<in> applicable lib rs taint ctx \<and>
         (\<forall>r' \<in> applicable lib rs taint ctx. chr_Priority r' \<le> chr_Priority r) \<and>
         (chr_Action r = ActionDeny \<longleftrightarrow>
            (\<exists>r' \<in> applicable lib rs taint ctx. chr_Priority r' = chr_Priority r \<and> chr_Action r' = ActionDeny))) \<and>
     ((\<forall>r \<in> set rs. \<not> chr_Continue r) \<longrightarrow>
        (case EvaluateWithContinue lib (SetRules lib rs) taint ctx of (matched, action) \<Rightarrow>
           applicable lib rs taint ctx = {} \<and> matched = [] \<and> action = [] \<or>
           (\<exists>r \<in> applicable lib rs taint ctx. matched = [r] \<and> action = chr_Action r \<and>
              (\<forall>r' \<in> applicable lib rs taint ctx. chr_Priority r' \<le> chr_Priority r))))"
proof -
  let ?fs = "filter (rule_applies lib taint ctx) (sort_rules lib rs)"
  have set: "applicable lib rs taint ctx = set ?fs"
    using sort_rules_props(1) [OF assms(1), of rs] by (auto simp: applicable_def)
  have sorted: "sorted_wrt (\<lambda>a b. chr_Priority b \<le> chr_Priority a) ?fs"
    by (rule sort_rules_props(2) [OF assms(1)])
  have cont: "\<forall>r \<in> set rs. \<not> chr_Continue r \<Longrightarrow>
      EvaluateWithContinue lib (SetRules lib rs) taint ctx = (case ?fs of [] \<Rightarrow> ([], []) | r # _ \<Rightarrow> ([r], chr_Action r))"
    using sort_rules_props(1) [OF assms(1), of rs]
    by (simp add: EvaluateWithContinue_def SetRules_def continue_loop_first split: list.splits)
  show ?thesis
  proof (cases ?fs)
    case Nil
    then show ?thesis
      unfolding set using cont by (auto simp: chain_Evaluate_def SetRules_def)
  next
    case (Cons r fs)
    have top: "\<forall>r' \<in> set ?fs. chr_Priority r' \<le> chr_Priority r"
      using sorted Cons by auto
    have eval: "chain_Evaluate lib (SetRules lib rs) taint ctx = Some (foldl better_rule r fs)"
      using Cons by (simp add: chain_Evaluate_def SetRules_def)
    have best: "foldl better_rule r fs \<in> set ?fs \<and> chr_Priority (foldl better_rule r fs) = chr_Priority r \<and>
       (chr_Action (foldl better_rule r fs) = ActionDeny \<longleftrightarrow>
         (\<exists>r' \<in> set ?fs. chr_Priority r' = chr_Priority r \<and> chr_Action r' = ActionDeny))"
      unfolding Cons by (rule better_rule_fold) (use sorted Cons in simp)
    have first: "\<forall>r \<in> set rs. \<not> chr_Continue r \<Longrightarrow>
        EvaluateWithContinue lib (SetRules lib rs) taint ctx = ([r], chr_Action r)" "r \<in> set ?fs"
      using cont unfolding Cons by auto
    show ?thesis
      unfolding set eval using best top first by auto
  qed
qed

text \<open>Two rules of one priority, the one that allows listed first.\<close>

definition tied_rules :: "chainRule list" where
  "tied_rules =
     [\<lparr>chr_Name = ''a'', chr_Priority = 5, chr_Condition = None, chr_Action = ActionAllow, chr_Message = [],
       chr_Continue = False\<rparr>,
      \<lparr>chr_Name = ''d'', chr_Priority = 5, chr_Condition = None, chr_Action = ActionDeny, chr_Message = [],
       chr_Continue = False\<rparr>]"

theorem chain_rules_by_priority_witness:
  "(case chain_Evaluate sorting_lib (SetRules sorting_lib tied_rules) None None of
      None \<Rightarrow> False
    | Some r \<Rightarrow> chr_Action r = ActionDeny)"
proof -
  have app: "applicable sorting_lib tied_rules None None = set tied_rules"
    by (auto simp: applicable_def rule_applies_def condition_Evaluate_def tied_rules_def)
  have "set tied_rules \<noteq> {}" "\<forall>r \<in> set tied_rules. chr_Priority r = 5"
      "\<exists>r \<in> set tied_rules. chr_Action r = ActionDeny"
    by (simp_all add: tied_rules_def)
  then show ?thesis
    using conjunct1 [OF chain_rules_by_priority [OF sorting_lib_sorts, of tied_rules None None]]
    unfolding app by (cases "chain_Evaluate sorting_lib (SetRules sorting_lib tied_rules) None None") auto
qed

text \<open>
  The evaluation the engine uses does not prefer the denial: with a sort that keeps the order of equal
  priorities, the two rules allow.
\<close>

lemma tied_rules_continue:
  "chain_Evaluate sorting_lib (SetRules sorting_lib tied_rules) None None \<noteq> None"
  "snd (EvaluateWithContinue sorting_lib (SetRules sorting_lib tied_rules) None None) = ActionAllow"
  by code_simp+

section \<open>Classes of patterns and their cache\<close>

text \<open>The registries that calls on the built-in one lead to.\<close>

inductive registry_history :: "engineLib \<Rightarrow> classRegistry \<Rightarrow> bool" for lib where
  registry_new: "registry_history lib NewClassRegistry"
| registry_set: "registry_history lib r \<Longrightarrow> registry_history lib (registry_Set name patterns r)"
| registry_extend: "registry_history lib r \<Longrightarrow> registry_history lib (registry_Extend name patterns r)"
| registry_delete: "registry_history lib r \<Longrightarrow> registry_history lib (registry_Delete name r)"
| registry_matches: "registry_history lib r \<Longrightarrow> registry_history lib (snd (registry_Matches lib name input r))"

text \<open>A cached pattern set is the compiled form of the patterns the class has now.\<close>

definition coherent :: "engineLib \<Rightarrow> classRegistry \<Rightarrow> bool" where
  "coherent lib r \<longleftrightarrow>
     (\<forall>name ps. reg_compiled r name = Some ps \<longrightarrow>
        (\<exists>patterns. reg_classes r name = Some patterns \<and> NewPatternSet lib patterns = Inr ps))"

text \<open>Matching without a cache.\<close>

definition class_matches :: "engineLib \<Rightarrow> (string \<rightharpoonup> string list) \<Rightarrow> string \<Rightarrow> string \<Rightarrow> patternError + bool" where
  "class_matches lib classes name input =
     (case classes name of
        None \<Rightarrow> Inl (UnknownClass name)
      | Some patterns \<Rightarrow> bind_result (NewPatternSet lib patterns) (\<lambda>ps. Inr (MatchAny lib ps input)))"

lemma registry_Matches_coherent:
  assumes "coherent lib r"
  shows "fst (registry_Matches lib name input r) = class_matches lib (reg_classes r) name input"
    and "coherent lib (snd (registry_Matches lib name input r))"
    and "reg_classes (snd (registry_Matches lib name input r)) = reg_classes r"
  using assms
  by (fastforce simp: registry_Matches_def class_matches_def coherent_def split: option.splits sum.splits)+

lemma registry_history_coherent: "registry_history lib r \<Longrightarrow> coherent lib r"
proof (induction rule: registry_history.induct)
  case (registry_matches r name input)
  then show ?case by (simp add: registry_Matches_coherent)
qed (auto simp: coherent_def NewClassRegistry_def registry_Set_def registry_Extend_def registry_Delete_def Let_def)

lemma first_class_coherent:
  "coherent lib r \<Longrightarrow>
   fst (first_class lib comm order r) =
     (case List.find (\<lambda>(name, _). class_matches lib (reg_classes r) name comm = Inr True) order of
        None \<Rightarrow> ClassUnknown
      | Some (_, cls) \<Rightarrow> cls)"
proof (induction order arbitrary: r)
  case (Cons entry order)
  obtain name cls where e: "entry = (name, cls)" by fastforce
  obtain res r' where m: "registry_Matches lib name comm r = (res, r')" by fastforce
  show ?case
    using Cons.IH [of r'] registry_Matches_coherent [OF Cons.prems, of name comm] by (simp add: e m)
qed simp

text \<open>C22: the cache of compiled patterns cannot be observed. After any calls on a registry, matching a name
  against a class gives what compiling the present patterns of the class gives, errors included, and
  a classifier without rules of its own returns the first class, in the fixed order, whose present
  patterns match.
\<close>

theorem registry_cache_transparent:
  assumes "registry_history lib r"
  shows "fst (registry_Matches lib name input r) = class_matches lib (reg_classes r) name input \<and>
     fst (Classify lib comm (NewClassifierWithRegistry r)) =
       (case List.find (\<lambda>(name, _). class_matches lib (reg_classes r) name comm = Inr True) class_order of
          None \<Rightarrow> ClassUnknown
        | Some (_, cls) \<Rightarrow> cls)"
  using registry_Matches_coherent(1) [OF registry_history_coherent [OF assms]]
    first_class_coherent [OF registry_history_coherent [OF assms], of comm class_order]
  by (simp add: Classify_def NewClassifierWithRegistry_def case_prod_beta)

theorem registry_cache_transparent_witness:
  "fst (registry_Matches plain_lib ''shell'' ''mysh''
     (registry_Extend ''shell'' [''mysh''] (snd (registry_Matches plain_lib ''shell'' ''mysh'' NewClassRegistry)))) = Inr True"
proof -
  let ?r = "registry_Extend ''shell'' [''mysh''] (snd (registry_Matches plain_lib ''shell'' ''mysh'' NewClassRegistry))"
  have "registry_history plain_lib ?r"
    by (intro registry_extend registry_matches registry_new)
  moreover have "class_matches plain_lib (reg_classes ?r) ''shell'' ''mysh'' = Inr True"
    by code_simp
  ultimately show ?thesis
    using registry_cache_transparent [of plain_lib ?r "''shell''" "''mysh''" "[]"] by simp
qed

section \<open>The complexity of regular expressions\<close>

text \<open>The score over the integers.\<close>

fun regex_score :: "regexTree \<Rightarrow> int" where
  "regex_score (RegexNode rop subs) =
     (let total = sum_list (map regex_score subs)
      in case rop of
           OpStar \<Rightarrow> if total > 1 then total * 100 else total + 10
         | OpPlus \<Rightarrow> if total > 1 then total * 100 else total + 10
         | OpQuest \<Rightarrow> total + 2
         | OpRepeat m \<Rightarrow> total * (if m < 0 then 100 else m) div 10
         | OpConcat \<Rightarrow> total
         | OpAlternate \<Rightarrow> total * 2
         | OpCapture \<Rightarrow> total + 1
         | OpOther \<Rightarrow> 1)"

text \<open>A bound for the numbers met on the way.\<close>

fun regex_peak :: "regexTree \<Rightarrow> int" where
  "regex_peak (RegexNode rop subs) =
     (let total = sum_list (map regex_score subs)
      in max (sum_list (map regex_peak subs))
           (case rop of OpRepeat m \<Rightarrow> total * max 100 m | _ \<Rightarrow> total * 100 + 10))"

lemma regex_score_nonneg: "0 \<le> regex_score t"
proof (induction t)
  case (RegexNode rop subs)
  then have "0 \<le> sum_list (map regex_score subs)"
    by (intro sum_list_nonneg) auto
  then show ?case by (cases rop) (auto simp: Let_def pos_imp_zdiv_nonneg_iff)
qed

lemma wrap64_id: "0 \<le> i \<Longrightarrow> i < 2 ^ 63 \<Longrightarrow> wrap64 i = i"
  by (simp add: wrap64_def sint_sbintrunc' signed_take_bit_int_eq_self)

lemma sum_scores_nonneg: "0 \<le> sum_list (map regex_score ts)"
  by (intro sum_list_nonneg) (auto simp: regex_score_nonneg)

lemma regex_peak_nonneg: "0 \<le> regex_peak t"
  using sum_scores_nonneg by (cases t) (auto simp: Let_def le_max_iff_disj split: regexOp.splits)

lemma regex_peak_sub: "t \<in> set subs \<Longrightarrow> regex_peak t \<le> regex_peak (RegexNode rop subs)"
  using member_le_sum_list [of "regex_peak t" "map regex_peak subs"] regex_peak_nonneg
  by (auto simp: Let_def le_max_iff_disj)

lemma complexity_exact: "regex_peak t < 2 ^ 63 \<Longrightarrow> calculateComplexity t = regex_score t"
proof (induction t)
  case (RegexNode rop subs)
  define n where "n = sum_list (map regex_score subs)"
  have "map calculateComplexity subs = map regex_score subs"
    using RegexNode regex_peak_sub [of _ subs rop] by (auto intro: order.strict_trans1)
  then have sub: "sum_list (map calculateComplexity subs) = n"
    unfolding n_def by (rule arg_cong)
  have n: "0 \<le> n"
    unfolding n_def by (rule sum_scores_nonneg)
  have peak: "(case rop of OpRepeat m \<Rightarrow> n * max 100 m | _ \<Rightarrow> n * 100 + 10) < 2 ^ 63"
    using RegexNode.prems unfolding n_def by (simp add: Let_def)
  show ?case
  proof (cases rop)
    case (OpRepeat m)
    let ?k = "if m < 0 then 100 else m"
    have "n * 1 \<le> n * max 100 m" "n * ?k \<le> n * max 100 m"
      using n by (intro mult_left_mono; simp)+
    moreover have "0 \<le> n * ?k"
      using n by simp
    ultimately have "wrap64 n = n" "wrap64 (n * ?k) = n * ?k"
      using peak n OpRepeat by (auto intro!: wrap64_id simp del: mult_1_right)
    then show ?thesis
      using \<open>0 \<le> n * ?k\<close> unfolding OpRepeat calculateComplexity.simps regex_score.simps sub n_def [symmetric] Let_def
      by (simp add: tenth_def)
  qed (use n peak in \<open>simp_all add: sub n_def [symmetric] Let_def wrap64_id\<close>)
qed

text \<open>\<open>a+\<close>, wrapped \<open>k\<close> times in \<open>( )+\<close>.\<close>

fun nested_plus :: "nat \<Rightarrow> regexTree" where
  "nested_plus 0 = RegexNode OpPlus [RegexNode OpOther []]"
| "nested_plus (Suc k) = RegexNode OpPlus [RegexNode OpCapture [nested_plus k]]"



end
