(* ===== verification/Wal_Reader.thy ===== *)
theory Wal_Reader
  imports Wal_Live
begin

text \<open>
  The reader of the write-ahead log (\<open>internal/store/watchtower/wal/reader.go\<close>). It follows the segment
  directory while the log is written, sealed and collected, and does not hold the lock of the log. An
  open file stays readable when it is renamed or removed, so the directory maps names to files and a
  handle is a file and an offset. A schedule decides which calls fail; reading an open file does not.
  The channel of \<open>Notify\<close> and the list of readers in the log are left out.
\<close>

section \<open>Directory and files\<close>

record disk =
  dk_dir :: "(string \<times> nat) list"
  dk_data :: "nat \<Rightarrow> bytes"
  dk_sched :: "bool list"

definition disk_call :: "(disk \<Rightarrow> walError + 'a) \<Rightarrow> (disk, 'a) io" where
  "disk_call f d =
     (case dk_sched d of
        [] \<Rightarrow> (f d, d)
      | fails # rest \<Rightarrow> ((if fails then Inl ErrIO else f d), d\<lparr>dk_sched := rest\<rparr>))"

definition disk_readdir :: "(disk, string list) io" where
  "disk_readdir = disk_call (\<lambda>d. Inr (map fst (dk_dir d)))"

definition disk_open :: "string \<Rightarrow> (disk, nat) io" where
  "disk_open name = disk_call (\<lambda>d. case map_of (dk_dir d) name of None \<Rightarrow> Inl ErrNotExist | Some f \<Rightarrow> Inr f)"

section \<open>Records and the state of a reader\<close>

datatype walRecord =
    RecordData (rec_Sequence: uint64) (rec_Generation: uint32) (rec_Payload: bytes)
  | RecordLoss uint32 lossRecord

record readerOptions =
  ro_Generation :: uint32
  ro_Start :: uint64

record reader =
  rd_segments :: "segmentEntry list"
  rd_current :: "(nat \<times> nat) option"
  rd_curGen :: uint32
  rd_curIdx :: uint64
  rd_curLive :: bool
  rd_nextScanIdx :: uint64
  rd_lastGoodSeq :: uint64
  rd_lastGoodGen :: uint32
  rd_lastGoodGenSet :: bool
  rd_nextSeq :: uint64
  rd_readerGen :: uint32
  rd_lastEmittedSeq :: uint64
  rd_closed :: bool

type_synonym 'a reader_io = "(reader \<times> disk, 'a) io"

definition modify_reader :: "(reader \<Rightarrow> reader) \<Rightarrow> unit reader_io" where
  "modify_reader f rd = (Inr (), (f (fst rd), snd rd))"

definition scan_entries :: "uint64 \<Rightarrow> string list \<Rightarrow> segmentEntry list" where
  "scan_entries from names =
     sort_key (\<lambda>e. unat (se_idx e))
       (filter (\<lambda>e. \<not> se_idx e < from)
          (List.map_filter entry_for
             (filter (\<lambda>n. hasSuffix n sealedSuffix \<or> hasSuffix n inprogressSuffix) names)))"

definition rescanLocked :: "unit reader_io" where
  "rescanLocked =
     io_bind (io_snd disk_readdir) (\<lambda>names rd.
       let r = fst rd; found = scan_entries (rd_nextScanIdx r) names
       in (Inr (), (r\<lparr>rd_segments := rd_segments r @ found,
                      rd_nextScanIdx := (if found = [] then rd_nextScanIdx r else se_idx (last found) + 1)\<rparr>,
                    snd rd)))"

definition NewReader :: "wal \<Rightarrow> readerOptions \<Rightarrow> disk \<Rightarrow> (walError + reader) \<times> disk" where
  "NewReader w opts d =
     (if w_closed w then (Inl ErrClosed, d)
      else
        let r = \<lparr>rd_segments = [], rd_current = None, rd_curGen = 0, rd_curIdx = 0, rd_curLive = False,
                 rd_nextScanIdx = 0, rd_lastGoodSeq = 0, rd_lastGoodGen = 0, rd_lastGoodGenSet = False,
                 rd_nextSeq = ro_Start opts, rd_readerGen = ro_Generation opts, rd_lastEmittedSeq = 0,
                 rd_closed = False\<rparr>
        in case rescanLocked (r, d) of
             (Inl e, rd) \<Rightarrow> (Inl e, snd rd)
           | (Inr _, rd) \<Rightarrow> (Inr (fst rd), snd rd))"

definition maybeDemoteLiveLocked :: "bool reader_io" where
  "maybeDemoteLiveLocked rd =
     (if \<not> rd_curLive (fst rd) then (Inr False, rd)
      else io_bind (io_snd disk_readdir) (\<lambda>names rd.
        let idx = rd_curIdx (fst rd);
            sealedSamePath = list_ex (\<lambda>n. parseSegmentIndex n = Some idx \<and> is_sealed_name n) names;
            hasNewer = list_ex (\<lambda>n. case parseSegmentIndex n of None \<Rightarrow> False | Some i \<Rightarrow> idx < i) names
        in if \<not> sealedSamePath \<and> \<not> hasNewer then (Inr False, rd)
           else io_then (modify_reader (\<lambda>r. r\<lparr>rd_curLive := False\<rparr>))
                  (io_then rescanLocked (io_return True)) rd) rd)"

section \<open>One turn of the loop of \<open>nextLocked\<close>\<close>

datatype flow = Again | Yield "walRecord option"

text \<open>
  Opening the segment at the head of the queue. A live segment may have been sealed since it was
  queued; then its sealed name is tried. The result tells whether a segment of the right generation is
  open now.
\<close>

definition open_file :: "segmentEntry \<Rightarrow> (disk, (nat \<times> bool) option) io" where
  "open_file e d =
     (case disk_open (se_name e) d of
        (Inr f, d') \<Rightarrow> (Inr (Some (f, hasSuffix (se_name e) inprogressSuffix)), d')
      | (Inl err, d') \<Rightarrow>
          if err \<noteq> ErrNotExist then (Inl err, d')
          else if hasSuffix (se_name e) inprogressSuffix then
            (case disk_open (segmentName (se_idx e)) d' of
               (Inr f, d'') \<Rightarrow> (Inr (Some (f, False)), d'')
             | (Inl err', d'') \<Rightarrow> (if err' = ErrNotExist then (Inr None, d'') else (Inl err', d'')))
          else (Inr None, d'))"

definition open_segment :: "segmentEntry \<Rightarrow> bool reader_io" where
  "open_segment e =
     io_bind (io_snd (open_file e)) (\<lambda>opened rd.
       case opened of
         None \<Rightarrow> (Inr False, rd)
       | Some (f, live) \<Rightarrow>
           (case fst (ReadSegmentHeader (dk_data (snd rd) f)) of
              Inl err \<Rightarrow> (Inl err, rd)
            | Inr hdr \<Rightarrow>
                let r = fst rd; g = sh_Generation hdr
                in if g \<noteq> rd_readerGen r then (Inr False, rd)
                   else
                     let fresh = (\<not> rd_lastGoodGenSet r \<or> g \<noteq> rd_lastGoodGen r)
                     in (Inr True,
                         (r\<lparr>rd_current := Some (f, SegmentHeaderSize), rd_curGen := g, rd_curIdx := se_idx e,
                            rd_curLive := live,
                            rd_lastGoodSeq := (if fresh then 0 else rd_lastGoodSeq r),
                            rd_lastGoodGen := (if fresh then g else rd_lastGoodGen r),
                            rd_lastGoodGenSet := True\<rparr>,
                          snd rd))))"

text \<open>What a payload that was read yields.\<close>

definition surface :: "bytes \<Rightarrow> flow reader_io" where
  "surface payload rd =
     (if isLossMarker payload then
        (case decodeLossPayload payload of
           None \<Rightarrow> (Inl ErrMalformed, rd)
         | Some l \<Rightarrow> (Inr (Yield (Some (RecordLoss (lr_Generation l) l))), rd))
      else case parseSeqGen payload of
        None \<Rightarrow> (Inl ErrMalformed, rd)
      | Some (sq, g) \<Rightarrow>
          let r = (fst rd)\<lparr>rd_lastGoodSeq := sq, rd_lastGoodGen := g, rd_lastGoodGenSet := True\<rparr>
          in if sq < rd_nextSeq r then (Inr Again, (r, snd rd))
             else (Inr (Yield (Some (RecordData sq g (drop 12 payload)))), (r\<lparr>rd_lastEmittedSeq := sq\<rparr>, snd rd)))"

definition crc_loss :: "reader \<Rightarrow> walRecord" where
  "crc_loss r =
     RecordLoss (rd_curGen r)
       \<lparr>lr_FromSequence = rd_lastGoodSeq r + 1, lr_ToSequence = rd_lastGoodSeq r + 1,
        lr_Generation = rd_curGen r, lr_Reason = ''crc_corruption''\<rparr>"

text \<open>Reading one record; the offset moves by the bytes consumed, also when the read fails.\<close>

definition read_step :: "int \<Rightarrow> flow reader_io" where
  "read_step maxRec rd =
     (case rd_current (fst rd) of
        None \<Rightarrow> (Inr Again, rd)
      | Some (f, pos) \<Rightarrow>
          let rest = drop pos (dk_data (snd rd) f)
          in case ReadRecord rest maxRec of (res, rest') \<Rightarrow>
               let moved = ((fst rd)\<lparr>rd_current := Some (f, pos + (length rest - length rest'))\<rparr>, snd rd)
               in case res of
                    Inr payload \<Rightarrow> surface payload moved
                  | Inl err \<Rightarrow>
                      if err = ErrEOF then
                        if rd_curLive (fst rd) then
                          io_bind maybeDemoteLiveLocked
                            (\<lambda>demoted. io_return (if demoted then Again else Yield None)) rd
                        else (Inr Again, ((fst rd)\<lparr>rd_current := None\<rparr>, snd rd))
                      else if err = ErrCRCMismatch then
                        (Inr (Yield (Some (crc_loss (fst rd)))), ((fst rd)\<lparr>rd_current := None\<rparr>, snd rd))
                      else (Inl err, moved))"

definition next_turn :: "int \<Rightarrow> flow reader_io" where
  "next_turn maxRec rd =
     (if rd_current (fst rd) \<noteq> None then read_step maxRec rd
      else
        io_then (if rd_segments (fst rd) = [] then rescanLocked else io_return ()) (\<lambda>rd.
          case rd_segments (fst rd) of
            [] \<Rightarrow> (Inr (Yield None), rd)
          | e # es \<Rightarrow>
              io_bind (open_segment e) (\<lambda>opened. if opened then read_step maxRec else io_return Again)
                ((fst rd)\<lparr>rd_segments := es\<rparr>, snd rd)) rd)"

section \<open>The calls\<close>

partial_function (option) nextLocked ::
    "int \<Rightarrow> reader \<times> disk \<Rightarrow> ((walError + walRecord option) \<times> (reader \<times> disk)) option" where
  "nextLocked maxRec rd =
     (case next_turn maxRec rd of
        (Inl e, rd') \<Rightarrow> Some (Inl e, rd')
      | (Inr (Yield r), rd') \<Rightarrow> Some (Inr r, rd')
      | (Inr Again, rd') \<Rightarrow> nextLocked maxRec rd')"

definition TryNext :: "int \<Rightarrow> reader \<times> disk \<Rightarrow> ((walError + walRecord option) \<times> (reader \<times> disk)) option" where
  "TryNext maxRec rd = (if rd_closed (fst rd) then Some (Inl ErrReaderClosed, rd) else nextLocked maxRec rd)"

definition reader_Next :: "int \<Rightarrow> reader \<times> disk \<Rightarrow> ((walError + walRecord) \<times> (reader \<times> disk)) option" where
  "reader_Next maxRec rd =
     (if rd_closed (fst rd) then Some (Inl ErrReaderClosed, rd)
      else map_option (\<lambda>(res, rd').
             (case res of Inl e \<Rightarrow> Inl e | Inr None \<Rightarrow> Inl ErrEOF | Inr (Some r) \<Rightarrow> Inr r, rd')) (nextLocked maxRec rd))"

definition LastSequence :: "reader \<Rightarrow> uint64" where
  "LastSequence r = rd_lastEmittedSeq r"

text \<open>\<open>Close\<close> and \<open>closeFromWALLocked\<close>.\<close>

definition closeFromWALLocked :: "reader \<Rightarrow> reader" where
  "closeFromWALLocked r = (if rd_closed r then r else r\<lparr>rd_closed := True, rd_current := None\<rparr>)"

definition reader_Close :: "reader \<Rightarrow> reader" where
  "reader_Close r = (if rd_closed r then r else r\<lparr>rd_closed := True, rd_current := None\<rparr>)"

end
