(* ===== verification/Reader_View.thy ===== *)
theory Reader_View
  imports Wal_Reader "HOL-Library.Sublist" "HOL-Library.Multiset"
begin

text \<open>
  The log as a reader of it sees it: what the log does to its directory, what is in a segment at any
  moment, and where in all this a reader stands.
\<close>

section \<open>What the log does to its directory\<close>

abbreviation sealed_file :: "nat \<Rightarrow> string" where
  "sealed_file i \<equiv> segmentName (word_of_nat i)"

abbreviation live_file :: "nat \<Rightarrow> string" where
  "live_file i \<equiv> segmentName (word_of_nat i) @ inProgressSuffix"

text \<open>
  For every segment the header and the payloads that will ever be written to it. What is in the file
  at any moment is the beginning of that, cut off anywhere.
\<close>

type_synonym segmentPlan = "nat \<Rightarrow> segmentHeader \<times> bytes list"

definition header_bytes :: "segmentHeader \<Rightarrow> bytes" where
  "header_bytes h = projr (WriteSegmentHeader h)"

definition plan_ok :: "int \<Rightarrow> segmentPlan \<Rightarrow> bool" where
  "plan_ok maxRec plan \<longleftrightarrow>
     max_ok maxRec \<and>
     (\<forall>i. sh_Version (fst (plan i)) = SegmentVersion \<and> (\<exists>bs. WriteSegmentHeader (fst (plan i)) = Inr bs) \<and>
        (\<forall>p \<in> set (snd (plan i)). fits maxRec p \<and>
           (if isLossMarker p then decodeLossPayload p \<noteq> None else 12 \<le> length p)))"

definition first_bytes :: "segmentPlan \<Rightarrow> nat \<Rightarrow> nat \<Rightarrow> bytes" where
  "first_bytes plan i k = header_bytes (fst (plan i)) @ frames (take k (snd (plan i)))"

definition final_bytes :: "segmentPlan \<Rightarrow> nat \<Rightarrow> bytes" where
  "final_bytes plan i = header_bytes (fst (plan i)) @ frames (snd (plan i))"

definition whole :: "segmentPlan \<Rightarrow> nat \<Rightarrow> bytes \<Rightarrow> bool" where
  "whole plan i bs \<longleftrightarrow> (\<exists>k. bs = first_bytes plan i k)"

text \<open>
  The log creates one live segment at a time under the next index, appends to it in pieces of any
  size, seals it between two records and removes sealed segments. Calls of the reader may fail at any
  time.
\<close>

inductive log_step :: "segmentPlan \<Rightarrow> nat \<times> disk \<Rightarrow> nat \<times> disk \<Rightarrow> bool" for plan where
  log_create:
    "\<forall>(nm, i) \<in> set (dk_dir d). nm = sealed_file i \<Longrightarrow> Suc n < 2 ^ 64 \<Longrightarrow>
     log_step plan (n, d) (Suc n, d\<lparr>dk_dir := (live_file n, n) # dk_dir d, dk_data := (dk_data d)(n := [])\<rparr>)"
| log_write:
    "(live_file i, i) \<in> set (dk_dir d) \<Longrightarrow> prefix (dk_data d i @ bs) (final_bytes plan i) \<Longrightarrow>
     log_step plan (n, d) (n, d\<lparr>dk_data := (dk_data d)(i := dk_data d i @ bs)\<rparr>)"
| log_seal:
    "(live_file i, i) \<in> set (dk_dir d) \<Longrightarrow> whole plan i (dk_data d i) \<Longrightarrow>
     log_step plan (n, d) (n, d\<lparr>dk_dir := map (\<lambda>e. if e = (live_file i, i) then (sealed_file i, i) else e) (dk_dir d)\<rparr>)"
| log_remove:
    "log_step plan (n, d) (n, d\<lparr>dk_dir := filter (\<lambda>e. e \<noteq> (sealed_file i, i)) (dk_dir d)\<rparr>)"
| log_sched: "log_step plan (n, d) (n, d\<lparr>dk_sched := s\<rparr>)"

definition empty_disk :: disk where
  "empty_disk = \<lparr>dk_dir = [], dk_data = (\<lambda>_. []), dk_sched = []\<rparr>"

section \<open>Names\<close>

lemma sealed_name:
  "\<not> hasSuffix (segmentName i) inprogressSuffix" "hasSuffix (segmentName i) sealedSuffix"
  "parseSegmentIndex (segmentName i) = Some i"
proof -
  let ?d = "replicate (10 - length (FormatUint (unat i))) (CHR ''0'') @ FormatUint (unat i)"
  have eq: "segmentName i = ?d @ sealedSuffix"
    by (simp add: segmentName_def Let_def)
  show a: "\<not> hasSuffix (segmentName i) inprogressSuffix"
  proof
    assume "hasSuffix (segmentName i) inprogressSuffix"
    then obtain a where "segmentName i = a @ inprogressSuffix"
      unfolding hasSuffix_def by (metis append_take_drop_id)
    then have "last (segmentName i) = CHR ''S''"
      by simp
    then show False by (simp add: eq)
  qed
  show b: "hasSuffix (segmentName i) sealedSuffix"
    unfolding eq by (rule hasSuffix_append)
  show "parseSegmentIndex (segmentName i) = Some i"
    using a b unfolding parseSegmentIndex_def by (simp only: eq trimSuffix_append ParseUint_padded simp_thms if_True if_False)
qed

lemma unat_of_nat64: "i < 2 ^ 64 \<Longrightarrow> unat (word_of_nat i :: uint64) = i"
  by (simp add: unsigned_of_nat take_bit_nat_eq_self)

lemma names_distinct [simp]:
  "i < 2 ^ 64 \<Longrightarrow> j < 2 ^ 64 \<Longrightarrow> sealed_file i = sealed_file j \<longleftrightarrow> i = j"
  "i < 2 ^ 64 \<Longrightarrow> j < 2 ^ 64 \<Longrightarrow> live_file i = live_file j \<longleftrightarrow> i = j"
  "sealed_file i \<noteq> live_file j" "live_file j \<noteq> sealed_file i"
proof -
  show one: "sealed_file i = sealed_file j \<longleftrightarrow> i = j" if "i < 2 ^ 64" "j < 2 ^ 64"
    using that sealed_name(3) by (metis option.inject unat_of_nat64)
  then show "i < 2 ^ 64 \<Longrightarrow> j < 2 ^ 64 \<Longrightarrow> live_file i = live_file j \<longleftrightarrow> i = j"
    by simp
  show "sealed_file i \<noteq> live_file j" "live_file j \<noteq> sealed_file i"
    using sealed_name(1) live_name(1) by metis+
qed

section \<open>The directory\<close>

definition log_inv :: "segmentPlan \<Rightarrow> nat \<Rightarrow> disk \<Rightarrow> bool" where
  "log_inv plan n d \<longleftrightarrow>
     n < 2 ^ 64 \<and> distinct (map snd (dk_dir d)) \<and>
     (\<forall>(nm, i) \<in> set (dk_dir d). i < n \<and> (nm = sealed_file i \<or> nm = live_file i \<and> Suc i = n)) \<and>
     (\<forall>i < n. prefix (dk_data d i) (final_bytes plan i)) \<and>
     (\<forall>i < n. (live_file i, i) \<notin> set (dk_dir d) \<longrightarrow> whole plan i (dk_data d i))"

text \<open>A segment that is no longer written to.\<close>

definition frozen :: "nat \<Rightarrow> disk \<Rightarrow> nat \<Rightarrow> bool" where
  "frozen n d i \<longleftrightarrow> i < n \<and> (live_file i, i) \<notin> set (dk_dir d)"

lemma log_inv_empty: "log_inv plan 0 empty_disk"
  by (simp add: log_inv_def empty_disk_def)

lemma log_invI:
  assumes "n < 2 ^ 64" and "distinct (map snd (dk_dir d))"
    and "\<And>nm i. (nm, i) \<in> set (dk_dir d) \<Longrightarrow> i < n \<and> (nm = sealed_file i \<or> nm = live_file i \<and> Suc i = n)"
    and "\<And>i. i < n \<Longrightarrow> prefix (dk_data d i) (final_bytes plan i)"
    and "\<And>i. i < n \<Longrightarrow> (live_file i, i) \<notin> set (dk_dir d) \<Longrightarrow> whole plan i (dk_data d i)"
  shows "log_inv plan n d"
  using assms unfolding log_inv_def by blast

lemma log_invD:
  assumes "log_inv plan n d"
  shows "n < 2 ^ 64" "distinct (map snd (dk_dir d))"
    "(nm, i) \<in> set (dk_dir d) \<Longrightarrow> i < n \<and> (nm = sealed_file i \<or> nm = live_file i \<and> Suc i = n)"
    "i < n \<Longrightarrow> prefix (dk_data d i) (final_bytes plan i)"
    "i < n \<Longrightarrow> (live_file i, i) \<notin> set (dk_dir d) \<Longrightarrow> whole plan i (dk_data d i)"
  using assms unfolding log_inv_def by blast+

lemma log_inv_entry:
  "log_inv plan n d \<Longrightarrow> (nm, i) \<in> set (dk_dir d) \<Longrightarrow>
     i < n \<and> i < 2 ^ 64 \<and> (nm = sealed_file i \<or> nm = live_file i \<and> Suc i = n)"
  using log_invD(1,3) by (meson less_trans)

lemma log_inv_unique:
  "log_inv plan n d \<Longrightarrow> (nm, i) \<in> set (dk_dir d) \<Longrightarrow> (nm', i) \<in> set (dk_dir d) \<Longrightarrow> nm = nm'"
  unfolding log_inv_def distinct_map inj_on_def by (metis prod.inject snd_conv)

lemma log_inv_names: "log_inv plan n d \<Longrightarrow> distinct (map fst (dk_dir d))"
  unfolding distinct_map
proof (intro conjI inj_onI)
  assume inv: "log_inv plan n d"
  then show "distinct (dk_dir d)"
    by (simp add: log_inv_def distinct_map)
  fix a b
  assume ab: "a \<in> set (dk_dir d)" "b \<in> set (dk_dir d)" "fst a = fst b"
  obtain nm i j where eq: "a = (nm, i)" "b = (nm, j)"
    using ab(3) by (metis prod.collapse)
  then have "i = j"
    using ab log_inv_entry [OF inv, of nm i] log_inv_entry [OF inv, of nm j] by auto
  then show "a = b"
    by (simp add: eq)
qed

lemma log_inv_lookup:
  "log_inv plan n d \<Longrightarrow> map_of (dk_dir d) nm = Some i \<longleftrightarrow> (nm, i) \<in> set (dk_dir d)"
  by (rule map_of_eq_Some_iff) (rule log_inv_names)

lemma log_step_inv:
  assumes "log_step plan (n, d) (n', d')" and "log_inv plan n d"
  shows "log_inv plan n' d'"
  using assms(1)
proof cases
  case log_create
  show ?thesis
  proof (rule log_invI)
    show "distinct (map snd (dk_dir d'))"
      using log_create log_invD(2,3) [OF assms(2)] by fastforce
    show "i < n' \<and> (nm = sealed_file i \<or> nm = live_file i \<and> Suc i = n')" if "(nm, i) \<in> set (dk_dir d')" for nm i
      using that log_create(1,2,3) log_invD(3) [OF assms(2), of nm i] by auto
    show "prefix (dk_data d' i) (final_bytes plan i)" if "i < n'" for i
      using that log_create(1,2) log_invD(4) [OF assms(2), of i] by (cases "i = n") auto
    show "whole plan i (dk_data d' i)" if "i < n'" "(live_file i, i) \<notin> set (dk_dir d')" for i
      using that log_create(1,2) log_invD(5) [OF assms(2), of i] by (cases "i = n") auto
  qed (use log_create in simp)
next
  case (log_write i bs)
  show ?thesis
    by (rule log_invI) (use log_write log_invD [OF assms(2)] in auto)
next
  case (log_seal i)
  have snd: "map snd (dk_dir d') = map snd (dk_dir d)"
    using log_seal by simp
  show ?thesis
  proof (rule log_invI)
    show "distinct (map snd (dk_dir d'))"
      unfolding snd by (rule log_invD(2) [OF assms(2)])
  qed (use log_seal log_invD [OF assms(2)] in \<open>auto split: if_splits\<close>)
next
  case (log_remove i)
  show ?thesis
    by (rule log_invI) (use log_remove log_invD [OF assms(2)] in \<open>auto simp: distinct_map_filter\<close>)
next
  case (log_sched s)
  then show ?thesis using assms(2) by (simp add: log_inv_def)
qed

lemma log_step_frozen:
  assumes "log_step plan (n, d) (n', d')" and "log_inv plan n d" and "frozen n d i"
  shows "frozen n' d' i \<and> dk_data d' i = dk_data d i"
  using assms(1)
proof cases
  case log_create
  then show ?thesis using assms(2,3) by (auto simp: frozen_def)
qed (use assms(3) in \<open>auto simp: frozen_def\<close>)

lemma lookup_live:
  assumes "log_inv plan n d" and "i < 2 ^ 64" and "map_of (dk_dir d) (live_file i) = Some f"
  shows "f = i"
proof -
  have "(live_file i, f) \<in> set (dk_dir d)"
    using assms log_inv_lookup by blast
  from log_inv_entry [OF assms(1) this] show ?thesis
    using names_distinct(2) [OF assms(2), of f] names_distinct(4) [of i f] by blast
qed

lemma lookup_sealed:
  assumes "log_inv plan n d" and "i < n" and "map_of (dk_dir d) (sealed_file i) = Some f"
  shows "f = i \<and> frozen n d i"
proof -
  have f: "(sealed_file i, f) \<in> set (dk_dir d)" and i: "i < 2 ^ 64"
    using assms log_inv_lookup log_invD(1) by (blast, meson less_trans)
  have "f = i"
    using log_inv_entry [OF assms(1) f] names_distinct(1) [OF i, of f] names_distinct(3) [of i f] by blast
  then show ?thesis
    using f log_inv_unique [OF assms(1), of "sealed_file i" i "live_file i"] names_distinct(3) [of i i] assms(2)
    unfolding frozen_def by blast
qed

lemma lookup_absent:
  assumes "log_inv plan n d" and "map_of (dk_dir d) (sealed_file i) = None" and "map_of (dk_dir d) (live_file i) = None"
  shows "(nm, i) \<notin> set (dk_dir d)"
proof
  assume "(nm, i) \<in> set (dk_dir d)"
  then have "(sealed_file i, i) \<in> set (dk_dir d) \<or> (live_file i, i) \<in> set (dk_dir d)"
    using log_inv_entry [OF assms(1)] by blast
  then show False
    using assms(2,3) by (force simp: map_of_eq_None_iff)
qed

section \<open>The contents of a segment\<close>

definition gen_of :: "segmentPlan \<Rightarrow> nat \<Rightarrow> uint32" where
  "gen_of plan i = sh_Generation (fst (plan i))"

text \<open>The payloads in a file, and the records a reader shows for payloads.\<close>

definition stored :: "int \<Rightarrow> bytes \<Rightarrow> bytes list" where
  "stored maxRec bs = fst (read_records (drop SegmentHeaderSize bs) maxRec)"

definition surfaced :: "uint64 \<Rightarrow> bytes \<Rightarrow> walRecord option" where
  "surfaced start p =
     (if isLossMarker p then map_option (\<lambda>l. RecordLoss (lr_Generation l) l) (decodeLossPayload p)
      else case parseSeqGen p of
        None \<Rightarrow> None
      | Some (sq, g) \<Rightarrow> if sq < start then None else Some (RecordData sq g (drop 12 p)))"

definition visible :: "uint64 \<Rightarrow> bytes list \<Rightarrow> walRecord list" where
  "visible start ps = List.map_filter (surfaced start) ps"

lemma visible_append [simp]: "visible start (ps @ qs) = visible start ps @ visible start qs"
  by (simp add: visible_def map_filter_def)

lemma plan_header:
  assumes "plan_ok maxRec plan"
  shows "WriteSegmentHeader (fst (plan i)) = Inr (header_bytes (fst (plan i)))"
    and "length (header_bytes (fst (plan i))) = SegmentHeaderSize"
proof -
  obtain bs where "WriteSegmentHeader (fst (plan i)) = Inr bs"
    using assms unfolding plan_ok_def by blast
  then show "WriteSegmentHeader (fst (plan i)) = Inr (header_bytes (fst (plan i)))"
    by (simp add: header_bytes_def)
  then show "length (header_bytes (fst (plan i))) = SegmentHeaderSize"
    by (rule header_length)
qed

lemma plan_payload:
  assumes "plan_ok maxRec plan" and "k < length (snd (plan i))"
  shows "fits maxRec (snd (plan i) ! k)"
    and "isLossMarker (snd (plan i) ! k) \<Longrightarrow> decodeLossPayload (snd (plan i) ! k) \<noteq> None"
    and "\<not> isLossMarker (snd (plan i) ! k) \<Longrightarrow> parseSeqGen (snd (plan i) ! k) \<noteq> None"
proof -
  have "fits maxRec (snd (plan i) ! k) \<and>
      (if isLossMarker (snd (plan i) ! k) then decodeLossPayload (snd (plan i) ! k) \<noteq> None
       else 12 \<le> length (snd (plan i) ! k))"
    using assms(1) nth_mem [OF assms(2)] unfolding plan_ok_def by blast
  then show "fits maxRec (snd (plan i) ! k)"
    and "isLossMarker (snd (plan i) ! k) \<Longrightarrow> decodeLossPayload (snd (plan i) ! k) \<noteq> None"
    and "\<not> isLossMarker (snd (plan i) ! k) \<Longrightarrow> parseSeqGen (snd (plan i) ! k) \<noteq> None"
    by (auto simp: parseSeqGen_def)
qed

lemma read_records_Nil: "max_ok m \<Longrightarrow> read_records [] m = ([], ErrEOF)"
  by (rule read_records_stop) (simp add: ReadRecord_def ReadFull_def)

lemma stored_first:
  assumes "plan_ok maxRec plan"
  shows "stored maxRec (first_bytes plan i k) = take k (snd (plan i))"
proof -
  have "max_ok maxRec" "\<forall>p \<in> set (take k (snd (plan i))). fits maxRec p"
    using assms unfolding plan_ok_def by (blast dest: in_set_takeD)+
  from read_records_frames [OF this, of "[]"] show ?thesis
    using plan_header(2) [OF assms] read_records_Nil [OF \<open>max_ok maxRec\<close>]
    by (simp add: stored_def first_bytes_def)
qed

lemma header_read:
  assumes "plan_ok maxRec plan" and "prefix bs (final_bytes plan i)" and "fst (ReadSegmentHeader bs) = Inr h"
  shows "h = fst (plan i) \<and> prefix (first_bytes plan i 0) bs"
proof -
  let ?h = "header_bytes (fst (plan i))"
  have len: "length ?h \<le> length bs"
    using assms(3) plan_header(2) [OF assms(1)]
    by (auto simp: ReadSegmentHeader_def ReadFull_def split: if_splits)
  then obtain r where "bs = ?h @ r"
    using assms(2) unfolding final_bytes_def by (metis prefix_length_prefix prefixI prefixE)
  moreover have "sh_Version (fst (plan i)) = SegmentVersion"
    using assms(1) unfolding plan_ok_def by blast
  ultimately show ?thesis
    using ReadSegmentHeader_Write [OF plan_header(1) [OF assms(1)]] assms(3) by (auto simp: first_bytes_def)
qed

lemma header_read_whole:
  assumes "plan_ok maxRec plan" and "whole plan i bs"
  shows "fst (ReadSegmentHeader bs) = Inr (fst (plan i))"
proof -
  have "sh_Version (fst (plan i)) = SegmentVersion"
    using assms(1) unfolding plan_ok_def by blast
  then show ?thesis
    using assms(2) ReadSegmentHeader_Write [OF plan_header(1) [OF assms(1)]]
    by (auto simp: whole_def first_bytes_def)
qed

lemma first_bytes_Suc:
  "k < length (snd (plan i)) \<Longrightarrow> first_bytes plan i (Suc k) = first_bytes plan i k @ record_frame (snd (plan i) ! k)"
  by (simp add: first_bytes_def take_Suc_conv_app_nth)

text \<open>Behind whole records there is nothing, a whole record, or a record cut short.\<close>

lemma next_frame:
  assumes "plan_ok maxRec plan" and "prefix (first_bytes plan i k @ t) (final_bytes plan i)" and "k \<le> length (snd (plan i))"
  obtains (at_end) "t = []" "ReadRecord t maxRec = (Inl ErrEOF, [])"
  | (full) p t' where "k < length (snd (plan i))" "p = snd (plan i) ! k" "t = record_frame p @ t'"
      "ReadRecord t maxRec = (Inr p, t')"
  | (torn) "k < length (snd (plan i))" "0 < length t" "length t < length (record_frame (snd (plan i) ! k))"
      "fst (ReadRecord t maxRec) = Inl ErrUnexpectedEOF"
proof -
  let ?ps = "snd (plan i)"
  have m: "max_ok maxRec"
    using assms(1) unfolding plan_ok_def by blast
  have "final_bytes plan i = first_bytes plan i k @ frames (drop k ?ps)"
    by (simp add: final_bytes_def first_bytes_def flip: frames_simps(3))
  then have t: "prefix t (frames (drop k ?ps))"
    using assms(2) by simp
  show thesis
  proof (cases "t = []")
    case True
    then show thesis
      using m at_end by (simp add: ReadRecord_def ReadFull_def)
  next
    case False
    then have k: "k < length ?ps"
      using t by (cases "k < length ?ps") auto
    let ?p = "?ps ! k"
    have fit: "fits maxRec ?p"
      by (rule plan_payload(1) [OF assms(1) k])
    have t': "prefix t (record_frame ?p @ frames (drop (Suc k) ?ps))"
      using t by (simp add: Cons_nth_drop_Suc [OF k, symmetric])
    show thesis
    proof (cases "length t < length (record_frame ?p)")
      case True
      then have "t = take (length t) (record_frame ?p)"
        using t' by (auto simp: prefix_def append_eq_append_conv2)
      then show thesis
        using ReadRecord_torn [OF m fit True] torn k True False by simp
    next
      case False
      then obtain t'' where "t = record_frame ?p @ t''"
        using t' by (metis not_less prefixE prefixI prefix_length_prefix)
      then show thesis
        using full [of ?p t''] k ReadRecord_frame [OF m fit] by simp
    qed
  qed
qed

section \<open>Where a reader stands\<close>

definition cur_idx :: "reader \<Rightarrow> nat list" where
  "cur_idx r = (case rd_current r of None \<Rightarrow> [] | Some (f, _) \<Rightarrow> [f])"

definition queue_idx :: "reader \<Rightarrow> nat list" where
  "queue_idx r = map (\<lambda>e. unat (se_idx e)) (rd_segments r)"

text \<open>
  Segments \<open>ops\<close> have been read to their end, then comes the current one, then the queue, in the order of the
  indices. No segment of the reader's generation with an index below the next scan is outside of them.
\<close>

definition queued :: "segmentPlan \<Rightarrow> nat \<Rightarrow> disk \<Rightarrow> reader \<Rightarrow> nat list \<Rightarrow> bool" where
  "queued plan n d r ops \<longleftrightarrow>
     sorted_wrt (<) (ops @ cur_idx r @ queue_idx r) \<and>
     (\<forall>i \<in> set (ops @ cur_idx r @ queue_idx r). i < unat (rd_nextScanIdx r)) \<and>
     unat (rd_nextScanIdx r) \<le> n \<and>
     (\<forall>e \<in> set (rd_segments r). se_name e = segmentName (se_idx e) \<and> frozen n d (unat (se_idx e)) \<or>
        se_name e = segmentName (se_idx e) @ inProgressSuffix) \<and>
     (\<forall>(nm, i) \<in> set (dk_dir d). gen_of plan i = rd_readerGen r \<and> i < unat (rd_nextScanIdx r) \<longrightarrow>
        i \<in> set (ops @ cur_idx r @ queue_idx r)) \<and>
     (\<forall>i \<in> set ops. gen_of plan i = rd_readerGen r \<and> frozen n d i)"

definition shown :: "int \<Rightarrow> disk \<Rightarrow> uint64 \<Rightarrow> nat list \<Rightarrow> walRecord list" where
  "shown maxRec d start ops = concat (map (\<lambda>i. visible start (stored maxRec (dk_data d i))) ops)"

text \<open>The records returned so far: those of the finished segments and of the current one up to the offset.\<close>

definition progress :: "int \<Rightarrow> segmentPlan \<Rightarrow> nat \<Rightarrow> disk \<Rightarrow> reader \<Rightarrow> nat list \<Rightarrow> walRecord list \<Rightarrow> bool" where
  "progress maxRec plan n d r ops out \<longleftrightarrow>
     (case rd_current r of
        None \<Rightarrow> out = shown maxRec d (rd_nextSeq r) ops
      | Some (f, pos) \<Rightarrow>
          rd_curIdx r = word_of_nat f \<and> f < n \<and> gen_of plan f = rd_readerGen r \<and> (\<not> rd_curLive r \<longrightarrow> frozen n d f) \<and>
          (\<exists>k \<le> length (snd (plan f)). prefix (first_bytes plan f k) (dk_data d f) \<and>
             pos = length (first_bytes plan f k) \<and>
             out = shown maxRec d (rd_nextSeq r) ops @ visible (rd_nextSeq r) (take k (snd (plan f)))))"

lemma log_step_dir:
  assumes "log_step plan (n, d) (n', d')"
  shows "n \<le> n'" and "(nm, i) \<in> set (dk_dir d') \<Longrightarrow> i < n \<Longrightarrow> \<exists>nm'. (nm', i) \<in> set (dk_dir d)"
    and "i < n \<Longrightarrow> prefix (dk_data d i) (dk_data d' i)"
  using assms by (cases, auto split: if_splits)+

lemma shown_cong:
  "(\<And>i. i \<in> set ops \<Longrightarrow> dk_data d' i = dk_data d i) \<Longrightarrow> shown maxRec d' start ops = shown maxRec d start ops"
  by (simp add: shown_def cong: map_cong)

lemma log_step_queued:
  assumes "log_step plan (n, d) (n', d')" and "log_inv plan n d" and "queued plan n d r ops"
  shows "queued plan n' d' r ops"
  unfolding queued_def
proof (intro conjI ballI, goal_cases)
  case (5 e)
  obtain nm i where e: "e = (nm, i)" by fastforce
  have "i \<in> set (ops @ cur_idx r @ queue_idx r)" if "gen_of plan i = rd_readerGen r" "i < unat (rd_nextScanIdx r)"
  proof -
    have "i < n" using that assms(3) by (auto simp: queued_def)
    then obtain nm' where "(nm', i) \<in> set (dk_dir d)"
      using log_step_dir(2) [OF assms(1)] 5 e by blast
    then show ?thesis
      using that assms(3) unfolding queued_def by blast
  qed
  then show ?case by (simp add: e)
next
  case (4 e)
  then show ?case
    using assms(3) log_step_frozen [OF assms(1,2)] unfolding queued_def by blast
next
  case (7 i)
  then show ?case
    using assms(3) log_step_frozen [OF assms(1,2), of i] unfolding queued_def by blast
qed (use assms(3) log_step_dir(1) [OF assms(1)] in \<open>auto simp: queued_def\<close>)

lemma log_step_progress:
  assumes "log_step plan (n, d) (n', d')" and "log_inv plan n d" and "queued plan n d r ops"
    and "progress maxRec plan n d r ops out"
  shows "progress maxRec plan n' d' r ops out"
proof -
  have "shown maxRec d' (rd_nextSeq r) ops = shown maxRec d (rd_nextSeq r) ops"
    using assms(3) log_step_frozen [OF assms(1,2)] unfolding queued_def by (blast intro: shown_cong)
  moreover have "f < n \<Longrightarrow> prefix bs (dk_data d f) \<Longrightarrow> prefix bs (dk_data d' f)" for f bs
    using log_step_dir(3) [OF assms(1)] prefix_order.trans by blast
  ultimately show ?thesis
    using assms(4) log_step_dir(1) [OF assms(1)] log_step_frozen [OF assms(1,2)] unfolding progress_def
    by (auto split: option.splits prod.splits)
qed

section \<open>Calls of the reader\<close>

definition same_disk :: "disk \<Rightarrow> disk \<Rightarrow> bool" where
  "same_disk d d' \<longleftrightarrow> dk_dir d' = dk_dir d \<and> dk_data d' = dk_data d"

lemma same_disk_refl [simp]: "same_disk d d"
  by (simp add: same_disk_def)

lemma same_disk_trans: "same_disk d d' \<Longrightarrow> same_disk d' d'' \<Longrightarrow> same_disk d d''"
  by (simp add: same_disk_def)

lemma same_disk_inv:
  assumes "same_disk d d'"
  shows "log_inv plan n d' = log_inv plan n d" "queued plan n d' r ops = queued plan n d r ops"
    "progress maxRec plan n d' r ops out = progress maxRec plan n d r ops out"
    "shown maxRec d' start ops = shown maxRec d start ops" "frozen n d' i = frozen n d i"
  using assms
  by (auto simp: same_disk_def log_inv_def queued_def progress_def shown_def frozen_def split: option.splits)

lemma disk_readdir_result:
  "disk_readdir d = (res, d') \<Longrightarrow> same_disk d d' \<and> (\<forall>names. res = Inr names \<longrightarrow> names = map fst (dk_dir d))"
  by (auto simp: disk_readdir_def disk_call_def same_disk_def split: list.splits if_splits)

lemma disk_open_result:
  "disk_open nm d = (res, d') \<Longrightarrow> same_disk d d' \<and> (\<forall>f. res = Inr f \<longrightarrow> map_of (dk_dir d) nm = Some f) \<and>
     (res = Inl ErrNotExist \<longrightarrow> map_of (dk_dir d) nm = None)"
  by (auto simp: disk_open_def disk_call_def same_disk_def split: list.splits if_splits option.splits)

lemma scan_names:
  "\<forall>(nm, i) \<in> set es. nm = sealed_file i \<or> nm = live_file i \<Longrightarrow>
   List.map_filter entry_for (filter (\<lambda>n. hasSuffix n sealedSuffix \<or> hasSuffix n inprogressSuffix) (map fst es)) =
     map (\<lambda>(nm, i). \<lparr>se_name = nm, se_idx = word_of_nat i\<rparr>) es"
proof (induction es)
  case (Cons e es)
  obtain nm i where e: "e = (nm, i)" by fastforce
  have "parseSegmentIndex nm = Some (word_of_nat i)" "hasSuffix nm sealedSuffix \<or> hasSuffix nm inprogressSuffix"
    using Cons.prems sealed_name [of "word_of_nat i"] live_name [of "word_of_nat i"] by (auto simp: e)
  then show ?case
    using Cons by (simp add: e map_filter_simps entry_for_def)
qed (simp add: map_filter_simps)

lemma scan_entries_props:
  assumes "log_inv plan n d" and "found = scan_entries start (map fst (dk_dir d))"
  shows "e \<in> set found \<longleftrightarrow> (\<exists>i. (se_name e, i) \<in> set (dk_dir d) \<and> se_idx e = word_of_nat i \<and> unat start \<le> i)"
    and "sorted_wrt (<) (map (\<lambda>e. unat (se_idx e)) found)"
proof -
  let ?f = "\<lambda>(nm, i). \<lparr>se_name = nm, se_idx = word_of_nat i\<rparr>" and ?k = "\<lambda>e. unat (se_idx e)"
  let ?xs = "filter (\<lambda>e. \<not> se_idx e < start) (map ?f (dk_dir d))"
  have small: "i < 2 ^ 64" if "(nm, i) \<in> set (dk_dir d)" for nm i
    using log_inv_entry [OF assms(1) that] by blast
  have "\<forall>(nm, i) \<in> set (dk_dir d). nm = sealed_file i \<or> nm = live_file i"
    using log_inv_entry [OF assms(1)] by blast
  then have found: "found = sort_key ?k ?xs"
    by (simp add: assms(2) scan_entries_def scan_names)
  show "e \<in> set found \<longleftrightarrow> (\<exists>i. (se_name e, i) \<in> set (dk_dir d) \<and> se_idx e = word_of_nat i \<and> unat start \<le> i)"
    unfolding found using small by (cases e) (fastforce simp: word_less_nat_alt unat_of_nat64 not_less)
  have "map ?k (map ?f (dk_dir d)) = map snd (dk_dir d)"
    using small by (auto simp: unat_of_nat64)
  then have "distinct (map ?k (map ?f (dk_dir d)))"
    using log_invD(2) [OF assms(1)] by (simp only:)
  then have "distinct (map ?k ?xs)"
    by (rule distinct_map_filter)
  moreover have "mset (map ?k found) = mset (map ?k ?xs)"
    unfolding found by simp
  ultimately have "distinct (map ?k found)"
    using mset_eq_imp_distinct_iff by blast
  then show "sorted_wrt (<) (map ?k found)"
    by (simp add: strict_sorted_iff found)
qed

lemma progress_scan [simp]:
  "progress maxRec plan n d (r\<lparr>rd_segments := q, rd_nextScanIdx := x\<rparr>) ops out = progress maxRec plan n d r ops out"
  "progress maxRec plan n d (r\<lparr>rd_segments := q\<rparr>) ops out = progress maxRec plan n d r ops out"
  by (simp_all add: progress_def split: option.split)

lemma scan_bounds:
  assumes "log_inv plan n d" and "found = scan_entries start (map fst (dk_dir d))" and "unat start \<le> n"
    and "x = (if found = [] then start else se_idx (last found) + 1)"
  shows "e \<in> set found \<Longrightarrow> unat start \<le> unat (se_idx e) \<and> unat (se_idx e) < unat x \<and>
      (se_name e, unat (se_idx e)) \<in> set (dk_dir d)"
    and "unat start \<le> unat x" and "unat x \<le> n"
proof -
  note props = scan_entries_props [OF assms(1,2)]
  have idx: "unat start \<le> unat (se_idx e) \<and> unat (se_idx e) < n \<and> (se_name e, unat (se_idx e)) \<in> set (dk_dir d)"
    if "e \<in> set found" for e
    using that props(1) [of e] log_inv_entry [OF assms(1)] unat_of_nat64 by metis
  have x: "unat x = Suc (unat (se_idx (last found))) \<and> last found \<in> set found" if "found \<noteq> []"
  proof -
    have last: "last found \<in> set found"
      using that by (rule last_in_set)
    then have "Suc (unat (se_idx (last found))) < 2 ^ 64"
      using idx [OF last] log_invD(1) [OF assms(1)] by simp
    then show ?thesis
      using that last assms(4) by (simp add: unat_word_ariths(1))
  qed
  show "unat start \<le> unat x" "unat x \<le> n"
    using x idx [of "last found"] assms(3,4) by (cases "found = []"; simp)+
  assume e: "e \<in> set found"
  then have "unat (se_idx e) \<le> unat (se_idx (last found))"
    using props(2) by (cases found rule: rev_cases) (auto simp: sorted_wrt_append less_imp_le)
  then show "unat start \<le> unat (se_idx e) \<and> unat (se_idx e) < unat x \<and> (se_name e, unat (se_idx e)) \<in> set (dk_dir d)"
    using x idx [OF e] e by fastforce
qed

text \<open>A scan puts every segment that is new at the end of the queue.\<close>

lemma scan_queued:
  assumes "log_inv plan n d" and "queued plan n d r ops"
    and found: "found = scan_entries (rd_nextScanIdx r) (map fst (dk_dir d))"
    and x: "x = (if found = [] then rd_nextScanIdx r else se_idx (last found) + 1)"
    and r': "r' = r\<lparr>rd_segments := rd_segments r @ found, rd_nextScanIdx := x\<rparr>"
  shows "queued plan n d r' ops \<and> (\<forall>(nm, i) \<in> set (dk_dir d). i < unat x)"
proof -
  let ?k = "\<lambda>e. unat (se_idx e)" and ?old = "ops @ cur_idx r @ queue_idx r"
  have "unat (rd_nextScanIdx r) \<le> n"
    using assms(2) by (simp add: queued_def)
  note bounds = scan_bounds [OF assms(1) found this x]
  have "i < j" if "i \<in> set ?old" and j: "j \<in> set (map ?k found)" for i j
  proof -
    have "i < unat (rd_nextScanIdx r)"
      using that(1) assms(2) unfolding queued_def by blast
    moreover obtain e where "e \<in> set found" "j = ?k e"
      using j by auto
    ultimately show ?thesis
      using bounds(1) less_le_trans by blast
  qed
  then have sorted: "sorted_wrt (<) (?old @ map ?k found)"
    using assms(2) scan_entries_props(2) [OF assms(1) found] unfolding queued_def sorted_wrt_append [of _ ?old] by blast
  have fresh: "i < unat (rd_nextScanIdx r) \<or> i \<in> set (map ?k found) \<and> i < unat x" if "(nm, i) \<in> set (dk_dir d)" for nm i
  proof (cases "i < unat (rd_nextScanIdx r)")
    case False
    then have new: "\<lparr>se_name = nm, se_idx = word_of_nat i\<rparr> \<in> set found"
      using that scan_entries_props(1) [OF assms(1) found] by (auto simp: not_less)
    have "unat (word_of_nat i :: uint64) = i"
      using log_inv_entry [OF assms(1) that] by (simp add: unat_of_nat64)
    then show ?thesis
      using new bounds(1) [OF new] by force
  qed simp
  have idx: "cur_idx r' = cur_idx r" "queue_idx r' = queue_idx r @ map ?k found"
    by (simp_all add: r' cur_idx_def queue_idx_def)
  have names: "se_name e = segmentName (se_idx e) \<and> frozen n d (?k e) \<or> se_name e = segmentName (se_idx e) @ inProgressSuffix"
    if "e \<in> set found" for e
  proof -
    have dir: "(se_name e, ?k e) \<in> set (dk_dir d)"
      using bounds(1) [OF that] by blast
    have "frozen n d (?k e)" if "se_name e = sealed_file (?k e)"
      using lookup_sealed [OF assms(1), of "?k e" "?k e"] log_inv_entry [OF assms(1) dir]
        log_inv_lookup [OF assms(1), of "se_name e" "?k e"] dir unfolding that by blast
    then show ?thesis
      using log_inv_entry [OF assms(1) dir] by auto
  qed
  have "queued plan n d r' ops"
    unfolding queued_def idx
  proof (intro conjI ballI, goal_cases)
    case (2 i)
    then have "i \<in> set ?old \<or> i \<in> set (map ?k found)" by auto
    then show ?case
      using assms(2) bounds(1,2) unfolding queued_def r' by fastforce
  next
    case (4 e)
    then show ?case
      using assms(2) names unfolding queued_def r' by fastforce
  next
    case (5 e)
    then show ?case
      using assms(2) fresh unfolding queued_def r' by fastforce
  qed (use sorted bounds(3) assms(2) in \<open>simp_all add: r' queued_def\<close>)
  moreover have "i < unat x" if "(nm, i) \<in> set (dk_dir d)" for nm i
    using fresh [OF that] bounds(2) by linarith
  ultimately show ?thesis
    by blast
qed

definition reader_at :: "int \<Rightarrow> segmentPlan \<Rightarrow> nat \<Rightarrow> disk \<Rightarrow> reader \<Rightarrow> nat list \<Rightarrow> walRecord list \<Rightarrow> bool" where
  "reader_at maxRec plan n d r ops out \<longleftrightarrow> queued plan n d r ops \<and> progress maxRec plan n d r ops out"

text \<open>
  All that is to be seen has been returned: the records of segments in order, among them every
  segment of the generation that is in the directory.
\<close>

definition caught_up :: "int \<Rightarrow> segmentPlan \<Rightarrow> nat \<Rightarrow> disk \<Rightarrow> uint32 \<Rightarrow> uint64 \<Rightarrow> walRecord list \<Rightarrow> bool" where
  "caught_up maxRec plan n d g start out \<longleftrightarrow>
     (\<exists>segs. sorted_wrt (<) segs \<and> (\<forall>i \<in> set segs. i < n \<and> gen_of plan i = g) \<and>
        (\<forall>(nm, i) \<in> set (dk_dir d). gen_of plan i = g \<longrightarrow> i \<in> set segs) \<and> out = shown maxRec d start segs)"

definition emitted :: "flow \<Rightarrow> walRecord list" where
  "emitted fl = (case fl of Yield (Some rec) \<Rightarrow> [rec] | _ \<Rightarrow> [])"

lemma emitted_simps [simp]: "emitted Again = []" "emitted (Yield None) = []" "emitted (Yield (Some rec)) = [rec]"
  by (simp_all add: emitted_def)

lemma rescan_at:
  assumes "rescanLocked (r, d) = (Inr u, (r', d'))" and "log_inv plan n d" and "reader_at maxRec plan n d r ops out"
  shows "same_disk d d' \<and> reader_at maxRec plan n d' r' ops out \<and>
     (\<forall>(nm, i) \<in> set (dk_dir d). i < unat (rd_nextScanIdx r')) \<and>
     (\<exists>q x. r' = r\<lparr>rd_segments := q, rd_nextScanIdx := x\<rparr>)"
proof -
  define found where "found = scan_entries (rd_nextScanIdx r) (map fst (dk_dir d))"
  define x where "x = (if found = [] then rd_nextScanIdx r else se_idx (last found) + 1)"
  have "same_disk d d' \<and> r' = r\<lparr>rd_segments := rd_segments r @ found, rd_nextScanIdx := x\<rparr>"
    using assms(1) disk_readdir_result [of d]
    by (auto simp: rescanLocked_def io_bind_def io_snd_def Let_def found_def x_def split: prod.splits sum.splits)
  moreover have "queued plan n d r' ops \<and> (\<forall>(nm, i) \<in> set (dk_dir d). i < unat x)"
    using assms(3) calculation by (intro scan_queued [OF assms(2) _ found_def x_def]) (simp_all add: reader_at_def)
  ultimately show ?thesis
    using assms(3) by (auto simp: reader_at_def same_disk_inv)
qed

lemma open_file_result:
  assumes "open_file e d = (Inr res, d')" and "log_inv plan n d" and "i < n" and "se_idx e = word_of_nat i"
    and "se_name e = sealed_file i \<and> frozen n d i \<or> se_name e = live_file i"
  shows "same_disk d d' \<and>
     (case res of
        None \<Rightarrow> \<forall>nm. (nm, i) \<notin> set (dk_dir d)
      | Some (f, live) \<Rightarrow> f = i \<and> (\<not> live \<longrightarrow> frozen n d i))"
proof (cases "disk_open (se_name e) d")
  case (Pair res1 d1)
  have i: "i < 2 ^ 64"
    using assms(3) log_invD(1) [OF assms(2)] by simp
  have gone: "map_of (dk_dir d) (live_file i) = None" if "frozen n d i"
    using that lookup_live [OF assms(2) i] log_inv_lookup [OF assms(2)] unfolding frozen_def by (metis not_None_eq)
  note facts = lookup_live [OF assms(2) i] lookup_sealed [OF assms(2,3)] lookup_absent [OF assms(2), of i]
  note r1 = disk_open_result [OF Pair]
  obtain res2 d2 where second: "disk_open (sealed_file i) d1 = (res2, d2)" by fastforce
  note r2 = disk_open_result [OF second]
  have dirs: "dk_dir d1 = dk_dir d" using r1 by (simp add: same_disk_def)
  consider (sealed) "se_name e = sealed_file i" "frozen n d i" "\<not> hasSuffix (se_name e) inprogressSuffix"
    | (live) "se_name e = live_file i" "hasSuffix (se_name e) inprogressSuffix"
    using assms(5) sealed_name(1) live_name(1) by auto
  then show ?thesis
  proof cases
    case sealed
    then show ?thesis
      using assms(1) Pair r1 facts gone by (auto simp: open_file_def split: sum.splits if_splits)
  next
    case live
    then show ?thesis
      using assms(1,4) Pair second r1 r2 facts dirs
      by (auto simp: open_file_def split: sum.splits if_splits intro: same_disk_trans)
  qed
qed

end
