(* ===== verification/Reader_Turn.thy ===== *)
theory Reader_Turn
  imports Reader_View
begin

text \<open>
  One turn of the loop of a reader keeps its place in the log; a turn that reports the end has shown
  all there is.
\<close>

section \<open>One turn\<close>

lemma cur_idx_simps [simp]:
  "rd_current r = None \<Longrightarrow> cur_idx r = []" "rd_current r = Some (f, pos) \<Longrightarrow> cur_idx r = [f]"
  by (simp_all add: cur_idx_def)

lemma queued_pop:
  assumes "queued plan n d r ops" and "rd_current r = None" and "rd_segments r = e # es"
    and "\<forall>nm. (nm, unat (se_idx e)) \<in> set (dk_dir d) \<longrightarrow> gen_of plan (unat (se_idx e)) \<noteq> rd_readerGen r"
  shows "queued plan n d (r\<lparr>rd_segments := es\<rparr>) ops"
  using assms(1,4) unfolding queued_def
  by (auto simp: assms(2,3) queue_idx_def cur_idx_def sorted_wrt_append)

lemma reader_at_open:
  assumes "reader_at maxRec plan n d r ops out" and "plan_ok maxRec plan" and "rd_current r = None" and "rd_segments r = e # es"
    and "rd_current r' = Some (unat (se_idx e), SegmentHeaderSize)" and "rd_curIdx r' = se_idx e"
    and "rd_nextSeq r' = rd_nextSeq r" and "rd_readerGen r' = rd_readerGen r" and "rd_segments r' = es"
    and "rd_nextScanIdx r' = rd_nextScanIdx r" and "gen_of plan (unat (se_idx e)) = rd_readerGen r"
    and "prefix (first_bytes plan (unat (se_idx e)) 0) (dk_data d (unat (se_idx e)))"
    and "\<not> rd_curLive r' \<longrightarrow> frozen n d (unat (se_idx e))"
  shows "reader_at maxRec plan n d r' ops out"
proof -
  have q: "queued plan n d r ops" and out: "out = shown maxRec d (rd_nextSeq r) ops"
    using assms(1,3) by (auto simp: reader_at_def progress_def)
  have "queued plan n d r' ops"
    using q by (auto simp: queued_def assms queue_idx_def)
  moreover have "unat (se_idx e) < n"
    using q assms(3,4) by (auto simp: queued_def queue_idx_def)
  then have "progress maxRec plan n d r' ops out"
    using out plan_header(2) [OF assms(2), of "unat (se_idx e)"] assms(5-8,11-13)
    by (auto simp: progress_def first_bytes_def visible_def map_filter_simps intro!: exI [of _ 0])
  ultimately show ?thesis
    by (simp add: reader_at_def)
qed

lemma open_segment_at:
  assumes "open_segment e (r\<lparr>rd_segments := es\<rparr>, d) = (Inr b, (r', d'))" and "log_inv plan n d" and "plan_ok maxRec plan"
    and "reader_at maxRec plan n d r ops out" and "rd_current r = None" and "rd_segments r = e # es"
  shows "same_disk d d' \<and> reader_at maxRec plan n d' r' ops out \<and>
     (if b then \<exists>pos. rd_current r' = Some (unat (se_idx e), pos) else r' = r\<lparr>rd_segments := es\<rparr>) \<and>
     rd_nextScanIdx r' = rd_nextScanIdx r \<and> rd_segments r' = es"
proof -
  let ?i = "unat (se_idx e)" and ?r = "r\<lparr>rd_segments := es\<rparr>"
  have q: "queued plan n d r ops" and out: "out = shown maxRec d (rd_nextSeq r) ops"
    using assms(4,5) by (auto simp: reader_at_def progress_def)
  have i: "?i < n"
    using q assms(5,6) by (auto simp: queued_def queue_idx_def)
  have name: "se_name e = sealed_file ?i \<and> frozen n d ?i \<or> se_name e = live_file ?i"
    using q assms(6) by (auto simp: queued_def)
  obtain opened where opened: "open_file e d = (Inr opened, d')"
    using assms(1) by (auto simp: open_segment_def io_bind_def io_snd_def Let_def
        split: prod.splits sum.splits option.splits if_splits)
  have res: "same_disk d d'" "case opened of None \<Rightarrow> \<forall>nm. (nm, ?i) \<notin> set (dk_dir d)
      | Some (f, live) \<Rightarrow> f = ?i \<and> (\<not> live \<longrightarrow> frozen n d ?i)"
    using open_file_result [OF opened assms(2) i _ name] by auto
  have pop: ?thesis if "\<not> b" "r' = ?r" "\<forall>nm. (nm, ?i) \<in> set (dk_dir d) \<longrightarrow> gen_of plan ?i \<noteq> rd_readerGen r"
    using that queued_pop [OF q assms(5,6)] res(1) assms(4) by (simp add: reader_at_def same_disk_inv)
  show ?thesis
  proof (cases opened)
    case None
    then show ?thesis
      using pop res(2) assms(1) opened by (auto simp: open_segment_def io_bind_def io_snd_def)
  next
    case (Some fl)
    then obtain live where fl: "opened = Some (?i, live)" "\<not> live \<longrightarrow> frozen n d ?i"
      using res(2) by (cases fl) auto
    have data: "dk_data d' ?i = dk_data d ?i"
      using res(1) by (simp add: same_disk_def)
    obtain h where h: "fst (ReadSegmentHeader (dk_data d ?i)) = Inr h"
      using assms(1) opened fl(1) data
      by (auto simp: open_segment_def io_bind_def io_snd_def split: sum.splits)
    note hdr = header_read [OF assms(3) log_invD(4) [OF assms(2) i] h]
    show ?thesis
    proof (cases "gen_of plan ?i = rd_readerGen r")
      case False
      then show ?thesis
        using pop assms(1) opened fl(1) data h hdr
        by (auto simp: open_segment_def io_bind_def io_snd_def gen_of_def Let_def)
    next
      case True
      have r': "b" "rd_current r' = Some (?i, SegmentHeaderSize)" "rd_curIdx r' = se_idx e" "rd_curLive r' = live"
          "rd_nextSeq r' = rd_nextSeq r" "rd_readerGen r' = rd_readerGen r" "rd_segments r' = es"
          "rd_nextScanIdx r' = rd_nextScanIdx r"
        using True assms(1) opened fl(1) data h hdr
        by (auto simp: open_segment_def io_bind_def io_snd_def gen_of_def Let_def)
      have "reader_at maxRec plan n d r' ops out"
        by (rule reader_at_open [OF assms(4,3,5,6)]) (use r' hdr True fl(2) in \<open>simp_all add: gen_of_def\<close>)
      then show ?thesis
        using r' res(1) by (simp add: reader_at_def same_disk_inv)
    qed
  qed
qed

lemma dir_parse:
  assumes "log_inv plan n d" and "nm \<in> set (map fst (dk_dir d))"
  obtains i where "(nm, i) \<in> set (dk_dir d)" and "parseSegmentIndex nm = Some (word_of_nat i)" and "i < n"
    and "is_sealed_name nm \<Longrightarrow> frozen n d i"
proof -
  obtain i where i: "(nm, i) \<in> set (dk_dir d)"
    using assms(2) by auto
  note entry = log_inv_entry [OF assms(1) i]
  have "frozen n d i" if "nm = sealed_file i"
    using lookup_sealed [OF assms(1), of i i] log_inv_lookup [OF assms(1), of nm i] i entry unfolding that by blast
  then show thesis
    using that [OF i] entry sealed_name(3) [of "word_of_nat i"] live_name [of "word_of_nat i"] by auto
qed

definition sealed_since :: "uint64 \<Rightarrow> string list \<Rightarrow> bool" where
  "sealed_since idx names = list_ex (\<lambda>n. parseSegmentIndex n = Some idx \<and> is_sealed_name n) names"

definition newer_since :: "uint64 \<Rightarrow> string list \<Rightarrow> bool" where
  "newer_since idx names = list_ex (\<lambda>n. case parseSegmentIndex n of None \<Rightarrow> False | Some i \<Rightarrow> idx < i) names"

lemma then_modify: "io_then (modify_reader g) k rd = k (g (fst rd), snd rd)"
  by (simp add: io_then_def io_bind_def modify_reader_def)

lemma demote_unfold:
  "rd_curLive r \<Longrightarrow> maybeDemoteLiveLocked (r, d) =
     io_bind (io_snd disk_readdir) (\<lambda>names rd.
       if \<not> sealed_since (rd_curIdx (fst rd)) names \<and> \<not> newer_since (rd_curIdx (fst rd)) names then (Inr False, rd)
       else io_then rescanLocked (io_return True) ((fst rd)\<lparr>rd_curLive := False\<rparr>, snd rd)) (r, d)"
  by (simp add: maybeDemoteLiveLocked_def sealed_since_def newer_since_def then_modify Let_def cong: option.case_cong if_cong)

lemma demote_frozen:
  assumes "log_inv plan n d" and "f < n" and "names = map fst (dk_dir d)"
    and "sealed_since (word_of_nat f) names \<or> newer_since (word_of_nat f) names"
  shows "frozen n d f"
proof -
  have small: "i < n \<Longrightarrow> unat (word_of_nat i :: uint64) = i" for i
    using log_invD(1) [OF assms(1)] by (simp add: unat_of_nat64)
  obtain nm where nm: "nm \<in> set names"
      "parseSegmentIndex nm = Some (word_of_nat f) \<and> is_sealed_name nm \<or> (\<exists>i. parseSegmentIndex nm = Some i \<and> word_of_nat f < i)"
    using assms(4) by (auto simp: sealed_since_def newer_since_def list_ex_iff split: option.splits)
  obtain i where i: "(nm, i) \<in> set (dk_dir d)" "parseSegmentIndex nm = Some (word_of_nat i)" "i < n"
      "is_sealed_name nm \<Longrightarrow> frozen n d i"
    using dir_parse [OF assms(1)] nm(1) assms(3) by metis
  show ?thesis
  proof (cases "i = f")
    case True
    then show ?thesis using nm(2) i by auto
  next
    case False
    have "(word_of_nat i :: uint64) = word_of_nat f \<or> (word_of_nat f :: uint64) < word_of_nat i"
      using nm(2) i(2) by auto
    then have "f < i"
      using False small [OF i(3)] small [OF assms(2)] by (metis word_less_nat_alt)
    then have "(live_file f, f) \<notin> set (dk_dir d)"
      using i(3) log_inv_entry [OF assms(1), of "live_file f" f] names_distinct(4) [of f f] by auto
    then show ?thesis
      using assms(2) by (simp add: frozen_def)
  qed
qed

lemma not_newer:
  assumes "log_inv plan n d" and "f < n" and "\<not> newer_since (word_of_nat f) (map fst (dk_dir d))" and "(nm, i) \<in> set (dk_dir d)"
  shows "i \<le> f"
proof -
  have nm: "nm \<in> set (map fst (dk_dir d))"
    using assms(4) by force
  obtain j where j: "(nm, j) \<in> set (dk_dir d)" "parseSegmentIndex nm = Some (word_of_nat j)" "j < n"
    using dir_parse [OF assms(1) nm] by metis
  have "i = j"
    using assms(4) j(1) log_inv_lookup [OF assms(1), of nm] by (metis option.inject)
  moreover have "\<not> (word_of_nat f :: uint64) < word_of_nat j"
    using assms(3) nm j(2) by (auto simp: newer_since_def list_ex_iff)
  ultimately show ?thesis
    using j(3) assms(2) log_invD(1) [OF assms(1)] by (simp add: word_less_nat_alt unat_of_nat64)
qed

lemma demote_at:
  assumes "maybeDemoteLiveLocked (r, d) = (Inr b, (r', d'))" and "log_inv plan n d"
    and "reader_at maxRec plan n d r ops out" and "rd_current r = Some (f, pos)" and "rd_curLive r"
  shows "same_disk d d' \<and> reader_at maxRec plan n d' r' ops out \<and> rd_current r' = Some (f, pos) \<and>
     (if b then \<not> rd_curLive r' else r' = r \<and> (\<forall>(nm, i) \<in> set (dk_dir d). i \<le> f))"
proof -
  let ?r = "r\<lparr>rd_curLive := False\<rparr>"
  have f: "rd_curIdx r = word_of_nat f" "f < n"
    using assms(3,4) by (auto simp: reader_at_def progress_def)
  obtain names d1 where dir: "disk_readdir d = (Inr names, d1)"
    using assms(1) by (auto simp: demote_unfold [OF assms(5)] io_bind_def io_snd_def split: prod.splits sum.splits)
  have names: "names = map fst (dk_dir d)" "same_disk d d1"
    using disk_readdir_result [OF dir] by auto
  show ?thesis
  proof (cases "sealed_since (word_of_nat f) names \<or> newer_since (word_of_nat f) names")
    case False
    then have "b = False" "r' = r" "d' = d1"
      using assms(1) by (auto simp: demote_unfold [OF assms(5)] io_bind_def io_snd_def dir f(1))
    then show ?thesis
      using False assms(3,4) names not_newer [OF assms(2) f(2)]
      by (auto simp: same_disk_inv reader_at_def)
  next
    case True
    then have "rescanLocked (?r, d1) = (Inr (), (r', d'))" "b"
      using assms(1) by (auto simp: demote_unfold [OF assms(5)] io_bind_def io_then_def io_snd_def io_return_def dir f(1)
          split: prod.splits sum.splits)
    moreover have "reader_at maxRec plan n d ?r ops out"
      using assms(3,4) demote_frozen [OF assms(2) f(2) names(1) True]
      by (simp add: reader_at_def queued_def progress_def cur_idx_def queue_idx_def)
    then have "reader_at maxRec plan n d1 ?r ops out"
      using names(2) by (simp add: reader_at_def same_disk_inv)
    ultimately show ?thesis
      using rescan_at [of ?r d1 "()" r' d' plan n maxRec ops out] assms(2,4) names(2)
      by (auto simp: same_disk_inv intro: same_disk_trans)
  qed
qed

text \<open>The fields that matter for where a reader stands.\<close>

definition stand :: "reader \<Rightarrow> segmentEntry list \<times> (nat \<times> nat) option \<times> uint64 \<times> bool \<times> uint64 \<times> uint64 \<times> uint32" where
  "stand r = (rd_segments r, rd_current r, rd_curIdx r, rd_curLive r, rd_nextScanIdx r, rd_nextSeq r, rd_readerGen r)"

lemma reader_at_cong:
  assumes "stand r' = stand r"
  shows "reader_at maxRec plan n d r' ops out = reader_at maxRec plan n d r ops out"
proof -
  have "rd_segments r' = rd_segments r" "rd_current r' = rd_current r" "rd_curIdx r' = rd_curIdx r"
      "rd_curLive r' = rd_curLive r" "rd_nextScanIdx r' = rd_nextScanIdx r" "rd_nextSeq r' = rd_nextSeq r"
      "rd_readerGen r' = rd_readerGen r"
    using assms by (simp_all add: stand_def)
  note eqs = this
  show ?thesis
    unfolding reader_at_def queued_def progress_def cur_idx_def queue_idx_def eqs ..
qed

lemma surface_result:
  assumes "plan_ok maxRec plan" and "k < length (snd (plan i))"
  obtains fl r' where "surface (snd (plan i) ! k) (r, d) = (Inr fl, (r', d))" and "stand r' = stand r"
    and "emitted fl = visible (rd_nextSeq r) [snd (plan i) ! k]" and "fl \<noteq> Yield None"
proof (cases "isLossMarker (snd (plan i) ! k)")
  case True
  then obtain l where "decodeLossPayload (snd (plan i) ! k) = Some l"
    using plan_payload(2) [OF assms] by blast
  with True show thesis
    by (intro that [of "Yield (Some (RecordLoss (lr_Generation l) l))" r])
      (simp_all add: surface_def visible_def surfaced_def map_filter_simps)
next
  case False
  then obtain sq g where "parseSeqGen (snd (plan i) ! k) = Some (sq, g)"
    using plan_payload(3) [OF assms] by fastforce
  note sq = False this
  let ?r = "r\<lparr>rd_lastGoodSeq := sq, rd_lastGoodGen := g, rd_lastGoodGenSet := True\<rparr>"
  show thesis
  proof (cases "sq < rd_nextSeq r")
    case True
    then show thesis
      using sq by (intro that [of Again ?r]) (simp_all add: surface_def visible_def surfaced_def stand_def)
  next
    case False
    then show thesis
      using sq by (intro that [of "Yield (Some (RecordData sq g (drop 12 (snd (plan i) ! k))))" "?r\<lparr>rd_lastEmittedSeq := sq\<rparr>"])
        (simp_all add: surface_def visible_def surfaced_def stand_def)
  qed
qed

text \<open>A whole record is read.\<close>

lemma reader_at_record:
  assumes "reader_at maxRec plan n d r ops out" and "rd_current r = Some (f, length (first_bytes plan f k))"
    and "out = shown maxRec d (rd_nextSeq r) ops @ visible (rd_nextSeq r) (take k (snd (plan f)))"
    and "k < length (snd (plan f))" and "dk_data d f = first_bytes plan f k @ record_frame (snd (plan f) ! k) @ t"
  shows "reader_at maxRec plan n d
     (r\<lparr>rd_current := Some (f, length (first_bytes plan f k) + length (record_frame (snd (plan f) ! k)))\<rparr>) ops
     (out @ visible (rd_nextSeq r) [snd (plan f) ! k])"
proof -
  have "queued plan n d (r\<lparr>rd_current := Some (f, x)\<rparr>) ops" for x
    using assms(1,2) by (simp add: reader_at_def queued_def cur_idx_def queue_idx_def)
  moreover have "take (Suc k) (snd (plan f)) = take k (snd (plan f)) @ [snd (plan f) ! k]"
    by (rule take_Suc_conv_app_nth [OF assms(4)])
  ultimately show ?thesis
    using assms first_bytes_Suc [of k plan f]
    by (auto simp: reader_at_def progress_def intro!: exI [of _ "Suc k"])
qed

lemma reader_at_current:
  assumes "reader_at maxRec plan n d r ops out" and "rd_current r = Some (f, pos)" and "log_inv plan n d"
  obtains k t where "k \<le> length (snd (plan f))" and "pos = length (first_bytes plan f k)"
    and "dk_data d f = first_bytes plan f k @ t" and "prefix (first_bytes plan f k @ t) (final_bytes plan f)"
    and "out = shown maxRec d (rd_nextSeq r) ops @ visible (rd_nextSeq r) (take k (snd (plan f)))"
proof -
  obtain k where k: "k \<le> length (snd (plan f))" "prefix (first_bytes plan f k) (dk_data d f)"
      "pos = length (first_bytes plan f k)" "f < n"
      "out = shown maxRec d (rd_nextSeq r) ops @ visible (rd_nextSeq r) (take k (snd (plan f)))"
    using assms(1,2) by (auto simp: reader_at_def progress_def)
  then obtain t where "dk_data d f = first_bytes plan f k @ t"
    by (auto simp: prefix_def)
  then show thesis
    using that [of k t] k log_invD(4) [OF assms(3), of f] by simp
qed

text \<open>A finished segment joins the ones before it.\<close>

lemma reader_at_finish:
  assumes "reader_at maxRec plan n d r ops out" and "rd_current r = Some (f, pos)" and "\<not> rd_curLive r"
    and "out = shown maxRec d (rd_nextSeq r) (ops @ [f])"
  shows "reader_at maxRec plan n d (r\<lparr>rd_current := None\<rparr>) (ops @ [f]) out"
  using assms by (auto simp: reader_at_def queued_def progress_def cur_idx_def queue_idx_def)

lemma caught_upI:
  assumes "queued plan n d r ops" and "rd_current r = Some (f, pos)" and "f < n" and "gen_of plan f = rd_readerGen r"
    and "\<forall>(nm, i) \<in> set (dk_dir d). i \<le> f" and "out = shown maxRec d (rd_nextSeq r) (ops @ [f])"
  shows "caught_up maxRec plan n d (rd_readerGen r) (rd_nextSeq r) out"
proof -
  have "sorted_wrt (<) (ops @ [f])" "\<forall>i \<in> set ops. i < n \<and> gen_of plan i = rd_readerGen r"
    using assms(1,2) by (auto simp: queued_def sorted_wrt_append frozen_def)
  moreover have "i \<in> set (ops @ [f])" if "(nm, i) \<in> set (dk_dir d)" "gen_of plan i = rd_readerGen r" for nm i
  proof -
    have "i \<le> f" "f < unat (rd_nextScanIdx r)"
      using assms(1,2,5) that(1) by (auto simp: queued_def)
    then have "i \<in> set (ops @ [f] @ queue_idx r)"
      using assms(1,2) that unfolding queued_def by fastforce
    moreover have "i \<notin> set (queue_idx r)"
      using assms(1,2) \<open>i \<le> f\<close> by (auto simp: queued_def sorted_wrt_append)
    ultimately show ?thesis by auto
  qed
  ultimately show ?thesis
    using assms(3,4,6) unfolding caught_up_def by (intro exI [of _ "ops @ [f]"]) auto
qed

lemma first_bytes_mono: "k \<le> k' \<Longrightarrow> length (first_bytes plan i k) \<le> length (first_bytes plan i k')"
proof -
  assume "k \<le> k'"
  then have "take k' (snd (plan i)) = take k (snd (plan i)) @ drop k (take k' (snd (plan i)))"
    by (metis append_take_drop_id min.absorb1 take_take)
  then have "frames (take k' (snd (plan i))) = frames (take k (snd (plan i))) @ frames (drop k (take k' (snd (plan i))))"
    by (metis frames_simps(3))
  then show ?thesis
    by (simp add: first_bytes_def)
qed

lemma not_whole:
  assumes "k < length (snd (plan i))" and "0 < length t" and "length t < length (record_frame (snd (plan i) ! k))"
  shows "\<not> whole plan i (first_bytes plan i k @ t)"
proof
  assume "whole plan i (first_bytes plan i k @ t)"
  then obtain k' where k': "length (first_bytes plan i k) + length t = length (first_bytes plan i k')"
    unfolding whole_def by (metis length_append)
  show False
  proof (cases "k' \<le> k")
    case True
    then show ?thesis
      using first_bytes_mono [OF True, of plan i] k' assms(2) by linarith
  next
    case False
    then show ?thesis
      using first_bytes_mono [of "Suc k" k' plan i] first_bytes_Suc [of k plan i] k' assms(1,3) by simp
  qed
qed

text \<open>The outcomes of one read; \<open>demote_flow\<close> is what follows at the end of a live segment.\<close>

abbreviation demote_flow :: "flow reader_io" where
  "demote_flow \<equiv> io_bind maybeDemoteLiveLocked (\<lambda>demoted. io_return (if demoted then Again else Yield None))"

lemma read_step_cases:
  assumes "plan_ok maxRec plan" and "log_inv plan n d" and "reader_at maxRec plan n d r ops out"
    and "rd_current r = Some (f, pos)"
  obtains (ended) "out = shown maxRec d (rd_nextSeq r) (ops @ [f])"
      "read_step maxRec (r, d) =
         (if rd_curLive r then demote_flow (r, d) else (Inr Again, (r\<lparr>rd_current := None\<rparr>, d)))"
  | (more) fl r' pos' where "read_step maxRec (r, d) = (Inr fl, (r', d))" "fl \<noteq> Yield None"
      "reader_at maxRec plan n d r' ops (out @ emitted fl)"
      "stand r' = stand (r\<lparr>rd_current := Some (f, pos')\<rparr>)" "pos < pos'" "pos' \<le> length (dk_data d f)"
  | (torn) "fst (read_step maxRec (r, d)) = Inl ErrUnexpectedEOF" "\<not> whole plan f (dk_data d f)"
proof -
  obtain k t where k: "k \<le> length (snd (plan f))" "pos = length (first_bytes plan f k)"
      "dk_data d f = first_bytes plan f k @ t" "prefix (first_bytes plan f k @ t) (final_bytes plan f)"
      "out = shown maxRec d (rd_nextSeq r) ops @ visible (rd_nextSeq r) (take k (snd (plan f)))"
    by (rule reader_at_current [OF assms(3,4,2)])
  have rest: "drop pos (dk_data d f) = t"
    by (simp add: k(2,3))
  from assms(1) k(4,1) show thesis
  proof (cases rule: next_frame)
    case at_end
    have "out = shown maxRec d (rd_nextSeq r) (ops @ [f])"
      using k(3,5) at_end(1) stored_first [OF assms(1)] by (simp add: shown_def)
    then show thesis
      using at_end rest k by (intro ended) (simp_all add: read_step_def assms(4))
  next
    case (full p t')
    let ?pos = "length (first_bytes plan f k) + length (record_frame p)"
    let ?r = "r\<lparr>rd_current := Some (f, ?pos)\<rparr>"
    obtain fl r' where fl: "surface p (?r, d) = (Inr fl, (r', d))" "stand r' = stand ?r"
        "emitted fl = visible (rd_nextSeq ?r) [p]" "fl \<noteq> Yield None"
      using surface_result [OF assms(1) full(1), of ?r d] full(2) by metis
    have "reader_at maxRec plan n d ?r ops (out @ visible (rd_nextSeq r) [p])"
      using reader_at_record [OF assms(3) _ k(5) full(1)] assms(4) k(2,3) full(2,3) by simp
    then have "reader_at maxRec plan n d r' ops (out @ emitted fl)"
      using reader_at_cong [OF fl(2)] fl(3) by simp
    moreover have "read_step maxRec (r, d) = (Inr fl, (r', d))"
      using full(3,4) fl(1) k(2,3) by (simp add: read_step_def assms(4))
    ultimately show thesis
      using fl(2,4) k(2,3) full(3) by (intro more [of fl r' ?pos]) simp_all
  next
    case torn
    have "\<not> whole plan f (dk_data d f)"
      using not_whole [of k plan f t] torn k(3) by simp
    then show thesis
      using torn rest by (intro that(3)) (auto simp: read_step_def assms(4) split: prod.splits)
  qed
qed

lemma read_step_at:
  assumes "read_step maxRec (r, d) = (Inr fl, (r', d'))" and "plan_ok maxRec plan" and "log_inv plan n d"
    and "reader_at maxRec plan n d r ops out" and "rd_current r = Some (f, pos)"
  shows "same_disk d d' \<and> (\<exists>ops'. reader_at maxRec plan n d' r' ops' (out @ emitted fl)) \<and>
     (fl = Yield None \<longrightarrow> caught_up maxRec plan n d (rd_readerGen r) (rd_nextSeq r) out)"
  using assms(2-5)
proof (cases rule: read_step_cases)
  case ended
  show ?thesis
  proof (cases "rd_curLive r")
    case False
    then show ?thesis
      using reader_at_finish [OF assms(4,5) False ended(1)] ended(2) assms(1) by auto
  next
    case True
    then obtain b where b: "maybeDemoteLiveLocked (r, d) = (Inr b, (r', d'))" "fl = (if b then Again else Yield None)"
      using ended(2) assms(1) by (auto simp: io_bind_def io_return_def split: prod.splits sum.splits)
    note dem = demote_at [OF b(1) assms(3,4,5) True]
    have "caught_up maxRec plan n d (rd_readerGen r) (rd_nextSeq r) out" if "\<not> b"
      using assms(4,5) dem that ended(1)
      by (intro caught_upI [of plan n d r ops f pos]) (auto simp: reader_at_def progress_def)
    then show ?thesis
      using dem b(2) by (auto split: if_splits)
  qed
next
  case more
  then show ?thesis
    using assms(1) by auto
next
  case torn
  then show ?thesis
    using assms(1) by simp
qed

lemma caught_up_idle:
  assumes "queued plan n d r ops" and "rd_current r = None" and "rd_segments r = []"
    and "\<forall>(nm, i) \<in> set (dk_dir d). i < unat (rd_nextScanIdx r)" and "out = shown maxRec d (rd_nextSeq r) ops"
  shows "caught_up maxRec plan n d (rd_readerGen r) (rd_nextSeq r) out"
proof -
  have "sorted_wrt (<) ops" "\<forall>i \<in> set ops. i < n \<and> gen_of plan i = rd_readerGen r"
    using assms(1-3) by (auto simp: queued_def queue_idx_def frozen_def)
  moreover have "\<forall>(nm, i) \<in> set (dk_dir d). gen_of plan i = rd_readerGen r \<longrightarrow> i \<in> set ops"
    using assms(1-4) unfolding queued_def queue_idx_def by fastforce
  ultimately show ?thesis
    using assms(5) unfolding caught_up_def by blast
qed

text \<open>What a reader was opened for does not change.\<close>

abbreviation request :: "reader \<Rightarrow> uint32 \<times> uint64 \<times> bool" where
  "request r \<equiv> (rd_readerGen r, rd_nextSeq r, rd_closed r)"

lemma rescan_request: "rescanLocked rd = (res, (r', d')) \<Longrightarrow> request r' = request (fst rd)"
  by (auto simp: rescanLocked_def io_bind_def io_snd_def Let_def split: prod.splits sum.splits)

lemma open_segment_request: "open_segment e rd = (res, (r', d')) \<Longrightarrow> request r' = request (fst rd)"
  by (auto simp: open_segment_def io_bind_def io_snd_def Let_def split: prod.splits sum.splits option.splits if_splits)

lemma demote_request: "maybeDemoteLiveLocked rd = (res, (r', d')) \<Longrightarrow> request r' = request (fst rd)"
  by (auto simp: maybeDemoteLiveLocked_def io_bind_def io_then_def io_return_def modify_reader_def io_snd_def Let_def
      split: prod.splits sum.splits if_splits dest!: rescan_request)

lemma surface_request: "surface p rd = (res, (r', d')) \<Longrightarrow> request r' = request (fst rd)"
  by (auto simp: surface_def Let_def split: option.splits prod.splits if_splits)

lemma read_step_request: "read_step maxRec rd = (res, (r', d')) \<Longrightarrow> request r' = request (fst rd)"
  by (auto simp: read_step_def io_bind_def io_return_def Let_def
      split: option.splits prod.splits sum.splits if_splits dest!: surface_request demote_request)

lemma next_turn_request:
  assumes "next_turn maxRec (r, d) = (res, (r', d'))"
  shows "request r' = request r"
  using assms
  by (auto simp: next_turn_def io_bind_def io_then_def io_return_def
      split: prod.splits sum.splits if_splits list.splits dest!: rescan_request open_segment_request read_step_request)

lemma caught_up_same: "same_disk d d' \<Longrightarrow> caught_up maxRec plan n d' g start out = caught_up maxRec plan n d g start out"
  by (simp add: caught_up_def same_disk_def shown_def)

text \<open>The second half of a turn that starts without a segment.\<close>

definition head_turn :: "int \<Rightarrow> flow reader_io" where
  "head_turn maxRec rd =
     (case rd_segments (fst rd) of
        [] \<Rightarrow> (Inr (Yield None), rd)
      | e # es \<Rightarrow>
          io_bind (open_segment e) (\<lambda>opened. if opened then read_step maxRec else io_return Again)
            ((fst rd)\<lparr>rd_segments := es\<rparr>, snd rd))"

lemma next_turn_unfold:
  "next_turn maxRec (r, d) =
     (if rd_current r \<noteq> None then read_step maxRec (r, d)
      else io_then (if rd_segments r = [] then rescanLocked else io_return ()) (head_turn maxRec) (r, d))"
  by (simp add: next_turn_def head_turn_def [abs_def])

lemma head_turn_at:
  assumes "head_turn maxRec (r, d) = (Inr fl, (r', d'))" and "plan_ok maxRec plan" and "log_inv plan n d"
    and "reader_at maxRec plan n d r ops out" and "rd_current r = None"
    and "rd_segments r = [] \<longrightarrow> (\<forall>(nm, i) \<in> set (dk_dir d). i < unat (rd_nextScanIdx r))"
  shows "same_disk d d' \<and> (\<exists>ops'. reader_at maxRec plan n d' r' ops' (out @ emitted fl)) \<and>
     (fl = Yield None \<longrightarrow> caught_up maxRec plan n d (rd_readerGen r) (rd_nextSeq r) out)"
proof (cases "rd_segments r")
  case Nil
  then have "caught_up maxRec plan n d (rd_readerGen r) (rd_nextSeq r) out"
    using assms(4-6) by (intro caught_up_idle [of plan n d r ops]) (auto simp: reader_at_def progress_def)
  then show ?thesis
    using assms(1,4) Nil by (auto simp: head_turn_def)
next
  case (Cons e es)
  obtain b r2 d2 where opened: "open_segment e (r\<lparr>rd_segments := es\<rparr>, d) = (Inr b, (r2, d2))"
      "(if b then read_step maxRec else io_return Again) (r2, d2) = (Inr fl, (r', d'))"
    using assms(1) Cons by (auto simp: head_turn_def io_bind_def split: prod.splits sum.splits if_splits)
  note op = open_segment_at [OF opened(1) assms(3,2,4,5) Cons]
  have d2: "same_disk d d2" "reader_at maxRec plan n d2 r2 ops out" "log_inv plan n d2"
    using op assms(3) same_disk_inv(1) [of d d2] by simp_all
  have req: "rd_readerGen r2 = rd_readerGen r" "rd_nextSeq r2 = rd_nextSeq r"
    using open_segment_request [OF opened(1)] by simp_all
  show ?thesis
  proof (cases b)
    case False
    then show ?thesis
      using opened(2) d2 by (auto simp: io_return_def)
  next
    case True
    then obtain pos where pos: "rd_current r2 = Some (unat (se_idx e), pos)"
      using op by auto
    have "read_step maxRec (r2, d2) = (Inr fl, (r', d'))"
      using True opened(2) by simp
    from read_step_at [OF this assms(2) d2(3,2) pos] show ?thesis
      using d2(1) req by (simp add: caught_up_same) (blast intro: same_disk_trans)
  qed
qed

lemma next_turn_at:
  assumes "next_turn maxRec (r, d) = (Inr fl, (r', d'))" and "plan_ok maxRec plan" and "log_inv plan n d"
    and "reader_at maxRec plan n d r ops out"
  shows "same_disk d d' \<and> (\<exists>ops'. reader_at maxRec plan n d' r' ops' (out @ emitted fl)) \<and>
     (fl = Yield None \<longrightarrow> caught_up maxRec plan n d (rd_readerGen r) (rd_nextSeq r) out)"
proof (cases "rd_current r")
  case (Some c)
  then show ?thesis
    using assms read_step_at by (cases c) (simp add: next_turn_unfold)
next
  case None
  let ?scan = "if rd_segments r = [] then rescanLocked else io_return ()"
  obtain r1 d1 where scan: "?scan (r, d) = (Inr (), (r1, d1))" "head_turn maxRec (r1, d1) = (Inr fl, (r', d'))"
    using assms(1) None by (auto simp: next_turn_unfold io_then_def io_bind_def split: prod.splits sum.splits)
  have s: "same_disk d d1" "reader_at maxRec plan n d1 r1 ops out" "rd_current r1 = None"
      "rd_readerGen r1 = rd_readerGen r" "rd_nextSeq r1 = rd_nextSeq r"
      "rd_segments r1 = [] \<longrightarrow> (\<forall>(nm, i) \<in> set (dk_dir d1). i < unat (rd_nextScanIdx r1))"
    using scan(1) rescan_at [of r d "()" r1 d1 plan n maxRec ops out] assms(3,4) None
    by (auto simp: io_return_def same_disk_def split: if_splits)
  have "log_inv plan n d1"
    using s(1) assms(3) by (simp add: same_disk_inv)
  from head_turn_at [OF scan(2) assms(2) this s(2,3,6)] show ?thesis
    using s(1,4,5) by (simp add: caught_up_same) (blast intro: same_disk_trans)
qed

end
