(* ===== verification/Reader_Safety.thy ===== *)
theory Reader_Safety
  imports Reader_Turn
begin

text \<open>
  What a reader of the log returns while the log goes on: records in order, none twice, none left out
  of the segments that are there when it has caught up; and on a log at rest it gets there. Steps of the
  log fall between turns of the loop of \<open>nextLocked\<close>, not inside one.
\<close>

section \<open>Runs of the log and one reader\<close>

text \<open>
  Steps of the log and turns of the reader alternate in any order. A turn that fails ends the run; a
  reader is opened once, at any time. The list collects what the reader has returned.
\<close>

inductive reader_run :: "int \<Rightarrow> segmentPlan \<Rightarrow> readerOptions \<Rightarrow> nat \<times> disk \<times> (reader \<times> walRecord list) option \<Rightarrow> bool"
  for maxRec plan opts where
  run_start: "reader_run maxRec plan opts (0, empty_disk, None)"
| run_log: "reader_run maxRec plan opts (n, d, rs) \<Longrightarrow> log_step plan (n, d) (n', d') \<Longrightarrow> reader_run maxRec plan opts (n', d', rs)"
| run_open: "reader_run maxRec plan opts (n, d, None) \<Longrightarrow> NewReader w opts d = (Inr r, d') \<Longrightarrow>
    reader_run maxRec plan opts (n, d', Some (r, []))"
| run_turn: "reader_run maxRec plan opts (n, d, Some (r, out)) \<Longrightarrow>
    next_turn maxRec (r, d) = (Inr fl, (r', d')) \<Longrightarrow> reader_run maxRec plan opts (n, d', Some (r', out @ emitted fl))"

definition run_inv :: "int \<Rightarrow> segmentPlan \<Rightarrow> readerOptions \<Rightarrow> nat \<times> disk \<times> (reader \<times> walRecord list) option \<Rightarrow> bool" where
  "run_inv maxRec plan opts s \<longleftrightarrow>
     (case s of (n, d, rs) \<Rightarrow> log_inv plan n d \<and>
        (\<forall>r out. rs = Some (r, out) \<longrightarrow>
           request r = (ro_Generation opts, ro_Start opts, False) \<and> (\<exists>ops. reader_at maxRec plan n d r ops out)))"

lemma run_open_inv:
  assumes "run_inv maxRec plan opts (n, d, None)" and "NewReader w opts d = (Inr r, d')"
  shows "run_inv maxRec plan opts (n, d', Some (r, []))"
proof -
  define r0 where "r0 = \<lparr>rd_segments = [], rd_current = None, rd_curGen = 0, rd_curIdx = 0, rd_curLive = False,
      rd_nextScanIdx = 0, rd_lastGoodSeq = 0, rd_lastGoodGen = 0, rd_lastGoodGenSet = False,
      rd_nextSeq = ro_Start opts, rd_readerGen = ro_Generation opts, rd_lastEmittedSeq = 0, rd_closed = False\<rparr>"
  have scan: "rescanLocked (r0, d) = (Inr (), (r, d'))"
    using assms(2) by (auto simp: NewReader_def r0_def Let_def split: if_splits prod.splits sum.splits)
  have "reader_at maxRec plan n d r0 [] []"
    by (simp add: reader_at_def queued_def progress_def shown_def r0_def cur_idx_def queue_idx_def)
  moreover have inv: "log_inv plan n d"
    using assms(1) by (simp add: run_inv_def)
  ultimately have "same_disk d d' \<and> reader_at maxRec plan n d' r [] []"
    using rescan_at [OF scan] by blast
  then show ?thesis
    using rescan_request [OF scan] inv same_disk_inv(1) [of d d'] by (auto simp: run_inv_def r0_def)
qed

lemma reader_run_inv:
  assumes "reader_run maxRec plan opts s" and "plan_ok maxRec plan"
  shows "run_inv maxRec plan opts s"
  using assms(1)
proof induction
  case run_start
  then show ?case
    by (simp add: run_inv_def log_inv_empty)
next
  case (run_log n d rs n' d')
  then show ?case
    using log_step_inv [OF run_log(2)] log_step_queued [OF run_log(2)] log_step_progress [OF run_log(2)] assms(2)
    unfolding run_inv_def reader_at_def by blast
next
  case (run_open n d w r d')
  then show ?case
    by (blast intro: run_open_inv)
next
  case (run_turn n d r out fl r' d')
  then obtain ops where at: "log_inv plan n d" "reader_at maxRec plan n d r ops out" "request r = (ro_Generation opts, ro_Start opts, False)"
    by (auto simp: run_inv_def)
  show ?case
    using next_turn_at [OF run_turn(2) assms(2) at(1,2)] next_turn_request [OF run_turn(2)] at
    by (auto simp: run_inv_def same_disk_inv)
qed

text \<open>A call goes through turns until one yields.\<close>

definition again :: "int \<Rightarrow> reader \<times> disk \<Rightarrow> reader \<times> disk \<Rightarrow> bool" where
  "again maxRec rd rd' \<longleftrightarrow> next_turn maxRec rd = (Inr Again, rd')"

lemma nextLocked_turns:
  assumes "nextLocked maxRec rd = Some (Inr res, rd')"
  obtains rd1 where "(again maxRec)\<^sup>*\<^sup>* rd rd1" and "next_turn maxRec rd1 = (Inr (Yield res), rd')"
proof -
  have "fst y = Inr res \<longrightarrow> (\<exists>rd1. (again maxRec)\<^sup>*\<^sup>* rd rd1 \<and> next_turn maxRec rd1 = (Inr (Yield res), snd y))"
    if "nextLocked maxRec rd = Some y" for y
    using that
  proof (rule nextLocked.raw_induct [where P = "\<lambda>maxRec rd y. fst y = Inr res \<longrightarrow>
      (\<exists>rd1. (again maxRec)\<^sup>*\<^sup>* rd rd1 \<and> next_turn maxRec rd1 = (Inr (Yield res), snd y))", rotated], goal_cases)
    case (1 call maxRec rd y)
    obtain x rd1 where turn: "next_turn maxRec rd = (x, rd1)"
      by (cases "next_turn maxRec rd")
    show ?case
    proof (cases "x = Inr Again")
      case True
      then have "again maxRec rd rd1" "call maxRec rd1 = Some y"
        using 1(2) turn by (simp_all add: again_def)
      then show ?thesis
        using 1(1) by (meson converse_rtranclp_into_rtranclp)
    next
      case False
      then have "fst y = Inr res \<longrightarrow> next_turn maxRec rd = (Inr (Yield res), snd y)"
        using 1(2) turn by (auto split: sum.splits flow.splits)
      then show ?thesis
        by blast
    qed
  qed
  then show thesis
    using assms that by fastforce
qed

lemma run_again:
  assumes "(again maxRec)\<^sup>*\<^sup>* rd rd'" and "reader_run maxRec plan opts (n, snd rd, Some (fst rd, out))"
  shows "reader_run maxRec plan opts (n, snd rd', Some (fst rd', out))"
  using assms
proof (induction rule: rtranclp_induct)
  case (step rd1 rd2)
  then show ?case
    using run_turn [of maxRec plan opts n "snd rd1" "fst rd1" out Again "fst rd2" "snd rd2"] by (simp add: again_def)
qed

lemma again_same:
  assumes "(again maxRec)\<^sup>*\<^sup>* rd rd'" and "reader_run maxRec plan opts (n, snd rd, Some (fst rd, out))" and "plan_ok maxRec plan"
  shows "same_disk (snd rd) (snd rd')"
  using assms(1)
proof (induction rule: rtranclp_induct)
  case (step rd1 rd2)
  have "run_inv maxRec plan opts (n, snd rd1, Some (fst rd1, out))"
    by (rule reader_run_inv [OF run_again [OF step(1) assms(2)] assms(3)])
  then show ?case
    using step(2,3) next_turn_at [of maxRec "fst rd1" "snd rd1" Again "fst rd2" "snd rd2" plan n _ out] assms(3)
    by (auto simp: again_def run_inv_def intro: same_disk_trans)
qed simp

lemma run_TryNext:
  assumes "reader_run maxRec plan opts (n, d, Some (r, out))" and "TryNext maxRec (r, d) = Some (Inr res, (r', d'))"
    and "plan_ok maxRec plan"
  shows "reader_run maxRec plan opts (n, d', Some (r', out @ emitted (Yield res)))" and "same_disk d d'"
    and "res = None \<longrightarrow> caught_up maxRec plan n d (ro_Generation opts) (ro_Start opts) out"
proof -
  have "nextLocked maxRec (r, d) = Some (Inr res, (r', d'))"
    using assms(2) by (simp add: TryNext_def split: if_splits)
  then obtain r1 d1 where turns: "(again maxRec)\<^sup>*\<^sup>* (r, d) (r1, d1)" "next_turn maxRec (r1, d1) = (Inr (Yield res), (r', d'))"
    by (metis nextLocked_turns surj_pair)
  have run1: "reader_run maxRec plan opts (n, d1, Some (r1, out))" and d1: "same_disk d d1"
    using run_again [OF turns(1)] again_same [OF turns(1)] assms(1,3) by simp_all
  show "reader_run maxRec plan opts (n, d', Some (r', out @ emitted (Yield res)))"
    by (rule run_turn [OF run1 turns(2)])
  obtain ops where "log_inv plan n d1" "reader_at maxRec plan n d1 r1 ops out"
      "request r1 = (ro_Generation opts, ro_Start opts, False)"
    using reader_run_inv [OF run1 assms(3)] by (auto simp: run_inv_def)
  with next_turn_at [OF turns(2) assms(3)] d1
  show "same_disk d d'" "res = None \<longrightarrow> caught_up maxRec plan n d (ro_Generation opts) (ro_Start opts) out"
    by (fastforce intro: same_disk_trans simp: caught_up_same)+
qed

section \<open>A log at rest\<close>

definition at_rest :: "segmentPlan \<Rightarrow> nat \<Rightarrow> disk \<Rightarrow> bool" where
  "at_rest plan n d \<longleftrightarrow> dk_sched d = [] \<and> (\<forall>i < n. whole plan i (dk_data d i))"

text \<open>What is left to do: segments to open, then closing or demoting the current one, then its bytes.\<close>

definition pending :: "disk \<Rightarrow> reader \<Rightarrow> nat" where
  "pending d r = length (filter (\<lambda>(nm, i). unat (rd_nextScanIdx r) \<le> i) (dk_dir d)) + length (rd_segments r)"

definition turn_rank :: "disk \<Rightarrow> reader \<Rightarrow> nat \<times> nat \<times> nat" where
  "turn_rank d r =
     (pending d r,
      (case rd_current r of None \<Rightarrow> 0 | Some _ \<Rightarrow> if rd_curLive r then 2 else 1),
      (case rd_current r of None \<Rightarrow> 0 | Some (f, pos) \<Rightarrow> length (dk_data d f) - pos))"

abbreviation rank_less :: "((nat \<times> nat \<times> nat) \<times> (nat \<times> nat \<times> nat)) set" where
  "rank_less \<equiv> less_than <*lex*> less_than <*lex*> less_than"

lemma wf_rank: "wf rank_less"
  by (intro wf_lex_prod wf_less_than)

lemma quiet_calls:
  "dk_sched d = [] \<Longrightarrow> disk_readdir d = (Inr (map fst (dk_dir d)), d)"
  "dk_sched d = [] \<Longrightarrow> disk_open nm d = (case map_of (dk_dir d) nm of None \<Rightarrow> Inl ErrNotExist | Some f \<Rightarrow> Inr f, d)"
  by (simp_all add: disk_readdir_def disk_open_def disk_call_def)

lemma scan_length:
  assumes "log_inv plan n d"
  shows "length (scan_entries start (map fst (dk_dir d))) = length (filter (\<lambda>(nm, i). unat start \<le> i) (dk_dir d))"
proof -
  have names: "\<forall>(nm, i) \<in> set (dk_dir d). nm = sealed_file i \<or> nm = live_file i"
    using log_inv_entry [OF assms] by blast
  have small: "i < 2 ^ 64" if "(nm, i) \<in> set (dk_dir d)" for nm i
    using log_inv_entry [OF assms that] by blast
  have "filter ((\<lambda>e. \<not> se_idx e < start) \<circ> (\<lambda>(nm, i). \<lparr>se_name = nm, se_idx = word_of_nat i\<rparr>)) (dk_dir d) =
      filter (\<lambda>(nm, i). unat start \<le> i) (dk_dir d)"
    by (rule filter_cong [OF refl]) (auto simp: word_less_nat_alt unat_of_nat64 not_less dest: small)
  then show ?thesis
    unfolding scan_entries_def unfolding scan_names [OF names] unfolding length_sort filter_map length_map by simp
qed

lemma pending_scan:
  assumes "log_inv plan n d" and "queued plan n d r ops" and "dk_sched d = []"
  obtains q x where "rescanLocked (r, d) = (Inr (), (r\<lparr>rd_segments := q, rd_nextScanIdx := x\<rparr>, d))"
    and "pending d (r\<lparr>rd_segments := q, rd_nextScanIdx := x\<rparr>) = pending d r"
proof -
  define found where "found = scan_entries (rd_nextScanIdx r) (map fst (dk_dir d))"
  define x where "x = (if found = [] then rd_nextScanIdx r else se_idx (last found) + 1)"
  have scan: "rescanLocked (r, d) = (Inr (), (r\<lparr>rd_segments := rd_segments r @ found, rd_nextScanIdx := x\<rparr>, d))"
    using assms(3) by (simp add: rescanLocked_def io_bind_def io_snd_def quiet_calls Let_def found_def x_def)
  have "filter (\<lambda>(nm, i). unat x \<le> i) (dk_dir d) = []"
    using scan_queued [OF assms(1,2) found_def x_def refl] by (auto simp: filter_empty_conv)
  then show thesis
    using scan_length [OF assms(1), of "rd_nextScanIdx r"]
    by (intro that [OF scan]) (simp add: pending_def flip: found_def)
qed

text \<open>On such a log no turn fails, and a turn that does not report the end leaves less to do.\<close>

lemma open_file_quiet:
  assumes "dk_sched d = []"
  shows "open_file e d =
     (Inr (case map_of (dk_dir d) (se_name e) of
             Some f \<Rightarrow> Some (f, hasSuffix (se_name e) inprogressSuffix)
           | None \<Rightarrow>
               if hasSuffix (se_name e) inprogressSuffix
               then map_option (\<lambda>f. (f, False)) (map_of (dk_dir d) (segmentName (se_idx e))) else None), d)"
  by (cases "map_of (dk_dir d) (se_name e)"; cases "map_of (dk_dir d) (segmentName (se_idx e))")
    (simp_all add: open_file_def quiet_calls [OF assms])

lemma open_segment_rest:
  assumes "plan_ok maxRec plan" and "at_rest plan n d" and "log_inv plan n d"
  shows "\<exists>b r'. open_segment e (r, d) = (Inr b, (r', d))"
proof -
  have dir: "\<exists>h. fst (ReadSegmentHeader (dk_data d i)) = Inr h" if "(nm, i) \<in> set (dk_dir d)" for nm i
    using header_read_whole [OF assms(1)] assms(2) log_inv_entry [OF assms(3) that] unfolding at_rest_def by metis
  have quiet: "dk_sched d = []"
    using assms(2) by (simp add: at_rest_def)
  obtain opened where opened: "open_file e d = (Inr opened, d)"
    using open_file_quiet [OF quiet] by blast
  have entry: "\<exists>nm. (nm, f) \<in> set (dk_dir d)" if "opened = Some (f, live)" for f live
    using opened that map_of_SomeD
    by (fastforce simp: open_file_quiet [OF quiet] split: option.splits if_splits)
  show ?thesis
  proof (cases opened)
    case None
    then show ?thesis
      by (auto simp: open_segment_def io_bind_def io_snd_def opened)
  next
    case (Some fl)
    then obtain h where "fst (ReadSegmentHeader (dk_data d (fst fl))) = Inr h"
      using entry [of "fst fl" "snd fl"] dir by auto
    then show ?thesis
      using Some by (cases fl) (auto simp: open_segment_def io_bind_def io_snd_def opened Let_def)
  qed
qed

lemma demote_rest:
  assumes "at_rest plan n d" and "log_inv plan n d" and "reader_at maxRec plan n d r ops out"
    and "rd_current r = Some (f, pos)" and "rd_curLive r"
  obtains fl r' where "demote_flow (r, d) = (Inr fl, (r', d))"
    and "fl = Yield None \<or> (turn_rank d r', turn_rank d r) \<in> rank_less" and "pending d r' = pending d r"
proof -
  let ?r = "r\<lparr>rd_curLive := False\<rparr>" and ?names = "map fst (dk_dir d)"
  have quiet: "dk_sched d = []"
    using assms(1) by (simp add: at_rest_def)
  show thesis
  proof (cases "sealed_since (rd_curIdx r) ?names \<or> newer_since (rd_curIdx r) ?names")
    case False
    then have "demote_flow (r, d) = (Inr (Yield None), (r, d))"
      using assms(5) by (simp add: demote_unfold io_bind_def io_snd_def io_return_def quiet_calls quiet)
    then show thesis
      by (rule that) simp_all
  next
    case True
    have "queued plan n d ?r ops"
      using assms(3) by (simp add: reader_at_def queued_def cur_idx_def queue_idx_def)
    then obtain q x where scan: "rescanLocked (?r, d) = (Inr (), (?r\<lparr>rd_segments := q, rd_nextScanIdx := x\<rparr>, d))"
        "pending d (?r\<lparr>rd_segments := q, rd_nextScanIdx := x\<rparr>) = pending d ?r"
      using pending_scan [OF assms(2)] quiet by blast
    let ?r' = "?r\<lparr>rd_segments := q, rd_nextScanIdx := x\<rparr>"
    have "demote_flow (r, d) = (Inr Again, (?r', d))"
      using True assms(5) scan(1)
      by (simp add: demote_unfold io_bind_def io_then_def io_snd_def io_return_def quiet_calls quiet)
    moreover have "pending d ?r' = pending d r"
      using scan(2) by (simp add: pending_def)
    ultimately show thesis
      using assms(4,5) by (intro that [of Again ?r']) (simp_all add: turn_rank_def)
  qed
qed

lemma read_step_rest:
  assumes "plan_ok maxRec plan" and "at_rest plan n d" and "log_inv plan n d" and "reader_at maxRec plan n d r ops out"
    and "rd_current r = Some (f, pos)"
  obtains fl r' where "read_step maxRec (r, d) = (Inr fl, (r', d))"
    and "fl = Yield None \<or> (turn_rank d r', turn_rank d r) \<in> rank_less" and "pending d r' = pending d r"
  using assms(1,3-5)
proof (cases rule: read_step_cases)
  case torn
  then show thesis
    using assms(2,4,5) by (auto simp: at_rest_def reader_at_def progress_def)
next
  case (more fl r' pos')
  have "rd_current r' = Some (f, pos')" "rd_curLive r' = rd_curLive r" "pending d r' = pending d r"
    using more(4) by (simp_all add: stand_def pending_def)
  then show thesis
    using more(1,5,6) assms(5) by (intro that [of fl r']) (simp_all add: turn_rank_def diff_less_mono2)
next
  case ended
  show thesis
  proof (cases "rd_curLive r")
    case False
    then show thesis
      using ended(2) assms(5) by (intro that [of Again "r\<lparr>rd_current := None\<rparr>"]) (simp_all add: turn_rank_def pending_def)
  next
    case True
    show thesis
      by (rule demote_rest [OF assms(2-5) True]) (use ended(2) True that in simp)
  qed
qed

lemma head_turn_rest:
  assumes "plan_ok maxRec plan" and "at_rest plan n d" and "log_inv plan n d" and "reader_at maxRec plan n d r ops out"
    and "rd_current r = None"
  obtains fl r' where "head_turn maxRec (r, d) = (Inr fl, (r', d))" and "fl = Yield None \<or> pending d r' < pending d r"
proof (cases "rd_segments r")
  case Nil
  then show thesis
    by (intro that [of "Yield None" r]) (simp_all add: head_turn_def)
next
  case (Cons e es)
  obtain b r1 where opened: "open_segment e (r\<lparr>rd_segments := es\<rparr>, d) = (Inr b, (r1, d))"
    using open_segment_rest [OF assms(1-3)] by blast
  note op = open_segment_at [OF opened assms(3,1,4,5) Cons]
  have less: "pending d r1 < pending d r"
    using op Cons by (simp add: pending_def)
  show thesis
  proof (cases b)
    case False
    then show thesis
      using opened Cons less by (intro that [of Again r1]) (simp_all add: head_turn_def io_bind_def io_return_def)
  next
    case True
    then obtain pos where pos: "rd_current r1 = Some (unat (se_idx e), pos)"
      using op by auto
    have "reader_at maxRec plan n d r1 ops out"
      using op by blast
    then obtain fl r' where "read_step maxRec (r1, d) = (Inr fl, (r', d))" "pending d r' = pending d r1"
      using read_step_rest [OF assms(1-3) _ pos] by blast
    then show thesis
      using opened Cons less True by (intro that [of fl r']) (simp_all add: head_turn_def io_bind_def)
  qed
qed

lemma next_turn_rest:
  assumes "plan_ok maxRec plan" and "at_rest plan n d" and "log_inv plan n d" and "reader_at maxRec plan n d r ops out"
  obtains fl r' where "next_turn maxRec (r, d) = (Inr fl, (r', d))"
    and "fl = Yield None \<or> (turn_rank d r', turn_rank d r) \<in> rank_less"
proof (cases "rd_current r")
  case (Some c)
  then obtain f pos where "rd_current r = Some (f, pos)"
    by (cases c) simp
  with read_step_rest [OF assms] that show thesis
    by (simp add: next_turn_unfold) metis
next
  case None
  have quiet: "dk_sched d = []"
    using assms(2) by (simp add: at_rest_def)
  obtain r1 where scan: "(if rd_segments r = [] then rescanLocked else io_return ()) (r, d) = (Inr (), (r1, d))"
      "pending d r1 = pending d r" "reader_at maxRec plan n d r1 ops out" "rd_current r1 = None"
  proof (cases "rd_segments r = []")
    case False
    then show thesis
      using assms(4) None by (intro that [of r]) (simp_all add: io_return_def)
  next
    case True
    obtain q x where sc: "rescanLocked (r, d) = (Inr (), (r\<lparr>rd_segments := q, rd_nextScanIdx := x\<rparr>, d))"
        "pending d (r\<lparr>rd_segments := q, rd_nextScanIdx := x\<rparr>) = pending d r"
      using pending_scan [OF assms(3) _ quiet] assms(4) unfolding reader_at_def by metis
    show thesis
      using sc True None rescan_at [OF sc(1) assms(3,4)]
      by (intro that [of "r\<lparr>rd_segments := q, rd_nextScanIdx := x\<rparr>"]) simp_all
  qed
  obtain fl r' where "head_turn maxRec (r1, d) = (Inr fl, (r', d))" "fl = Yield None \<or> pending d r' < pending d r1"
    using head_turn_rest [OF assms(1-3) scan(3,4)] by blast
  then show thesis
    using scan(1,2) None by (intro that [of fl r'])
      (simp_all add: next_turn_unfold io_then_def io_bind_def turn_rank_def)
qed

text \<open>Calling until there is no more: the records returned on the way.\<close>

inductive reads :: "int \<Rightarrow> reader \<times> disk \<Rightarrow> walRecord list \<Rightarrow> reader \<times> disk \<Rightarrow> bool" for maxRec where
  reads_end: "TryNext maxRec rd = Some (Inr None, rd') \<Longrightarrow> reads maxRec rd [] rd'"
| reads_more: "TryNext maxRec rd = Some (Inr (Some rec), rd1) \<Longrightarrow> reads maxRec rd1 recs rd' \<Longrightarrow> reads maxRec rd (rec # recs) rd'"

lemma nextLocked_rest:
  assumes "plan_ok maxRec plan" and "at_rest plan n d" and "reader_run maxRec plan opts (n, d, Some (r, out))"
  shows "\<exists>res r'. nextLocked maxRec (r, d) = Some (Inr res, (r', d)) \<and>
     (res = None \<or> (turn_rank d r', turn_rank d r) \<in> rank_less)"
  using assms(3)
proof (induction "turn_rank d r" arbitrary: r rule: wf_induct_rule [OF wf_rank])
  case (1 r)
  obtain ops where "log_inv plan n d" "reader_at maxRec plan n d r ops out"
    using reader_run_inv [OF 1(2) assms(1)] by (auto simp: run_inv_def)
  then obtain fl r' where turn: "next_turn maxRec (r, d) = (Inr fl, (r', d))"
      "fl = Yield None \<or> (turn_rank d r', turn_rank d r) \<in> rank_less"
    using next_turn_rest [OF assms(1,2)] by blast
  show ?case
  proof (cases fl)
    case (Yield res)
    then show ?thesis
      using turn by (subst nextLocked.simps) auto
  next
    case Again
    have "reader_run maxRec plan opts (n, d, Some (r', out))"
      using run_turn [OF 1(2) turn(1)] Again by simp
    with 1(1) turn(2) Again obtain res r'' where call: "nextLocked maxRec (r', d) = Some (Inr res, (r'', d))"
        "res = None \<or> (turn_rank d r'', turn_rank d r') \<in> rank_less"
      by blast
    have "nextLocked maxRec (r, d) = Some (Inr res, (r'', d))"
      using turn(1) Again call(1) by (subst nextLocked.simps) simp
    moreover have "trans rank_less"
      by (intro trans_lex_prod trans_less_than)
    ultimately show ?thesis
      using turn(2) Again call(2) by (blast dest: transD)
  qed
qed

lemma reads_rest:
  assumes "plan_ok maxRec plan" and "at_rest plan n d" and "reader_run maxRec plan opts (n, d, Some (r, out))"
  shows "\<exists>recs r'. reads maxRec (r, d) recs (r', d) \<and>
     caught_up maxRec plan n d (ro_Generation opts) (ro_Start opts) (out @ recs)"
  using assms(3)
proof (induction "turn_rank d r" arbitrary: r out rule: wf_induct_rule [OF wf_rank])
  case (1 r out)
  obtain res r1 where call: "nextLocked maxRec (r, d) = Some (Inr res, (r1, d))"
      "res = None \<or> (turn_rank d r1, turn_rank d r) \<in> rank_less"
    using nextLocked_rest [OF assms(1,2) 1(2)] by blast
  have "\<not> rd_closed r"
    using reader_run_inv [OF 1(2) assms(1)] by (simp add: run_inv_def)
  then have try_next: "TryNext maxRec (r, d) = Some (Inr res, (r1, d))"
    using call(1) by (simp add: TryNext_def)
  note run = run_TryNext [OF 1(2) this assms(1)]
  show ?case
  proof (cases res)
    case None
    then show ?thesis
      using reads_end [of maxRec "(r, d)" "(r1, d)"] try_next run(3) by auto
  next
    case (Some rec)
    then obtain recs r' where "reads maxRec (r1, d) recs (r', d)"
        "caught_up maxRec plan n d (ro_Generation opts) (ro_Start opts) ((out @ [rec]) @ recs)"
      using 1(1) [of r1 "out @ [rec]"] call(2) run(1) by auto
    then show ?thesis
      using reads_more [of maxRec "(r, d)" rec "(r1, d)" recs "(r', d)"] try_next Some by auto
  qed
qed

section \<open>What a reader returns\<close>

lemma shown_subseq:
  assumes "plan_ok maxRec plan" and "\<forall>i \<in> set ops. prefix (dk_data d i) (final_bytes plan i) \<and> whole plan i (dk_data d i)"
  shows "subseq (shown maxRec d start ops) (concat (map (\<lambda>i. visible start (snd (plan i))) ops))"
  using assms(2)
proof (induction ops)
  case (Cons i ops)
  obtain k where "dk_data d i = first_bytes plan i k"
    using Cons.prems by (auto simp: whole_def)
  then have "stored maxRec (dk_data d i) = take k (snd (plan i))"
    by (simp add: stored_first [OF assms(1)])
  then have "prefix (visible start (stored maxRec (dk_data d i))) (visible start (snd (plan i)))"
    by (metis append_take_drop_id prefixI visible_append)
  then show ?case
    using Cons by (simp add: shown_def list_emb_append_mono prefix_imp_subseq)
qed (simp add: shown_def)

lemma subseq_concat_map: "subseq xs ys \<Longrightarrow> subseq (concat (map h xs)) (concat (map h ys))"
proof (induction xs ys rule: list_emb.induct)
  case (list_emb_Cons xs ys y)
  then show ?case by (simp add: list_emb_append2)
next
  case (list_emb_Cons2 x y xs ys)
  then show ?case by (simp add: list_emb_append_mono)
qed simp

lemma sorted_subseq:
  assumes "sorted_wrt (<) segs" and "\<forall>i \<in> set segs. i < n \<and> P i"
  shows "subseq segs (filter P [0..<n])"
proof -
  have "segs = filter (\<lambda>i. i \<in> set segs) (filter P [0..<n])"
    using assms by (intro strict_sorted_equal) (auto simp: sorted_wrt_filter)
  then show ?thesis
    by (metis subseq_filter_left)
qed

definition planned :: "segmentPlan \<Rightarrow> nat \<Rightarrow> readerOptions \<Rightarrow> walRecord list" where
  "planned plan n opts =
     concat (map (\<lambda>i. visible (ro_Start opts) (snd (plan i))) (filter (\<lambda>i. gen_of plan i = ro_Generation opts) [0..<n]))"

lemma reader_at_planned:
  assumes "plan_ok maxRec plan" and "log_inv plan n d" and "reader_at maxRec plan n d r ops out"
    and "request r = (ro_Generation opts, ro_Start opts, False)"
  shows "subseq out (planned plan n opts)"
proof -
  let ?h = "\<lambda>i. visible (ro_Start opts) (snd (plan i))"
  have ops: "\<forall>i \<in> set ops. i < n \<and> gen_of plan i = ro_Generation opts" "sorted_wrt (<) (ops @ cur_idx r)"
    using assms(3,4) by (auto simp: reader_at_def queued_def frozen_def sorted_wrt_append)
  have "subseq (shown maxRec d (ro_Start opts) ops) (concat (map ?h ops))"
    using assms(2,3) by (intro shown_subseq [OF assms(1)])
      (auto simp: reader_at_def queued_def frozen_def log_invD(4,5) [OF assms(2)])
  moreover have "subseq (visible (ro_Start opts) (take k (snd (plan f)))) (?h f)" for k f
    by (metis append_take_drop_id prefixI prefix_imp_subseq visible_append)
  ultimately have out: "subseq out (concat (map ?h (ops @ cur_idx r)))" and cur: "\<forall>i \<in> set (cur_idx r). i < n \<and> gen_of plan i = ro_Generation opts"
    using assms(3,4) by (auto simp: reader_at_def progress_def cur_idx_def split: option.splits
        intro!: list_emb_append_mono)
  have segs: "\<forall>i \<in> set (ops @ cur_idx r). i < n \<and> gen_of plan i = ro_Generation opts"
    using ops(1) cur by auto
  have "subseq (concat (map ?h (ops @ cur_idx r))) (planned plan n opts)"
    unfolding planned_def by (rule subseq_concat_map [OF sorted_subseq [OF ops(2) segs]])
  with out show ?thesis
    by (rule subseq_order.trans)
qed

section \<open>A sample run\<close>

text \<open>Two segments of generation 1: the first is sealed with sequences 4 and 5, the second is live with 6.\<close>

definition sample_payload :: "uint64 \<Rightarrow> bytes" where
  "sample_payload sq = PutUint64 sq @ PutUint32 1 @ [9]"

definition sample_plan :: segmentPlan where
  "sample_plan i = (\<lparr>sh_Version = SegmentVersion, sh_Flags = 0, sh_Generation = 1\<rparr>,
     if i = 0 then [sample_payload 4, sample_payload 5] else if i = 1 then [sample_payload 6] else [])"

definition sample_request :: readerOptions where
  "sample_request = \<lparr>ro_Generation = 1, ro_Start = 5\<rparr>"

definition sample_disk :: disk where
  "sample_disk = \<lparr>dk_dir = [(live_file 1, 1), (sealed_file 0, 0)],
     dk_data = (\<lambda>_. [])(0 := final_bytes sample_plan 0, 1 := final_bytes sample_plan 1), dk_sched = []\<rparr>"

lemma sample_plan_ok: "plan_ok 64 sample_plan"
proof -
  have "isLossMarker (sample_payload sq) = False \<and> length (sample_payload sq) = 13" if "sq \<in> {4, 5, 6}" for sq
    using that by (elim insertE emptyE; hypsubst) code_simp+
  moreover have "WriteSegmentHeader (fst (sample_plan i)) \<noteq> Inl e" for i e
    by (simp add: sample_plan_def WriteSegmentHeader_def)
  ultimately show ?thesis
    by (auto simp: plan_ok_def sample_plan_def MaxFramedPayload_def WriteSegmentHeader_def)
qed

lemma final_whole: "whole plan i (final_bytes plan i)"
  by (auto simp: whole_def final_bytes_def first_bytes_def intro: exI [of _ "length (snd (plan i))"])

lemma sample_log: "reader_run 64 sample_plan sample_request (2, sample_disk, None)"
proof -
  let ?disk = "\<lambda>dir data. \<lparr>dk_dir = dir, dk_data = data, dk_sched = []\<rparr>"
  let ?run = "\<lambda>n dir data. reader_run 64 sample_plan sample_request (n, ?disk dir data, None)"
  let ?f = "final_bytes sample_plan"
  have "?run 1 [(live_file 0, 0)] ((\<lambda>_. [])(0 := []))"
    using run_log [OF run_start log_create [of empty_disk 0 sample_plan]] by (simp add: empty_disk_def)
  from run_log [OF this log_write [of 0 _ "?f 0"]]
  have "?run 1 [(live_file 0, 0)] ((\<lambda>_. [])(0 := ?f 0))"
    by simp
  from run_log [OF this log_seal [of 0]]
  have "?run 1 [(sealed_file 0, 0)] ((\<lambda>_. [])(0 := ?f 0))"
    by (simp add: final_whole)
  from run_log [OF this log_create]
  have "?run 2 [(live_file 1, 1), (sealed_file 0, 0)] ((\<lambda>_. [])(0 := ?f 0, 1 := []))"
    by (simp add: Suc_1 del: One_nat_def)
  from run_log [OF this log_write [of 1 _ "?f 1"]] show ?thesis
    by (simp add: sample_disk_def)
qed

lemma sample_rest: "at_rest sample_plan 2 sample_disk"
  by (auto simp: at_rest_def sample_disk_def final_whole less_2_cases_iff)

lemma sample_open: "\<exists>r. reader_run 64 sample_plan sample_request (2, sample_disk, Some (r, []))"
proof -
  have "\<exists>r. NewReader (undefined\<lparr>w_closed := False\<rparr>) sample_request sample_disk = (Inr r, sample_disk)"
    by (simp add: NewReader_def rescanLocked_def io_bind_def io_snd_def Let_def quiet_calls sample_disk_def)
  then show ?thesis
    using run_open [OF sample_log] by blast
qed

lemma sample_caught_up:
  assumes "caught_up 64 sample_plan 2 sample_disk 1 5 out"
  shows "out = [RecordData 5 1 [9], RecordData 6 1 [9]]"
proof -
  obtain segs where segs: "sorted_wrt (<) segs" "\<forall>i \<in> set segs. i < 2" "{0, 1} \<subseteq> set segs"
      "out = shown 64 sample_disk 5 segs"
    using assms by (auto simp: caught_up_def sample_disk_def gen_of_def sample_plan_def)
  then have "segs = [0, 1]"
    by (intro strict_sorted_equal) (auto simp: less_2_cases_iff)
  moreover have "final_bytes sample_plan i = first_bytes sample_plan i (length (snd (sample_plan i)))" for i
    by (simp add: final_bytes_def first_bytes_def)
  moreover have "visible 5 (snd (sample_plan 0)) @ visible 5 (snd (sample_plan 1)) =
      [RecordData 5 1 [9], RecordData 6 1 [9]]"
    by code_simp
  ultimately show ?thesis
    using segs(4) by (simp add: shown_def sample_disk_def stored_first [OF sample_plan_ok])
qed

text \<open>Reading on takes a run to the point where nothing is left.\<close>

lemma reads_run:
  assumes "reads maxRec rd recs rd'" and "plan_ok maxRec plan" and "reader_run maxRec plan opts (n, snd rd, Some (fst rd, out))"
  shows "\<exists>r1 d1. reader_run maxRec plan opts (n, d1, Some (r1, out @ recs)) \<and> same_disk (snd rd) d1 \<and>
     TryNext maxRec (r1, d1) = Some (Inr None, rd')"
  using assms(1,3)
proof (induction arbitrary: out)
  case (reads_end rd rd')
  then show ?case
    by (intro exI [of _ "fst rd"] exI [of _ "snd rd"]) simp
next
  case (reads_more rd rec rd1 recs rd')
  have "TryNext maxRec (fst rd, snd rd) = Some (Inr (Some rec), (fst rd1, snd rd1))"
    using reads_more(1) by simp
  note run = run_TryNext [OF reads_more(4) this assms(2)]
  obtain r2 d2 where "reader_run maxRec plan opts (n, d2, Some (r2, (out @ [rec]) @ recs))" "same_disk (snd rd1) d2"
      "TryNext maxRec (r2, d2) = Some (Inr None, rd')"
    using reads_more(3) [of "out @ [rec]"] run(1) by auto
  then show ?case
    using run(2) by (auto intro: same_disk_trans)
qed

lemma sample_done:
  obtains r1 d1 r' d' where "reader_run 64 sample_plan sample_request (2, d1, Some (r1, [RecordData 5 1 [9], RecordData 6 1 [9]]))"
    and "TryNext 64 (r1, d1) = Some (Inr None, (r', d'))" and "same_disk sample_disk d1"
proof -
  obtain r where run: "reader_run 64 sample_plan sample_request (2, sample_disk, Some (r, []))"
    using sample_open by blast
  obtain recs r' where recs: "reads 64 (r, sample_disk) recs (r', sample_disk)"
      "caught_up 64 sample_plan 2 sample_disk 1 5 recs"
    using reads_rest [OF sample_plan_ok sample_rest run] by (auto simp: sample_request_def)
  show thesis
    using reads_run [OF recs(1) sample_plan_ok, of sample_request 2 "[]"] run sample_caught_up [OF recs(2)] that by auto
qed

lemma visible_data:
  assumes "RecordData sq g p \<in> set (visible start ps)"
  shows "start \<le> sq"
proof -
  obtain q where "surfaced start q = Some (RecordData sq g p)"
    using assms by (auto simp: visible_def map_filter_def)
  then show ?thesis
    by (auto simp: surfaced_def split: if_splits option.splits)
qed

section \<open>The properties\<close>







end
