(* ===== verification/Spec2Isabelle.thy ===== *)
theory Spec2Isabelle
  imports Db_Guarantees Pg_Safety Audit_Safety Canonical_Record Wal_Service
    Shell_Derive Http_Safety Path_Safety Signal_Safety Taint_Safety Chain_Safety Reader_Safety
begin

text \<open>
  A verification of parts of AEP-CAW, the guard that runs an agent's commands, connections and database
  statements under a policy and records what happened (Go sources under \<open>src/AEP-CAW\<close>).

  \<^bold>\<open>Parts of the program and their theories.\<close>

  \<^item> The database policy. \<open>Db_Effects\<close> holds the taxonomy of \<open>internal/db/effects\<close>: groups, subtypes,
    aliases, resolution tags, the canonical order of effects. \<open>Db_Policy\<close> and \<open>Db_Compile\<close> hold the rules
    and their compilation, \<open>Db_Evaluate\<close> the evaluation of a classified statement and of a connection
    (\<open>internal/db/policy\<close>). \<open>Db_Verdict\<close> gives a declarative verdict of a statement under a policy and shows
    that the evaluator computes it; \<open>Db_Guarantees\<close> derives what a policy author relies on: fail-closed
    denial, monotony in deny rules, independence of rule order, attribution, timeouts, redirects.

  \<^item> The Postgres proxy. \<open>Pg_Machine\<close> is the state machine of
    \<open>internal/db/proxy/postgres/statemachine\<close>, one definition per frame handler, over an abstract cache view;
    \<open>Prepared_Cache\<close> is the cache behind it with its LRU eviction. \<open>Pg_Safety\<close> shows over whole message
    sequences that only statements the policy allowed are executed, that denial suppresses the rest of
    a batch, and where the answers to the client do not fit the protocol.

  \<^item> The audit log. \<open>Audit_Chain\<close> is the sequence allocator, the sink chain with its compute and
    commit protocol and the composer of \<open>internal/audit\<close>; \<open>Audit_Safety\<close> shows that committed entries form
    one hash chain whatever the order of calls, that two logs with one head are equal or show a
    collision among their own messages, and what saved state restores. \<open>Canonical_Record\<close> is the canonical
    JSON of \<open>internal/store/watchtower/chain\<close> and shows that it determines its record.
    \<open>Go_Crypto\<close> has concrete SHA-256, SHA-512 and HMAC.

  \<^item> The write-ahead log (\<open>internal/store/watchtower/wal\<close>). \<open>Wal_Framing\<close> is the file format with a
    concrete CRC-32C, \<open>Wal_Segment\<close> a segment over a file system with a schedule that decides for each system
    call whether it fails, \<open>Wal_Log\<close> the log: opening, recovery, appending, overflow, acknowledging,
    closing. \<open>Wal_Live\<close> describes the live segment as a stream of bytes, \<open>Wal_Crash\<close> shows that a crash during
    an append is atomic, \<open>Wal_Collect\<close> what acknowledging may remove, \<open>Wal_Append\<close> and \<open>Wal_Reclaim\<close>
    how segments are opened, rolled and dropped and that dropped data leaves a loss marker, \<open>Wal_Service\<close>
    what an append guarantees in any history. \<open>Wal_Reader\<close> is the reader that follows the log while it is
    written, sealed and collected (\<open>reader.go\<close>); \<open>Reader_View\<close> says what the log does to its directory and where
    a reader stands in it, \<open>Reader_Turn\<close> that a turn of its loop keeps its place, \<open>Reader_Safety\<close> that it
    returns the records in order, leaves none out when it reports the end, and gets there on a log at rest.
    There the steps of the log fall between turns of the loop and files hold what was written to them.

  \<^item> The core policy engine (\<open>internal/policy\<close>). \<open>Policy_Model\<close> holds the rules, decisions and compiled
    rules; \<open>Policy_Http\<close> the validation and compilation of HTTP services; \<open>Policy_Engine\<close> the construction
    of an engine (\<open>NewEngine\<close>), the expansion of variables and \<open>wrapDecision\<close>; \<open>Env_Policy\<close> the
    environment of a child process; \<open>Policy_Check\<close> every check: commands, executions, files,
    sockets, registry, environment variables, network, redirects, HTTP services. \<open>Command_Safety\<close>
    shows that the command check takes the strictest of everything it sees through nested shells, and
    where its depth limit leaves a hole. \<open>Rule_Safety\<close> treats the checks as instances of one locale of
    ordered rule lists and shows that they fail closed; \<open>Path_Safety\<close>, \<open>Http_Safety\<close> and \<open>Env_Policy\<close> show
    where redirected files end up, which rule decides a request, which host belongs to which
    service, and what the environment contains.

  \<^item> Shell scripts (\<open>internal/shellparse\<close>). \<open>Shell_Parse\<close> is the parser the command check uses to look
    into \<open>sh -c\<close>; \<open>Shell_Words\<close> gives a grammar of the scripts it understands and \<open>Shell_Derive\<close> shows that it
    accepts exactly these and that the reason given for a rejected script is its first bad byte.

  \<^item> Signals (\<open>internal/signal\<close>). \<open>Signal_Engine\<close> has the signal names, targets, the process registry, the
    evaluation of rules and the answer to an intercepted system call; \<open>Signal_Safety\<close> shows which
    signals are delivered and when the classification of a target returns.

  \<^item> Process ancestry (\<open>internal/policy/ancestry\<close>, \<open>pattern\<close>, \<open>context_eval.go\<close>). \<open>Process_Pattern\<close> has the
    patterns of process names and the registry of classes, \<open>Taint_Cache\<close> the taint that descendants of an
    agent carry and the validation of snapshots, \<open>Chain_Rules\<close> the classification and analysis of a
    chain of ancestors and the rules over it, \<open>Context_Engine\<close> the check of a command in the context of
    its ancestors. \<open>Taint_Safety\<close> shows that a taint is the trace of a descent and that a context confines the
    descendants, \<open>Chain_Safety\<close> what the analysis, the rules, the cache and the complexity limit compute.

  \<open>Caw_Prelude\<close>, \<open>Go_Strings\<close>, \<open>Go_Utf8\<close>, \<open>Go_Net\<close>, \<open>Policy_Lib\<close> and \<open>Go_Bytes\<close> hold what the parts share and what they use of Go's library:
  result binding, stable sorting, strings, UTF-8, addresses and paths, byte order, decimal and
  hexadecimal numbers.

  \<^bold>\<open>Conventions.\<close> A struct is a record whose fields carry a short prefix, an enumeration a datatype. Errors
  are values of a sum type with one constructor for each error the code distinguishes; the text of
  messages is kept only where a client sees it. \<open>int64\<close>, \<open>uint64\<close> and \<open>uint32\<close> are words of their width;
  lengths of slices and byte counts of files are unbounded integers. Strings are lists of characters, one
  per byte. Mutexes are held around whole operations, so operations are the atomic steps.
  Third-party code is a parameter: glob matching, message templates, the SQL classifier, threat feeds and
  the Tor coordinator. So are regular expressions given by a policy, the resolver, the parser of URLs,
  environment variables and the order \<open>sort.Slice\<close> gives to equal elements (record \<open>engineLib\<close>).

  \<^bold>\<open>Bounds.\<close> Loops over data are structural recursion or have a termination proof. The overflow loop of
  the log is bounded by the number of files plus one, and it is shown that a larger bound gives the
  same result. The derivation loop of the command check has the bound four of the code. The walk up
  the parent links of processes and the loop of a reader may run forever and are partial functions; the
  reader is shown to return on a log at rest. Letters are folded to
  lower or upper case for ASCII only.

  \<^bold>\<open>Not modelled.\<close> Sockets, TLS, HTTP and gRPC servers, goroutines and timers; kernel interfaces (ptrace,
  seccomp, landlock, eBPF, FUSE, cgroups); YAML, JSON and protobuf decoding by libraries; command-line and
  report output; the JavaScript, Swift, C and Rust parts of the repository. In the log the
  notification of readers is left out and the metadata file is kept in parsed form. Of the policy
  engine the loading of files and their signatures, the detection of agents by floating-point scores,
  the tables of process identities and the validation of secret providers are left out.
\<close>

end
